(* ===== verification/Prelude.thy ===== *)
theory Prelude
  imports Main "HOL-Library.Word" "HOL-Library.Signed_Division"
begin

text \<open>
  Shared vocabulary of the development: the C integer types the drivers use, the kernel's
  error numbers, byte memory with the effect of \<^verbatim>\<open>memcpy\<close>, C strings, and the generic lemmas
  on them. A signed 32-bit C integer is an \<open>int\<close> kept in range by the explicit wrap-around
  \<open>s32\<close> (the kernel is built with \<^verbatim>\<open>-fno-strict-overflow\<close>, so signed arithmetic wraps);
  registers and bit fields are words. The theorem collection \<open>wrap_simps\<close> carries the rules that
  remove a wrap-around whose argument is in range.
\<close>

unbundle bit_operations_syntax

named_theorems wrap_simps \<open>removal of wrap-around on values in range\<close>
named_theorems driver_defs \<open>unfolding rules of small driver helpers\<close>

type_synonym u8 = "8 word"
type_synonym u16 = "16 word"
type_synonym u32 = "32 word"

section \<open>Signed 32-bit integers\<close>

definition s32 :: "int \<Rightarrow> int" where
  "s32 x = (x + 2147483648) mod 4294967296 - 2147483648"

definition s32_range :: "int \<Rightarrow> bool" where
  "s32_range x \<longleftrightarrow> - 2147483648 \<le> x \<and> x < 2147483648"

lemma s32_id [wrap_simps]: "- 2147483648 \<le> x \<Longrightarrow> x < 2147483648 \<Longrightarrow> s32 x = x"
  by (simp add: s32_def)

lemma s32_range_s32 [simp]: "s32_range (s32 x)"
  by (simp add: s32_def s32_range_def)

lemma s32_of_range: "s32_range x \<Longrightarrow> s32 x = x"
  by (simp add: s32_range_def s32_id)

lemma s32_s32 [simp]: "s32 (s32 x) = s32 x"
  by (rule s32_of_range) simp

lemma s32_add_s32: "s32 (s32 a + b) = s32 (a + b)"
  by (simp add: s32_def) (simp add: mod_simps ac_simps)

lemma s32_s32_add: "s32 (b + s32 a) = s32 (b + a)"
  by (metis add.commute s32_add_s32)

lemma s32_high: "2147483648 \<le> v \<Longrightarrow> v < 4294967296 \<Longrightarrow> s32 v = v - 4294967296"
proof -
  assume v: "2147483648 \<le> v" "v < 4294967296"
  have "(v + 2147483648) mod 4294967296 = (v + 2147483648 - 4294967296) mod 4294967296" by (metis mod_add_self2 diff_add_cancel)
  also have "\<dots> = v - 2147483648" using v by simp
  finally show ?thesis by (simp add: s32_def)
qed

lemma s32_diff:
  "0 \<le> a \<Longrightarrow> a < 2147483648 \<Longrightarrow> 0 \<le> b \<Longrightarrow> b < 2147483648 \<Longrightarrow> s32 (a - b) = a - b"
  by (rule s32_id) simp_all

section \<open>Other widths\<close>

definition s64 :: "int \<Rightarrow> int" where
  "s64 x = (x + 9223372036854775808) mod 18446744073709551616 - 9223372036854775808"

definition u32w :: "int \<Rightarrow> int" where "u32w x = x mod 2 ^ 32"

definition u64w :: "int \<Rightarrow> int" where "u64w x = x mod 2 ^ 64"

lemma s64_id [wrap_simps]: "- 9223372036854775808 \<le> x \<Longrightarrow> x < 9223372036854775808 \<Longrightarrow> s64 x = x"
  by (simp add: s64_def)

lemma u32w_id [wrap_simps]: "0 \<le> x \<Longrightarrow> x < 4294967296 \<Longrightarrow> u32w x = x"
  by (simp add: u32w_def)

lemma u64w_id [wrap_simps]: "0 \<le> x \<Longrightarrow> x < 18446744073709551616 \<Longrightarrow> u64w x = x"
  by (simp add: u64w_def)

section \<open>C division and remainder\<close>

text \<open>
  C's \<^verbatim>\<open>/\<close> and \<^verbatim>\<open>%\<close> truncate towards zero, as \<open>sdiv\<close> and \<open>smod\<close> do; on operands that are
  not negative they are \<open>div\<close> and \<open>mod\<close>.
\<close>

lemma sdiv_nonneg: "0 \<le> a \<Longrightarrow> 0 \<le> b \<Longrightarrow> (a::int) sdiv b = a div b"
  by (simp add: signed_divide_int_def sgn_if)

lemma smod_nonneg: "0 \<le> a \<Longrightarrow> 0 \<le> b \<Longrightarrow> (a::int) smod b = a mod b"
  by (cases "a = 0"; cases "b = 0") (auto simp: signed_modulo_int_def sdiv_nonneg sgn_if)

lemma int_le_div_iff:
  fixes n :: int
  assumes "0 < n"
  shows "p \<le> b div n \<longleftrightarrow> p * n \<le> b"
proof
  assume "p \<le> b div n"
  then have "p * n \<le> b div n * n" using assms by simp
  also have "\<dots> \<le> b" using assms by (simp add: minus_mod_eq_div_mult [symmetric])
  finally show "p * n \<le> b" .
next
  assume "p * n \<le> b"
  from zdiv_mono1 [OF this assms] assms show "p \<le> b div n" by simp
qed

section \<open>Kernel error numbers\<close>

definition ENOENT :: int where "ENOENT = 2"
definition EIO :: int where "EIO = 5"
definition ENOMEM :: int where "ENOMEM = 12"
definition EFAULT :: int where "EFAULT = 14"
definition EEXIST :: int where "EEXIST = 17"
definition ENODEV :: int where "ENODEV = 19"
definition EINVAL :: int where "EINVAL = 22"
definition EPROBE_DEFER :: int where "EPROBE_DEFER = 517"

lemmas errno_defs = ENOENT_def EIO_def ENOMEM_def EFAULT_def EEXIST_def ENODEV_def EINVAL_def EPROBE_DEFER_def

section \<open>Lists\<close>

lemma list_eq_nthI: "length xs = length ys \<Longrightarrow> (\<And>i. i < length ys \<Longrightarrow> xs ! i = ys ! i) \<Longrightarrow> xs = ys"
  by (rule nth_equalityI) auto

section \<open>Byte memory\<close>

text \<open>
  Memory is a function from offsets to bytes; \<open>mem_read m a n\<close> are the \<open>n\<close> bytes at offset
  \<open>a\<close>, \<open>mem_write m a xs\<close> is \<open>m\<close> after a \<^verbatim>\<open>memcpy\<close> of the bytes \<open>xs\<close> to offset \<open>a\<close>.
\<close>

type_synonym memory = "int \<Rightarrow> char"

definition mem_read :: "memory \<Rightarrow> int \<Rightarrow> nat \<Rightarrow> char list" where
  "mem_read m a n = map (\<lambda>k. m (a + int k)) [0..<n]"

definition mem_write :: "memory \<Rightarrow> int \<Rightarrow> char list \<Rightarrow> memory" where
  "mem_write m a xs = (\<lambda>i. if a \<le> i \<and> i < a + int (length xs) then xs ! nat (i - a) else m i)"

lemma length_mem_read [simp]: "length (mem_read m a n) = n"
  by (simp add: mem_read_def)

lemma nth_mem_read [simp]: "k < n \<Longrightarrow> mem_read m a n ! k = m (a + int k)"
  by (simp add: mem_read_def)

lemma mem_write_outside [simp]: "i < a \<or> a + int (length xs) \<le> i \<Longrightarrow> mem_write m a xs i = m i"
  by (auto simp: mem_write_def)

lemma mem_write_inside:
  "a \<le> i \<Longrightarrow> i < a + int (length xs) \<Longrightarrow> mem_write m a xs i = xs ! nat (i - a)"
  by (simp add: mem_write_def)

lemma mem_write_Nil [simp]: "mem_write m a [] = m"
  by (rule ext) (auto simp: mem_write_def)

section \<open>Circular buffers\<close>

text \<open>
  A circular buffer of \<open>n\<close> bytes starts at address \<open>b\<close>. \<open>ring_get m b n r k\<close> are the \<open>k\<close>
  bytes from position \<open>r\<close> on, wrapping at the end. Code reads and writes such a range with
  one or two \<^verbatim>\<open>memcpy\<close> calls; \<open>ring_get_two_copies\<close> and \<open>ring_put_two_copies\<close> say what the two
  calls do.
\<close>

definition ring_get :: "memory \<Rightarrow> int \<Rightarrow> int \<Rightarrow> int \<Rightarrow> nat \<Rightarrow> char list" where
  "ring_get m b n r k = map (\<lambda>i. m (b + (r + int i) mod n)) [0..<k]"

definition ring_put :: "memory \<Rightarrow> int \<Rightarrow> int \<Rightarrow> int \<Rightarrow> char list \<Rightarrow> memory" where
  "ring_put m b n w xs =
     (if int (length xs) \<le> n - w then mem_write m (b + w) xs
      else mem_write (mem_write m (b + w) (take (nat (n - w)) xs)) b (drop (nat (n - w)) xs))"

lemma length_ring_get [simp]: "length (ring_get m b n r k) = k"
  by (simp add: ring_get_def)

lemma nth_ring_get [simp]: "i < k \<Longrightarrow> ring_get m b n r k ! i = m (b + (r + int i) mod n)"
  by (simp add: ring_get_def)

lemma ring_get_0 [simp]: "ring_get m b n r 0 = []"
  by (simp add: ring_get_def)

lemma mod_shift: "n \<le> a \<Longrightarrow> a < 2 * n \<Longrightarrow> (a::int) mod n = a - n"
  by (simp add: minus_mod_self2 [symmetric, of a n] del: minus_mod_self2)

lemma mod_shift_neg: "- n \<le> a \<Longrightarrow> a < 0 \<Longrightarrow> (a::int) mod n = a + n"
  by (simp add: mod_add_self2 [symmetric, of a n] del: mod_add_self2)

lemma mod_offset: "(b + (x - b) mod n - r) mod n = (x - r) mod (n::int)"
proof -
  have "(b + (x - b) mod n - r) mod n = ((x - b) mod n + (b - r)) mod n"
    by (rule arg_cong [where f = "\<lambda>z. z mod n"]) simp
  then show ?thesis by (simp only: mod_add_left_eq) simp
qed

lemma mod_offset_neg: "(w - (b + (x - b) mod n)) mod n = (w - x) mod (n::int)"
proof -
  have "(w - (b + (x - b) mod n)) mod n = ((w - b) - (x - b) mod n) mod n"
    by (rule arg_cong [where f = "\<lambda>z. z mod n"]) simp
  then show ?thesis by (simp only: mod_diff_right_eq) simp
qed

lemma ring_get_one_copy:
  assumes "0 \<le> r" "r + int k \<le> n"
  shows "ring_get m b n r k = mem_read m (b + r) k"
  using assms by (intro list_eq_nthI) (auto simp: add.assoc)

lemma ring_get_two_copies:
  assumes "0 \<le> r" "r \<le> n" "n \<le> r + int k" "int k \<le> n"
  shows "ring_get m b n r k = mem_read m (b + r) (nat (n - r)) @ mem_read m b (k - nat (n - r))"
proof (rule list_eq_nthI)
  fix i assume "i < length (mem_read m (b + r) (nat (n - r)) @ mem_read m b (k - nat (n - r)))"
  with assms have i: "i < k" by simp
  show "ring_get m b n r k ! i
      = (mem_read m (b + r) (nat (n - r)) @ mem_read m b (k - nat (n - r))) ! i"
  proof (cases "int i < n - r")
    case True
    with i assms show ?thesis by (auto simp: nth_append add.assoc)
  next
    case False
    with i assms have "(r + int i) mod n = r + int i - n" by (intro mod_shift) auto
    with i assms False show ?thesis
      by (auto simp: nth_append of_nat_diff nat_le_iff intro!: arg_cong [where f = m])
  qed
qed (use assms in simp)

lemma ring_put_at:
  assumes "0 \<le> w" "w < n" "int (length xs) \<le> n" "0 \<le> j" "j < n"
  shows "ring_put m b n w xs (b + j)
    = (if (j - w) mod n < int (length xs) then xs ! nat ((j - w) mod n) else m (b + j))"
proof (cases "w \<le> j")
  case True
  with assms have "(j - w) mod n = j - w" by (intro mod_pos_pos_trivial) auto
  with assms True show ?thesis by (auto simp: ring_put_def mem_write_def)
next
  case False
  with assms have "(j - w) mod n = j - w + n" by (intro mod_shift_neg) auto
  with assms False show ?thesis
    by (auto simp: ring_put_def mem_write_def intro!: arg_cong [where f = "nth xs"])
qed

lemma ring_put_outside:
  assumes "0 \<le> w" "w < n" "int (length xs) \<le> n" "i < b \<or> b + n \<le> i"
  shows "ring_put m b n w xs i = m i"
  using assms by (auto simp: ring_put_def mem_write_def)

text \<open>What was put at the write position is what a later read gets, behind what was there.\<close>

lemma ring_get_put:
  assumes n: "0 \<le> r" "r < n" and w: "w = (r + int k) mod n" and len: "int k + int (length xs) \<le> n"
  shows "ring_get (ring_put m b n w xs) b n r (k + length xs) = ring_get m b n r k @ xs"
proof (rule list_eq_nthI)
  fix i assume "i < length (ring_get m b n r k @ xs)"
  then have i: "i < k + length xs" by simp
  let ?j = "(r + int i) mod n"
  have j: "0 \<le> ?j" "?j < n" and w': "0 \<le> w" "w < n" using n w by auto
  have rel: "(?j - w) mod n = (int i - int k) mod n"
    by (simp add: w mod_simps algebra_simps)
  have at: "ring_put m b n w xs (b + ?j)
      = (if (int i - int k) mod n < int (length xs) then xs ! nat ((int i - int k) mod n)
         else m (b + ?j))"
    using ring_put_at [OF w' _ j, of xs m b] len rel by auto
  show "ring_get (ring_put m b n w xs) b n r (k + length xs) ! i = (ring_get m b n r k @ xs) ! i"
  proof (cases "i < k")
    case True
    with len have "(int i - int k) mod n = int i - int k + n" by (intro mod_shift_neg) auto
    with True i at len show ?thesis by (simp add: nth_append)
  next
    case False
    with i len have "(int i - int k) mod n = int i - int k" by (intro mod_pos_pos_trivial) auto
    with False i at show ?thesis by (auto simp: nth_append nat_diff_distrib)
  qed
qed simp

lemma ring_get_drop:
  "d \<le> k \<Longrightarrow> ring_get m b n ((r + int d) mod n) (k - d) = drop d (ring_get m b n r k)"
  by (rule list_eq_nthI) (auto simp: mod_simps algebra_simps)

lemma ring_get_take: "d \<le> k \<Longrightarrow> ring_get m b n r d = take d (ring_get m b n r k)"
  by (rule list_eq_nthI) auto

section \<open>C strings\<close>

text \<open>The C string at the start of a byte buffer ends before its first NUL.\<close>

definition c_str :: "char list \<Rightarrow> string" where
  "c_str xs = takeWhile (\<lambda>c. c \<noteq> CHR 0x00) xs"

lemma c_str_append_NUL [simp]: "CHR 0x00 \<notin> set xs \<Longrightarrow> c_str (xs @ CHR 0x00 # ys) = xs"
  by (simp add: c_str_def takeWhile_append)

lemma c_str_no_NUL: "CHR 0x00 \<notin> set (c_str xs)"
  by (auto simp: c_str_def dest: set_takeWhileD)

end
