(* ===== verification/Ringbuf.thy ===== *)
theory Ringbuf
  imports Prelude
begin

text \<open>
  The ring buffer of the DSP framework: \<^verbatim>\<open>dspframework/include/ringbuf.h\<close> and
  \<^verbatim>\<open>dspframework/src/ringbuf.c\<close>, in the default configuration
  \<^verbatim>\<open>CFG_RINGBUF_USE_PTR == 0\<close>, where \<^verbatim>\<open>base\<close>, \<^verbatim>\<open>limit\<close>, \<^verbatim>\<open>wp\<close> and \<^verbatim>\<open>rp\<close> are
  32-bit offsets from the address of the struct. The record keeps that address (\<open>rb_self\<close>)
  and the memory the buffer lies in. A NULL struct pointer is \<open>None\<close>; an operation that would
  fault (a \<^verbatim>\<open>memcpy\<close> of a negative length or past the end of the caller's data, a remainder
  by zero) has the result \<open>None\<close>, any other \<open>Some\<close> of the return value and the new struct.
  The lemmas show the buffer a FIFO of bytes: \<open>rb_contents\<close> is the abstraction, \<open>rb_inv\<close> the
  invariant.
\<close>

section \<open>The struct and its macros\<close>

record adfRingbuf =
  rb_self :: int
  rb_base :: int
  rb_limit :: int
  rb_wp :: int
  rb_rp :: int
  rb_drop :: int
  rb_dropunit :: int
  rb_argc :: int  \<comment> \<open>first word of the union: \<^verbatim>\<open>cli.argc\<close>, \<^verbatim>\<open>log.bootReason\<close>\<close>
  rb_rc :: int    \<comment> \<open>second word of the union: \<^verbatim>\<open>cli.rc\<close>, \<^verbatim>\<open>log.rsvd\<close>\<close>
  rb_mem :: memory

definition ADF_STATUS_OK :: int where "ADF_STATUS_OK = 0"
definition ADF_STATUS_GENERAL_ERROR :: int where "ADF_STATUS_GENERAL_ERROR = - 1"
definition ADF_STATUS_NOT_SUPPORTED :: int where "ADF_STATUS_NOT_SUPPORTED = - 6"

definition ADF_RINGBUF_MOVE_PTR :: "int \<Rightarrow> int \<Rightarrow> int \<Rightarrow> int \<Rightarrow> int" where
  "ADF_RINGBUF_MOVE_PTR ptr offset base limit =
     (if s32 (limit - ptr) > offset then s32 (ptr + offset)
      else s32 (ptr + offset - (limit - base)))"

definition ADF_RINGBUF_IN_RANGE :: "int \<Rightarrow> int \<Rightarrow> int \<Rightarrow> bool" where
  "ADF_RINGBUF_IN_RANGE ptr base limit \<longleftrightarrow> ptr \<ge> base \<and> ptr < limit"

definition ADF_RINGBUF_CALC_RW_SIZE :: "int \<Rightarrow> int \<Rightarrow> int \<Rightarrow> int \<Rightarrow> int" where
  "ADF_RINGBUF_CALC_RW_SIZE ptrS ptrE base limit =
     (if ptrS \<le> ptrE then s32 (ptrE - ptrS) else s32 ((limit - ptrS) + (ptrE - base)))"

definition ADF_RINGBUF_CALC_WR_SIZE :: "int \<Rightarrow> int \<Rightarrow> int \<Rightarrow> int \<Rightarrow> int" where
  "ADF_RINGBUF_CALC_WR_SIZE ptrS ptrE base limit =
     (if ptrS < ptrE then s32 (ptrE - ptrS) else s32 ((limit - ptrS) + (ptrE - base)))"

section \<open>The operations\<close>

definition adfRingbuf_checkDrop :: "adfRingbuf \<Rightarrow> int \<Rightarrow> int \<times> adfRingbuf" where
  "adfRingbuf_checkDrop rb len =
     (let available = ADF_RINGBUF_CALC_WR_SIZE (rb_wp rb) (rb_rp rb) (rb_base rb) (rb_limit rb)
      in if len \<ge> available then
           if rb_dropunit rb > 0 then
             let dropLen = s32 (len - available + rb_dropunit rb - 1);
                 dropLen = s32 (dropLen - dropLen smod rb_dropunit rb)
             in (len, rb\<lparr>rb_drop := s32 (rb_drop rb + dropLen),
                         rb_rp := ADF_RINGBUF_MOVE_PTR (rb_rp rb) dropLen (rb_base rb) (rb_limit rb)\<rparr>)
           else (s32 (available - 4), rb)
         else (len, rb))"

definition adfRingbuf_checkValid :: "adfRingbuf \<Rightarrow> int \<Rightarrow> int \<Rightarrow> bool" where
  "adfRingbuf_checkValid rb buf sz =
     (if rb_self rb + rb_base rb \<noteq> buf \<or> s32 (rb_limit rb - rb_base rb) \<noteq> sz then False
      else if ADF_RINGBUF_IN_RANGE (rb_rp rb) (rb_base rb) (rb_limit rb) \<and>
              ADF_RINGBUF_IN_RANGE (rb_wp rb) (rb_base rb) (rb_limit rb) then True
      else False)"

definition adfRingbuf_getUsedSize :: "adfRingbuf option \<Rightarrow> int" where
  "adfRingbuf_getUsedSize rBuf =
     (case rBuf of None \<Rightarrow> 0
      | Some rb \<Rightarrow> ADF_RINGBUF_CALC_RW_SIZE (rb_rp rb) (rb_wp rb) (rb_base rb) (rb_limit rb))"

definition adfRingbuf_getFreeSize :: "adfRingbuf option \<Rightarrow> int" where
  "adfRingbuf_getFreeSize rBuf =
     (case rBuf of None \<Rightarrow> 0
      | Some rb \<Rightarrow> ADF_RINGBUF_CALC_WR_SIZE (rb_wp rb) (rb_rp rb) (rb_base rb) (rb_limit rb))"

text \<open>\<^verbatim>\<open>read\<close> gives its return value and the bytes it stored in the caller's buffer.\<close>

definition adfRingbuf_read :: "adfRingbuf option \<Rightarrow> bool \<Rightarrow> int \<Rightarrow> (int \<times> char list) option" where
  "adfRingbuf_read rBuf data_null len =
     (case rBuf of None \<Rightarrow> Some (0, [])
      | Some rb \<Rightarrow>
          if data_null \<or> len = 0 then Some (0, [])
          else let remain = ADF_RINGBUF_CALC_RW_SIZE (rb_rp rb) (rb_wp rb) (rb_base rb) (rb_limit rb);
                   len = (if len > remain then remain else len);
                   lenToEnd = s32 (rb_limit rb - rb_rp rb);
                   pBase = rb_self rb + rb_base rb;
                   pRp = rb_self rb + rb_rp rb
               in if lenToEnd \<ge> len then
                    if len < 0 then None else Some (len, mem_read (rb_mem rb) pRp (nat len))
                  else if lenToEnd < 0 then None
                  else Some (len, mem_read (rb_mem rb) pRp (nat lenToEnd) @
                                  mem_read (rb_mem rb) pBase (nat (len - lenToEnd))))"

definition adfRingbuf_flush :: "adfRingbuf option \<Rightarrow> int \<Rightarrow> int \<times> adfRingbuf option" where
  "adfRingbuf_flush rBuf len =
     (case rBuf of None \<Rightarrow> (0, None)
      | Some rb \<Rightarrow>
          if len = 0 then (0, Some rb)
          else let remain = ADF_RINGBUF_CALC_RW_SIZE (rb_rp rb) (rb_wp rb) (rb_base rb) (rb_limit rb);
                   len = (if len > remain then remain else len)
               in (len, Some (rb\<lparr>rb_rp := ADF_RINGBUF_MOVE_PTR (rb_rp rb) len (rb_base rb) (rb_limit rb)\<rparr>)))"

definition adfRingbuf_reserve :: "adfRingbuf option \<Rightarrow> int \<Rightarrow> (int \<times> adfRingbuf option) option" where
  "adfRingbuf_reserve rBuf len =
     (case rBuf of None \<Rightarrow> Some (0, None)
      | Some rb \<Rightarrow>
          if len = 0 then Some (0, Some rb)
          else let available = ADF_RINGBUF_CALC_WR_SIZE (rb_wp rb) (rb_rp rb) (rb_base rb) (rb_limit rb)
               in if len \<ge> available \<and> rb_dropunit rb = 0 then None
                  else let len = (if len \<ge> available
                                  then s32 (available - available smod rb_dropunit rb) else len)
                       in Some (len, Some (rb\<lparr>rb_rp := ADF_RINGBUF_MOVE_PTR (rb_rp rb)
                                 (s32 (rb_limit rb - rb_base rb - len)) (rb_base rb) (rb_limit rb)\<rparr>)))"

definition adfRingbuf_write ::
    "adfRingbuf option \<Rightarrow> char list option \<Rightarrow> int \<Rightarrow> (int \<times> adfRingbuf option) option" where
  "adfRingbuf_write rBuf data len =
     (case (rBuf, data) of
        (Some rb, Some ds) \<Rightarrow>
          if len = 0 then Some (0, Some rb)
          else let (len, rb) = adfRingbuf_checkDrop rb len;
                   lenToEnd = s32 (rb_limit rb - rb_wp rb);
                   pBase = rb_self rb + rb_base rb;
                   pWp = rb_self rb + rb_wp rb;
                   wp' = ADF_RINGBUF_MOVE_PTR (rb_wp rb) len (rb_base rb) (rb_limit rb)
               in if int (length ds) < len then None
                  else if lenToEnd \<ge> len then
                    if len < 0 then None
                    else Some (len, Some (rb\<lparr>rb_mem := mem_write (rb_mem rb) pWp (take (nat len) ds),
                                             rb_wp := wp'\<rparr>))
                  else if lenToEnd < 0 then None
                  else Some (len, Some (rb\<lparr>rb_mem :=
                              mem_write (mem_write (rb_mem rb) pWp (take (nat lenToEnd) ds)) pBase
                                (take (nat (len - lenToEnd)) (drop (nat lenToEnd) ds)),
                              rb_wp := wp'\<rparr>))
      | _ \<Rightarrow> Some (0, rBuf))"

definition adfRingbuf_add :: "adfRingbuf option \<Rightarrow> int \<Rightarrow> int \<times> adfRingbuf option" where
  "adfRingbuf_add rBuf len =
     (case rBuf of None \<Rightarrow> (0, None)
      | Some rb \<Rightarrow>
          if len = 0 then (0, Some rb)
          else let (len, rb) = adfRingbuf_checkDrop rb len
               in (len, Some (rb\<lparr>rb_wp := ADF_RINGBUF_MOVE_PTR (rb_wp rb) len (rb_base rb) (rb_limit rb)\<rparr>)))"

definition adfRingbuf_apply :: "adfRingbuf option \<Rightarrow> int \<Rightarrow> int \<times> adfRingbuf option" where
  "adfRingbuf_apply rBuf ptr =
     (case rBuf of None \<Rightarrow> (0, None)
      | Some rb \<Rightarrow>
          let new = s32 (ptr - rb_self rb)
          in if new = rb_wp rb \<or> \<not> ADF_RINGBUF_IN_RANGE new (rb_base rb) (rb_limit rb)
             then (0, Some rb)
             else let len = ADF_RINGBUF_CALC_RW_SIZE (rb_wp rb) new (rb_base rb) (rb_limit rb);
                      (len, rb) = adfRingbuf_checkDrop rb len
                  in (len, Some (rb\<lparr>rb_wp := ADF_RINGBUF_MOVE_PTR (rb_wp rb) len (rb_base rb) (rb_limit rb)\<rparr>)))"

definition adfRingbuf_reset :: "adfRingbuf option \<Rightarrow> int \<times> adfRingbuf option" where
  "adfRingbuf_reset rBuf =
     (case rBuf of None \<Rightarrow> (ADF_STATUS_NOT_SUPPORTED, None)
      | Some rb \<Rightarrow>
          if rb_base rb = 0 \<or> rb_limit rb = 0 then (ADF_STATUS_NOT_SUPPORTED, Some rb)
          else (ADF_STATUS_OK, Some (rb\<lparr>rb_rp := rb_base rb, rb_wp := rb_base rb, rb_drop := 0\<rparr>)))"

text \<open>The test \<^verbatim>\<open>(size & 0x3) != 0\<close> reads the two low bits, which is the remainder by 4.\<close>

definition adfRingbuf_init ::
    "adfRingbuf option \<Rightarrow> int \<Rightarrow> int \<Rightarrow> int \<Rightarrow> int \<times> adfRingbuf option" where
  "adfRingbuf_init rBuf buf sz dropunit =
     (case rBuf of None \<Rightarrow> (ADF_STATUS_NOT_SUPPORTED, None)
      | Some rb \<Rightarrow>
          if buf = 0 \<or> sz = 0 \<or> sz AND 3 \<noteq> 0 then (ADF_STATUS_NOT_SUPPORTED, Some rb)
          else let base = s32 (buf - rb_self rb)
               in adfRingbuf_reset (Some (rb\<lparr>rb_base := base, rb_limit := s32 (base + sz),
                                            rb_dropunit := dropunit, rb_argc := 0, rb_rc := 0\<rparr>)))"

definition adfRingbuf_deinit :: "adfRingbuf option \<Rightarrow> int" where
  "adfRingbuf_deinit rBuf = (case rBuf of None \<Rightarrow> ADF_STATUS_NOT_SUPPORTED | Some _ \<Rightarrow> ADF_STATUS_OK)"

section \<open>Invariant and abstraction\<close>

definition rb_size :: "adfRingbuf \<Rightarrow> int" where
  "rb_size rb = rb_limit rb - rb_base rb"

definition rb_inv :: "adfRingbuf \<Rightarrow> bool" where
  "rb_inv rb \<longleftrightarrow> s32_range (rb_base rb) \<and> s32_range (rb_limit rb) \<and> s32_range (rb_size rb) \<and>
     ADF_RINGBUF_IN_RANGE (rb_rp rb) (rb_base rb) (rb_limit rb) \<and>
     ADF_RINGBUF_IN_RANGE (rb_wp rb) (rb_base rb) (rb_limit rb) \<and>
     s32_range (rb_dropunit rb) \<and> 0 \<le> rb_dropunit rb"

definition rb_used :: "adfRingbuf \<Rightarrow> int" where
  "rb_used rb = (rb_wp rb - rb_rp rb) mod rb_size rb"

definition rb_contents :: "adfRingbuf \<Rightarrow> char list" where
  "rb_contents rb = ring_get (rb_mem rb) (rb_self rb + rb_base rb) (rb_size rb)
                      (rb_rp rb - rb_base rb) (nat (rb_used rb))"

lemmas rb_inv_unfold = rb_inv_def ADF_RINGBUF_IN_RANGE_def s32_range_def rb_size_def

lemma rb_invD:
  assumes "rb_inv rb"
  shows "rb_base rb \<le> rb_rp rb" "rb_rp rb < rb_limit rb" "rb_base rb \<le> rb_wp rb"
    "rb_wp rb < rb_limit rb" "0 < rb_size rb" "rb_size rb < 2147483648"
    "- 2147483648 \<le> rb_base rb" "rb_limit rb < 2147483648"
    "0 \<le> rb_dropunit rb" "rb_dropunit rb < 2147483648"
  using assms by (auto simp: rb_inv_unfold)

lemma rb_used_bounds: "rb_inv rb \<Longrightarrow> 0 \<le> rb_used rb \<and> rb_used rb < rb_size rb"
  by (simp add: rb_used_def rb_invD)

lemma length_rb_contents: "rb_inv rb \<Longrightarrow> int (length (rb_contents rb)) = rb_used rb"
  using rb_used_bounds [of rb] by (simp add: rb_contents_def)

lemma rb_used_cases:
  assumes "rb_inv rb"
  shows "rb_used rb = (if rb_rp rb \<le> rb_wp rb then rb_wp rb - rb_rp rb
                       else rb_size rb + rb_wp rb - rb_rp rb)"
proof (cases "rb_rp rb \<le> rb_wp rb")
  case True
  with rb_invD [OF assms] show ?thesis
    by (auto simp: rb_used_def rb_size_def intro!: mod_pos_pos_trivial)
next
  case False
  with rb_invD [OF assms] have "(rb_wp rb - rb_rp rb) mod rb_size rb = rb_wp rb - rb_rp rb + rb_size rb"
    by (intro mod_shift_neg) (auto simp: rb_size_def)
  with False show ?thesis by (simp add: rb_used_def)
qed

lemma calc_rw_used:
  assumes "rb_inv rb"
  shows "ADF_RINGBUF_CALC_RW_SIZE (rb_rp rb) (rb_wp rb) (rb_base rb) (rb_limit rb) = rb_used rb"
  using rb_invD [OF assms] rb_used_cases [OF assms]
  by (auto simp: ADF_RINGBUF_CALC_RW_SIZE_def rb_size_def wrap_simps)

lemma calc_wr_free:
  assumes "rb_inv rb"
  shows "ADF_RINGBUF_CALC_WR_SIZE (rb_wp rb) (rb_rp rb) (rb_base rb) (rb_limit rb)
    = rb_size rb - rb_used rb"
  using rb_invD [OF assms] rb_used_cases [OF assms]
  by (auto simp: ADF_RINGBUF_CALC_WR_SIZE_def rb_size_def wrap_simps)

lemma move_ptr_mod:
  assumes "rb_inv rb" "rb_base rb \<le> p" "p < rb_limit rb" "0 \<le> d" "d \<le> rb_size rb"
  shows "ADF_RINGBUF_MOVE_PTR p d (rb_base rb) (rb_limit rb)
    = rb_base rb + (p - rb_base rb + d) mod rb_size rb"
proof (cases "d < rb_limit rb - p")
  case True
  with assms have "(p - rb_base rb + d) mod rb_size rb = p - rb_base rb + d"
    by (intro mod_pos_pos_trivial) (auto simp: rb_size_def)
  with True assms rb_invD [OF assms(1)] show ?thesis
    by (auto simp: ADF_RINGBUF_MOVE_PTR_def rb_size_def wrap_simps)
next
  case False
  with assms have "(p - rb_base rb + d) mod rb_size rb = p - rb_base rb + d - rb_size rb"
    by (intro mod_shift) (auto simp: rb_size_def)
  with False assms rb_invD [OF assms(1)] show ?thesis
    by (auto simp: ADF_RINGBUF_MOVE_PTR_def rb_size_def wrap_simps)
qed

section \<open>Moving the pointers\<close>

definition rb_set_rp :: "adfRingbuf \<Rightarrow> int \<Rightarrow> adfRingbuf" where
  "rb_set_rp rb d = rb\<lparr>rb_rp := rb_base rb + (rb_rp rb - rb_base rb + d) mod rb_size rb\<rparr>"

definition rb_append :: "adfRingbuf \<Rightarrow> char list \<Rightarrow> adfRingbuf" where
  "rb_append rb xs = rb\<lparr>rb_mem := ring_put (rb_mem rb) (rb_self rb + rb_base rb) (rb_size rb)
                                    (rb_wp rb - rb_base rb) xs,
                        rb_wp := rb_base rb + (rb_wp rb - rb_base rb + int (length xs)) mod rb_size rb\<rparr>"

lemma rb_size_upd [simp]:
  "rb_size (rb\<lparr>rb_rp := x\<rparr>) = rb_size rb" "rb_size (rb\<lparr>rb_wp := x\<rparr>) = rb_size rb"
  "rb_size (rb\<lparr>rb_mem := m\<rparr>) = rb_size rb" "rb_size (rb\<lparr>rb_drop := x\<rparr>) = rb_size rb"
  "rb_size (rb\<lparr>rb_argc := x\<rparr>) = rb_size rb" "rb_size (rb\<lparr>rb_rc := x\<rparr>) = rb_size rb"
  by (simp_all add: rb_size_def)

lemma rb_size_set_rp [simp]: "rb_size (rb_set_rp rb d) = rb_size rb"
  by (simp add: rb_set_rp_def)

lemma rb_size_append [simp]: "rb_size (rb_append rb xs) = rb_size rb"
  by (simp add: rb_append_def)

lemma mod_in_ring: "rb_inv rb \<Longrightarrow> rb_base rb + x mod rb_size rb < rb_limit rb"
  using rb_invD(5) [of rb] pos_mod_bound [of "rb_size rb" x] unfolding rb_size_def by linarith

lemma rb_inv_set_rp: "rb_inv rb \<Longrightarrow> rb_inv (rb_set_rp rb d)"
  using mod_in_ring [of rb] rb_invD(5) [of rb]
  by (auto simp: rb_set_rp_def rb_inv_def ADF_RINGBUF_IN_RANGE_def)

lemma rb_inv_append: "rb_inv rb \<Longrightarrow> rb_inv (rb_append rb xs)"
  using mod_in_ring [of rb] rb_invD(5) [of rb]
  by (auto simp: rb_append_def rb_inv_def ADF_RINGBUF_IN_RANGE_def)

lemma used_set_rp:
  assumes "rb_inv rb" "0 \<le> d" "d \<le> rb_used rb"
  shows "rb_used (rb_set_rp rb d) = rb_used rb - d"
proof -
  have "rb_used (rb_set_rp rb d) = (rb_used rb - d) mod rb_size rb"
    using mod_offset_neg [of "rb_wp rb" "rb_base rb" "rb_rp rb + d" "rb_size rb"]
    by (simp add: rb_used_def rb_set_rp_def mod_diff_left_eq algebra_simps)
  also have "\<dots> = rb_used rb - d"
    using assms rb_used_bounds [OF assms(1)] by (intro mod_pos_pos_trivial) auto
  finally show ?thesis .
qed

lemma contents_set_rp:
  assumes "rb_inv rb" "0 \<le> d" "d \<le> rb_used rb"
  shows "rb_contents (rb_set_rp rb d) = drop (nat d) (rb_contents rb)"
proof -
  have le: "nat d \<le> nat (rb_used rb)" using assms by simp
  have "rb_contents (rb_set_rp rb d) = ring_get (rb_mem rb) (rb_self rb + rb_base rb) (rb_size rb)
      ((rb_rp rb - rb_base rb + int (nat d)) mod rb_size rb) (nat (rb_used rb) - nat d)"
    using assms by (simp add: rb_contents_def used_set_rp nat_diff_distrib)
      (simp add: rb_set_rp_def)
  also have "\<dots> = drop (nat d) (rb_contents rb)"
    unfolding ring_get_drop [OF le] by (simp add: rb_contents_def)
  finally show ?thesis .
qed

lemma used_append:
  assumes "rb_inv rb" "rb_used rb + int (length xs) < rb_size rb"
  shows "rb_used (rb_append rb xs) = rb_used rb + int (length xs)"
proof -
  have "rb_used (rb_append rb xs) = (rb_used rb + int (length xs)) mod rb_size rb"
    using mod_offset [of "rb_base rb" "rb_wp rb + int (length xs)" "rb_size rb" "rb_rp rb"]
    by (simp add: rb_used_def rb_append_def mod_add_right_eq algebra_simps)
  also have "\<dots> = rb_used rb + int (length xs)"
    using assms rb_used_bounds [OF assms(1)] by (intro mod_pos_pos_trivial) auto
  finally show ?thesis .
qed

lemma wp_as_used: "rb_inv rb \<Longrightarrow>
    rb_wp rb - rb_base rb = (rb_rp rb - rb_base rb + int (nat (rb_used rb))) mod rb_size rb"
  using rb_used_bounds [of rb] rb_invD [of rb]
  by (simp add: rb_used_def mod_simps) (simp add: rb_size_def)

lemma contents_append:
  assumes "rb_inv rb" "rb_used rb + int (length xs) < rb_size rb"
  shows "rb_contents (rb_append rb xs) = rb_contents rb @ xs"
proof -
  have u: "nat (rb_used (rb_append rb xs)) = nat (rb_used rb) + length xs"
    using rb_used_bounds [OF assms(1)] by (simp add: used_append [OF assms] nat_add_distrib)
  have "rb_contents (rb_append rb xs)
      = ring_get (ring_put (rb_mem rb) (rb_self rb + rb_base rb) (rb_size rb) (rb_wp rb - rb_base rb) xs)
          (rb_self rb + rb_base rb) (rb_size rb) (rb_rp rb - rb_base rb) (nat (rb_used rb) + length xs)"
    by (simp add: rb_contents_def u) (simp add: rb_append_def)
  also have "\<dots> = rb_contents rb @ xs"
    unfolding rb_contents_def
    using assms rb_used_bounds [OF assms(1)] rb_invD [OF assms(1)]
    by (intro ring_get_put wp_as_used) (auto simp: rb_size_def)
  finally show ?thesis .
qed

text \<open>When the data fills the free space exactly, the write pointer catches up with the read
  pointer and the full buffer cannot be told from an empty one.\<close>

lemma used_append_full:
  assumes "rb_inv rb" "rb_used rb + int (length xs) = rb_size rb"
  shows "rb_used (rb_append rb xs) = 0"
proof -
  have "rb_used (rb_append rb xs) = (rb_used rb + int (length xs)) mod rb_size rb"
    using mod_offset [of "rb_base rb" "rb_wp rb + int (length xs)" "rb_size rb" "rb_rp rb"]
    by (simp add: rb_used_def rb_append_def mod_add_right_eq algebra_simps)
  with assms(2) show ?thesis by simp
qed

section \<open>What the operations do\<close>

lemma ringbuf_write_core:
  assumes inv: "rb_inv rb" and cd: "adfRingbuf_checkDrop rb len0 = (len, rb1)"
    and inv1: "rb_inv rb1" and "len0 \<noteq> 0" "0 \<le> len" "len \<le> int (length ds)" "len \<le> rb_size rb1"
  shows "adfRingbuf_write (Some rb) (Some ds) len0 = Some (len, Some (rb_append rb1 (take (nat len) ds)))"
proof -
  let ?e = "rb_size rb1 - (rb_wp rb1 - rb_base rb1)"
  have b: "s32 (rb_limit rb1 - rb_wp rb1) = ?e" and e: "0 \<le> ?e"
    using rb_invD [OF inv1] by (auto simp: rb_size_def wrap_simps)
  have mv: "ADF_RINGBUF_MOVE_PTR (rb_wp rb1) len (rb_base rb1) (rb_limit rb1)
      = rb_base rb1 + (rb_wp rb1 - rb_base rb1 + len) mod rb_size rb1"
    using assms rb_invD [OF inv1] by (intro move_ptr_mod) auto
  have tk: "take (nat (len - ?e)) (drop (nat ?e) ds) = drop (nat ?e) (take (nat len) ds)"
    using e \<open>0 \<le> len\<close> by (simp add: drop_take nat_diff_distrib')
  have tk2: "take (nat ?e) (take (nat len) ds) = take (nat ?e) ds" if "\<not> len \<le> ?e"
    using that by (simp add: min_def)
  have l: "int (length (take (nat len) ds)) = len" using assms by simp
  have p: "rb_self rb1 + rb_base rb1 + (rb_wp rb1 - rb_base rb1) = rb_self rb1 + rb_wp rb1" by simp
  show ?thesis
  proof (cases "len \<le> ?e")
    case True
    with assms(4-6) show ?thesis
      unfolding adfRingbuf_write_def rb_append_def ring_put_def l p
      by (simp add: cd b mv Let_def)
  next
    case False
    with assms(4-6) e show ?thesis
      unfolding adfRingbuf_write_def rb_append_def ring_put_def l p
      by (simp add: cd b mv tk tk2 Let_def del: take_take)
  qed
qed

lemma checkDrop_room:
  assumes "rb_inv rb" "len < rb_size rb - rb_used rb"
  shows "adfRingbuf_checkDrop rb len = (len, rb)"
  using assms by (simp add: adfRingbuf_checkDrop_def calc_wr_free Let_def)

lemma ringbuf_write_room:
  assumes "rb_inv rb" "0 < len" "len < rb_size rb - rb_used rb" "len \<le> int (length ds)"
  shows "adfRingbuf_write (Some rb) (Some ds) len = Some (len, Some (rb_append rb (take (nat len) ds)))"
  using assms rb_used_bounds [of rb] by (intro ringbuf_write_core checkDrop_room) auto

lemma ringbuf_read_contents:
  assumes inv: "rb_inv rb" and len: "0 < len"
  shows "adfRingbuf_read (Some rb) False len
    = Some (min len (rb_used rb), take (nat len) (rb_contents rb))"
proof -
  let ?k = "nat (min len (rb_used rb))"
  have le: "?k \<le> nat (rb_used rb)" and k: "int ?k = min len (rb_used rb)"
    using len rb_used_bounds [OF inv] by auto
  have b: "s32 (rb_limit rb - rb_rp rb) = rb_size rb - (rb_rp rb - rb_base rb)"
    using rb_invD [OF inv] by (auto simp: rb_size_def wrap_simps)
  have tk: "take (nat len) (rb_contents rb)
      = ring_get (rb_mem rb) (rb_self rb + rb_base rb) (rb_size rb) (rb_rp rb - rb_base rb) ?k"
    unfolding rb_contents_def ring_get_take [OF le] by (auto simp: min_def)
  have r: "0 \<le> rb_rp rb - rb_base rb" "rb_rp rb - rb_base rb \<le> rb_size rb" "int ?k \<le> rb_size rb"
    using rb_invD [OF inv] rb_used_bounds [OF inv] k by (auto simp: rb_size_def)
  show ?thesis
  proof (cases "min len (rb_used rb) \<le> rb_size rb - (rb_rp rb - rb_base rb)")
    case True
    then have "rb_rp rb - rb_base rb + int ?k \<le> rb_size rb" using k by simp
    with True r len rb_used_bounds [OF inv] show ?thesis
      by (auto simp: adfRingbuf_read_def calc_rw_used [OF inv] b Let_def tk ring_get_one_copy min_def)
  next
    case False
    then have "rb_size rb \<le> rb_rp rb - rb_base rb + int ?k" using k by simp
    from ring_get_two_copies [OF r(1,2) this r(3)] False r len rb_used_bounds [OF inv] show ?thesis
      by (auto simp: adfRingbuf_read_def calc_rw_used [OF inv] b Let_def tk min_def nat_diff_distrib)
  qed
qed

lemma ringbuf_flush_contents:
  assumes inv: "rb_inv rb" and len: "0 \<le> len"
  shows "adfRingbuf_flush (Some rb) len
    = (min len (rb_used rb), Some (rb_set_rp rb (min len (rb_used rb))))"
proof (cases "len = 0")
  case True
  with inv rb_used_bounds [OF inv] rb_invD [OF inv] show ?thesis
    by (simp add: adfRingbuf_flush_def rb_set_rp_def rb_size_def)
next
  case False
  have "ADF_RINGBUF_MOVE_PTR (rb_rp rb) (min len (rb_used rb)) (rb_base rb) (rb_limit rb)
      = rb_base rb + (rb_rp rb - rb_base rb + min len (rb_used rb)) mod rb_size rb"
    using rb_invD [OF inv] rb_used_bounds [OF inv] len by (intro move_ptr_mod inv) auto
  with False len show ?thesis
    by (auto simp: adfRingbuf_flush_def calc_rw_used [OF inv] Let_def rb_set_rp_def min_def)
qed

text \<open>The number of bytes \<^verbatim>\<open>checkDrop\<close> gives up: the shortage rounded up to whole drop units.\<close>

definition rb_shortage :: "adfRingbuf \<Rightarrow> int \<Rightarrow> int" where
  "rb_shortage rb len = len - (rb_size rb - rb_used rb)"

definition rb_dropLen :: "adfRingbuf \<Rightarrow> int \<Rightarrow> int" where
  "rb_dropLen rb len = (rb_shortage rb len + rb_dropunit rb - 1) div rb_dropunit rb * rb_dropunit rb"

lemma rb_dropLen_bounds:
  assumes "0 < rb_dropunit rb"
  shows "rb_shortage rb len \<le> rb_dropLen rb len"
    "rb_dropLen rb len < rb_shortage rb len + rb_dropunit rb"
    "0 \<le> rb_shortage rb len \<Longrightarrow> 0 \<le> rb_dropLen rb len"
proof -
  let ?x = "rb_shortage rb len + rb_dropunit rb - 1" and ?u = "rb_dropunit rb"
  have "?x div ?u * ?u = ?x - ?x mod ?u" by (rule minus_mod_eq_div_mult [symmetric])
  moreover have "0 \<le> ?x mod ?u" "?x mod ?u < ?u" using assms by auto
  ultimately show "rb_shortage rb len \<le> rb_dropLen rb len"
    "rb_dropLen rb len < rb_shortage rb len + rb_dropunit rb" by (auto simp: rb_dropLen_def)
  show "0 \<le> rb_dropLen rb len" if "0 \<le> rb_shortage rb len"
    using that assms by (simp add: rb_dropLen_def pos_imp_zdiv_nonneg_iff)
qed

lemma rb_dropLen_exact:
  "0 < rb_dropunit rb \<Longrightarrow> rb_dropLen rb len = rb_shortage rb len \<longleftrightarrow> rb_dropunit rb dvd rb_shortage rb len"
proof
  assume "rb_dropLen rb len = rb_shortage rb len"
  then show "rb_dropunit rb dvd rb_shortage rb len"
    by (metis rb_dropLen_def dvd_triv_right)
next
  assume u: "0 < rb_dropunit rb" and "rb_dropunit rb dvd rb_shortage rb len"
  then obtain q where q: "rb_shortage rb len = rb_dropunit rb * q" by (elim dvdE)
  have "(rb_dropunit rb * q + (rb_dropunit rb - 1)) div rb_dropunit rb = q"
    using u by (simp add: div_mult_self4)
  with q show "rb_dropLen rb len = rb_shortage rb len"
    by (simp add: rb_dropLen_def algebra_simps)
qed

lemma checkDrop_drop:
  assumes inv: "rb_inv rb" and u: "0 < rb_dropunit rb" and sh: "0 \<le> rb_shortage rb len"
    and fit: "rb_shortage rb len + rb_dropunit rb \<le> 2147483648" "rb_dropLen rb len \<le> rb_size rb"
  shows "adfRingbuf_checkDrop rb len
    = (len, (rb_set_rp rb (rb_dropLen rb len))\<lparr>rb_drop := s32 (rb_drop rb + rb_dropLen rb len)\<rparr>)"
proof -
  let ?x = "rb_shortage rb len + rb_dropunit rb - 1"
  have x: "s32 (len - (rb_size rb - rb_used rb) + rb_dropunit rb - 1) = ?x"
    using u sh fit(1) by (simp add: rb_shortage_def wrap_simps)
  have d: "s32 (?x - ?x smod rb_dropunit rb) = rb_dropLen rb len"
    using u sh fit(2) rb_invD(6) [OF inv] rb_dropLen_bounds(3) [OF u sh]
    by (simp add: smod_nonneg minus_mod_eq_div_mult rb_dropLen_def wrap_simps)
  have m: "ADF_RINGBUF_MOVE_PTR (rb_rp rb) (rb_dropLen rb len) (rb_base rb) (rb_limit rb)
      = rb_base rb + (rb_rp rb - rb_base rb + rb_dropLen rb len) mod rb_size rb"
    using rb_invD [OF inv] fit(2) rb_dropLen_bounds(3) [OF u sh] by (intro move_ptr_mod inv) auto
  show ?thesis
    using sh u by (simp add: adfRingbuf_checkDrop_def calc_wr_free [OF inv] x d m Let_def
        rb_set_rp_def) (simp add: rb_shortage_def)
qed

lemma rb_inv_drop_upd [simp]: "rb_inv (rb\<lparr>rb_drop := x\<rparr>) = rb_inv rb"
  by (simp add: rb_inv_def)

lemma rb_append_drop_upd: "rb_append (rb\<lparr>rb_drop := x\<rparr>) xs = (rb_append rb xs)\<lparr>rb_drop := x\<rparr>"
  by (simp add: rb_append_def)

lemma rb_used_drop_upd [simp]: "rb_used (rb\<lparr>rb_drop := x\<rparr>) = rb_used rb"
  by (simp add: rb_used_def)

lemma rb_contents_drop_upd [simp]: "rb_contents (rb\<lparr>rb_drop := x\<rparr>) = rb_contents rb"
  by (simp add: rb_contents_def)

text \<open>A write into a full buffer that gives up whole drop units from the front.\<close>

lemma ringbuf_write_drop:
  assumes inv: "rb_inv rb" and u: "0 < rb_dropunit rb" and sh: "0 \<le> rb_shortage rb len"
    and len: "0 < len" "len \<le> int (length ds)"
    and fit: "rb_shortage rb len + rb_dropunit rb \<le> 2147483648" "rb_dropLen rb len \<le> rb_used rb"
  shows "adfRingbuf_write (Some rb) (Some ds) len
    = Some (len, Some ((rb_append (rb_set_rp rb (rb_dropLen rb len)) (take (nat len) ds))
                         \<lparr>rb_drop := s32 (rb_drop rb + rb_dropLen rb len)\<rparr>))"
proof -
  have b: "rb_dropLen rb len \<le> rb_size rb" "len \<le> rb_size rb"
    using fit(2) rb_used_bounds [OF inv] rb_dropLen_bounds(1) [OF u, of len]
    by (auto simp: rb_shortage_def)
  show ?thesis
    using ringbuf_write_core [OF inv checkDrop_drop [OF inv u sh fit(1) b(1)] _ _ _ len(2)]
      len b rb_inv_set_rp [OF inv] by (simp add: rb_append_drop_upd)
qed

text \<open>Without a drop unit a write is cut so that four bytes stay free.\<close>

lemma ringbuf_write_cut:
  assumes inv: "rb_inv rb" and u: "rb_dropunit rb = 0" and sh: "0 \<le> rb_shortage rb len"
    and free: "4 \<le> rb_size rb - rb_used rb" and ds: "len \<le> int (length ds)"
  shows "adfRingbuf_write (Some rb) (Some ds) len
    = Some (rb_size rb - rb_used rb - 4,
            Some (rb_append rb (take (nat (rb_size rb - rb_used rb - 4)) ds)))"
proof -
  have "adfRingbuf_checkDrop rb len = (rb_size rb - rb_used rb - 4, rb)"
    using u sh free rb_invD [OF inv] rb_used_bounds [OF inv]
    by (auto simp: adfRingbuf_checkDrop_def calc_wr_free [OF inv] Let_def rb_shortage_def wrap_simps)
  then show ?thesis
    using assms rb_used_bounds [OF inv] by (intro ringbuf_write_core) (auto simp: rb_shortage_def)
qed

lemma ringbuf_write_cut_faults:
  assumes inv: "rb_inv rb" and u: "rb_dropunit rb = 0" and sh: "0 \<le> rb_shortage rb len"
    and free: "rb_size rb - rb_used rb < 4"
  shows "adfRingbuf_write (Some rb) (Some ds) len = None"
proof -
  have "adfRingbuf_checkDrop rb len = (rb_size rb - rb_used rb - 4, rb)"
    using u sh free rb_invD [OF inv] rb_used_bounds [OF inv]
    by (auto simp: adfRingbuf_checkDrop_def calc_wr_free [OF inv] Let_def rb_shortage_def wrap_simps)
  moreover have "len \<noteq> 0" using sh free rb_used_bounds [OF inv] by (auto simp: rb_shortage_def)
  moreover have "rb_size rb - rb_used rb - 4 \<le> s32 (rb_limit rb - rb_wp rb)"
    using free rb_invD [OF inv] by (auto simp: rb_size_def wrap_simps)
  ultimately show ?thesis using free by (simp add: adfRingbuf_write_def Let_def)
qed

lemma ringbuf_reserve_room:
  assumes inv: "rb_inv rb" and len: "0 < len" "len < rb_size rb - rb_used rb"
  shows "adfRingbuf_reserve (Some rb) len = Some (len, Some (rb_set_rp rb (rb_size rb - len)))"
proof -
  have sz: "s32 (rb_size rb - len) = rb_size rb - len" and le: "0 \<le> rb_size rb - len"
    using len rb_invD [OF inv] rb_used_bounds [OF inv] by (auto simp: wrap_simps)
  have "ADF_RINGBUF_MOVE_PTR (rb_rp rb) (rb_size rb - len) (rb_base rb) (rb_limit rb)
      = rb_base rb + (rb_rp rb - rb_base rb + (rb_size rb - len)) mod rb_size rb"
    using len le rb_invD [OF inv] by (intro move_ptr_mod inv) auto
  with len sz show ?thesis
    by (simp add: adfRingbuf_reserve_def calc_wr_free [OF inv] Let_def rb_set_rp_def
        rb_size_def [symmetric])
qed

lemma rb_set_rp_back:
  assumes "rb_inv rb"
  shows "rb_set_rp (rb_set_rp rb d) (rb_size rb - d) = rb"
proof -
  let ?r = "rb_rp rb - rb_base rb"
  have "((?r + d) mod rb_size rb + (rb_size rb - d)) mod rb_size rb = (?r + rb_size rb) mod rb_size rb"
    by (simp only: mod_add_left_eq) (simp add: algebra_simps)
  also have "\<dots> = ?r mod rb_size rb" by simp
  also have "\<dots> = ?r" using rb_invD [OF assms] by (intro mod_pos_pos_trivial) (auto simp: rb_size_def)
  finally show ?thesis by (simp add: rb_set_rp_def)
qed

lemma and_3_mod_4: "x AND 3 = x mod (4::int)"
  using take_bit_eq_mask [of 2 x] by (simp add: take_bit_eq_mod mask_eq_exp_minus_1)

lemma ringbuf_init_ok:
  assumes "buf \<noteq> 0" "0 < sz" "sz < 2147483648" "sz mod 4 = 0" "buf \<noteq> rb_self rb"
    "buf + sz \<noteq> rb_self rb" "s32_range (buf - rb_self rb)" "s32_range (buf + sz - rb_self rb)"
    "0 \<le> du" "du < 2147483648"
  shows "\<exists>rb'. adfRingbuf_init (Some rb) buf sz du = (ADF_STATUS_OK, Some rb') \<and> rb_inv rb' \<and>
    rb_contents rb' = [] \<and> rb_size rb' = sz \<and> rb_dropunit rb' = du \<and>
    adfRingbuf_checkValid rb' buf sz"
proof -
  have b: "s32 (buf - rb_self rb) = buf - rb_self rb"
    and l: "s32 (buf + sz - rb_self rb) = buf + sz - rb_self rb" and sz: "s32 sz = sz"
    using assms by (auto simp: s32_of_range wrap_simps)
  have l': "s32 (buf - rb_self rb + sz) = buf + sz - rb_self rb"
    using l by (simp add: algebra_simps)
  show ?thesis
    using assms by (auto simp: adfRingbuf_init_def adfRingbuf_reset_def and_3_mod_4 b l' sz Let_def
        rb_inv_def rb_size_def ADF_RINGBUF_IN_RANGE_def rb_contents_def rb_used_def s32_range_def
        adfRingbuf_checkValid_def)
qed

section \<open>The FIFO interface\<close>

text \<open>
  What the clients of the buffer (the command channel and the log reader) rely on: while there is
  room, a put appends, a get reads the oldest bytes, a discard removes them, and none of them
  fails or breaks the invariant.
\<close>

fun put_all :: "('s \<Rightarrow> 'a list \<Rightarrow> 's option) \<Rightarrow> 's \<Rightarrow> 'a list list \<Rightarrow> 's option" where
  "put_all put s [] = Some s"
| "put_all put s (x # xs) = (case put s x of None \<Rightarrow> None | Some s' \<Rightarrow> put_all put s' xs)"

locale byte_fifo =
  fixes invar :: "'s \<Rightarrow> bool"
    and contents :: "'s \<Rightarrow> 'a list"
    and room :: "'s \<Rightarrow> nat"
    and put :: "'s \<Rightarrow> 'a list \<Rightarrow> 's option"
    and get :: "'s \<Rightarrow> nat \<Rightarrow> 'a list option"
    and discard :: "'s \<Rightarrow> nat \<Rightarrow> 's"
  assumes put_law: "invar s \<Longrightarrow> xs \<noteq> [] \<Longrightarrow> length xs < room s \<Longrightarrow>
      \<exists>s'. put s xs = Some s' \<and> invar s' \<and> contents s' = contents s @ xs \<and> room s' = room s - length xs"
    and get_law: "invar s \<Longrightarrow> 0 < n \<Longrightarrow> get s n = Some (take n (contents s))"
    and discard_law: "invar s \<Longrightarrow> invar (discard s n) \<and> contents (discard s n) = drop n (contents s)"
begin

lemma put_all_appends:
  "invar s \<Longrightarrow> [] \<notin> set xss \<Longrightarrow> length (concat xss) < room s \<Longrightarrow>
    \<exists>s'. put_all put s xss = Some s' \<and> invar s' \<and> contents s' = contents s @ concat xss"
proof (induction xss arbitrary: s)
  case Nil
  then show ?case by simp
next
  case (Cons x xss)
  then obtain s1 where s1: "put s x = Some s1" "invar s1" "contents s1 = contents s @ x"
      "room s1 = room s - length x"
    using put_law [of s x] by auto
  then obtain s' where "put_all put s1 xss = Some s'" "invar s'"
      "contents s' = contents s1 @ concat xss"
    using Cons.IH [OF s1(2)] Cons.prems by (fastforce simp: less_diff_conv)
  with s1 show ?case by simp
qed

lemma put_get_discard:
  assumes "invar s" "contents s = []" "[] \<notin> set xss" "0 < length (concat xss)"
    "length (concat xss) < room s"
  shows "\<exists>s'. put_all put s xss = Some s' \<and> get s' (length (concat xss)) = Some (concat xss) \<and>
    contents (discard s' (length (concat xss))) = []"
proof -
  obtain s' where s': "put_all put s xss = Some s'" "invar s'" "contents s' = concat xss"
    using put_all_appends [of s xss] assms by auto
  with assms show ?thesis
    using get_law [of s' "length (concat xss)"] discard_law [of s' "length (concat xss)"] by auto
qed

end

definition rb_put :: "adfRingbuf \<Rightarrow> char list \<Rightarrow> adfRingbuf option" where
  "rb_put rb xs = (case adfRingbuf_write (Some rb) (Some xs) (int (length xs)) of
     Some (_, Some rb') \<Rightarrow> Some rb' | _ \<Rightarrow> None)"

definition rb_get :: "adfRingbuf \<Rightarrow> nat \<Rightarrow> char list option" where
  "rb_get rb n = map_option snd (adfRingbuf_read (Some rb) False (int n))"

definition rb_discard :: "adfRingbuf \<Rightarrow> nat \<Rightarrow> adfRingbuf" where
  "rb_discard rb n = (case snd (adfRingbuf_flush (Some rb) (int n)) of Some rb' \<Rightarrow> rb' | None \<Rightarrow> rb)"

definition rb_room :: "adfRingbuf \<Rightarrow> nat" where
  "rb_room rb = nat (rb_size rb - rb_used rb)"

lemma rb_put_room:
  assumes "rb_inv rb" "xs \<noteq> []" "length xs < rb_room rb"
  shows "rb_put rb xs = Some (rb_append rb xs)" "rb_used rb + int (length xs) < rb_size rb"
  using assms ringbuf_write_room [of rb "int (length xs)" xs] by (auto simp: rb_put_def rb_room_def)

lemma rb_discard_eq:
  assumes "rb_inv rb"
  shows "rb_discard rb n = rb_set_rp rb (min (int n) (rb_used rb))"
  using ringbuf_flush_contents [OF assms, of "int n"] by (simp add: rb_discard_def)

interpretation rbq: byte_fifo rb_inv rb_contents rb_room rb_put rb_get rb_discard
proof (unfold_locales, goal_cases)
  case (1 s xs)
  note p = rb_put_room [OF this]
  from 1 p(2) show ?case
    by (simp add: p(1) rb_inv_append contents_append used_append rb_room_def nat_diff_distrib)
next
  case (2 s n)
  then show ?case by (simp add: rb_get_def ringbuf_read_contents)
next
  case (3 s n)
  have "drop (nat (min (int n) (rb_used s))) (rb_contents s) = drop n (rb_contents s)"
    using length_rb_contents [OF 3] by (auto simp: min_def)
  with 3 rb_used_bounds [OF 3] show ?case
    by (simp add: rb_discard_eq rb_inv_set_rp contents_set_rp)
qed

section \<open>Properties\<close>

definition rb_example :: "int \<Rightarrow> int \<Rightarrow> adfRingbuf" where
  "rb_example wp dropunit = \<lparr>rb_self = 4096, rb_base = 32, rb_limit = 48, rb_wp = wp, rb_rp = 36,
     rb_drop = 0, rb_dropunit = dropunit, rb_argc = 0, rb_rc = 0, rb_mem = (\<lambda>i. CHR ''a'')\<rparr>"

lemma rb_example_facts:
  "rb_inv (rb_example 44 4)" "rb_inv (rb_example 44 0)" "rb_inv (rb_example 34 0)"
  "rb_inv (rb_example 36 0)"
  "rb_size (rb_example w u) = 16" "rb_dropunit (rb_example w u) = u"
  "rb_used (rb_example 44 u) = 8" "rb_used (rb_example 34 u) = 14" "rb_used (rb_example 36 u) = 0"
  by (simp_all add: rb_example_def rb_inv_unfold rb_used_def)

text \<open>C13: a write that fits refines appending to a list: it returns the full length, faults
  never, keeps the invariant, and the bytes held become the old bytes followed by the data;
  nothing is counted as dropped.\<close>

theorem ringbuf_write_refines_append:
  assumes "rb_inv rb" "0 < len" "len < adfRingbuf_getFreeSize (Some rb)" "len \<le> int (length ds)"
  shows "\<exists>rb'. adfRingbuf_write (Some rb) (Some ds) len = Some (len, Some rb') \<and> rb_inv rb' \<and>
    rb_contents rb' = rb_contents rb @ take (nat len) ds \<and>
    adfRingbuf_getUsedSize (Some rb') = adfRingbuf_getUsedSize (Some rb) + len \<and> rb_drop rb' = rb_drop rb"
proof -
  have f: "len < rb_size rb - rb_used rb"
    using assms by (simp add: adfRingbuf_getFreeSize_def calc_wr_free)
  have l: "int (length (take (nat len) ds)) = len" using assms by simp
  show ?thesis
    using assms ringbuf_write_room [OF assms(1,2) f assms(4)] f l
      contents_append [of rb "take (nat len) ds"] used_append [of rb "take (nat len) ds"]
    by (auto simp: adfRingbuf_getUsedSize_def calc_rw_used rb_inv_append)
      (simp add: rb_append_def)
qed

theorem ringbuf_write_refines_append_witness:
  "\<exists>rb'. adfRingbuf_write (Some (rb_example 44 4)) (Some ''wxyz'') 4 = Some (4, Some rb') \<and> rb_inv rb' \<and>
    rb_contents rb' = rb_contents (rb_example 44 4) @ take (nat 4) ''wxyz'' \<and>
    adfRingbuf_getUsedSize (Some rb') = adfRingbuf_getUsedSize (Some (rb_example 44 4)) + 4 \<and>
    rb_drop rb' = rb_drop (rb_example 44 4)"
  by (rule ringbuf_write_refines_append)
    (simp_all add: rb_example_facts adfRingbuf_getFreeSize_def calc_wr_free)

text \<open>C22: any sequence of non-empty writes into an empty buffer that fits with at least one byte
  to spare can be read back as one stream with a single read, and a flush of that many bytes empties the buffer.\<close>

theorem ringbuf_stream_roundtrip:
  assumes "rb_inv rb" "rb_contents rb = []" "[] \<notin> set xss" "0 < length (concat xss)"
    "length (concat xss) < rb_room rb"
  shows "\<exists>rb'. put_all rb_put rb xss = Some rb' \<and>
    adfRingbuf_read (Some rb') False (int (length (concat xss)))
      = Some (int (length (concat xss)), concat xss) \<and>
    rb_contents (rb_discard rb' (length (concat xss))) = []"
proof -
  obtain rb' where rb': "put_all rb_put rb xss = Some rb'" "rb_inv rb'" "rb_contents rb' = concat xss"
    using rbq.put_all_appends [of rb xss] assms by auto
  have "rb_contents (rb_discard rb' (length (concat xss))) = []"
    using rbq.discard_law [OF rb'(2)] rb'(3) by simp
  with rb' show ?thesis
    using ringbuf_read_contents [OF rb'(2), of "int (length (concat xss))"]
      length_rb_contents [OF rb'(2)] assms(4) by auto
qed

theorem ringbuf_stream_roundtrip_witness:
  "\<exists>rb'. put_all rb_put (rb_example 36 0) [''ab'', ''c''] = Some rb' \<and>
    adfRingbuf_read (Some rb') False (int (length (concat [''ab'', ''c''])))
      = Some (int (length (concat [''ab'', ''c''])), concat [''ab'', ''c'']) \<and>
    rb_contents (rb_discard rb' (length (concat [''ab'', ''c'']))) = []"
  by (rule ringbuf_stream_roundtrip)
    (simp_all add: rb_example_facts rb_contents_def rb_room_def)



text \<open>When the shortage is a multiple of the drop unit (in particular when the data fills the
  free space exactly) the write pointer is left on the read pointer, so the buffer that was just
  filled reports no data: everything, the new data included, is lost to readers.\<close>

theorem ringbuf_exact_fill_loses_all:
  assumes "rb_inv rb" "0 < rb_dropunit rb" "0 \<le> rb_shortage rb len" "rb_dropunit rb dvd rb_shortage rb len"
    "0 < len" "len \<le> int (length ds)" "rb_shortage rb len + rb_dropunit rb \<le> 2147483648"
    "rb_dropLen rb len \<le> rb_used rb"
  shows "\<exists>rb'. adfRingbuf_write (Some rb) (Some ds) len = Some (len, Some rb') \<and>
    adfRingbuf_getUsedSize (Some rb') = 0 \<and> rb_contents rb' = []"
proof -
  note b = rb_dropLen_bounds [OF assms(2), of len]
  have eq: "rb_dropLen rb len = rb_shortage rb len"
    using rb_dropLen_exact [OF assms(2)] assms(4) by simp
  let ?rb1 = "rb_set_rp rb (rb_dropLen rb len)" and ?ds = "take (nat len) ds"
  have inv1: "rb_inv ?rb1" by (rule rb_inv_set_rp [OF assms(1)])
  have "rb_used ?rb1 + int (length ?ds) = rb_size ?rb1"
    using used_set_rp [OF assms(1) b(3) assms(8)] eq assms by (simp add: rb_shortage_def)
  from used_append_full [OF inv1 this] have z: "rb_used (rb_append ?rb1 ?ds) = 0" .
  then have "rb_contents (rb_append ?rb1 ?ds) = []" by (simp add: rb_contents_def)
  with z show ?thesis
    using ringbuf_write_drop [OF assms(1-3,5-8)] rb_inv_append [OF inv1, of ?ds]
    by (simp add: adfRingbuf_getUsedSize_def calc_rw_used)
qed

theorem ringbuf_exact_fill_loses_all_witness:
  "\<exists>rb'. adfRingbuf_write (Some (rb_example 44 4)) (Some ''01234567'') 8 = Some (8, Some rb') \<and>
    adfRingbuf_getUsedSize (Some rb') = 0 \<and> rb_contents rb' = []"
  by (rule ringbuf_exact_fill_loses_all)
    (simp_all add: rb_example_facts rb_shortage_def rb_dropLen_def)

text \<open>Without a drop unit a write that does not fit is cut to leave four bytes free and
  appends that prefix; but when fewer than four bytes are free the computed length is negative and
  the copy faults.\<close>

theorem ringbuf_write_without_dropunit:
  assumes "rb_inv rb" "rb_dropunit rb = 0" "adfRingbuf_getFreeSize (Some rb) \<le> len" "len \<le> int (length ds)"
  shows "if adfRingbuf_getFreeSize (Some rb) < 4 then adfRingbuf_write (Some rb) (Some ds) len = None
    else \<exists>rb'. adfRingbuf_write (Some rb) (Some ds) len
           = Some (adfRingbuf_getFreeSize (Some rb) - 4, Some rb') \<and> rb_inv rb' \<and>
         rb_contents rb' = rb_contents rb @ take (nat (adfRingbuf_getFreeSize (Some rb) - 4)) ds \<and>
         adfRingbuf_getFreeSize (Some rb') = 4"
proof -
  let ?f = "rb_size rb - rb_used rb"
  have f: "adfRingbuf_getFreeSize (Some rb) = ?f"
    using assms by (simp add: adfRingbuf_getFreeSize_def calc_wr_free)
  have sh: "0 \<le> rb_shortage rb len" using assms f by (simp add: rb_shortage_def)
  show ?thesis
  proof (cases "?f < 4")
    case True
    with f assms sh show ?thesis by (simp add: ringbuf_write_cut_faults)
  next
    case False
    let ?ds = "take (nat (?f - 4)) ds"
    have l: "int (length ?ds) = ?f - 4" using False assms f by simp
    with assms False f sh show ?thesis
      using contents_append [of rb ?ds] used_append [of rb ?ds] ringbuf_write_cut [of rb len ds]
      by (auto simp: adfRingbuf_getFreeSize_def calc_wr_free rb_inv_append)
  qed
qed

theorem ringbuf_write_without_dropunit_witness:
  "adfRingbuf_write (Some (rb_example 34 0)) (Some ''0123'') 3 = None \<and>
   (\<exists>rb'. adfRingbuf_write (Some (rb_example 44 0)) (Some ''0123456789'') 10 = Some (4, Some rb') \<and>
      rb_inv rb' \<and> rb_contents rb' = rb_contents (rb_example 44 0) @ take (nat 4) ''0123456789'')"
proof -
  have f: "adfRingbuf_getFreeSize (Some (rb_example 34 0)) = 2"
    "adfRingbuf_getFreeSize (Some (rb_example 44 0)) = 8"
    by (simp_all add: adfRingbuf_getFreeSize_def calc_wr_free rb_example_facts)
  show ?thesis
    using ringbuf_write_without_dropunit [of "rb_example 34 0" 3 "''0123''"]
      ringbuf_write_without_dropunit [of "rb_example 44 0" 10 "''0123456789''"] f rb_example_facts
    by auto
qed

text \<open>\<^verbatim>\<open>reserve\<close> is the opposite of \<^verbatim>\<open>flush\<close>: reserving the bytes just flushed restores the
  struct exactly.\<close>

theorem ringbuf_reserve_undoes_flush:
  assumes "rb_inv rb" "0 < len" "len \<le> adfRingbuf_getUsedSize (Some rb)"
  shows "\<exists>rb'. adfRingbuf_flush (Some rb) len = (len, Some rb') \<and> rb_inv rb' \<and>
    rb_contents rb' = drop (nat len) (rb_contents rb) \<and>
    adfRingbuf_reserve (Some rb') len = Some (len, Some rb)"
proof -
  have le: "len \<le> rb_used rb" using assms by (simp add: adfRingbuf_getUsedSize_def calc_rw_used)
  have fl: "adfRingbuf_flush (Some rb) len = (len, Some (rb_set_rp rb len))"
    using ringbuf_flush_contents [OF assms(1), of len] assms le by simp
  have "adfRingbuf_reserve (Some (rb_set_rp rb len)) len = Some (len, Some rb)"
    using ringbuf_reserve_room [OF rb_inv_set_rp [OF assms(1)], of len len] used_set_rp [OF assms(1), of len]
      rb_set_rp_back [OF assms(1), of len] rb_used_bounds [OF assms(1)] assms le by simp
  with fl show ?thesis
    using contents_set_rp [OF assms(1) _ le] rb_inv_set_rp [OF assms(1)] assms by simp
qed

theorem ringbuf_reserve_undoes_flush_witness:
  "\<exists>rb'. adfRingbuf_flush (Some (rb_example 44 4)) 5 = (5, Some rb') \<and> rb_inv rb' \<and>
    rb_contents rb' = drop (nat 5) (rb_contents (rb_example 44 4)) \<and>
    adfRingbuf_reserve (Some rb') 5 = Some (5, Some (rb_example 44 4))"
  by (rule ringbuf_reserve_undoes_flush)
    (simp_all add: rb_example_facts adfRingbuf_getUsedSize_def calc_rw_used)

end
