(* ===== verification/Adf_Cli.thy ===== *)
theory Adf_Cli
  imports Ringbuf
begin

text \<open>
  The command channel to the DSP, \<^verbatim>\<open>dspframework/src/cli.c\<close>: \<^verbatim>\<open>adfCli_send\<close> resets the shared
  ring buffer, copies the words of the command into it, each followed by a NUL, and sets the
  argument count and the ready flag of the struct. It is a client of the FIFO interface of theory
  \<open>Ringbuf\<close>. The lock is held throughout, so the function is one step.
\<close>

definition cli_sep :: "char \<Rightarrow> bool" where
  "cli_sep c \<longleftrightarrow> c = CHR '' '' \<or> c = CHR 0x09 \<or> c = CHR 0x0D \<or> c = CHR 0x0A"

text \<open>One pass of the loop per character: \<open>i\<close> is the position, \<open>p\<close> that of \<^verbatim>\<open>paramP\<close>.\<close>

fun adfCli_loop :: "char list \<Rightarrow> char list \<Rightarrow> nat \<Rightarrow> nat \<Rightarrow> adfRingbuf \<Rightarrow> adfRingbuf option" where
  "adfCli_loop inBuf [] i p rb = Some rb"
| "adfCli_loop inBuf (c # cs) i p rb =
     (if cli_sep c then
        let paramLen = int i - int p
        in if paramLen > 0 then
             case adfRingbuf_write (Some rb) (Some (drop p inBuf)) paramLen of
               Some (_, Some rb1) \<Rightarrow>
                 (case adfRingbuf_write (Some rb1) (Some [CHR 0x00]) 1 of
                    Some (_, Some rb2) \<Rightarrow>
                      adfCli_loop inBuf cs (Suc i) (Suc i) (rb2\<lparr>rb_argc := s32 (rb_argc rb2 + 1)\<rparr>)
                  | _ \<Rightarrow> None)
             | _ \<Rightarrow> None
           else adfCli_loop inBuf cs (Suc i) p rb
      else adfCli_loop inBuf cs (Suc i) p rb)"

definition adfCli_send :: "adfRingbuf option \<Rightarrow> char list \<Rightarrow> (int \<times> adfRingbuf option) option" where
  "adfCli_send cliAddr inBuf =
     (case cliAddr of None \<Rightarrow> Some (int (length inBuf), None)
      | Some _ \<Rightarrow>
          (case snd (adfRingbuf_reset cliAddr) of None \<Rightarrow> None
           | Some rb \<Rightarrow>
               (case adfCli_loop inBuf inBuf 0 0 (rb\<lparr>rb_argc := 0, rb_rc := 0\<rparr>) of None \<Rightarrow> None
                | Some rb' \<Rightarrow>
                    Some (int (length inBuf),
                          Some (if rb_argc rb' > 0 then rb'\<lparr>rb_rc := 1\<rparr> else rb')))))"

section \<open>What is sent\<close>

text \<open>The words the loop cuts out: a word starts where the last one ended, so a separator that
  follows a separator becomes the first character of the next word, and characters after the last
  separator are not a word.\<close>

fun cli_words :: "char list \<Rightarrow> char list \<Rightarrow> char list list" where
  "cli_words acc [] = []"
| "cli_words acc (c # cs) =
     (if cli_sep c \<and> acc \<noteq> [] then acc # cli_words [] cs else cli_words (acc @ [c]) cs)"

definition cli_bytes :: "char list list \<Rightarrow> char list" where
  "cli_bytes ws = concat (map (\<lambda>w. w @ [CHR 0x00]) ws)"

lemma rb_argc_append [simp]: "rb_argc (rb_append rb xs) = rb_argc rb"
  by (simp add: rb_append_def)

lemma rb_argc_upd [simp]:
  "rb_inv (rb\<lparr>rb_argc := x\<rparr>) = rb_inv rb" "rb_used (rb\<lparr>rb_argc := x\<rparr>) = rb_used rb"
  "rb_contents (rb\<lparr>rb_argc := x\<rparr>) = rb_contents rb"
  by (simp_all add: rb_inv_def rb_used_def rb_contents_def)

lemma rb_rc_upd [simp]:
  "rb_inv (rb\<lparr>rb_rc := x\<rparr>) = rb_inv rb" "rb_used (rb\<lparr>rb_rc := x\<rparr>) = rb_used rb"
  "rb_contents (rb\<lparr>rb_rc := x\<rparr>) = rb_contents rb"
  by (simp_all add: rb_inv_def rb_used_def rb_contents_def)

lemma write_word:
  assumes "rb_inv rb" "w \<noteq> []" "rb_used rb + int (length w) < rb_size rb"
  shows "adfRingbuf_write (Some rb) (Some (w @ rest)) (int (length w)) = Some (int (length w), Some (rb_append rb w))"
  using ringbuf_write_room [of rb "int (length w)" "w @ rest"] assms by simp

lemma adfCli_loop_words:
  assumes "inBuf = pre @ acc @ cs" "rb_inv rb" "0 \<le> rb_argc rb"
    "rb_used rb + int (length (cli_bytes (cli_words acc cs))) < rb_size rb"
    "rb_argc rb + int (length (cli_words acc cs)) < 2147483648"
  shows "\<exists>rb'. adfCli_loop inBuf cs (length pre + length acc) (length pre) rb = Some rb' \<and> rb_inv rb' \<and>
    rb_contents rb' = rb_contents rb @ cli_bytes (cli_words acc cs) \<and>
    rb_argc rb' = rb_argc rb + int (length (cli_words acc cs))"
  using assms
proof (induction cs arbitrary: pre acc rb)
  case Nil
  then show ?case by (simp add: cli_bytes_def)
next
  case (Cons c cs)
  show ?case
  proof (cases "cli_sep c \<and> acc \<noteq> []")
    case False
    then have w: "cli_words acc (c # cs) = cli_words (acc @ [c]) cs" by auto
    have "adfCli_loop inBuf (c # cs) (length pre + length acc) (length pre) rb
        = adfCli_loop inBuf cs (length pre + length (acc @ [c])) (length pre) rb"
      using False by auto
    with Cons.IH [of pre "acc @ [c]" rb] Cons.prems w show ?thesis by simp
  next
    case True
    let ?rb1 = "rb_append rb acc" and ?ws = "cli_words [] cs"
    let ?rb2 = "rb_append ?rb1 [CHR 0x00]"
    have w: "cli_words acc (c # cs) = acc # ?ws" using True by simp
    have fit: "rb_used rb + int (length acc) + 1 + int (length (cli_bytes ?ws)) < rb_size rb"
      using Cons.prems(4) w by (simp add: cli_bytes_def)
    have 1: "adfRingbuf_write (Some rb) (Some (drop (length pre) inBuf)) (int (length acc))
        = Some (int (length acc), Some ?rb1)"
      using Cons.prems(1,2) True fit write_word [of rb acc "c # cs"] by simp
    have u1: "rb_inv ?rb1" "rb_used ?rb1 = rb_used rb + int (length acc)"
      "rb_contents ?rb1 = rb_contents rb @ acc"
      using Cons.prems(2) fit rb_inv_append used_append contents_append by auto
    have 2: "adfRingbuf_write (Some ?rb1) (Some [CHR 0x00]) 1 = Some (1, Some ?rb2)"
      using u1 fit write_word [of ?rb1 "[CHR 0x00]" "[]"] by simp
    have u2: "rb_inv ?rb2" "rb_used ?rb2 = rb_used rb + int (length acc) + 1"
      "rb_contents ?rb2 = rb_contents rb @ acc @ [CHR 0x00]"
      using u1 fit rb_inv_append [of ?rb1] used_append [of ?rb1 "[CHR 0x00]"]
        contents_append [of ?rb1 "[CHR 0x00]"] by auto
    have a: "s32 (rb_argc rb + 1) = rb_argc rb + 1"
      using Cons.prems(3,5) w by (simp add: wrap_simps)
    obtain rb' where rb': "adfCli_loop inBuf cs (length (pre @ acc @ [c])) (length (pre @ acc @ [c]))
          (?rb2\<lparr>rb_argc := rb_argc rb + 1\<rparr>) = Some rb'" "rb_inv rb'"
        "rb_contents rb' = rb_contents ?rb2 @ cli_bytes ?ws" "rb_argc rb' = rb_argc rb + 1 + int (length ?ws)"
      using Cons.IH [of "pre @ acc @ [c]" "[]" "?rb2\<lparr>rb_argc := rb_argc rb + 1\<rparr>"] Cons.prems u2 fit w
      by auto
    have "adfCli_loop inBuf (c # cs) (length pre + length acc) (length pre) rb = Some rb'"
      using True 1 2 a rb'(1) by simp
    with rb' u2 w show ?thesis by (simp add: cli_bytes_def)
  qed
qed

lemma cli_words_word:
  "w \<noteq> [] \<Longrightarrow> \<forall>c \<in> set w. \<not> cli_sep c \<Longrightarrow> cli_sep x \<Longrightarrow>
    cli_words acc (w @ x # rest) = (acc @ w) # cli_words [] rest"
  by (induction w arbitrary: acc) (force split: if_splits)+

lemma cli_words_line:
  "\<forall>(w, x) \<in> set l. w \<noteq> [] \<and> (\<forall>c \<in> set w. \<not> cli_sep c) \<and> cli_sep x \<Longrightarrow>
    cli_words [] (concat (map (\<lambda>(w, x). w @ [x]) l)) = map fst l"
  by (induction l) (auto simp: cli_words_word)

lemma adfCli_send_words:
  assumes "rb_inv rb" "rb_base rb \<noteq> 0" "rb_limit rb \<noteq> 0" "ws = cli_words [] inBuf"
    "int (length (cli_bytes ws)) < rb_size rb"
  shows "\<exists>rb'. adfCli_send (Some rb) inBuf = Some (int (length inBuf), Some rb') \<and> rb_inv rb' \<and>
    rb_contents rb' = cli_bytes ws \<and> rb_argc rb' = int (length ws) \<and> rb_rc rb' = (if ws = [] then 0 else 1)"
proof -
  let ?rb = "rb\<lparr>rb_rp := rb_base rb, rb_wp := rb_base rb, rb_drop := 0, rb_argc := 0, rb_rc := 0\<rparr>"
  have r: "rb_inv ?rb" "rb_used ?rb = 0" "rb_contents ?rb = []" "rb_size ?rb = rb_size rb"
    using assms(1) by (auto simp: rb_inv_unfold rb_used_def rb_contents_def)
  have "length ws \<le> length (cli_bytes ws)"
    by (simp add: cli_bytes_def length_concat comp_def sum_list_Suc)
  then have n: "int (length ws) < 2147483648" using assms(5) rb_invD(6) [OF assms(1)] by linarith
  obtain rb' where rb': "adfCli_loop inBuf inBuf 0 0 ?rb = Some rb'" "rb_inv rb'"
      "rb_contents rb' = cli_bytes ws" "rb_argc rb' = int (length ws)"
    using adfCli_loop_words [of inBuf "[]" "[]" inBuf ?rb] r n assms(4,5) by auto
  have rc: "adfCli_loop xs cs i p r = Some r' \<Longrightarrow> rb_rc r' = rb_rc r" for xs cs i p r r'
  proof (induction xs cs i p r rule: adfCli_loop.induct)
    case (2 inBuf c cs i p rb)
    have wr: "adfRingbuf_write (Some a) d l = Some (k, Some b) \<Longrightarrow> rb_rc b = rb_rc a" for a b d l k
      by (auto simp: adfRingbuf_write_def adfRingbuf_checkDrop_def Let_def
          split: option.splits if_splits prod.splits)
    from 2 show ?case by (auto simp: Let_def dest!: wr split: if_splits option.splits prod.splits)
  qed simp
  from rb' rc [OF rb'(1)] show ?thesis
    using assms(2,3) by (auto simp: adfCli_send_def adfRingbuf_reset_def)
qed

section \<open>Properties\<close>

text \<open>A command line of words, each ended by one separator, reaches the DSP as the words in
  order, each followed by a NUL, with the argument count set to their number and the ready flag
  raised exactly when there is a word; the call always reports the whole input as consumed.\<close>

theorem cli_send_delivers_words:
  assumes "rb_inv rb" "rb_base rb \<noteq> 0" "rb_limit rb \<noteq> 0"
    "\<forall>(w, x) \<in> set l. w \<noteq> [] \<and> (\<forall>c \<in> set w. \<not> cli_sep c) \<and> cli_sep x"
    "int (length (cli_bytes (map fst l))) < rb_size rb" "inBuf = concat (map (\<lambda>(w, x). w @ [x]) l)"
  shows "\<exists>rb'. adfCli_send (Some rb) inBuf = Some (int (length inBuf), Some rb') \<and> rb_inv rb' \<and>
    rb_contents rb' = cli_bytes (map fst l) \<and> rb_argc rb' = int (length l) \<and>
    rb_rc rb' = (if l = [] then 0 else 1)"
  using adfCli_send_words [OF assms(1-3), of "map fst l" inBuf] cli_words_line [OF assms(4)] assms(5,6)
  by simp

theorem cli_send_delivers_words_witness:
  "\<exists>rb'. adfCli_send (Some (rb_example 44 0)) (''ls a'' @ [CHR 0x0A]) = Some (int (length (''ls a'' @ [CHR 0x0A])), Some rb') \<and>
     rb_contents rb' = cli_bytes [''ls'', ''a''] \<and> rb_argc rb' = 2 \<and> rb_rc rb' = 1"
  using cli_send_delivers_words [of "rb_example 44 0" "[(''ls'', CHR '' ''), (''a'', CHR 0x0A)]" "''ls a'' @ [CHR 0x0A]"]
  by (auto simp: rb_example_facts cli_sep_def cli_bytes_def) (auto simp: rb_example_def)

text \<open>A second separator after a word is not skipped: it is delivered as the first character
  of the next word.\<close>

theorem cli_send_keeps_extra_separator:
  assumes "rb_inv rb" "rb_base rb \<noteq> 0" "rb_limit rb \<noteq> 0" "w \<noteq> []" "\<forall>c \<in> set w. \<not> cli_sep c"
    "v \<noteq> []" "\<forall>c \<in> set v. \<not> cli_sep c" "cli_sep x" "cli_sep y" "cli_sep z"
    "int (length (cli_bytes [w, y # v])) < rb_size rb" "inBuf = w @ x # y # v @ [z]"
  shows "\<exists>rb'. adfCli_send (Some rb) inBuf = Some (int (length inBuf), Some rb') \<and>
    rb_contents rb' = cli_bytes [w, y # v] \<and> rb_argc rb' = 2"
proof -
  have "cli_words [] inBuf = w # cli_words [] (y # v @ [z])"
    using assms(4,5,8,12) cli_words_word [of w x "[]" "y # v @ [z]"] by simp
  also have "cli_words [] (y # v @ [z]) = cli_words [y] (v @ [z])" by simp
  also have "\<dots> = [y # v]" using assms(6,7,10) cli_words_word [of v z "[y]" "[]"] by simp
  finally have "[w, y # v] = cli_words [] inBuf" by simp
  from adfCli_send_words [OF assms(1-3) this assms(11)] show ?thesis by auto
qed

theorem cli_send_keeps_extra_separator_witness:
  "\<exists>rb'. adfCli_send (Some (rb_example 44 0)) (''ls  a'' @ [CHR 0x0A])
       = Some (int (length (''ls  a'' @ [CHR 0x0A])), Some rb') \<and>
     rb_contents rb' = cli_bytes [''ls'', '' a''] \<and> rb_argc rb' = 2"
  by (rule cli_send_keeps_extra_separator [where x = "CHR '' ''" and z = "CHR 0x0A"])
    (simp_all add: rb_example_facts cli_sep_def cli_bytes_def, simp_all add: rb_example_def)

end
