(* ===== verification/Adf_State.thy ===== *)
theory Adf_State
  imports Prelude
begin

text \<open>
  The DSP state word, \<^verbatim>\<open>dspframework/src/state.c\<close>: three 32-bit words of shared memory hold the
  current state, the state before it and an option word. The functions go through three static
  pointers that every call recomputes from its address argument; they are part of the model's
  state, so that their reset on a NULL address shows. The spin lock makes each call one step.
\<close>

datatype adfState_t = ADF_STATE_DEF | ADF_STATE_INIT | ADF_STATE_RUN | ADF_STATE_LPWR | ADF_STATE_VAD | ADF_STATE_ERR

fun adfState_value :: "adfState_t \<Rightarrow> u32" where
  "adfState_value ADF_STATE_DEF = 0x00"
| "adfState_value ADF_STATE_INIT = 0x10"
| "adfState_value ADF_STATE_RUN = 0x20"
| "adfState_value ADF_STATE_LPWR = 0x40"
| "adfState_value ADF_STATE_VAD = 0x41"
| "adfState_value ADF_STATE_ERR = 0xF0"

record adf_state =
  adfState_p :: "int option"
  adfStateLast_p :: "int option"
  adfStateOpt_p :: "int option"
  sta_mem :: "int \<Rightarrow> u32"

definition adfState_addrConv :: "adf_state \<Rightarrow> int \<Rightarrow> int \<times> adf_state" where
  "adfState_addrConv s addr =
     (if addr \<noteq> 0 then (0, s\<lparr>adfState_p := Some addr, adfStateLast_p := Some (addr + 4),
                              adfStateOpt_p := Some (addr + 8)\<rparr>)
      else (- 1, s\<lparr>adfState_p := None, adfStateLast_p := None, adfStateOpt_p := None\<rparr>))"

definition adfState_getLast :: "adf_state \<Rightarrow> int \<Rightarrow> u32 \<times> adf_state" where
  "adfState_getLast s addr =
     (let (ret, s) = adfState_addrConv s addr
      in if ret \<ge> 0 then (sta_mem s (the (adfStateLast_p s)), s) else (adfState_value ADF_STATE_DEF, s))"

definition adfState_get :: "adf_state \<Rightarrow> int \<Rightarrow> u32 \<times> adf_state" where
  "adfState_get s addr =
     (let (ret, s) = adfState_addrConv s addr
      in if ret \<ge> 0 then (sta_mem s (the (adfState_p s)), s) else (adfState_value ADF_STATE_DEF, s))"

definition adfState_set :: "adf_state \<Rightarrow> int \<Rightarrow> u32 \<Rightarrow> adf_state" where
  "adfState_set s addr st =
     (let (ret, s) = adfState_addrConv s addr
      in if ret \<ge> 0 then
           let p = the (adfState_p s); pl = the (adfStateLast_p s)
           in if sta_mem s p \<noteq> st
              then s\<lparr>sta_mem := ((sta_mem s)(pl := sta_mem s p))(p := st)\<rparr> else s
         else s)"

definition adfState_getOpt :: "adf_state \<Rightarrow> int \<Rightarrow> u32 \<times> adf_state" where
  "adfState_getOpt s addr =
     (let (ret, s) = adfState_addrConv s addr
      in if ret \<ge> 0 then (sta_mem s (the (adfStateOpt_p s)), s) else (0, s))"

definition adfState_setOpt :: "adf_state \<Rightarrow> int \<Rightarrow> u32 \<Rightarrow> adf_state" where
  "adfState_setOpt s addr opt =
     (let (ret, s) = adfState_addrConv s addr
      in if ret \<ge> 0 then s\<lparr>sta_mem := (sta_mem s)(the (adfStateOpt_p s) := opt)\<rparr> else s)"

section \<open>Behaviour\<close>

lemmas adfState_defs = adfState_addrConv_def adfState_getLast_def adfState_get_def adfState_set_def
  adfState_getOpt_def adfState_setOpt_def

lemma adfState_mem:
  "addr \<noteq> 0 \<Longrightarrow> sta_mem (adfState_set s addr st) addr = st"
  "addr \<noteq> 0 \<Longrightarrow> sta_mem (adfState_set s addr st) (addr + 4)
     = (if sta_mem s addr = st then sta_mem s (addr + 4) else sta_mem s addr)"
  "x \<noteq> addr \<Longrightarrow> x \<noteq> addr + 4 \<Longrightarrow> sta_mem (adfState_set s addr st) x = sta_mem s x"
  by (auto simp: adfState_defs Let_def)

text \<open>Removing immediate repetitions from the sequence of states that were set.\<close>

fun states_seen :: "u32 \<Rightarrow> u32 \<Rightarrow> u32 list \<Rightarrow> u32 \<times> u32" where
  "states_seen cur prev [] = (cur, prev)"
| "states_seen cur prev (s # ss) = (if s = cur then states_seen cur prev ss else states_seen s cur ss)"

text \<open>After any sequence of state changes at an address, the current state is the last one set
  and the last state is the one before the most recent real change (setting the state it already
  has is no change); the option word is untouched. A NULL address reads the default state and
  writes nothing.\<close>

theorem adfState_history:
  assumes "addr \<noteq> 0"
  shows "let s' = foldl (\<lambda>s st. adfState_set s addr st) s sts;
             (cur, prev) = states_seen (sta_mem s addr) (sta_mem s (addr + 4)) sts
    in fst (adfState_get s' addr) = cur \<and> fst (adfState_getLast s' addr) = prev \<and>
       fst (adfState_getOpt s' addr) = sta_mem s (addr + 8) \<and>
       fst (adfState_get s' 0) = adfState_value ADF_STATE_DEF \<and> sta_mem (adfState_set s' 0 st) = sta_mem s'"
proof -
  have "(sta_mem (foldl (\<lambda>s st. adfState_set s addr st) s sts) addr,
         sta_mem (foldl (\<lambda>s st. adfState_set s addr st) s sts) (addr + 4))
      = states_seen (sta_mem s addr) (sta_mem s (addr + 4)) sts \<and>
      sta_mem (foldl (\<lambda>s st. adfState_set s addr st) s sts) (addr + 8) = sta_mem s (addr + 8)"
    by (induction sts arbitrary: s) (auto simp: adfState_mem assms)
  then show ?thesis
    using assms by (auto simp: Let_def adfState_defs split: prod.splits)
qed

theorem adfState_history_witness:
  "let s = \<lparr>adfState_p = None, adfStateLast_p = None, adfStateOpt_p = None, sta_mem = (\<lambda>_. 0)\<rparr>;
       s' = foldl (\<lambda>s st. adfState_set s 256 st) s [0x10, 0x20, 0x20]
   in fst (adfState_get s' 256) = 0x20 \<and> fst (adfState_getLast s' 256) = 0x10"
  using adfState_history [of 256 "\<lparr>adfState_p = None, adfStateLast_p = None, adfStateOpt_p = None,
      sta_mem = (\<lambda>_. 0)\<rparr>" "[0x10, 0x20, 0x20]" 0]
  by (simp add: Let_def)

end
