(* ===== verification/Adf_Log.thy ===== *)
theory Adf_Log
  imports Ringbuf
begin

text \<open>
  The reader of the DSP's log, \<^verbatim>\<open>dspframework/src/log.c\<close>. The DSP writes text into a ring buffer;
  the host recomputes where to start reading from a 32-bit flag (offset in the lower half, the two
  bytes before that offset, the magic, in the upper half) and dumps or prints what follows.
  Whether \<^verbatim>\<open>vmalloc\<close> succeeds is an argument; the lock makes each call one step.
\<close>

section \<open>Definitions\<close>

text \<open>
  The macro with an offset of type \<^verbatim>\<open>size_t\<close>: the comparison is then one of unsigned 64-bit values.
\<close>

definition MOVE_PTR_size_t :: "int \<Rightarrow> int \<Rightarrow> int \<Rightarrow> int \<Rightarrow> int" where
  "MOVE_PTR_size_t ptr offset base limit =
     (if s32 (limit - ptr) mod 2 ^ 64 > offset mod 2 ^ 64 then s32 (ptr + offset)
      else s32 (ptr + offset - (limit - base)))"

definition le16 :: "char list \<Rightarrow> int" where
  "le16 bs = (case bs of [] \<Rightarrow> 0 | [a] \<Rightarrow> of_char a | a # b # _ \<Rightarrow> of_char a + 256 * of_char b)"

definition adfLog_reCalcHeader :: "adfRingbuf \<Rightarrow> u32 \<Rightarrow> bool \<Rightarrow> (int \<times> adfRingbuf) option" where
  "adfLog_reCalcHeader rbuf flag chk_overlap =
     (let rptr = uint (flag AND 0xFFFF);
          after_first =
            (if rb_wp rbuf < rb_limit rbuf then
               let rbuf = rbuf\<lparr>rb_rp := s32 (rb_wp rbuf + 1)\<rparr>
               in case adfRingbuf_read (Some rbuf) False 1 of None \<Rightarrow> None
                  | Some (_, bs) \<Rightarrow>
                      let check = (case bs of [] \<Rightarrow> CHR 0x00 | c # _ \<Rightarrow> c)
                      in Some (if check = CHR 0x00 then rbuf\<lparr>rb_rp := rb_base rbuf\<rparr> else rbuf)
             else Some (rbuf\<lparr>rb_rp := rb_base rbuf\<rparr>))
      in case after_first of None \<Rightarrow> None
         | Some rbuf \<Rightarrow>
             if ADF_RINGBUF_IN_RANGE rptr (rb_base rbuf) (rb_limit rbuf) then
               if \<not> chk_overlap then
                 let rbuf = rbuf\<lparr>rb_rp := rptr\<rparr> in Some (adfRingbuf_getUsedSize (Some rbuf), rbuf)
               else
                 let tmp = rbuf\<lparr>rb_rp := MOVE_PTR_size_t rptr (rb_limit rbuf - rb_base rbuf - 2)
                                           (rb_base rbuf) (rb_limit rbuf), rb_wp := rptr\<rparr>
                 in case adfRingbuf_read (Some tmp) False 2 of None \<Rightarrow> None
                    | Some (_, bs) \<Rightarrow>
                        let magic = le16 bs;
                            rbuf = (if magic = uint (drop_bit 16 flag AND 0xFFFF)
                                    then rbuf\<lparr>rb_rp := rptr\<rparr> else rbuf)
                        in Some (adfRingbuf_getUsedSize (Some rbuf), rbuf)
             else Some (adfRingbuf_getUsedSize (Some rbuf), rbuf))"

text \<open>The buffer has one byte more than is read and is zeroed, so it always ends in a NUL.\<close>

definition adfLog_allocAndReadRbuf :: "bool \<Rightarrow> adfRingbuf \<Rightarrow> int \<Rightarrow> (char list option) option" where
  "adfLog_allocAndReadRbuf vmalloc_ok rbuf sz =
     (if sz \<le> 0 then Some None
      else if \<not> vmalloc_ok then Some None
      else case adfRingbuf_read (Some rbuf) False sz of None \<Rightarrow> None
           | Some (_, bs) \<Rightarrow> Some (Some (bs @ replicate (nat (sz + 1) - length bs) (CHR 0x00))))"

text \<open>\<^verbatim>\<open>clearHistory\<close> gives the new flag and the struct, whose read pointer it moves.\<close>

definition adfLog_clearHistory :: "adfRingbuf option \<Rightarrow> u32 \<Rightarrow> (u32 \<times> adfRingbuf option) option" where
  "adfLog_clearHistory logAddr logFlag =
     (case logAddr of None \<Rightarrow> Some (logFlag, None)
      | Some rbuf \<Rightarrow>
          let flag = (word_of_int (rb_wp rbuf) :: u32);
              rbuf = rbuf\<lparr>rb_rp := MOVE_PTR_size_t (rb_wp rbuf) (rb_limit rbuf - rb_base rbuf - 2)
                                    (rb_base rbuf) (rb_limit rbuf)\<rparr>
          in case adfRingbuf_read (Some rbuf) False 2 of None \<Rightarrow> None
             | Some (_, bs) \<Rightarrow>
                 let flag = (if length bs = 2 then (flag AND 0xFFFF) OR push_bit 16 (word_of_int (le16 bs))
                             else if length bs = 1
                             then (flag AND 0xFF00FFFF) OR push_bit 16 (word_of_int (le16 bs))
                             else flag)
                 in Some (flag, Some rbuf))"

text \<open>\<^verbatim>\<open>dump\<close> gives its status, the text it sent to the debugfs file, and the struct.\<close>

definition adfLog_dump :: "bool \<Rightarrow> adfRingbuf option \<Rightarrow> u32 \<Rightarrow> bool \<Rightarrow> (int \<times> string \<times> adfRingbuf option) option" where
  "adfLog_dump vmalloc_ok logAddr logFlag file_null =
     (case logAddr of None \<Rightarrow> Some (- EINVAL, [], None)
      | Some rbuf \<Rightarrow>
          if file_null then Some (- EINVAL, [], Some rbuf)
          else case adfLog_reCalcHeader rbuf logFlag True of None \<Rightarrow> None
               | Some (remain, rbuf) \<Rightarrow>
                   if remain > 0 then
                     case adfLog_allocAndReadRbuf vmalloc_ok rbuf remain of None \<Rightarrow> None
                     | Some None \<Rightarrow> Some (- ENOMEM, [], Some rbuf)
                     | Some (Some logBuf) \<Rightarrow> Some (0, c_str logBuf, Some rbuf)
                   else Some (0, [], Some rbuf))"

text \<open>The tokens \<^verbatim>\<open>strsep\<close> cuts off one by one with the separators CR and LF.\<close>

definition line_sep :: "char \<Rightarrow> bool" where
  "line_sep c \<longleftrightarrow> c = CHR 0x0D \<or> c = CHR 0x0A"

fun strsep_all :: "string \<Rightarrow> string \<Rightarrow> string list" where
  "strsep_all acc [] = [acc]"
| "strsep_all acc (c # cs) = (if line_sep c then acc # strsep_all [] cs else strsep_all (acc @ [c]) cs)"

definition log_lines :: "char list \<Rightarrow> string list" where
  "log_lines logBuf = filter (\<lambda>l. l \<noteq> []) (strsep_all [] (c_str logBuf))"

text \<open>\<^verbatim>\<open>print\<close> gives its status, the lines sent to the kernel log, and the struct.\<close>

definition adfLog_print :: "bool \<Rightarrow> adfRingbuf option \<Rightarrow> u32 option \<Rightarrow> (int \<times> string list \<times> adfRingbuf option) option" where
  "adfLog_print vmalloc_ok logAddr logFlag =
     (case logAddr of None \<Rightarrow> Some (- EINVAL, [], None)
      | Some rbuf \<Rightarrow>
          (case adfLog_reCalcHeader rbuf (case logFlag of None \<Rightarrow> 0 | Some f \<Rightarrow> f) False of None \<Rightarrow> None
           | Some (remain, rbuf) \<Rightarrow>
               if remain > 0 then
                 case adfLog_allocAndReadRbuf vmalloc_ok rbuf remain of None \<Rightarrow> None
                 | Some None \<Rightarrow> Some (- ENOMEM, [], Some rbuf)
                 | Some (Some logBuf) \<Rightarrow> Some (0, log_lines logBuf, Some rbuf)
               else Some (0, [], Some rbuf)))"

text \<open>\<^verbatim>\<open>query\<close> calls the caller's filter on every line; its result is that of the last call.\<close>

definition adfLog_query :: "bool \<Rightarrow> adfRingbuf option \<Rightarrow> (string \<Rightarrow> int) \<Rightarrow> (int \<times> adfRingbuf option) option" where
  "adfLog_query vmalloc_ok logAddr logFliter =
     (case logAddr of None \<Rightarrow> Some (0, None)
      | Some rbuf \<Rightarrow>
          (case adfLog_reCalcHeader rbuf 0 False of None \<Rightarrow> None
           | Some (remain, rbuf) \<Rightarrow>
               if remain > 0 then
                 case adfLog_allocAndReadRbuf vmalloc_ok rbuf remain of None \<Rightarrow> None
                 | Some None \<Rightarrow> Some (0, Some rbuf)
                 | Some (Some logBuf) \<Rightarrow> Some (foldl (\<lambda>_ l. logFliter l) 0 (log_lines logBuf), Some rbuf)
               else Some (0, Some rbuf)))"

section \<open>The flag\<close>

definition log_flag :: "int \<Rightarrow> int \<Rightarrow> u32" where
  "log_flag wp m = (word_of_int wp AND 0xFFFF) OR push_bit 16 (word_of_int m)"

lemma and_FFFF: "(x :: u32) AND 0xFFFF = take_bit 16 x"
  by (simp add: take_bit_eq_mask mask_eq_exp_minus_1)

lemma log_flag_low:
  assumes "0 \<le> wp" "wp < 65536"
  shows "uint (log_flag wp m AND 0xFFFF) = wp"
proof -
  have "log_flag wp m AND 0xFFFF = take_bit 16 (word_of_int wp :: u32)"
    unfolding log_flag_def and_FFFF by (rule bit_word_eqI) (auto simp: bit_simps)
  with assms show ?thesis by (simp add: unsigned_take_bit_eq uint_word_of_int take_bit_int_eq_self)
qed

lemma log_flag_high:
  assumes "0 \<le> m" "m < 65536"
  shows "uint (drop_bit 16 (log_flag wp m) AND 0xFFFF) = m"
proof -
  have "drop_bit 16 (log_flag wp m) AND 0xFFFF = take_bit 16 (word_of_int m :: u32)"
    unfolding log_flag_def and_FFFF by (rule bit_word_eqI) (auto simp: bit_simps)
  with assms show ?thesis by (simp add: unsigned_take_bit_eq uint_word_of_int take_bit_int_eq_self)
qed

lemma of_char_bounds: "0 \<le> (of_char c :: int)" "(of_char c :: int) < 256"
  by (cases c; simp add: of_char_def horner_sum_simps)+

lemma le16_bounds: "0 \<le> le16 bs" "le16 bs < 65536"
  using of_char_bounds [of "bs ! 0"] of_char_bounds [of "bs ! 1"]
  by (auto simp: le16_def split: list.splits)

section \<open>Reading after a clear\<close>

lemma MOVE_PTR_size_t_nonneg:
  "0 \<le> s32 (limit - ptr) \<Longrightarrow> 0 \<le> off \<Longrightarrow> off < 2 ^ 64 \<Longrightarrow>
    MOVE_PTR_size_t ptr off base limit = ADF_RINGBUF_MOVE_PTR ptr off base limit"
  using s32_range_s32 [of "limit - ptr"]
  by (simp add: MOVE_PTR_size_t_def ADF_RINGBUF_MOVE_PTR_def s32_range_def)

text \<open>The read pointer two bytes behind a position.\<close>

definition rb_back2 :: "adfRingbuf \<Rightarrow> int \<Rightarrow> int" where
  "rb_back2 rb p = rb_base rb + (p - rb_base rb - 2) mod rb_size rb"

lemma MOVE_PTR_back2:
  assumes "rb_inv rb" "2 \<le> rb_size rb" "rb_base rb \<le> p" "p < rb_limit rb"
  shows "MOVE_PTR_size_t p (rb_limit rb - rb_base rb - 2) (rb_base rb) (rb_limit rb) = rb_back2 rb p"
proof -
  have "MOVE_PTR_size_t p (rb_size rb - 2) (rb_base rb) (rb_limit rb)
      = ADF_RINGBUF_MOVE_PTR p (rb_size rb - 2) (rb_base rb) (rb_limit rb)"
    using assms rb_invD [OF assms(1)] by (intro MOVE_PTR_size_t_nonneg) (auto simp: wrap_simps rb_size_def)
  also have "\<dots> = rb_base rb + (p - rb_base rb + (rb_size rb - 2)) mod rb_size rb"
    using assms by (intro move_ptr_mod) auto
  also have "(p - rb_base rb + (rb_size rb - 2)) mod rb_size rb = (p - rb_base rb - 2) mod rb_size rb"
    using mod_add_self2 [of "p - rb_base rb - 2" "rb_size rb"] by (simp add: algebra_simps)
  finally show ?thesis by (simp add: rb_size_def rb_back2_def)
qed

lemma back2_state:
  assumes inv: "rb_inv rb" and sz: "2 < rb_size rb" and p: "rb_base rb \<le> p" "p < rb_limit rb"
  defines "tmp \<equiv> rb\<lparr>rb_rp := rb_back2 rb p, rb_wp := p\<rparr>"
  shows "rb_inv tmp" "rb_used tmp = 2" "rb_base rb + (rb_back2 rb p - rb_base rb + 2) mod rb_size rb = p"
proof -
  show "rb_inv tmp"
    using inv p mod_in_ring [OF inv, of "p - rb_base rb - 2"] rb_invD(5) [OF inv]
    by (auto simp: tmp_def rb_back2_def rb_inv_unfold)
  have "rb_used tmp = (p - (p - 2)) mod rb_size rb"
    unfolding rb_used_def tmp_def rb_back2_def
    using mod_offset_neg [of p "rb_base rb" "p - 2" "rb_size rb"] by (simp add: algebra_simps)
  with sz show "rb_used tmp = 2" by simp
  have "(rb_back2 rb p - rb_base rb + 2) mod rb_size rb = (p - rb_base rb) mod rb_size rb"
    by (simp add: rb_back2_def mod_add_left_eq)
  also have "\<dots> = p - rb_base rb" using p by (intro mod_pos_pos_trivial) (auto simp: rb_size_def)
  finally show "rb_base rb + (rb_back2 rb p - rb_base rb + 2) mod rb_size rb = p" by simp
qed

definition rb_cleared :: "adfRingbuf \<Rightarrow> adfRingbuf" where
  "rb_cleared rb = rb\<lparr>rb_rp := rb_back2 rb (rb_wp rb)\<rparr>"

lemma rb_cleared_facts:
  assumes "rb_inv rb" "2 < rb_size rb"
  shows "rb_inv (rb_cleared rb)" "rb_used (rb_cleared rb) = 2" "length (rb_contents (rb_cleared rb)) = 2"
    "rb_wp (rb_cleared rb) = rb_wp rb" "rb_base (rb_cleared rb) = rb_base rb"
    "rb_limit (rb_cleared rb) = rb_limit rb" "rb_size (rb_cleared rb) = rb_size rb"
proof -
  have e: "rb_cleared rb = rb\<lparr>rb_rp := rb_back2 rb (rb_wp rb), rb_wp := rb_wp rb\<rparr>"
    by (simp add: rb_cleared_def)
  show i: "rb_inv (rb_cleared rb)" and u: "rb_used (rb_cleared rb) = 2"
    using back2_state [OF assms, of "rb_wp rb"] rb_invD [OF assms(1)] unfolding e by auto
  show "length (rb_contents (rb_cleared rb)) = 2" using length_rb_contents [OF i] u by simp
qed (simp_all add: rb_cleared_def)

lemma clearHistory_eq:
  assumes "rb_inv rb" "2 < rb_size rb"
  shows "adfLog_clearHistory (Some rb) f0
    = Some (log_flag (rb_wp rb) (le16 (rb_contents (rb_cleared rb))), Some (rb_cleared rb))"
proof -
  note c = rb_cleared_facts [OF assms]
  have "adfRingbuf_read (Some (rb_cleared rb)) False 2 = Some (2, rb_contents (rb_cleared rb))"
    using ringbuf_read_contents [OF c(1), of 2] c(2,3) by simp
  moreover have "rb\<lparr>rb_rp := MOVE_PTR_size_t (rb_wp rb) (rb_limit rb - rb_base rb - 2) (rb_base rb) (rb_limit rb)\<rparr>
      = rb_cleared rb"
    using MOVE_PTR_back2 [OF assms(1), of "rb_wp rb"] rb_invD [OF assms(1)] assms(2)
    by (simp add: rb_cleared_def)
  ultimately show ?thesis
    unfolding adfLog_clearHistory_def Let_def by (simp add: c(3) log_flag_def)
qed

text \<open>The first probe reads the byte behind the write pointer; it never faults.\<close>

lemma first_probe:
  assumes inv: "rb_inv rb" and sz: "2 < rb_size rb" and lim: "rb_limit rb \<le> 65536" and b: "0 \<le> rb_base rb"
  shows "\<exists>bs. adfRingbuf_read (Some (rb\<lparr>rb_rp := s32 (rb_wp rb + 1)\<rparr>)) False 1 = Some (1, bs)"
proof -
  have "s32 (rb_wp rb + 1) = rb_wp rb + 1" using rb_invD [OF inv] lim b by (simp add: wrap_simps)
  moreover have "s32 (rb_limit rb - (rb_wp rb + 1) + (rb_wp rb - rb_base rb)) = rb_size rb - 1"
    using rb_invD [OF inv] sz by (simp add: rb_size_def wrap_simps)
  moreover have "s32 (rb_limit rb - (rb_wp rb + 1)) = rb_limit rb - (rb_wp rb + 1)"
    using rb_invD [OF inv] lim b by (simp add: wrap_simps)
  ultimately show ?thesis
    using rb_invD [OF inv] sz by (auto simp: adfRingbuf_read_def ADF_RINGBUF_CALC_RW_SIZE_def Let_def)
qed

lemma reCalcHeader_magic:
  assumes inv: "rb_inv rb" and sz: "2 < rb_size rb" and lim: "rb_limit rb \<le> 65536" and b: "0 \<le> rb_base rb"
    and p: "rb_base rb \<le> p" "p < rb_limit rb"
    and m: "m = le16 (rb_contents (rb\<lparr>rb_rp := rb_back2 rb p, rb_wp := p\<rparr>))"
  shows "adfLog_reCalcHeader rb (log_flag p m) True
    = Some (rb_used (rb\<lparr>rb_rp := p\<rparr>), rb\<lparr>rb_rp := p\<rparr>)"
proof -
  obtain bs where bs: "adfRingbuf_read (Some (rb\<lparr>rb_rp := s32 (rb_wp rb + 1)\<rparr>)) False 1 = Some (1, bs)"
    using first_probe [OF inv sz lim b] by blast
  let ?tmp = "rb\<lparr>rb_rp := rb_back2 rb p, rb_wp := p\<rparr>"
  have t: "rb_inv ?tmp" "rb_used ?tmp = 2" using back2_state [OF inv sz p] by auto
  have mag: "adfRingbuf_read (Some ?tmp) False 2 = Some (2, rb_contents ?tmp)"
    using ringbuf_read_contents [OF t(1), of 2] t(2) length_rb_contents [OF t(1)] by simp
  have mv: "MOVE_PTR_size_t p (rb_limit rb - rb_base rb - 2) (rb_base rb) (rb_limit rb) = rb_back2 rb p"
    using MOVE_PTR_back2 [OF inv _ p] sz by simp
  have fl: "uint (log_flag p m AND 0xFFFF) = p" using log_flag_low [of p m] p b lim by linarith
  have fh: "uint (drop_bit 16 (log_flag p m) AND 0xFFFF) = le16 (rb_contents ?tmp)"
    using log_flag_high [of m p] le16_bounds m by simp
  have inr: "ADF_RINGBUF_IN_RANGE p (rb_base rb) (rb_limit rb)"
    using p by (simp add: ADF_RINGBUF_IN_RANGE_def)
  have invp: "rb_inv (rb\<lparr>rb_rp := p\<rparr>)" using inv inr by (simp add: rb_inv_def)
  show ?thesis
    unfolding adfLog_reCalcHeader_def Let_def fl fh
    using rb_invD(4) [OF inv] calc_rw_used [OF invp]
    by (simp add: bs inr mv mag adfRingbuf_getUsedSize_def)
qed

lemma log_after_clear:
  assumes inv: "rb_inv rb" and lim: "rb_limit rb \<le> 65536" and b: "0 \<le> rb_base rb"
    and xs: "int (length xs) + 2 < rb_size rb"
  defines "rb2 \<equiv> rb_append (rb_cleared rb) xs"
  shows "adfLog_reCalcHeader rb2 (log_flag (rb_wp rb) (le16 (rb_contents (rb_cleared rb)))) True
      = Some (int (length xs), rb2\<lparr>rb_rp := rb_wp rb\<rparr>)"
    "rb_inv (rb2\<lparr>rb_rp := rb_wp rb\<rparr>)" "rb_contents (rb2\<lparr>rb_rp := rb_wp rb\<rparr>) = xs"
proof -
  have sz: "2 < rb_size rb" using xs by simp
  note c = rb_cleared_facts [OF inv sz]
  have f: "rb_base rb2 = rb_base rb" "rb_limit rb2 = rb_limit rb" "rb_self rb2 = rb_self rb"
      "rb_size rb2 = rb_size rb" "rb_rp rb2 = rb_back2 rb (rb_wp rb)"
    by (simp_all add: rb2_def rb_append_def rb_cleared_def)
  have fit: "rb_used (rb_cleared rb) + int (length xs) < rb_size (rb_cleared rb)" using c xs by simp
  have i2: "rb_inv rb2" and u2: "rb_used rb2 = 2 + int (length xs)"
    and c2: "rb_contents rb2 = rb_contents (rb_cleared rb) @ xs"
    unfolding rb2_def using rb_inv_append [OF c(1)] used_append [OF c(1) fit] contents_append [OF c(1) fit] c(2)
    by auto
  note w = rb_invD(3,4) [OF inv]
  have sr: "rb2\<lparr>rb_rp := rb_wp rb\<rparr> = rb_set_rp rb2 2"
    using back2_state(3) [OF inv sz w] by (simp add: rb_set_rp_def f)
  show i3: "rb_inv (rb2\<lparr>rb_rp := rb_wp rb\<rparr>)" unfolding sr by (rule rb_inv_set_rp [OF i2])
  show c3: "rb_contents (rb2\<lparr>rb_rp := rb_wp rb\<rparr>) = xs"
    unfolding sr using contents_set_rp [OF i2, of 2] u2 c2 c(3) by simp
  have u3: "rb_used (rb2\<lparr>rb_rp := rb_wp rb\<rparr>) = int (length xs)"
    using length_rb_contents [OF i3] c3 by simp
  let ?tmp = "rb2\<lparr>rb_rp := rb_back2 rb2 (rb_wp rb), rb_wp := rb_wp rb\<rparr>"
  have bk: "rb_back2 rb2 (rb_wp rb) = rb_rp rb2" by (simp add: rb_back2_def f(1,4,5))
  have "rb_used ?tmp = 2" using back2_state(2) [OF i2, of "rb_wp rb"] f sz w by simp
  then have "rb_contents ?tmp = take 2 (rb_contents rb2)"
    unfolding rb_contents_def using u2 by (simp add: bk f ring_get_take [of 2 "2 + length xs"] nat_add_distrib)
  then have "rb_contents ?tmp = rb_contents (rb_cleared rb)" using c2 c(3) by simp
  then show "adfLog_reCalcHeader rb2 (log_flag (rb_wp rb) (le16 (rb_contents (rb_cleared rb)))) True
      = Some (int (length xs), rb2\<lparr>rb_rp := rb_wp rb\<rparr>)"
    using reCalcHeader_magic [OF i2, of "rb_wp rb"] f sz lim b w u3 by simp
qed

lemma allocAndRead_contents:
  assumes "rb_inv rb" "0 < rb_used rb"
  shows "adfLog_allocAndReadRbuf True rb (rb_used rb) = Some (Some (rb_contents rb @ [CHR 0x00]))"
proof -
  have l: "length (rb_contents rb) = nat (rb_used rb)" using length_rb_contents [OF assms(1)] by simp
  have "adfRingbuf_read (Some rb) False (rb_used rb) = Some (rb_used rb, rb_contents rb)"
    using ringbuf_read_contents [OF assms] l by simp
  moreover have "nat (rb_used rb + 1) - length (rb_contents rb) = 1" using l assms(2) by simp
  ultimately show ?thesis using assms(2) by (simp add: adfLog_allocAndReadRbuf_def)
qed

lemma c_str_NUL: "c_str (xs @ [CHR 0x00]) = c_str xs"
  by (simp add: c_str_def takeWhile_tail)

lemma strsep_all_concat: "concat (strsep_all acc cs) = acc @ filter (\<lambda>c. \<not> line_sep c) cs"
  by (induction acc cs rule: strsep_all.induct) auto

lemma strsep_all_clean:
  "\<forall>c \<in> set acc. \<not> line_sep c \<Longrightarrow> l \<in> set (strsep_all acc cs) \<Longrightarrow> \<forall>c \<in> set l. \<not> line_sep c"
proof (induction acc cs rule: strsep_all.induct)
  case (1 acc)
  then show ?case by simp
next
  case (2 acc c cs)
  show ?case
  proof (cases "line_sep c")
    case True
    with 2 show ?thesis by (cases "l = acc") simp_all
  next
    case False
    with "2.IH"(2) [OF False] "2.prems" show ?thesis by simp
  qed
qed

lemma concat_filter_nonempty: "concat (filter (\<lambda>l. l \<noteq> []) ls) = concat ls"
  by (induction ls) auto

lemma log_lines_concat: "concat (log_lines buf) = filter (\<lambda>c. \<not> line_sep c) (c_str buf)"
  by (simp add: log_lines_def concat_filter_nonempty strsep_all_concat)

lemma log_lines_clean: "l \<in> set (log_lines buf) \<Longrightarrow> l \<noteq> [] \<and> (\<forall>c \<in> set l. \<not> line_sep c)"
  using strsep_all_clean [of "[]" l "c_str buf"] by (simp add: log_lines_def)

section \<open>Properties\<close>

text \<open>Clearing the log history and then dumping shows exactly what the DSP logged in between,
  provided it fits in the buffer beside the two magic bytes (offsets below 64 KiB, as the flag
  stores them in 16 bits); with nothing logged the dump is empty.\<close>

theorem log_dump_after_clear:
  assumes "rb_inv rb" "0 \<le> rb_base rb" "rb_limit rb \<le> 65536" "int (length xs) + 2 < rb_size rb" "xs \<noteq> []"
  shows "\<exists>flag rb1 rb2 rb3. adfLog_clearHistory (Some rb) f0 = Some (flag, Some rb1) \<and>
    adfRingbuf_write (Some rb1) (Some xs) (int (length xs)) = Some (int (length xs), Some rb2) \<and>
    adfLog_dump True (Some rb2) flag False = Some (0, c_str xs, Some rb3) \<and>
    (\<exists>rb3. adfLog_dump True (Some rb1) flag False = Some (0, [], Some rb3))"
proof -
  have sz: "2 < rb_size rb" using assms(4) by simp
  note c = rb_cleared_facts [OF assms(1) sz]
  let ?fl = "log_flag (rb_wp rb) (le16 (rb_contents (rb_cleared rb)))"
  let ?rb2 = "rb_append (rb_cleared rb) xs"
  note d = log_after_clear [OF assms(1,3,2,4)]
  have w: "adfRingbuf_write (Some (rb_cleared rb)) (Some xs) (int (length xs)) = Some (int (length xs), Some ?rb2)"
    using ringbuf_write_room [OF c(1), of "int (length xs)" xs] c assms(4,5) by simp
  have u: "rb_used (?rb2\<lparr>rb_rp := rb_wp rb\<rparr>) = int (length xs)"
    using length_rb_contents [OF d(2)] d(3) by simp
  have dump: "adfLog_dump True (Some ?rb2) ?fl False = Some (0, c_str xs, Some (?rb2\<lparr>rb_rp := rb_wp rb\<rparr>))"
    using allocAndRead_contents [OF d(2)] u assms(5) d(3) by (simp add: adfLog_dump_def d(1) c_str_NUL)
  have e: "rb_append (rb_cleared rb) [] = rb_cleared rb"
    using rb_invD [OF c(1)] by (simp add: rb_append_def ring_put_def rb_size_def)
  have "adfLog_dump True (Some (rb_cleared rb)) ?fl False = Some (0, [], Some ((rb_cleared rb)\<lparr>rb_rp := rb_wp rb\<rparr>))"
    using log_after_clear(1) [OF assms(1,3,2), of "[]"] sz by (simp add: adfLog_dump_def e)
  with w dump show ?thesis using clearHistory_eq [OF assms(1) sz] by blast
qed

theorem log_dump_after_clear_witness:
  "\<exists>flag rb1 rb2 rb3. adfLog_clearHistory (Some (rb_example 34 0)) 0 = Some (flag, Some rb1) \<and>
    adfRingbuf_write (Some rb1) (Some ''boot ok'') (int (length ''boot ok'')) = Some (int (length ''boot ok''), Some rb2) \<and>
    adfLog_dump True (Some rb2) flag False = Some (0, c_str ''boot ok'', Some rb3) \<and>
    (\<exists>rb3. adfLog_dump True (Some rb1) flag False = Some (0, [], Some rb3))"
  by (rule log_dump_after_clear) (simp_all add: rb_example_facts, simp_all add: rb_example_def)

text \<open>Printing the log from a recorded offset emits the text after that offset cut into lines:
  every line is non-empty and free of line ends, and together they are the text with its line
  ends removed, nothing lost and nothing added.\<close>

theorem log_print_lines:
  assumes "rb_inv rb" "0 \<le> rb_base rb" "rb_limit rb \<le> 65536" "2 < rb_size rb"
    "rb_base rb \<le> p" "p < rb_limit rb" "p \<noteq> rb_wp rb"
  shows "\<exists>ls. adfLog_print True (Some rb) (Some (log_flag p m)) = Some (0, ls, Some (rb\<lparr>rb_rp := p\<rparr>)) \<and>
    concat ls = filter (\<lambda>c. \<not> line_sep c) (c_str (rb_contents (rb\<lparr>rb_rp := p\<rparr>))) \<and>
    (\<forall>l \<in> set ls. l \<noteq> [] \<and> (\<forall>c \<in> set l. \<not> line_sep c))"
proof -
  obtain bs where bs: "adfRingbuf_read (Some (rb\<lparr>rb_rp := s32 (rb_wp rb + 1)\<rparr>)) False 1 = Some (1, bs)"
    using first_probe [OF assms(1,4,3,2)] by blast
  let ?rb = "rb\<lparr>rb_rp := p\<rparr>"
  have inr: "ADF_RINGBUF_IN_RANGE p (rb_base rb) (rb_limit rb)"
    using assms by (simp add: ADF_RINGBUF_IN_RANGE_def)
  have inv: "rb_inv ?rb" using assms(1) inr by (simp add: rb_inv_def)
  have u: "0 < rb_used ?rb"
    using rb_used_cases [OF inv] rb_invD [OF inv] assms(7) by (auto simp: rb_size_def split: if_splits)
  have fl: "uint (log_flag p m AND 0xFFFF) = p" using log_flag_low [of p m] assms by linarith
  have "adfLog_reCalcHeader rb (log_flag p m) False = Some (rb_used ?rb, ?rb)"
    unfolding adfLog_reCalcHeader_def Let_def fl
    using rb_invD(4) [OF assms(1)] calc_rw_used [OF inv]
    by (simp add: bs inr adfRingbuf_getUsedSize_def)
  then have "adfLog_print True (Some rb) (Some (log_flag p m))
      = Some (0, log_lines (rb_contents ?rb @ [CHR 0x00]), Some ?rb)"
    using allocAndRead_contents [OF inv u] u by (simp add: adfLog_print_def)
  then show ?thesis
    using log_lines_concat [of "rb_contents ?rb @ [CHR 0x00]"] log_lines_clean by (auto simp: c_str_NUL)
qed

theorem log_print_lines_witness:
  "\<exists>ls. adfLog_print True (Some (rb_example 44 0)) (Some (log_flag 40 0))
      = Some (0, ls, Some ((rb_example 44 0)\<lparr>rb_rp := 40\<rparr>)) \<and>
    concat ls = filter (\<lambda>c. \<not> line_sep c) (c_str (rb_contents ((rb_example 44 0)\<lparr>rb_rp := 40\<rparr>))) \<and>
    (\<forall>l \<in> set ls. l \<noteq> [] \<and> (\<forall>c \<in> set l. \<not> line_sep c))"
  by (rule log_print_lines) (simp_all add: rb_example_facts, simp_all add: rb_example_def)

end
