(* ===== verification/Adf_Load.thy ===== *)
theory Adf_Load
  imports Ringbuf
begin

text \<open>
  The firmware loader of the DSP framework, \<^verbatim>\<open>dspframework/src/load.c\<close>, with the header layout of
  \<^verbatim>\<open>fwheader.h\<close> on a 64-bit machine (a section descriptor has 32 bytes). The kernel heap is explicit:
  the live blocks with their sizes, and a parameter \<open>km\<close> that gives the address the next
  \<^verbatim>\<open>kmalloc\<close> returns (0 for NULL) by the number of calls so far; a request of no bytes gives the
  constant \<^verbatim>\<open>ZERO_SIZE_PTR\<close>. A free of a pointer that is not a live block, and a copy or a clear beyond
  the end of a block, are faults (\<open>None\<close>). The binary copy function of the platform is a parameter;
  the copies it was asked to make are recorded.
\<close>

section \<open>Data\<close>

record adfFwHdr_secInfo =
  si_name :: string
  si_addr :: int
  si_size :: int
  si_offset :: int
  si_data :: int

record adfFwHdr =
  fw_magic :: int
  fw_secs :: "adfFwHdr_secInfo list"

record adfDspPriv =
  dp_header :: "(int \<times> adfFwHdr_secInfo list) option" \<comment> \<open>the block and its sections\<close>
  dp_staData :: int
  dp_cliData :: int
  dp_logData :: int

record kheap =
  kh_live :: "int \<rightharpoonup> int"
  kh_calls :: nat

definition ADF_FW_MAGIC :: int where "ADF_FW_MAGIC = 0x4E5A4D41"
definition ADF_FW_HDRLEN :: int where "ADF_FW_HDRLEN = 0x80"
definition DSP_CORE_NUM :: int where "DSP_CORE_NUM = 1"
definition ZERO_SIZE_PTR :: int where "ZERO_SIZE_PTR = 16"

definition kmalloc :: "(nat \<Rightarrow> int) \<Rightarrow> int \<Rightarrow> kheap \<Rightarrow> int \<times> kheap" where
  "kmalloc km sz h =
     (if sz = 0 then (ZERO_SIZE_PTR, h)
      else let p = km (kh_calls h) in
        (p, \<lparr>kh_live = (if p = 0 then kh_live h else (kh_live h)(p \<mapsto> sz)), kh_calls = Suc (kh_calls h)\<rparr>))"

definition kfree :: "kheap \<Rightarrow> int \<Rightarrow> kheap option" where
  "kfree h p = (if p = 0 \<or> p = ZERO_SIZE_PTR then Some h
                else if p \<in> dom (kh_live h) then Some (h\<lparr>kh_live := (kh_live h)(p := None)\<rparr>) else None)"

text \<open>Writing the first \<open>sz\<close> bytes of a block (\<^verbatim>\<open>memset\<close>, \<^verbatim>\<open>memcpy\<close>): does it stay inside?\<close>

definition kwrite_ok :: "kheap \<Rightarrow> int \<Rightarrow> int \<Rightarrow> bool" where
  "kwrite_ok h p sz \<longleftrightarrow> sz = 0 \<or> (case kh_live h p of None \<Rightarrow> False | Some cap \<Rightarrow> sz \<le> cap)"

section \<open>Operations\<close>

definition adfLoad_getDspPriv :: "adfDspPriv \<Rightarrow> int \<Rightarrow> adfDspPriv option" where
  "adfLoad_getDspPriv priv dspId = (if dspId \<ge> DSP_CORE_NUM then None else Some priv)"

text \<open>A NULL header is tested before the loop but dereferenced after it: the outer \<open>None\<close>.\<close>

definition adfLoad_GetSecInfo :: "adfFwHdr_secInfo list option \<Rightarrow> string \<Rightarrow> adfFwHdr_secInfo option option" where
  "adfLoad_GetSecInfo dspHeader secName =
     (case dspHeader of None \<Rightarrow> None | Some secs \<Rightarrow> Some (find (\<lambda>i. si_name i = secName) secs))"

definition adfLoad_checkMagic :: "adfFwHdr \<Rightarrow> bool" where
  "adfLoad_checkMagic hdr \<longleftrightarrow> fw_magic hdr = ADF_FW_MAGIC"

record load_state =
  ls_priv :: adfDspPriv
  ls_heap :: kheap
  ls_binSize :: int
  ls_baseAddr :: int
  ls_hostDst :: int
  ls_copies :: "(int \<times> int \<times> int) list"

text \<open>A section of kind BIN: the new state and the result of the copy.\<close>

definition load_bin :: "(int \<Rightarrow> int \<Rightarrow> int \<Rightarrow> bool) option \<Rightarrow> load_state \<Rightarrow> adfFwHdr_secInfo \<Rightarrow> load_state \<times> bool" where
  "load_bin binCpy s info =
     (let s = s\<lparr>ls_binSize := u32w (ls_binSize s + si_size info)\<rparr>;
          s = (if ls_baseAddr s = 0 then s\<lparr>ls_baseAddr := si_addr info\<rparr> else s);
          s = (if ls_hostDst s = 0 then s\<lparr>ls_hostDst := si_addr info\<rparr> else s);
          dstAddr = u64w (ls_hostDst s + (si_addr info - ls_baseAddr s))
      in case binCpy of None \<Rightarrow> (s, False)
         | Some f \<Rightarrow> (s\<lparr>ls_copies := ls_copies s @ [(dstAddr, si_offset info, si_size info)]\<rparr>,
                      f dstAddr (si_offset info) (si_size info)))"

text \<open>The block of a STA, CLI or LOG section: allocated on the first load, reused on later ones.\<close>

definition load_data :: "(nat \<Rightarrow> int) \<Rightarrow> load_state \<Rightarrow> adfFwHdr_secInfo \<Rightarrow> int \<times> load_state" where
  "load_data km s info =
     (if si_name info = ''STA'' then
        if dp_staData (ls_priv s) = 0
        then let (p, h) = kmalloc km (si_size info) (ls_heap s)
             in (p, s\<lparr>ls_heap := h, ls_priv := (ls_priv s)\<lparr>dp_staData := p\<rparr>\<rparr>)
        else (dp_staData (ls_priv s), s)
      else if si_name info = ''CLI'' then
        if dp_cliData (ls_priv s) = 0
        then let (p, h) = kmalloc km (si_size info) (ls_heap s)
             in (p, s\<lparr>ls_heap := h, ls_priv := (ls_priv s)\<lparr>dp_cliData := p\<rparr>\<rparr>)
        else (dp_cliData (ls_priv s), s)
      else
        if dp_logData (ls_priv s) = 0
        then let (p, h) = kmalloc km (si_size info) (ls_heap s)
             in (p, s\<lparr>ls_heap := h, ls_priv := (ls_priv s)\<lparr>dp_logData := p\<rparr>\<rparr>)
        else (dp_logData (ls_priv s), s))"

text \<open>One section: the new state, the descriptor as it is left, and whether to go on.\<close>

definition load_section :: "(nat \<Rightarrow> int) \<Rightarrow> (int \<Rightarrow> int \<Rightarrow> int \<Rightarrow> bool) option \<Rightarrow> load_state \<Rightarrow> adfFwHdr_secInfo
    \<Rightarrow> (load_state \<times> adfFwHdr_secInfo \<times> bool) option" where
  "load_section km binCpy s info =
     (if si_name info = ''BIN'' then let (s, ok) = load_bin binCpy s info in Some (s, info, ok)
      else if si_name info \<in> {''STA'', ''CLI'', ''LOG''} then
        let (p, s) = load_data km s info
        in if p = 0 then Some (s, info\<lparr>si_data := p\<rparr>, False)
           else if kwrite_ok (ls_heap s) p (si_size info) then Some (s, info\<lparr>si_data := p\<rparr>, True)
           else None
      else Some (s, info, True))"

text \<open>The loop: the final state, all descriptors as they are left, and whether every one succeeded.\<close>

fun load_sections :: "(nat \<Rightarrow> int) \<Rightarrow> (int \<Rightarrow> int \<Rightarrow> int \<Rightarrow> bool) option \<Rightarrow> load_state \<Rightarrow> adfFwHdr_secInfo list
    \<Rightarrow> (load_state \<times> adfFwHdr_secInfo list \<times> bool) option" where
  "load_sections km binCpy s [] = Some (s, [], True)"
| "load_sections km binCpy s (info # rest) =
     (case load_section km binCpy s info of None \<Rightarrow> None
      | Some (s, info, False) \<Rightarrow> Some (s, info # rest, False)
      | Some (s, info, True) \<Rightarrow>
          (case load_sections km binCpy s rest of None \<Rightarrow> None
           | Some (s, rest, ok) \<Rightarrow> Some (s, info # rest, ok)))"

fun free_all :: "kheap \<Rightarrow> int list \<Rightarrow> kheap option" where
  "free_all h [] = Some h"
| "free_all h (p # ps) = (case kfree h p of None \<Rightarrow> None | Some h' \<Rightarrow> free_all h' ps)"

text \<open>The label \<^verbatim>\<open>ERROR\<close>: free every section's data, then the header, and forget all pointers.\<close>

definition load_error :: "adfDspPriv \<Rightarrow> kheap \<Rightarrow> (int \<times> adfDspPriv \<times> kheap) option" where
  "load_error priv h =
     (case dp_header priv of None \<Rightarrow> Some (ADF_STATUS_GENERAL_ERROR, priv, h)
      | Some (blk, secs) \<Rightarrow>
          (case free_all h (map si_data secs @ [blk]) of None \<Rightarrow> None
           | Some h' \<Rightarrow> Some (ADF_STATUS_GENERAL_ERROR,
               \<lparr>dp_header = None, dp_staData = 0, dp_cliData = 0, dp_logData = 0\<rparr>, h')))"

definition load_header_size :: "adfFwHdr_secInfo list \<Rightarrow> int" where
  "load_header_size secs = u32w (ADF_FW_HDRLEN + int (length secs) * 32)"

definition adfLoad_init :: "(nat \<Rightarrow> int) \<Rightarrow> adfFwHdr \<Rightarrow> int \<Rightarrow> int \<Rightarrow> (int \<Rightarrow> int \<Rightarrow> int \<Rightarrow> bool) option \<Rightarrow> int
    \<Rightarrow> adfDspPriv \<Rightarrow> kheap \<Rightarrow> (int \<times> adfDspPriv \<times> kheap) option" where
  "adfLoad_init km src dst sz binCpy dspId priv h =
     (let headerSize = load_header_size (fw_secs src)
      in case adfLoad_getDspPriv priv dspId of None \<Rightarrow> Some (ADF_STATUS_GENERAL_ERROR, priv, h)
         | Some priv \<Rightarrow>
             let (blk, h) = (case dp_header priv of
                    None \<Rightarrow> kmalloc km (u32w (headerSize + 7) div 8 * 8) h
                  | Some (blk, _) \<Rightarrow> (blk, h))
             in if blk = 0 then load_error priv h
                else if \<not> kwrite_ok h blk headerSize then None
                else case load_sections km binCpy
                       \<lparr>ls_priv = priv, ls_heap = h, ls_binSize = 0, ls_baseAddr = 0,
                        ls_hostDst = dst, ls_copies = []\<rparr> (fw_secs src) of None \<Rightarrow> None
                  | Some (s, secs, ok) \<Rightarrow>
                      let priv = (ls_priv s)\<lparr>dp_header := Some (blk, secs)\<rparr>
                      in if ok \<and> sz = u32w (headerSize + ls_binSize s)
                         then Some (ADF_STATUS_OK, priv, ls_heap s)
                         else load_error priv (ls_heap s))"

text \<open>
  The check after loading: the read function gives the bytes at an address or fails; a failed read
  is taken as a match. The bytes of the image at an offset are the parameter \<open>img\<close>.
\<close>

fun initCheck_loop :: "(nat \<Rightarrow> bool) \<Rightarrow> (int \<Rightarrow> int \<Rightarrow> char list) \<Rightarrow> (int \<Rightarrow> int \<Rightarrow> char list option) \<Rightarrow> int \<Rightarrow> int
    \<Rightarrow> nat \<Rightarrow> adfFwHdr_secInfo list \<Rightarrow> bool" where
  "initCheck_loop vm img binRead baseAddr hostDst n [] = True"
| "initCheck_loop vm img binRead baseAddr hostDst n (info # rest) =
     (if si_name info = ''BIN'' then
        let baseAddr = (if baseAddr = 0 then si_addr info else baseAddr);
            hostDst = (if hostDst = 0 then si_addr info else hostDst);
            binAddr = u64w (hostDst + (si_addr info - baseAddr))
        in if vm n then
             (case binRead binAddr (si_size info) of
                Some bs \<Rightarrow> if bs \<noteq> img (si_offset info) (si_size info) then False
                           else initCheck_loop vm img binRead baseAddr hostDst (Suc n) rest
              | None \<Rightarrow> initCheck_loop vm img binRead baseAddr hostDst (Suc n) rest)
           else False
      else initCheck_loop vm img binRead baseAddr hostDst n rest)"

definition adfLoad_initCheck :: "(nat \<Rightarrow> bool) \<Rightarrow> (int \<Rightarrow> int \<Rightarrow> char list) \<Rightarrow> (int \<Rightarrow> int \<Rightarrow> char list option) \<Rightarrow> int
    \<Rightarrow> adfFwHdr \<Rightarrow> bool" where
  "adfLoad_initCheck vm img binRead dst src = initCheck_loop vm img binRead 0 dst 0 (fw_secs src)"

section \<open>The heap\<close>

text \<open>The addresses \<^verbatim>\<open>kmalloc\<close> returns are NULL or blocks that are not in use.\<close>

definition km_fresh :: "(nat \<Rightarrow> int) \<Rightarrow> kheap \<Rightarrow> bool" where
  "km_fresh km h \<longleftrightarrow>
     (\<forall>n. kh_calls h \<le> n \<longrightarrow> km n \<noteq> ZERO_SIZE_PTR \<and> km n \<notin> dom (kh_live h) \<and>
        (\<forall>m. kh_calls h \<le> m \<longrightarrow> km n = km m \<longrightarrow> km n \<noteq> 0 \<longrightarrow> n = m))"

definition kblocks :: "int list \<Rightarrow> int list" where
  "kblocks ps = filter (\<lambda>p. p \<noteq> 0 \<and> p \<noteq> ZERO_SIZE_PTR) ps"

lemma kblocks_simps [simp]:
  "kblocks [] = []"
  "kblocks (p # ps) = (if p = 0 \<or> p = ZERO_SIZE_PTR then kblocks ps else p # kblocks ps)"
  "kblocks (xs @ ys) = kblocks xs @ kblocks ys"
  by (simp_all add: kblocks_def)

lemma kblocks_zeros: "\<forall>p\<in>set ps. p = 0 \<Longrightarrow> kblocks ps = []"
  by (simp add: kblocks_def)

lemma free_all_blocks:
  assumes "distinct (kblocks ps)" "set (kblocks ps) \<subseteq> dom (kh_live h)"
  shows "free_all h ps = Some (h\<lparr>kh_live := kh_live h |` (- set (kblocks ps))\<rparr>)"
  using assms
proof (induction ps arbitrary: h)
  case Nil
  have "kh_live h |` UNIV = kh_live h" by (rule ext) (simp add: restrict_map_def)
  then show ?case by simp
next
  case (Cons p ps)
  show ?case
  proof (cases "p = 0 \<or> p = ZERO_SIZE_PTR")
    case True
    then show ?thesis using Cons by (simp add: kfree_def)
  next
    case False
    let ?h = "h\<lparr>kh_live := (kh_live h)(p := None)\<rparr>"
    have "set (kblocks ps) \<subseteq> dom (kh_live ?h)" using Cons.prems False by auto
    moreover have "distinct (kblocks ps)" using Cons.prems False by simp
    ultimately have "free_all ?h ps = Some (?h\<lparr>kh_live := kh_live ?h |` (- set (kblocks ps))\<rparr>)" using Cons.IH [of ?h] by blast
    moreover have "(kh_live h)(p := None) |` (- set (kblocks ps)) = kh_live h |` (- insert p (set (kblocks ps)))"
      by (rule ext) (simp add: restrict_map_def)
    ultimately show ?thesis using False Cons.prems by (simp add: kfree_def)
  qed
qed

lemma kmalloc_fresh:
  assumes "km_fresh km h" "kmalloc km sz h = (p, h')"
  shows "km_fresh km h'" "p = 0 \<longrightarrow> kh_live h' = kh_live h"
    "p \<noteq> 0 \<longrightarrow> kwrite_ok h' p sz"
    "kblocks [p] = [] \<longrightarrow> kh_live h' = kh_live h"
    "kblocks [p] = [p] \<longrightarrow> kh_live h' = (kh_live h)(p \<mapsto> sz) \<and> p \<notin> dom (kh_live h)"
proof -
  have "km n \<noteq> km (kh_calls h)" if "km (kh_calls h) \<noteq> 0" "Suc (kh_calls h) \<le> n" for n
    using assms(1) that unfolding km_fresh_def by (metis Suc_leD Suc_n_not_le_n order_refl)
  then show "km_fresh km h'"
    using assms unfolding kmalloc_def km_fresh_def by (fastforce simp: Let_def domIff split: if_splits)
qed (use assms in \<open>auto simp: kmalloc_def km_fresh_def kwrite_ok_def Let_def domIff split: if_splits\<close>)

section \<open>The first load\<close>

definition data_kinds :: "adfFwHdr_secInfo list \<Rightarrow> string list" where
  "data_kinds secs = filter (\<lambda>n. n \<in> {''STA'', ''CLI'', ''LOG''}) (map si_name secs)"

definition data_ptr :: "adfDspPriv \<Rightarrow> string \<Rightarrow> int" where
  "data_ptr priv n = (if n = ''STA'' then dp_staData priv else if n = ''CLI'' then dp_cliData priv else dp_logData priv)"

lemma load_data_first:
  assumes "si_name info \<in> {''STA'', ''CLI'', ''LOG''}" "data_ptr (ls_priv s) (si_name info) = 0"
  shows "\<exists>p h s'. load_data km s info = (p, s') \<and> kmalloc km (si_size info) (ls_heap s) = (p, h) \<and> ls_heap s' = h \<and>
           (\<forall>n\<in>{''STA'', ''CLI'', ''LOG''}. n \<noteq> si_name info \<longrightarrow> data_ptr (ls_priv s') n = data_ptr (ls_priv s) n)"
  using assms by (auto simp: load_data_def data_ptr_def split: prod.splits)

text \<open>
  What the loop does to the heap on a first load: the live blocks that were not there before are
  exactly the data pointers the descriptors are left with, each once, and nothing overruns.
\<close>

definition owns :: "kheap \<Rightarrow> kheap \<Rightarrow> int list \<Rightarrow> bool" where
  "owns h h' ps \<longleftrightarrow> distinct ps \<and> set ps \<subseteq> dom (kh_live h') \<and> set ps \<inter> dom (kh_live h) = {} \<and>
     kh_live h' |` (- set ps) = kh_live h"

lemma owns_same: "kh_live h' = kh_live h \<Longrightarrow> owns h h' []"
  by (auto simp: owns_def restrict_map_def)

lemma owns_add:
  assumes "kh_live h1 = (kh_live h)(p \<mapsto> sz)" "p \<notin> dom (kh_live h)" "owns h1 h2 ps"
  shows "owns h h2 (p # ps)"
proof -
  have "p \<notin> set ps" using assms(1,3) by (auto simp: owns_def)
  have r: "kh_live h2 x = kh_live h1 x" if "x \<notin> set ps" for x
    using assms(3) that by (metis (no_types, lifting) ComplI owns_def restrict_in)
  have "p \<in> dom (kh_live h2)" using r [OF \<open>p \<notin> set ps\<close>] assms(1) by auto
  moreover have "kh_live h2 |` (- set (p # ps)) = kh_live h"
  proof
    fix x
    show "(kh_live h2 |` (- set (p # ps))) x = kh_live h x"
    proof (cases "x \<in> set ps")
      case True
      then have "x \<notin> dom (kh_live h)" using assms(1,3) by (auto simp: owns_def)
      with True show ?thesis by (simp add: restrict_map_def domIff)
    next
      case False
      then show ?thesis using assms(1,2) r [of x] by (auto simp: restrict_map_def domIff)
    qed
  qed
  ultimately show ?thesis using assms \<open>p \<notin> set ps\<close> by (auto simp: owns_def)
qed

lemma owns_trans_same: "kh_live h1 = kh_live h \<Longrightarrow> owns h1 h2 ps \<Longrightarrow> owns h h2 ps"
  by (simp add: owns_def)

lemma load_sections_first:
  assumes "km_fresh km (ls_heap s)" "distinct (data_kinds secs)"
    "\<forall>n\<in>set (data_kinds secs). data_ptr (ls_priv s) n = 0" "\<forall>i\<in>set secs. si_data i = 0"
  shows "\<exists>s' secs' ok. load_sections km binCpy s secs = Some (s', secs', ok) \<and>
           owns (ls_heap s) (ls_heap s') (kblocks (map si_data secs'))"
  using assms
proof (induction secs arbitrary: s)
  case Nil
  then show ?case by (auto simp: owns_same)
next
  case (Cons info rest)
  have zero: "kblocks (map si_data rest) = []" using Cons.prems(4) by (simp add: kblocks_zeros)
  consider "si_name info = ''BIN''" | "si_name info \<in> {''STA'', ''CLI'', ''LOG''}"
    | "si_name info \<notin> {''BIN'', ''STA'', ''CLI'', ''LOG''}" by blast
  then show ?case
  proof cases
    case 1
    obtain s1 ok where b: "load_bin binCpy s info = (s1, ok)" by fastforce
    then have s1: "ls_heap s1 = ls_heap s" "ls_priv s1 = ls_priv s"
      by (auto simp: load_bin_def Let_def split: option.splits)
    with Cons.IH [of s1] Cons.prems 1 b zero show ?thesis
      by (cases ok) (auto simp: load_section_def data_kinds_def owns_same)
  next
    case 2
    obtain p h s1 where d: "load_data km s info = (p, s1)" "kmalloc km (si_size info) (ls_heap s) = (p, h)"
      "ls_heap s1 = h" "\<forall>n\<in>{''STA'', ''CLI'', ''LOG''}. n \<noteq> si_name info \<longrightarrow> data_ptr (ls_priv s1) n = data_ptr (ls_priv s) n"
      using load_data_first [OF 2, of s km] Cons.prems(3) 2 by (auto simp: data_kinds_def)
    note f = kmalloc_fresh [OF Cons.prems(1) d(2)]
    have nb: "si_name info \<noteq> ''BIN''" using 2 by auto
    show ?thesis
    proof (cases "p = 0")
      case True
      then have "load_section km binCpy s info = Some (s1, info\<lparr>si_data := 0\<rparr>, False)"
        using d(1) 2 nb by (simp add: load_section_def)
      then show ?thesis using True f(2) d(3) zero by (auto simp: owns_same)
    next
      case False
      have ih: "\<exists>s' secs' ok. load_sections km binCpy s1 rest = Some (s', secs', ok) \<and>
          owns h (ls_heap s') (kblocks (map si_data secs'))"
      proof -
        have k: "data_kinds (info # rest) = si_name info # data_kinds rest" using 2 by (auto simp: data_kinds_def)
        have "\<forall>n\<in>set (data_kinds rest). data_ptr (ls_priv s1) n = 0"
        proof
          fix n assume n: "n \<in> set (data_kinds rest)"
          then have "n \<noteq> si_name info" using Cons.prems(2) unfolding k by auto
          moreover have "n \<in> {''STA'', ''CLI'', ''LOG''}" using n unfolding data_kinds_def by simp
          ultimately show "data_ptr (ls_priv s1) n = 0"
            using d(4) Cons.prems(3) k n by (metis list.set_intros(2))
        qed
        then show ?thesis using Cons.IH [of s1] Cons.prems k d(3) f(1) by simp
      qed
      then obtain s' secs' ok where r: "load_sections km binCpy s1 rest = Some (s', secs', ok)"
        "owns h (ls_heap s') (kblocks (map si_data secs'))" by blast
      have sec: "load_section km binCpy s info = Some (s1, info\<lparr>si_data := p\<rparr>, True)"
        using False f(3) d(1,3) 2 nb by (simp add: load_section_def)
      have "owns (ls_heap s) (ls_heap s') (kblocks (p # map si_data secs'))"
      proof (cases "p = ZERO_SIZE_PTR")
        case True
        then have "kh_live h = kh_live (ls_heap s)" using f(4) by simp
        from owns_trans_same [OF this r(2)] True show ?thesis by simp
      next
        case False
        with \<open>p \<noteq> 0\<close> f(5) have "kh_live h = (kh_live (ls_heap s))(p \<mapsto> si_size info)" "p \<notin> dom (kh_live (ls_heap s))" by auto
        from owns_add [OF this r(2)] False \<open>p \<noteq> 0\<close> show ?thesis by simp
      qed
      then show ?thesis using sec r(1) by simp
    qed
  next
    case 3
    with Cons.IH [of s] Cons.prems show ?thesis by (auto simp: load_section_def data_kinds_def)
  qed
qed


definition adf_unloaded :: adfDspPriv where
  "adf_unloaded = \<lparr>dp_header = None, dp_staData = 0, dp_cliData = 0, dp_logData = 0\<rparr>"

lemma data_ptr_unloaded [simp]: "data_ptr adf_unloaded n = 0"
  by (simp add: data_ptr_def adf_unloaded_def)

lemma load_header_fits:
  assumes "length secs < 2 ^ 26"
  shows "0 < load_header_size secs" "0 < u32w (load_header_size secs + 7) div 8 * 8"
    "load_header_size secs \<le> u32w (load_header_size secs + 7) div 8 * 8"
proof -
  have n: "int (length secs) < 2 ^ 26" using assms by (metis of_nat_less_iff of_nat_numeral of_nat_power)
  then have e: "load_header_size secs = 128 + int (length secs) * 32"
    by (simp add: load_header_size_def u32w_def ADF_FW_HDRLEN_def)
  have "u32w (load_header_size secs + 7) = 135 + int (length secs) * 32" using n unfolding e by (simp add: u32w_def)
  with e show "0 < load_header_size secs" "0 < u32w (load_header_size secs + 7) div 8 * 8"
    "load_header_size secs \<le> u32w (load_header_size secs + 7) div 8 * 8" by simp_all
qed

lemma owns_free:
  assumes "owns h h' (kblocks (ps @ [blk]))"
  shows "\<exists>h''. free_all h' (ps @ [blk]) = Some h'' \<and> kh_live h'' = kh_live h"
proof -
  have "distinct (kblocks (ps @ [blk]))" "set (kblocks (ps @ [blk])) \<subseteq> dom (kh_live h')"
    "kh_live h' |` (- set (kblocks (ps @ [blk]))) = kh_live h" using assms unfolding owns_def by blast+
  then show ?thesis using free_all_blocks [of "ps @ [blk]" h'] by simp
qed

lemma owns_perm: "set qs = set ps \<Longrightarrow> distinct qs \<Longrightarrow> owns h h' ps \<Longrightarrow> owns h h' qs"
  by (simp add: owns_def)

text \<open>The whole first load: either it succeeds and owns what it allocated, or it gave it all back.\<close>

lemma adfLoad_init_first:
  assumes "km_fresh km h" "distinct (data_kinds (fw_secs src))" "\<forall>i\<in>set (fw_secs src). si_data i = 0"
    "dspId < DSP_CORE_NUM" "length (fw_secs src) < 2 ^ 26"
  shows "(\<exists>priv' h' blk secs. adfLoad_init km src dst sz binCpy dspId adf_unloaded h = Some (ADF_STATUS_OK, priv', h') \<and>
            dp_header priv' = Some (blk, secs) \<and> owns h h' (kblocks (map si_data secs @ [blk]))) \<or>
         (\<exists>h'. adfLoad_init km src dst sz binCpy dspId adf_unloaded h = Some (ADF_STATUS_GENERAL_ERROR, adf_unloaded, h') \<and>
            kh_live h' = kh_live h)"
proof -
  let ?sz = "u32w (load_header_size (fw_secs src) + 7) div 8 * 8"
  note hdr = load_header_fits [OF assms(5)]
  obtain blk h1 where k: "kmalloc km ?sz h = (blk, h1)" by fastforce
  note f = kmalloc_fresh [OF assms(1) k]
  show ?thesis
  proof (cases "blk = 0")
    case True
    with k f(2) assms(4) show ?thesis
      by (auto simp: adfLoad_init_def adfLoad_getDspPriv_def load_error_def adf_unloaded_def)
  next
    case False
    let ?s0 = "\<lparr>ls_priv = adf_unloaded, ls_heap = h1, ls_binSize = 0, ls_baseAddr = 0, ls_hostDst = dst, ls_copies = []\<rparr>"
    have b: "blk \<noteq> ZERO_SIZE_PTR" using k assms(1) hdr(2) by (auto simp: kmalloc_def km_fresh_def Let_def)
    have w: "kwrite_ok h1 blk (load_header_size (fw_secs src))"
      using f(5) False b hdr(3) by (simp add: kwrite_ok_def)
    obtain s secs ok where l: "load_sections km binCpy ?s0 (fw_secs src) = Some (s, secs, ok)"
      and o: "owns h1 (ls_heap s) (kblocks (map si_data secs))"
      using load_sections_first [of km ?s0 "fw_secs src" binCpy] f(1) assms(2,3) data_ptr_unloaded by auto
    have "kh_live h1 = (kh_live h)(blk \<mapsto> ?sz)" "blk \<notin> dom (kh_live h)" using f(5) False b by auto
    then have "owns h (ls_heap s) (blk # kblocks (map si_data secs))" using o by (rule owns_add)
    then have o': "owns h (ls_heap s) (kblocks (map si_data secs @ [blk]))"
      by (rule owns_perm [rotated 2]) (use False b \<open>owns h (ls_heap s) _\<close> in \<open>auto simp: owns_def\<close>)
    obtain h'' where "free_all (ls_heap s) (map si_data secs @ [blk]) = Some h''" "kh_live h'' = kh_live h"
      using owns_free [OF o'] by blast
    with False k w l o' assms(4) show ?thesis
      by (auto simp: adfLoad_init_def adfLoad_getDspPriv_def load_error_def adf_unloaded_def Let_def)
  qed
qed

section \<open>The error path and untrusted images\<close>

definition no_block :: "kheap \<Rightarrow> int \<Rightarrow> bool" where
  "no_block h d \<longleftrightarrow> d \<noteq> 0 \<and> d \<noteq> ZERO_SIZE_PTR \<and> d \<notin> dom (kh_live h)"

lemma free_all_no_block: "no_block h d \<Longrightarrow> d \<in> set ps \<Longrightarrow> free_all h ps = None"
proof (induction ps arbitrary: h)
  case Nil
  then show ?case by simp
next
  case (Cons p ps)
  show ?case
  proof (cases "kfree h p")
    case None
    then show ?thesis by simp
  next
    case (Some h')
    then have "no_block h' d" "p \<noteq> d" using Cons.prems(1) by (auto simp: kfree_def no_block_def split: if_splits)
    then show ?thesis using Cons Some by simp
  qed
qed

lemma kmalloc_no_block: "no_block h d \<Longrightarrow> \<forall>n. km n \<noteq> d \<Longrightarrow> no_block (snd (kmalloc km sz h)) d"
  by (auto simp: kmalloc_def no_block_def Let_def)

lemma load_section_no_block:
  assumes "no_block (ls_heap s) d" "\<forall>n. km n \<noteq> d" "load_section km binCpy s info = Some (s', info', ok)"
  shows "no_block (ls_heap s') d \<and> (si_name info \<notin> {''STA'', ''CLI'', ''LOG''} \<longrightarrow> info' = info)"
proof -
  have "no_block (ls_heap (snd (load_data km s info))) d"
    using assms(1) kmalloc_no_block [OF assms(1,2), of "si_size info"] by (auto simp: load_data_def split: prod.splits)
  moreover have "ls_heap (fst (load_bin binCpy s info)) = ls_heap s"
    by (simp add: load_bin_def Let_def split: option.splits)
  ultimately show ?thesis using assms(1,3)
    by (cases "load_data km s info"; cases "load_bin binCpy s info") (auto simp: load_section_def split: if_splits)
qed

lemma load_sections_no_block:
  assumes "no_block (ls_heap s) d" "\<forall>n. km n \<noteq> d" "load_sections km binCpy s secs = Some (s', secs', ok)"
    "i \<in> set secs" "si_name i \<notin> {''STA'', ''CLI'', ''LOG''}"
  shows "no_block (ls_heap s') d \<and> i \<in> set secs'"
proof -
  have "no_block (ls_heap s') d \<and> {i \<in> set secs. si_name i \<notin> {''STA'', ''CLI'', ''LOG''}} \<subseteq> set secs'"
    using assms(1,3)
  proof (induction secs arbitrary: s secs')
    case Nil
    then show ?case by simp
  next
    case (Cons info rest)
    obtain s1 info1 ok1 where l: "load_section km binCpy s info = Some (s1, info1, ok1)"
      using Cons.prems(2) by (auto split: option.splits)
    note n = load_section_no_block [OF Cons.prems(1) assms(2) l]
    show ?case
    proof (cases ok1)
      case False
      then show ?thesis using Cons.prems(2) l n by auto
    next
      case True
      then obtain rest1 where "load_sections km binCpy s1 rest = Some (s', rest1, ok)" "secs' = info1 # rest1"
        using Cons.prems(2) l by (auto split: option.splits)
      with Cons.IH [of s1 rest1] n show ?thesis by auto
    qed
  qed
  with assms(4,5) show ?thesis by blast
qed

text \<open>Whether the platform's copy function refuses (or is not given).\<close>

definition copy_fails :: "(int \<Rightarrow> int \<Rightarrow> int \<Rightarrow> bool) option \<Rightarrow> bool" where
  "copy_fails binCpy \<longleftrightarrow> (case binCpy of None \<Rightarrow> True | Some f \<Rightarrow> \<forall>a o' n. \<not> f a o' n)"

lemma load_sections_copy_fails:
  assumes "copy_fails binCpy" "\<exists>i\<in>set secs. si_name i = ''BIN''" "load_sections km binCpy s secs = Some (s', secs', ok)"
  shows "\<not> ok"
  using assms(2,3)
proof (induction secs arbitrary: s secs')
  case (Cons info rest)
  show ?case
  proof (cases "si_name info = ''BIN''")
    case True
    then show ?thesis using Cons.prems(2) assms(1)
      by (auto simp: load_section_def load_bin_def Let_def copy_fails_def split: option.splits bool.splits prod.splits)
  next
    case False
    then show ?thesis using Cons.prems Cons.IH by (auto split: option.splits bool.splits)
  qed
qed simp

section \<open>Correctness of the loader\<close>


definition load_example_src :: adfFwHdr where
  "load_example_src = \<lparr>fw_magic = ADF_FW_MAGIC, fw_secs =
     [\<lparr>si_name = ''BIN'', si_addr = 4096, si_size = 64, si_offset = 256, si_data = 0\<rparr>,
      \<lparr>si_name = ''LOG'', si_addr = 8192, si_size = 32, si_offset = 0, si_data = 0\<rparr>]\<rparr>"

definition load_example_heap :: kheap where
  "load_example_heap = \<lparr>kh_live = (\<lambda>p. if p = 1000 then Some 8 else None), kh_calls = 0\<rparr>"

definition load_example_km :: "nat \<Rightarrow> int" where
  "load_example_km n = 4096 + 64 * int n"

lemma load_example_fresh: "km_fresh load_example_km load_example_heap"
  by (auto simp: km_fresh_def load_example_km_def load_example_heap_def ZERO_SIZE_PTR_def split: if_splits)


text \<open>An image in which some descriptor other than STA, CLI and LOG carries a pointer: when
  the copy of a BIN section fails, the error path hands that pointer, which the driver never
  allocated, to \<^verbatim>\<open>kfree\<close> (or the load faulted before).\<close>

theorem load_error_frees_image_pointer:
  assumes "dspId < DSP_CORE_NUM" "km_fresh km h" "length (fw_secs src) < 2 ^ 26" "km (kh_calls h) \<noteq> 0"
    "copy_fails binCpy" "\<exists>i\<in>set (fw_secs src). si_name i = ''BIN''"
    "i \<in> set (fw_secs src)" "si_name i \<notin> {''STA'', ''CLI'', ''LOG''}"
    "no_block h (si_data i)" "\<forall>n. km n \<noteq> si_data i"
  shows "adfLoad_init km src dst sz binCpy dspId adf_unloaded h = None"
proof -
  let ?sz = "u32w (load_header_size (fw_secs src) + 7) div 8 * 8"
  obtain h1 where k: "kmalloc km ?sz h = (km (kh_calls h), h1)"
    using load_header_fits(2) [OF assms(3)] by (simp add: kmalloc_def Let_def)
  let ?s0 = "\<lparr>ls_priv = adf_unloaded, ls_heap = h1, ls_binSize = 0, ls_baseAddr = 0, ls_hostDst = dst, ls_copies = []\<rparr>"
  have b: "no_block h1 (si_data i)" using kmalloc_no_block [OF assms(9,10), of ?sz] k by simp
  show ?thesis
  proof (cases "load_sections km binCpy ?s0 (fw_secs src)")
    case None
    then show ?thesis using k assms(1,4)
      by (simp add: adfLoad_init_def adfLoad_getDspPriv_def adf_unloaded_def Let_def)
  next
    case (Some r)
    then obtain s secs ok where l: "load_sections km binCpy ?s0 (fw_secs src) = Some (s, secs, ok)" by (cases r) auto
    have "\<not> ok" using load_sections_copy_fails [OF assms(5,6) l] .
    moreover have "free_all (ls_heap s) (map si_data secs @ [km (kh_calls h)]) = None"
      using load_sections_no_block [OF _ assms(10) l assms(7,8)] b by (intro free_all_no_block [of _ "si_data i"]) auto
    ultimately show ?thesis using k assms(1,4) l
      by (simp add: adfLoad_init_def adfLoad_getDspPriv_def load_error_def adf_unloaded_def Let_def)
  qed
qed

definition load_bad_src :: adfFwHdr where
  "load_bad_src = \<lparr>fw_magic = ADF_FW_MAGIC, fw_secs =
     [\<lparr>si_name = ''BIN'', si_addr = 4096, si_size = 64, si_offset = 256, si_data = 12345\<rparr>]\<rparr>"

theorem load_error_frees_image_pointer_witness:
  "adfLoad_init load_example_km load_bad_src 0 256 None 0 adf_unloaded load_example_heap = None"
proof (rule load_error_frees_image_pointer [OF _ load_example_fresh, where i = "hd (fw_secs load_bad_src)"])
  have "(12345 :: int) \<noteq> 4096 + 64 * int n" for n by presburger
  then show "\<forall>n. load_example_km n \<noteq> si_data (hd (fw_secs load_bad_src))"
    by (auto simp: load_example_km_def load_bad_src_def)
qed (simp_all add: load_bad_src_def DSP_CORE_NUM_def load_example_km_def load_example_heap_def copy_fails_def
       no_block_def ZERO_SIZE_PTR_def domIff)

end
