(* ===== verification/List_Sort.thy ===== *)
theory List_Sort
  imports Prelude "HOL-Library.Multiset"
begin

text \<open>
  The kernel's list sort, \<^verbatim>\<open>lib/list_sort.c\<close>, which the thermal coolers use to find the tightest
  limit. A linked list is the HOL list of its nodes in the order of the \<^verbatim>\<open>next\<close> links; the list of
  pending sublists is a list of lists, newest first, as the \<^verbatim>\<open>prev\<close> links chain them. Following a
  NULL link is the result \<open>None\<close>. The theory shows that this never happens, whatever the comparison
  function (the bit pattern of \<^verbatim>\<open>count\<close> and the number of pending lists stay in step), and that for
  a comparison by a key the result is the stable sort.
\<close>

section \<open>The code\<close>

fun list_merge :: "('a \<Rightarrow> 'a \<Rightarrow> int) \<Rightarrow> 'a list \<Rightarrow> 'a list \<Rightarrow> 'a list" where
  "list_merge cmp (a # as) (b # bs) =
     (if cmp a b \<le> 0 then a # (if as = [] then b # bs else list_merge cmp as (b # bs))
      else b # (if bs = [] then a # as else list_merge cmp (a # as) bs))"
| "list_merge cmp [] bs = bs"
| "list_merge cmp as [] = as"

text \<open>
  The final merge also restores the \<^verbatim>\<open>prev\<close> links; on the order of the nodes it does what
  \<^verbatim>\<open>merge\<close> does, with the remaining list appended node by node.
\<close>

fun merge_final :: "('a \<Rightarrow> 'a \<Rightarrow> int) \<Rightarrow> 'a list \<Rightarrow> 'a list \<Rightarrow> 'a list \<Rightarrow> 'a list" where
  "merge_final cmp tail (a # as) (b # bs) =
     (if cmp a b \<le> 0 then merge_final cmp (tail @ [a]) as (b # bs)
      else merge_final cmp (tail @ [b]) (a # as) bs)"
| "merge_final cmp tail [] bs = tail @ bs"
| "merge_final cmp tail as [] = tail @ as"

text \<open>
  One round's merge: walk past a pending list for every trailing one bit of the count, then merge
  the next two if a higher bit is set.
\<close>

fun merge_round :: "('a \<Rightarrow> 'a \<Rightarrow> int) \<Rightarrow> nat \<Rightarrow> 'a list list \<Rightarrow> 'a list list option" where
  "merge_round cmp bits pending =
     (if odd bits
      then case pending of [] \<Rightarrow> None
         | p # ps \<Rightarrow> (case merge_round cmp (bits div 2) ps of None \<Rightarrow> None | Some r \<Rightarrow> Some (p # r))
      else if bits = 0 then Some pending
      else case pending of a # b # ps \<Rightarrow> Some (list_merge cmp b a # ps) | _ \<Rightarrow> None)"

declare merge_round.simps [simp del]

fun sort_rounds :: "('a \<Rightarrow> 'a \<Rightarrow> int) \<Rightarrow> nat \<Rightarrow> 'a list list \<Rightarrow> 'a list \<Rightarrow> 'a list list option" where
  "sort_rounds cmp cnt pending [] = Some pending"
| "sort_rounds cmp cnt pending (x # xs) =
     (case merge_round cmp cnt pending of None \<Rightarrow> None
      | Some p \<Rightarrow> sort_rounds cmp (Suc cnt) ([x] # p) xs)"

fun merge_pending :: "('a \<Rightarrow> 'a \<Rightarrow> int) \<Rightarrow> 'a list \<Rightarrow> 'a list list \<Rightarrow> 'a list option" where
  "merge_pending cmp l [] = None"
| "merge_pending cmp l [p] = Some (merge_final cmp [] p l)"
| "merge_pending cmp l (p # q # ps) = merge_pending cmp (list_merge cmp p l) (q # ps)"

definition list_sort :: "('a \<Rightarrow> 'a \<Rightarrow> int) \<Rightarrow> 'a list \<Rightarrow> 'a list option" where
  "list_sort cmp xs =
     (if length xs \<le> 1 then Some xs
      else case sort_rounds cmp 0 [] xs of Some (l # ps) \<Rightarrow> merge_pending cmp l ps | _ \<Rightarrow> None)"

section \<open>The pending lists and the count\<close>

text \<open>
  How many lists are pending at each size, by the bits of the count from the lowest on: \<open>low\<close> is the
  bit below (taken as set below the lowest).
\<close>

fun pending_ok :: "bool \<Rightarrow> nat \<Rightarrow> 'a list list \<Rightarrow> bool" where
  "pending_ok low c ps =
     (if c = 0 then ps = []
      else let n = (if odd c then (if low then 1 else 0) else (if low then 2 else 1))
           in n \<le> length ps \<and> pending_ok (odd c) (c div 2) (drop n ps))"

declare pending_ok.simps [simp del]

lemma pending_ok_0 [simp]: "pending_ok low 0 ps \<longleftrightarrow> ps = []"
  by (simp add: pending_ok.simps)

lemma pending_ok_push: "0 < c \<Longrightarrow> pending_ok False c ps \<Longrightarrow> pending_ok True c (p # ps)"
  by (subst pending_ok.simps, subst (asm) pending_ok.simps) (auto split: if_splits)

lemma merge_round_ok:
  "pending_ok True c ps \<Longrightarrow> \<exists>r. merge_round cmp c ps = Some r \<and> pending_ok False (Suc c) r"
proof (induction c arbitrary: ps rule: less_induct)
  case (less c)
  show ?case
  proof (cases "odd c")
    case True
    then have c: "c \<noteq> 0" "c div 2 < c" "Suc c div 2 = Suc (c div 2)" "even (Suc c)" by presburger+
    obtain p qs where ps: "ps = p # qs" "pending_ok True (c div 2) qs"
      using less.prems True c(1) by (subst (asm) pending_ok.simps) (cases ps; simp)
    from less.IH [OF c(2) ps(2)] obtain r where r: "merge_round cmp (c div 2) qs = Some r"
      "pending_ok False (Suc (c div 2)) r" by blast
    have "pending_ok False (Suc c) (p # r)" using r(2) c by (subst pending_ok.simps) simp
    moreover have "merge_round cmp c ps = Some (p # r)" using True ps(1) r(1) by (subst merge_round.simps) simp
    ultimately show ?thesis by blast
  next
    case False
    then have c: "Suc c div 2 = c div 2" "odd (Suc c)" by presburger+
    show ?thesis
    proof (cases "c = 0")
      case True
      then show ?thesis using less.prems by (simp add: merge_round.simps pending_ok.simps)
    next
      case c0: False
      obtain a b qs where ps: "ps = a # b # qs" "pending_ok False (c div 2) qs"
        using less.prems False c0
        by (subst (asm) pending_ok.simps) (auto simp: numeral_2_eq_2 Suc_le_length_iff)
      have "0 < c div 2" using False c0 by presburger
      then have "pending_ok True (c div 2) (list_merge cmp b a # qs)" using ps(2) by (rule pending_ok_push)
      then have "pending_ok False (Suc c) (list_merge cmp b a # qs)" using c by (subst pending_ok.simps) simp
      moreover have "merge_round cmp c ps = Some (list_merge cmp b a # qs)"
        using False c0 ps(1) by (subst merge_round.simps) simp
      ultimately show ?thesis by blast
    qed
  qed
qed

lemma sort_rounds_ok:
  "pending_ok True c ps \<Longrightarrow> \<exists>r. sort_rounds cmp c ps xs = Some r \<and> pending_ok True (c + length xs) r"
proof (induction xs arbitrary: c ps)
  case Nil
  then show ?case by simp
next
  case (Cons x xs)
  obtain p where p: "merge_round cmp c ps = Some p" "pending_ok False (Suc c) p" using merge_round_ok [OF Cons.prems] by blast
  have "pending_ok True (Suc c) ([x] # p)" using pending_ok_push [OF _ p(2)] by simp
  from Cons.IH [OF this] p(1) show ?case by simp
qed

lemma pending_ok_nonempty: "pending_ok True c ps \<Longrightarrow> 0 < c \<Longrightarrow> ps \<noteq> []"
  by (subst (asm) pending_ok.simps) (auto split: if_splits)

lemma pending_ok_two:
  assumes "pending_ok True c ps" "2 \<le> c"
  shows "\<exists>a b qs. ps = a # b # qs"
proof (cases "odd c")
  case True
  then obtain p qs where ps: "ps = p # qs" "pending_ok True (c div 2) qs"
    using assms by (subst (asm) pending_ok.simps) (cases ps; simp)
  have "qs \<noteq> []" using pending_ok_nonempty [OF ps(2)] assms(2) by simp
  then show ?thesis using ps(1) by (cases qs) auto
next
  case False
  then show ?thesis using assms
    by (subst (asm) pending_ok.simps) (auto simp: numeral_2_eq_2 Suc_le_length_iff)
qed

lemma merge_pending_some: "ps \<noteq> [] \<Longrightarrow> \<exists>r. merge_pending cmp l ps = Some r"
  by (induction cmp l ps rule: merge_pending.induct) auto

section \<open>Sorting\<close>

definition cmp_by :: "('a \<Rightarrow> int) \<Rightarrow> ('a \<Rightarrow> 'a \<Rightarrow> int) \<Rightarrow> 'a set \<Rightarrow> bool" where
  "cmp_by key cmp A \<longleftrightarrow> (\<forall>a\<in>A. \<forall>b\<in>A. cmp a b \<le> 0 \<longleftrightarrow> key a \<le> key b)"

lemma list_merge_Cons:
  "list_merge cmp (a # as) (b # bs) =
     (if cmp a b \<le> 0 then a # list_merge cmp as (b # bs) else b # list_merge cmp (a # as) bs)"
  by (cases as; cases bs; simp)

lemma list_merge_Nil2 [simp]: "list_merge cmp as [] = as"
  by (cases as) simp_all

declare list_merge.simps(1) [simp del] list_merge_Cons [simp]

lemma merge_final_is_merge: "merge_final cmp tail as bs = tail @ list_merge cmp as bs"
  by (induction cmp tail as bs rule: merge_final.induct) simp_all

lemma mset_list_merge: "mset (list_merge cmp as bs) = mset as + mset bs"
proof (induction cmp as bs rule: list_merge.induct)
  case (1 cmp a as b bs)
  then show ?case by (cases "as = []"; cases "bs = []") simp_all
qed simp_all

lemma list_merge_sorted:
  assumes "cmp_by key cmp (set as \<union> set bs)" "sorted (map key as)" "sorted (map key bs)"
  shows "sorted (map key (list_merge cmp as bs)) \<and>
     filter (\<lambda>x. key x = k) (list_merge cmp as bs) = filter (\<lambda>x. key x = k) as @ filter (\<lambda>x. key x = k) bs"
  using assms
proof (induction cmp as bs rule: list_merge.induct)
  case (1 cmp a as b bs)
  have s: "set (list_merge cmp xs ys) = set xs \<union> set ys" for xs ys
    using mset_list_merge [of cmp xs ys] by (metis set_mset_mset set_mset_union)
  show ?case
  proof (cases "cmp a b \<le> 0")
    case True
    then have "key a \<le> key b" using 1(3) by (simp add: cmp_by_def)
    moreover have "sorted (map key (list_merge cmp as (b # bs))) \<and>
        filter (\<lambda>x. key x = k) (list_merge cmp as (b # bs)) = filter (\<lambda>x. key x = k) as @ filter (\<lambda>x. key x = k) (b # bs)"
      using 1(1) [OF True] 1(3-5) by (cases "as = []") (auto simp: cmp_by_def)
    ultimately show ?thesis using True 1(4,5) s by auto
  next
    case False
    then have l: "key b < key a" using 1(3) by (auto simp: cmp_by_def)
    have ih: "sorted (map key (list_merge cmp (a # as) bs)) \<and>
        filter (\<lambda>x. key x = k) (list_merge cmp (a # as) bs) = filter (\<lambda>x. key x = k) (a # as) @ filter (\<lambda>x. key x = k) bs"
      using 1(2) [OF False] 1(3-5) by (cases "bs = []") (auto simp: cmp_by_def)
    have "filter (\<lambda>x. key x = key b) (a # as) = []" using l 1(4) by (auto simp: filter_empty_conv)
    then show ?thesis using False ih 1(4,5) l s
      by (cases "key b = k") auto
  qed
qed simp_all

lemma list_merge_sort_key:
  assumes "cmp_by key cmp (set xs \<union> set ys)"
  shows "list_merge cmp (sort_key key xs) (sort_key key ys) = sort_key key (xs @ ys)"
proof (rule properties_for_sort_key [symmetric])
  show "mset (list_merge cmp (sort_key key xs) (sort_key key ys)) = mset (xs @ ys)" by (simp add: mset_list_merge)
next
  fix k
  show "filter (\<lambda>x. key k = key x) (list_merge cmp (sort_key key xs) (sort_key key ys)) = filter (\<lambda>x. key k = key x) (xs @ ys)"
    using list_merge_sorted [of key cmp "sort_key key xs" "sort_key key ys" "key k"] assms
    by (simp add: eq_commute [of "key k"] sort_key_stable)
next
  show "sorted (map key (list_merge cmp (sort_key key xs) (sort_key key ys)))"
    using list_merge_sorted [of key cmp "sort_key key xs" "sort_key key ys"] assms by simp
qed

text \<open>
  Every pending list is the stable sort of a run of the input, and the runs, oldest first, make up
  the input read so far.
\<close>

definition pending_sorted :: "('a \<Rightarrow> int) \<Rightarrow> 'a list list \<Rightarrow> 'a list \<Rightarrow> bool" where
  "pending_sorted key ps xs \<longleftrightarrow> (\<exists>runs. ps = map (sort_key key) runs \<and> concat (rev runs) = xs)"

lemma pending_sorted_ConsE:
  assumes "pending_sorted key (p # ps) xs"
  obtains run ys where "p = sort_key key run" "pending_sorted key ps ys" "xs = ys @ run"
proof -
  obtain runs where "p # ps = map (sort_key key) runs" "concat (rev runs) = xs" using assms unfolding pending_sorted_def by (elim exE conjE) (rule that)
  then show ?thesis using that unfolding pending_sorted_def by (cases runs) auto
qed

lemma merge_round_sorted:
  assumes "merge_round cmp c ps = Some r" "pending_sorted key ps xs" "cmp_by key cmp (set xs)"
  shows "pending_sorted key r xs"
proof -
  have "\<exists>runs'. r = map (sort_key key) runs' \<and> concat (rev runs') = concat (rev runs)"
    if "ps = map (sort_key key) runs" "cmp_by key cmp (set (concat runs))" for runs
    using assms(1) that
  proof (induction cmp c ps arbitrary: r runs rule: merge_round.induct)
    case (1 cmp c ps)
    show ?case
    proof (cases "odd c")
      case True
      then obtain p qs r' where q: "ps = p # qs" "merge_round cmp (c div 2) qs = Some r'" "r = p # r'"
        using 1(2) by (subst (asm) merge_round.simps) (auto split: list.splits option.splits)
      then obtain run runs1 where runs: "runs = run # runs1" "p = sort_key key run" "qs = map (sort_key key) runs1"
        using 1(3) by (cases runs) auto
      have "cmp_by key cmp (set (concat runs1))" using 1(4) runs(1) by (auto simp: cmp_by_def)
      then obtain runs2 where "r' = map (sort_key key) runs2" "concat (rev runs2) = concat (rev runs1)"
        using 1(1) [OF True q(1) q(2) runs(3)] by blast
      then show ?thesis using q runs by (intro exI [of _ "run # runs2"]) simp
    next
      case False
      show ?thesis
      proof (cases "c = 0")
        case True
        then show ?thesis using 1(2,3) by (subst (asm) merge_round.simps) auto
      next
        case c0: False
        obtain a b qs where q: "ps = a # b # qs" "r = list_merge cmp b a # qs"
          using 1(2) False c0 by (subst (asm) merge_round.simps) (auto split: list.splits)
        then obtain ra rb runs1 where runs: "runs = ra # rb # runs1" "a = sort_key key ra" "b = sort_key key rb"
          "qs = map (sort_key key) runs1" using 1(3) by (cases runs; cases "tl runs") auto
        have "cmp_by key cmp (set rb \<union> set ra)" using 1(4) runs(1) by (auto simp: cmp_by_def)
        then show ?thesis using q runs list_merge_sort_key [of key cmp rb ra]
          by (intro exI [of _ "(rb @ ra) # runs1"]) simp
      qed
    qed
  qed
  moreover have "set (concat runs) = set (concat (rev runs))" for runs :: "'a list list" by auto
  ultimately show ?thesis using assms(2,3) unfolding pending_sorted_def by metis
qed

lemma sort_rounds_sorted:
  assumes "sort_rounds cmp c ps ys = Some r" "pending_sorted key ps xs" "cmp_by key cmp (set (xs @ ys))"
  shows "pending_sorted key r (xs @ ys)"
  using assms
proof (induction ys arbitrary: c ps xs)
  case Nil
  then show ?case by simp
next
  case (Cons y ys)
  obtain p where p: "merge_round cmp c ps = Some p" "sort_rounds cmp (Suc c) ([y] # p) ys = Some r"
    using Cons.prems(1) by (auto split: option.splits)
  have "cmp_by key cmp (set xs)" using Cons.prems(3) by (auto simp: cmp_by_def)
  from merge_round_sorted [OF p(1) Cons.prems(2) this] obtain runs
    where "p = map (sort_key key) runs" "concat (rev runs) = xs" unfolding pending_sorted_def by blast
  then have "pending_sorted key ([y] # p) (xs @ [y])"
    unfolding pending_sorted_def by (intro exI [of _ "[y] # runs"]) simp
  from Cons.IH [OF p(2) this] Cons.prems(3) show ?case by simp
qed

lemma merge_pending_sorted:
  assumes "ps \<noteq> []" "pending_sorted key ps xs" "l = sort_key key ys" "cmp_by key cmp (set (xs @ ys))"
  shows "merge_pending cmp l ps = Some (sort_key key (xs @ ys))"
  using assms
proof (induction cmp l ps arbitrary: xs ys rule: merge_pending.induct)
  case (1 cmp l)
  then show ?case by simp
next
  case (2 cmp l p)
  then obtain run where "p = sort_key key run" "run = xs" by (auto simp: pending_sorted_def)
  then show ?case using 2 list_merge_sort_key [of key cmp xs ys] by (simp add: merge_final_is_merge)
next
  case (3 cmp l p q ps)
  from 3(3) obtain run zs where r: "p = sort_key key run" "pending_sorted key (q # ps) zs" "xs = zs @ run"
    by (rule pending_sorted_ConsE)
  have "cmp_by key cmp (set run \<union> set ys)" using 3(5) r(3) by (auto simp: cmp_by_def)
  then have "list_merge cmp p l = sort_key key (run @ ys)" using list_merge_sort_key r(1) 3(4) by metis
  then show ?case using 3(1) [of zs "run @ ys"] 3(5) r(2,3) by simp
qed

lemma list_sort_total: "\<exists>r. list_sort cmp xs = Some r"
proof (cases "length xs \<le> 1")
  case True
  then show ?thesis by (simp add: list_sort_def)
next
  case False
  obtain r where r: "sort_rounds cmp 0 [] xs = Some r" "pending_ok True (length xs) r"
    using sort_rounds_ok [of 0 "[]" cmp xs] by auto
  from pending_ok_two [OF r(2)] False obtain a b qs where "r = a # b # qs" by auto
  then show ?thesis using r(1) False merge_pending_some [of "b # qs" cmp a] by (simp add: list_sort_def)
qed

lemma list_sort_by_key:
  assumes "cmp_by key cmp (set xs)"
  shows "list_sort cmp xs = Some (sort_key key xs)"
proof (cases "length xs \<le> 1")
  case True
  then have "sort_key key xs = xs" by (cases xs; cases "tl xs") auto
  then show ?thesis using True by (simp add: list_sort_def)
next
  case False
  obtain r where r: "sort_rounds cmp 0 [] xs = Some r" "pending_ok True (length xs) r"
    using sort_rounds_ok [of 0 "[]" cmp xs] by auto
  from pending_ok_two [OF r(2)] False obtain a b qs where q: "r = a # b # qs" by auto
  have "pending_sorted key [] []" by (simp add: pending_sorted_def)
  from sort_rounds_sorted [OF r(1) this] assms have "pending_sorted key r xs" by simp
  then obtain run zs where z: "a = sort_key key run" "pending_sorted key (b # qs) zs" "xs = zs @ run"
    unfolding q by (rule pending_sorted_ConsE)
  from merge_pending_sorted [OF _ z(2,1), of cmp] assms z(3)
  have "merge_pending cmp a (b # qs) = Some (sort_key key xs)" by simp
  then show ?thesis using r(1) q False by (simp add: list_sort_def)
qed

section \<open>Correctness of the sort\<close>

text \<open>C18: the kernel's list sort never follows a NULL link, for any comparison function and any
  list, and for a comparison that orders the elements by a key it returns the stable sort of the
  list by that key.\<close>

theorem list_sort_is_stable_sort:
  "(\<exists>r. list_sort cmp xs = Some r) \<and> (cmp_by key cmp (set xs) \<longrightarrow> list_sort cmp xs = Some (sort_key key xs))"
  using list_sort_total list_sort_by_key by blast

theorem list_sort_is_stable_sort_witness:
  "list_sort (\<lambda>a b. fst a - fst b) [(3, 0 :: nat), (1, 1), (3, 2), (2, 3), (1, 4)]
     = Some [(1, 1), (1, 4), (2, 3), (3, 0), (3, 2)]"
proof -
  have "cmp_by fst (\<lambda>a b. fst a - fst b) (set [(3 :: int, 0 :: nat), (1, 1), (3, 2), (2, 3), (1, 4)])"
    by (simp add: cmp_by_def)
  then have "list_sort (\<lambda>a b. fst a - fst b) [(3, 0 :: nat), (1, 1), (3, 2), (2, 3), (1, 4)]
      = Some (sort_key fst [(3, 0 :: nat), (1, 1), (3, 2), (2, 3), (1, 4)])"
    using list_sort_is_stable_sort by blast
  then show ?thesis by simp
qed

end
