(* ===== verification/Vs_Interface.thy ===== *)
theory Vs_Interface
  imports List_Sort
begin

text \<open>
  The platform interface of the virtual-sensor thermal driver,
  \<^verbatim>\<open>drivers/thermal/virtual_sensor_tablet/virtual_sensor_interface.c\<close>: reading temperatures, applying
  limits, the choice of a CPU frequency for a power budget (both configurations), the tightest of
  several cooler levels, and the device tree readers. The power supply framework, the PMIC and ADC
  readings, the cpufreq tables and the device tree are inputs (record \<open>vs_env\<close> and \<open>device_node\<close>);
  the properties written to power supplies, the brightness limits and the frequency limits are
  recorded in the state \<open>vs_if\<close>. A read outside an array or through NULL is \<open>None\<close>.
\<close>

section \<open>Data\<close>

definition THERMAL_MAX_TRIPS :: nat where "THERMAL_MAX_TRIPS = 12"
definition THERMAL_NAME_LENGTH :: nat where "THERMAL_NAME_LENGTH = 20"
definition OFFLINE_TEMP :: int where "OFFLINE_TEMP = 25000"

datatype power_supply_property = PSP_ONLINE | PSP_TEMP | PSP_TYPE | PSP_CONSTANT_CHARGE_CURRENT
  | PSP_INPUT_CURRENT_LIMIT | PSP_THERMAL_INPUT_POWER_LIMIT

record em_cap_state =
  em_frequency :: int
  em_power :: int

record cpufreq_policy =
  pol_cpus :: int \<comment> \<open>weight of the mask of related CPUs\<close>
  pol_em :: "em_cap_state list option"
  pol_valid :: nat \<comment> \<open>valid entries of the frequency table\<close>

record vs_env =
  psy_found :: "string \<Rightarrow> bool"
  psy_get :: "string \<Rightarrow> power_supply_property \<Rightarrow> int \<times> int"
  psy_set :: "string \<Rightarrow> power_supply_property \<Rightarrow> int \<Rightarrow> int"
  pmic_temp :: "int \<Rightarrow> int"
  gadc_temp :: "string \<Rightarrow> int"
  cpu_policy :: "int \<Rightarrow> cpufreq_policy option"
  kzalloc_ok :: bool
  qos_add :: int

record vs_cpufreq_cdev =
  vc_max_level :: nat
  vc_em :: "em_cap_state list"
  vc_cpus :: int
  vc_qos :: "int option" \<comment> \<open>the frequency limit, once the request was added\<close>

record vs_if =
  bat_psy :: bool
  wpc_psy :: bool
  chg_psy :: bool
  cpufreq_cdev :: "vs_cpufreq_cdev option"
  cpufreq_cdev_mc :: "vs_cpufreq_cdev option list"
  psy_sets :: "(string \<times> power_supply_property \<times> int) list"
  brightness_sets :: "int list"

definition FREQ_QOS_MAX_DEFAULT_VALUE :: int where "FREQ_QOS_MAX_DEFAULT_VALUE = 2147483647"

section \<open>CPU power budget, one frequency domain\<close>

definition vs_init_cpufreq_limit_power :: "vs_env \<Rightarrow> vs_if \<Rightarrow> int \<times> vs_if" where
  "vs_init_cpufreq_limit_power env s =
     (case cpu_policy env 0 of None \<Rightarrow> (-1, s)
      | Some policy \<Rightarrow>
          (case pol_em policy of None \<Rightarrow> (-1, s)
           | Some em \<Rightarrow>
               if pol_valid policy = 0 then (-1, s)
               else if \<not> kzalloc_ok env then (- ENOMEM, s)
               else let c = \<lparr>vc_max_level = pol_valid policy - 1, vc_em = em, vc_cpus = pol_cpus policy,
                             vc_qos = (if qos_add env < 0 then None else Some FREQ_QOS_MAX_DEFAULT_VALUE)\<rparr>
                    in (qos_add env, s\<lparr>cpufreq_cdev := Some c\<rparr>)))"

text \<open>The loop that looks down the table for an entry the power allows; it stops at entry 0.\<close>

fun power_level :: "em_cap_state list \<Rightarrow> nat \<Rightarrow> int \<Rightarrow> nat option" where
  "power_level em 0 pw = Some 0"
| "power_level em (Suc i) pw =
     (if length em \<le> Suc i then None
      else if pw \<ge> em_power (em ! Suc i) then Some (Suc i) else power_level em i pw)"

definition em_freq :: "em_cap_state list \<Rightarrow> nat \<Rightarrow> int option" where
  "em_freq em i = (if i < length em then Some (em_frequency (em ! i)) else None)"

definition vs_cpu_power_to_freq :: "em_cap_state list \<Rightarrow> nat \<Rightarrow> int \<Rightarrow> int option" where
  "vs_cpu_power_to_freq em max_level pw =
     (if pw = 0 then em_freq em max_level
      else case power_level em max_level pw of None \<Rightarrow> None | Some i \<Rightarrow> em_freq em i)"

definition freq_qos_update_request :: "vs_cpufreq_cdev \<Rightarrow> int \<Rightarrow> vs_cpufreq_cdev" where
  "freq_qos_update_request c f = (case vc_qos c of None \<Rightarrow> c | Some _ \<Rightarrow> c\<lparr>vc_qos := Some f\<rparr>)"

definition set_cpufreq_thermal_power :: "vs_env \<Rightarrow> vs_if \<Rightarrow> int \<Rightarrow> (int \<times> vs_if) option" where
  "set_cpufreq_thermal_power env s level =
     (let budget = u32w level;
          (ret, s) = (if cpufreq_cdev s = None then vs_init_cpufreq_limit_power env s else (0, s))
      in case cpufreq_cdev s of None \<Rightarrow> Some (-1, s)
         | Some c \<Rightarrow>
             if vc_cpus c = 0 then None
             else case vs_cpu_power_to_freq (vc_em c) (vc_max_level c) (budget div vc_cpus c) of None \<Rightarrow> None
                  | Some f \<Rightarrow> Some (ret, s\<lparr>cpufreq_cdev := Some (freq_qos_update_request c f)\<rparr>))"

section \<open>CPU power budget, two clusters\<close>

definition cpu_polices :: "int list" where "cpu_polices = [0, 6]"

definition vs_init_cpufreq_limit_power_mc :: "vs_env \<Rightarrow> vs_if \<Rightarrow> nat \<Rightarrow> int \<Rightarrow> int \<times> vs_if" where
  "vs_init_cpufreq_limit_power_mc env s grp cpu =
     (case cpu_policy env cpu of None \<Rightarrow> (-1, s)
      | Some policy \<Rightarrow>
          (case pol_em policy of None \<Rightarrow> (-1, s)
           | Some em \<Rightarrow>
               if pol_valid policy = 0 then (-1, s)
               else if \<not> kzalloc_ok env then (- ENOMEM, s\<lparr>cpufreq_cdev_mc := (cpufreq_cdev_mc s)[grp := None]\<rparr>)
               else let c = \<lparr>vc_max_level = pol_valid policy - 1, vc_em = em, vc_cpus = pol_cpus policy,
                             vc_qos = Some FREQ_QOS_MAX_DEFAULT_VALUE\<rparr>
                    in if qos_add env < 0 then (qos_add env, s\<lparr>cpufreq_cdev_mc := (cpufreq_cdev_mc s)[grp := None]\<rparr>)
                       else (qos_add env, s\<lparr>cpufreq_cdev_mc := (cpufreq_cdev_mc s)[grp := Some c]\<rparr>)))"

definition vs_cpu_power_to_freq_mc :: "em_cap_state list \<Rightarrow> nat \<Rightarrow> int \<Rightarrow> int option" where
  "vs_cpu_power_to_freq_mc em max_level pw =
     (case power_level em max_level pw of None \<Rightarrow> None | Some i \<Rightarrow> em_freq em i)"

definition get_cpu_cluster_max_power :: "vs_cpufreq_cdev option \<Rightarrow> int option" where
  "get_cpu_cluster_max_power c =
     (case c of None \<Rightarrow> None
      | Some c \<Rightarrow> if vc_max_level c < length (vc_em c)
                  then Some (s32 (em_power (vc_em c ! vc_max_level c) * vc_cpus c)) else None)"

definition get_cpu_cluster_min_power :: "vs_cpufreq_cdev option \<Rightarrow> int option" where
  "get_cpu_cluster_min_power c =
     (case c of None \<Rightarrow> None
      | Some c \<Rightarrow> if vc_em c \<noteq> [] then Some (s32 (em_power (vc_em c ! 0) * vc_cpus c)) else None)"

text \<open>How the budget is split between the little (first) and the large (second) cluster.\<close>

definition split_budget :: "int \<Rightarrow> int \<Rightarrow> int \<Rightarrow> int \<Rightarrow> int \<times> int" where
  "split_budget budget little_max little_min large_min =
     (let remain = s32 (budget - u32w (little_min + large_min)) in
      if remain > 0 then
        if remain \<le> u32w (little_max - u32w little_min) then (u32w (little_min + remain), u32w large_min)
        else (u32w little_max, u32w (budget - little_max))
      else (u32w little_min, u32w large_min))"

definition cluster_limit :: "vs_cpufreq_cdev \<Rightarrow> int \<Rightarrow> vs_cpufreq_cdev option" where
  "cluster_limit c budget =
     (if vc_cpus c = 0 then None
      else case vs_cpu_power_to_freq_mc (vc_em c) (vc_max_level c) (budget div vc_cpus c) of None \<Rightarrow> None
           | Some f \<Rightarrow> Some (freq_qos_update_request c f))"

definition set_cpufreq_thermal_power_mc :: "vs_env \<Rightarrow> vs_if \<Rightarrow> int \<Rightarrow> (int \<times> vs_if) option" where
  "set_cpufreq_thermal_power_mc env s level =
     (let budget = u32w level;
          s = (if cpufreq_cdev_mc s ! 0 = None
               then snd (vs_init_cpufreq_limit_power_mc env (snd (vs_init_cpufreq_limit_power_mc env s 0 (cpu_polices ! 0)))
                      1 (cpu_polices ! 1)) else s);
          c0 = cpufreq_cdev_mc s ! 0; c1 = cpufreq_cdev_mc s ! 1
      in case (get_cpu_cluster_max_power c0, get_cpu_cluster_min_power c0, get_cpu_cluster_min_power c1) of
           (Some max0, Some min0, Some min1) \<Rightarrow>
             (case (if budget = 0 then map_option (\<lambda>max1. u32w (max0 + max1)) (get_cpu_cluster_max_power c1) else Some budget) of
                None \<Rightarrow> None
              | Some budget \<Rightarrow>
                  let (b0, b1) = split_budget budget max0 min0 min1
                  in case (cluster_limit (the c0) b0, cluster_limit (the c1) b1) of
                       (Some d0, Some d1) \<Rightarrow> Some (0, s\<lparr>cpufreq_cdev_mc := [Some d0, Some d1]\<rparr>)
                     | _ \<Rightarrow> None)
         | _ \<Rightarrow> None)"

section \<open>Power supplies and temperatures\<close>

definition WPC_NAME :: string where "WPC_NAME = ''Wireless''"
definition BATTERY_NAME :: string where "BATTERY_NAME = ''battery''"
definition CHARGER_NAME :: string where "CHARGER_NAME = ''mtk-master-charger''"
definition ntc_name :: "string list" where
  "ntc_name = [''charge'', ''pmic'', ''mux_sd'', ''mux_9221'', ''ap_ntc'', ''usb_ntc'']"

definition vs_wpc_read_temp :: "vs_env \<Rightarrow> vs_if \<Rightarrow> int \<times> vs_if" where
  "vs_wpc_read_temp env s =
     (if \<not> wpc_psy s \<and> \<not> psy_found env WPC_NAME then (OFFLINE_TEMP, s)
      else let s = s\<lparr>wpc_psy := True\<rparr>; (ret, val) = psy_get env WPC_NAME PSP_TEMP
           in if ret \<noteq> 0 then (OFFLINE_TEMP, s) else (s32 (val * 1000), s))"

definition vs_get_wpc_online :: "vs_env \<Rightarrow> vs_if \<Rightarrow> int \<times> vs_if" where
  "vs_get_wpc_online env s =
     (if \<not> wpc_psy s \<and> \<not> psy_found env WPC_NAME then (0, s)
      else let s = s\<lparr>wpc_psy := True\<rparr>; (ret, val) = psy_get env WPC_NAME PSP_ONLINE
           in if ret \<noteq> 0 then (0, s) else (val, s))"

definition get_battery_temp :: "vs_env \<Rightarrow> vs_if \<Rightarrow> int \<times> vs_if" where
  "get_battery_temp env s =
     (if \<not> bat_psy s \<and> \<not> psy_found env BATTERY_NAME then (OFFLINE_TEMP, s)
      else let s = s\<lparr>bat_psy := True\<rparr>; (ret, val) = psy_get env BATTERY_NAME PSP_TEMP
           in if ret \<noteq> 0 then (OFFLINE_TEMP, s) else (s32 (val * 100), s))"

definition set_charging_level_limit :: "vs_env \<Rightarrow> vs_if \<Rightarrow> int \<Rightarrow> power_supply_property \<Rightarrow> int \<times> vs_if" where
  "set_charging_level_limit env s level_limit prop =
     (if \<not> bat_psy s \<and> \<not> psy_found env BATTERY_NAME then (-1, s)
      else (psy_set env BATTERY_NAME prop level_limit,
            s\<lparr>bat_psy := True, psy_sets := psy_sets s @ [(BATTERY_NAME, prop, level_limit)]\<rparr>))"

definition get_charger_temp :: "vs_env \<Rightarrow> vs_if \<Rightarrow> int \<times> vs_if" where
  "get_charger_temp env s =
     (if \<not> chg_psy s \<and> \<not> psy_found env CHARGER_NAME then (OFFLINE_TEMP, s)
      else let s = s\<lparr>chg_psy := True\<rparr>; (ret, val) = psy_get env CHARGER_NAME PSP_TEMP
           in if ret \<noteq> 0 then (OFFLINE_TEMP, s) else (s32 (val * 100), s))"

definition fod_set_charging_level_limit :: "vs_env \<Rightarrow> vs_if \<Rightarrow> int \<Rightarrow> power_supply_property \<Rightarrow> int \<times> vs_if" where
  "fod_set_charging_level_limit env s level_limit prop =
     (if \<not> wpc_psy s \<and> \<not> psy_found env WPC_NAME then (-1, s)
      else (psy_set env WPC_NAME prop level_limit,
            s\<lparr>wpc_psy := True, psy_sets := psy_sets s @ [(WPC_NAME, prop, level_limit)]\<rparr>))"

datatype vs_thermal_sensor_id = VS_SENSOR_WMT | VS_SENSOR_BATTERY | VS_SENSOR_GPU | VS_SENSOR_PMIC
  | VS_SENSOR_CPU | VS_SENSOR_THERMISTOR | VS_SENSOR_WIRELESS_CHG | VS_SENSOR_CHARGER | VS_SENSOR_COUNT

definition vs_thermal_sensor_of :: "int \<Rightarrow> vs_thermal_sensor_id" where
  "vs_thermal_sensor_of n =
     (if 0 \<le> n \<and> n < 8
      then [VS_SENSOR_WMT, VS_SENSOR_BATTERY, VS_SENSOR_GPU, VS_SENSOR_PMIC, VS_SENSOR_CPU, VS_SENSOR_THERMISTOR,
            VS_SENSOR_WIRELESS_CHG, VS_SENSOR_CHARGER] ! nat n else VS_SENSOR_COUNT)"

definition vs_thermal_sensor_get_temp :: "vs_env \<Rightarrow> vs_if \<Rightarrow> int \<Rightarrow> int \<Rightarrow> (int \<times> vs_if) option" where
  "vs_thermal_sensor_get_temp env s id' index =
     (case vs_thermal_sensor_of id' of
        VS_SENSOR_PMIC \<Rightarrow> Some (pmic_temp env index, s)
      | VS_SENSOR_BATTERY \<Rightarrow> Some (get_battery_temp env s)
      | VS_SENSOR_THERMISTOR \<Rightarrow>
          if 0 \<le> index \<and> nat index < length ntc_name then Some (gadc_temp env (ntc_name ! nat index), s) else None
      | VS_SENSOR_WIRELESS_CHG \<Rightarrow> Some (vs_wpc_read_temp env s)
      | VS_SENSOR_CHARGER \<Rightarrow> Some (get_charger_temp env s)
      | _ \<Rightarrow> Some (OFFLINE_TEMP, s))"

datatype vs_thermal_cooler_id = VS_COOLER_BCCT | VS_COOLER_BACKLIGHT | VS_COOLER_BUDGET
  | VS_COOLER_WIRELESS_CHG | VS_COOLER_FOD_WIRELESS_CHG | VS_COOLER_COUNT

definition vs_thermal_cooler_of :: "int \<Rightarrow> vs_thermal_cooler_id" where
  "vs_thermal_cooler_of n =
     (if 0 \<le> n \<and> n < 5
      then [VS_COOLER_BCCT, VS_COOLER_BACKLIGHT, VS_COOLER_BUDGET, VS_COOLER_WIRELESS_CHG,
            VS_COOLER_FOD_WIRELESS_CHG] ! nat n else VS_COOLER_COUNT)"

definition vs_set_cooling_level :: "vs_env \<Rightarrow> vs_if \<Rightarrow> vs_thermal_cooler_id \<Rightarrow> int \<Rightarrow> (int \<times> vs_if) option" where
  "vs_set_cooling_level env s id' level_limit =
     (case id' of
        VS_COOLER_BUDGET \<Rightarrow> set_cpufreq_thermal_power env s level_limit
      | VS_COOLER_BCCT \<Rightarrow> Some (set_charging_level_limit env s
          (if level_limit = -1 then -1 else s32 (level_limit * 1000)) PSP_CONSTANT_CHARGE_CURRENT)
      | VS_COOLER_BACKLIGHT \<Rightarrow> Some (0, s\<lparr>brightness_sets := brightness_sets s @ [level_limit]\<rparr>)
      | VS_COOLER_WIRELESS_CHG \<Rightarrow> Some (set_charging_level_limit env s level_limit PSP_THERMAL_INPUT_POWER_LIMIT)
      | VS_COOLER_FOD_WIRELESS_CHG \<Rightarrow> Some (fod_set_charging_level_limit env s level_limit PSP_INPUT_CURRENT_LIMIT)
      | VS_COOLER_COUNT \<Rightarrow> Some (-1, s))"

text \<open>The debounce helper: the verdict, the previous temperature and the counter afterwards.\<close>

definition thermal_zone_debounce :: "int \<Rightarrow> int \<Rightarrow> int \<Rightarrow> int \<Rightarrow> int \<times> int \<times> int" where
  "thermal_zone_debounce pre_temp curr_temp delta_temp counter =
     (if counter \<noteq> 0 \<and> \<bar>s32 (pre_temp - curr_temp)\<bar> > delta_temp then -1 else 0, curr_temp,
      if counter = 0 then 1 else counter)"

section \<open>Cooler levels\<close>

record vs_cooler_platform_data =
  cl_type :: string
  cl_state :: nat
  cl_max_state :: nat
  cl_level :: int
  cl_cooler_id :: int
  cl_levels :: "int list"

text \<open>
  A cooler driver's coolers: the data of each by its number, and the sort list of those registered.
\<close>

record cooler_bank =
  cb_data :: "nat \<Rightarrow> vs_cooler_platform_data"
  cb_list :: "nat list"

definition level_cmp :: "cooler_bank \<Rightarrow> nat \<Rightarrow> nat \<Rightarrow> int" where
  "level_cmp b i j = s32 (cl_level (cb_data b i) - cl_level (cb_data b j))"

text \<open>
  The list is sorted by level and the first (or last) cooler's level is the answer; on an empty list
  the entry read is the list head, whose data pointer is NULL.
\<close>

definition thermal_level_compare :: "cooler_bank \<Rightarrow> bool \<Rightarrow> (int \<times> cooler_bank) option" where
  "thermal_level_compare b positive_seq =
     (case list_sort (level_cmp b) (cb_list b) of None \<Rightarrow> None
      | Some l \<Rightarrow> Some (if l = [] then - EINVAL
                        else cl_level (cb_data b (if positive_seq then hd l else last l)),
                        b\<lparr>cb_list := l\<rparr>))"

section \<open>Device tree\<close>

record device_node =
  dn_u32 :: "string \<Rightarrow> int option" \<comment> \<open>\<^verbatim>\<open>of_property_read_u32\<close>, a value below $2^{32}$\<close>
  dn_u32_array :: "string \<Rightarrow> int list option" \<comment> \<open>\<^verbatim>\<open>of_property_read_u32_array\<close> of twelve values\<close>
  dn_string :: "string \<Rightarrow> nat \<Rightarrow> string option"

definition thermal_parse_node_int :: "device_node \<Rightarrow> string \<Rightarrow> int \<Rightarrow> int" where
  "thermal_parse_node_int np node_name cust_val =
     (case dn_u32 np node_name of Some val \<Rightarrow> s32 val | None \<Rightarrow> cust_val)"

record thermal_dev_params =
  td_offset :: int
  td_alpha :: int
  td_weight :: int
  td_select_device :: int
  td_sensor_id :: int
  td_aux_channel :: int

record thermal_dev_node_names =
  nn_offset :: string
  nn_offset_invert :: string
  nn_alpha :: string
  nn_weight :: string
  nn_weight_invert :: string
  nn_select_device :: string
  nn_sensor_id :: string
  nn_aux_channel :: string

definition thermal_sensor_dt_to_params ::
    "device_node \<Rightarrow> thermal_dev_params \<Rightarrow> thermal_dev_node_names \<Rightarrow> thermal_dev_params" where
  "thermal_sensor_dt_to_params np params names =
     (let params = params\<lparr>td_offset := thermal_parse_node_int np (nn_offset names) (td_offset params)\<rparr>;
          params = params\<lparr>td_alpha := thermal_parse_node_int np (nn_alpha names) (td_alpha params)\<rparr>;
          params = params\<lparr>td_weight := thermal_parse_node_int np (nn_weight names) (td_weight params)\<rparr>;
          params = params\<lparr>td_select_device := thermal_parse_node_int np (nn_select_device names) (td_select_device params)\<rparr>;
          params = params\<lparr>td_sensor_id := thermal_parse_node_int np (nn_sensor_id names) (td_sensor_id params)\<rparr>;
          offset_invert = (if nn_offset_invert names \<noteq> [] then thermal_parse_node_int np (nn_offset_invert names) 0 else 0);
          params = (if offset_invert \<noteq> 0 then params\<lparr>td_offset := s32 (0 - td_offset params)\<rparr> else params);
          weight_invert = (if nn_weight_invert names \<noteq> [] then thermal_parse_node_int np (nn_weight_invert names) 0 else 0);
          params = (if weight_invert \<noteq> 0 then params\<lparr>td_weight := s32 (0 - td_weight params)\<rparr> else params)
      in if nn_aux_channel names \<noteq> []
         then params\<lparr>td_aux_channel := thermal_parse_node_int np (nn_aux_channel names) (td_aux_channel params)\<rparr>
         else params)"

text \<open>
  The string reader copies the characters without a terminator over the start of a 20-byte buffer.
\<close>

definition virtual_sensor_thermal_parse_node_string_index ::
    "device_node \<Rightarrow> string \<Rightarrow> nat \<Rightarrow> char list \<Rightarrow> char list option" where
  "virtual_sensor_thermal_parse_node_string_index np node_name index buf =
     (case dn_string np node_name index of None \<Rightarrow> Some buf
      | Some str \<Rightarrow> if length str \<le> length buf then Some (str @ drop (length str) buf) else None)"

definition cooler_parse_node_int_array :: "device_node \<Rightarrow> string \<Rightarrow> int list \<Rightarrow> int list" where
  "cooler_parse_node_int_array np node_name tripsdata =
     (case dn_u32_array np node_name of Some arr \<Rightarrow> map s32 arr | None \<Rightarrow> tripsdata)"

definition zero_buf :: "nat \<Rightarrow> char list" where
  "zero_buf n = replicate n (CHR 0x00)"

definition cooler_init_cust_data_from_dt :: "device_node \<Rightarrow> vs_cooler_platform_data option" where
  "cooler_init_cust_data_from_dt np =
     (case virtual_sensor_thermal_parse_node_string_index np ''type'' 0 (zero_buf THERMAL_NAME_LENGTH) of None \<Rightarrow> None
      | Some ty \<Rightarrow>
          Some \<lparr>cl_type = c_str ty,
                cl_state = nat (u32w (thermal_parse_node_int np ''state'' 0)),
                cl_max_state = nat (u32w (thermal_parse_node_int np ''max_state'' 0)),
                cl_level = thermal_parse_node_int np ''level'' 0,
                cl_cooler_id = thermal_parse_node_int np ''thermal_cooler_id'' 0,
                cl_levels = cooler_parse_node_int_array np ''levels'' (replicate THERMAL_MAX_TRIPS 0)\<rparr>)"

section \<open>The tightest level\<close>

definition bank_levels :: "cooler_bank \<Rightarrow> int set" where
  "bank_levels b = (\<lambda>i. cl_level (cb_data b i)) ` set (cb_list b)"

text \<open>Levels whose differences do not overflow.\<close>

definition levels_in_range :: "cooler_bank \<Rightarrow> bool" where
  "levels_in_range b \<longleftrightarrow> (\<forall>i\<in>set (cb_list b). 0 \<le> cl_level (cb_data b i) \<and> cl_level (cb_data b i) < 2147483648)"

text \<open>
  What the cooler drivers rely on: the comparison returns the least level of the registered coolers
  and only reorders their list.
\<close>

locale tightest_level =
  fixes tightest :: "cooler_bank \<Rightarrow> (int \<times> cooler_bank) option"
  assumes tightest_least: "cb_list b \<noteq> [] \<Longrightarrow> levels_in_range b \<Longrightarrow>
      \<exists>l. tightest b = Some (Min (bank_levels b), b\<lparr>cb_list := l\<rparr>) \<and> set l = set (cb_list b)"
begin

lemma tightest_bound:
  assumes "i \<in> set (cb_list b)" "levels_in_range b" "tightest b = Some (v, b')"
  shows "v \<le> cl_level (cb_data b i)"
proof -
  have "cb_list b \<noteq> []" using assms(1) by auto
  from tightest_least [OF this assms(2)] have "v = Min (bank_levels b)" using assms(3) by auto
  then show ?thesis using assms(1) by (simp add: bank_levels_def)
qed

lemma tightest_attained:
  assumes "cb_list b \<noteq> []" "levels_in_range b" "tightest b = Some (v, b')"
  shows "\<exists>i\<in>set (cb_list b). v = cl_level (cb_data b i)"
proof -
  have "v = Min (bank_levels b)" using tightest_least [OF assms(1,2)] assms(3) by auto
  moreover have "Min (bank_levels b) \<in> bank_levels b" using assms(1) by (intro Min_in) (auto simp: bank_levels_def)
  ultimately show ?thesis by (auto simp: bank_levels_def)
qed

end

lemma level_cmp_by: "levels_in_range b \<Longrightarrow> cmp_by (\<lambda>i. cl_level (cb_data b i)) (level_cmp b) (set (cb_list b))"
  by (simp add: cmp_by_def level_cmp_def levels_in_range_def s32_diff)

lemma hd_sort_key_Min:
  assumes "xs \<noteq> []"
  shows "key (hd (sort_key key xs)) = (Min (key ` set xs) :: 'b :: linorder)"
proof -
  have "sort_key key xs \<noteq> []" using assms by (metis length_0_conv length_sort)
  then obtain y ys where y: "sort_key key xs = y # ys" by (cases "sort_key key xs") auto
  have s: "set (y # ys) = set xs" using y by (metis set_sort)
  moreover have "\<forall>z\<in>set (y # ys). key y \<le> key z" using sorted_sort_key [of key xs] y by auto
  ultimately have "Min (key ` set xs) = key y" by (intro Min_eqI) auto
  then show ?thesis using y by simp
qed

interpretation vs_levels: tightest_level "\<lambda>b. thermal_level_compare b True"
proof (unfold_locales, goal_cases)
  case (1 b)
  let ?key = "\<lambda>i. cl_level (cb_data b i)"
  have "sort_key ?key (cb_list b) \<noteq> []" using 1(1) by (metis length_0_conv length_sort)
  then show ?case using list_sort_by_key [OF level_cmp_by [OF 1(2)]] hd_sort_key_Min [OF 1(1), of ?key]
    by (auto simp: thermal_level_compare_def bank_levels_def)
qed

section \<open>Frequencies for a power budget\<close>

lemma power_level_greatest:
  assumes "n < length em"
  shows "\<exists>i \<le> n. power_level em n pw = Some i \<and> (\<forall>j \<le> n. 0 < j \<longrightarrow> em_power (em ! j) \<le> pw \<longrightarrow> j \<le> i) \<and>
           (0 < i \<longrightarrow> em_power (em ! i) \<le> pw)"
  using assms
proof (induction n)
  case 0
  then show ?case by simp
next
  case (Suc n)
  show ?case
  proof (cases "em_power (em ! Suc n) \<le> pw")
    case True
    then show ?thesis using Suc.prems by auto
  next
    case False
    then show ?thesis using Suc by (auto simp: le_Suc_eq) 
  qed
qed

text \<open>C31: with one frequency domain, a power budget that allows at least the lowest operating point
  of all CPUs limits the frequency to the highest operating point whose power, times the number of
  CPUs, is within the budget. No budget (0) lifts the limit, and so does a budget smaller than the
  number of CPUs.\<close>

theorem cpu_budget_respected:
  assumes "cpufreq_cdev s = Some c" "vc_qos c \<noteq> None" "0 < vc_cpus c" "length (vc_em c) = Suc (vc_max_level c)"
    "0 \<le> budget" "budget < 4294967296"
  shows "(0 < em_power (vc_em c ! 0) \<and> em_power (vc_em c ! 0) * vc_cpus c \<le> budget \<longrightarrow>
           (\<exists>i \<le> vc_max_level c.
              set_cpufreq_thermal_power env s budget
                = Some (0, s\<lparr>cpufreq_cdev := Some (c\<lparr>vc_qos := Some (em_frequency (vc_em c ! i))\<rparr>)\<rparr>) \<and>
              em_power (vc_em c ! i) * vc_cpus c \<le> budget \<and>
              (\<forall>j \<le> vc_max_level c. em_power (vc_em c ! j) * vc_cpus c \<le> budget \<longrightarrow> j \<le> i))) \<and>
         (budget < vc_cpus c \<longrightarrow>
           set_cpufreq_thermal_power env s budget
             = Some (0, s\<lparr>cpufreq_cdev := Some (c\<lparr>vc_qos := Some (em_frequency (vc_em c ! vc_max_level c))\<rparr>)\<rparr>))"
proof -
  let ?em = "vc_em c" and ?n = "vc_max_level c" and ?pw = "budget div vc_cpus c"
  have fits: "p * vc_cpus c \<le> budget \<longleftrightarrow> p \<le> ?pw" for p
    using int_le_div_iff [OF assms(3)] by simp
  obtain i where i: "i \<le> ?n" "power_level ?em ?n ?pw = Some i" "\<forall>j \<le> ?n. 0 < j \<longrightarrow> em_power (?em ! j) \<le> ?pw \<longrightarrow> j \<le> i"
    "0 < i \<longrightarrow> em_power (?em ! i) \<le> ?pw" using power_level_greatest [of ?n ?em ?pw] assms(4) by auto
  obtain q where "vc_qos c = Some q" using assms(2) by auto
  then have run: "set_cpufreq_thermal_power env s budget
      = (case vs_cpu_power_to_freq ?em ?n ?pw of None \<Rightarrow> None
         | Some f \<Rightarrow> Some (0, s\<lparr>cpufreq_cdev := Some (c\<lparr>vc_qos := Some f\<rparr>)\<rparr>))"
    using assms by (simp add: set_cpufreq_thermal_power_def freq_qos_update_request_def u32w_id split: option.split)
  have A: "\<exists>i \<le> ?n. set_cpufreq_thermal_power env s budget
                = Some (0, s\<lparr>cpufreq_cdev := Some (c\<lparr>vc_qos := Some (em_frequency (?em ! i))\<rparr>)\<rparr>) \<and>
              em_power (?em ! i) * vc_cpus c \<le> budget \<and> (\<forall>j \<le> ?n. em_power (?em ! j) * vc_cpus c \<le> budget \<longrightarrow> j \<le> i)"
    if "0 < em_power (?em ! 0)" "em_power (?em ! 0) * vc_cpus c \<le> budget"
  proof (intro exI [of _ i] conjI)
    have p0: "em_power (?em ! 0) \<le> ?pw" using that(2) fits by simp
    then show "set_cpufreq_thermal_power env s budget
                = Some (0, s\<lparr>cpufreq_cdev := Some (c\<lparr>vc_qos := Some (em_frequency (?em ! i))\<rparr>)\<rparr>)"
      using run i(1,2) that(1) assms(4) by (auto simp: vs_cpu_power_to_freq_def em_freq_def)
    show "em_power (?em ! i) * vc_cpus c \<le> budget" using i(4) p0 fits by (cases "i = 0") auto
    show "\<forall>j \<le> ?n. em_power (?em ! j) * vc_cpus c \<le> budget \<longrightarrow> j \<le> i" using i(3) fits by (metis neq0_conv le0)
  qed (rule i(1))
  have "?pw = 0" if "budget < vc_cpus c" using that assms(5) by (simp add: div_pos_pos_trivial)
  with A run assms(4) show ?thesis by (auto simp: vs_cpu_power_to_freq_def em_freq_def)
qed

definition vs_cpu_example :: vs_cpufreq_cdev where
  "vs_cpu_example = \<lparr>vc_max_level = 2,
     vc_em = [\<lparr>em_frequency = 500000, em_power = 40\<rparr>, \<lparr>em_frequency = 1000000, em_power = 120\<rparr>,
              \<lparr>em_frequency = 2000000, em_power = 400\<rparr>],
     vc_cpus = 8, vc_qos = Some FREQ_QOS_MAX_DEFAULT_VALUE\<rparr>"

definition vs_if_example :: vs_if where
  "vs_if_example = \<lparr>bat_psy = False, wpc_psy = False, chg_psy = False, cpufreq_cdev = Some vs_cpu_example,
     cpufreq_cdev_mc = [None, None], psy_sets = [], brightness_sets = []\<rparr>"

theorem cpu_budget_respected_witness:
  "\<exists>i \<le> 2. \<forall>env. em_power (vc_em vs_cpu_example ! i) * 8 \<le> 1500 \<and>
     set_cpufreq_thermal_power env vs_if_example 5
       = Some (0, vs_if_example\<lparr>cpufreq_cdev := Some (vs_cpu_example\<lparr>vc_qos := Some 2000000\<rparr>)\<rparr>)"
  using cpu_budget_respected [of vs_if_example vs_cpu_example 1500] cpu_budget_respected [of vs_if_example vs_cpu_example 5]
  by (auto simp: vs_if_example_def vs_cpu_example_def)

text \<open>With two clusters, a budget between the least and the greatest total power is split
  exactly, each cluster staying within its own limits and the large cluster getting more than its
  least power only when the little cluster has all it can use; a smaller budget leaves both clusters
  their least power.\<close>

theorem cluster_budget_split:
  assumes "0 \<le> min0" "min0 \<le> max0" "0 \<le> min1" "min1 \<le> max1" "max0 + max1 < 2147483648" "0 \<le> budget"
    "budget \<le> max0 + max1" "split_budget budget max0 min0 min1 = (b0, b1)"
  shows "(min0 + min1 \<le> budget \<longrightarrow> b0 + b1 = budget \<and> min0 \<le> b0 \<and> b0 \<le> max0 \<and> min1 \<le> b1 \<and> b1 \<le> max1 \<and>
            (min1 < b1 \<longrightarrow> b0 = max0)) \<and>
         (budget < min0 + min1 \<longrightarrow> b0 = min0 \<and> b1 = min1)"
  using assms by (auto simp: split_budget_def Let_def u32w_id s32_id split: if_splits)

theorem cluster_budget_split_witness:
  "let (b0, b1) = split_budget 1500 1000 100 200 in b0 + b1 = 1500 \<and> b0 = 1000"
  using cluster_budget_split [of 100 1000 200 900 1500 1000 500]
  by (simp add: split_budget_def Let_def u32w_id s32_id)

end
