(* ===== verification/Vs_Coolers.thy ===== *)
theory Vs_Coolers
  imports Vs_Interface
begin

text \<open>
  The four cooler drivers of the virtual-sensor thermal driver: battery charge current
  (\<^verbatim>\<open>virtual_sensor_cooler_bcct.c\<close>), backlight (\<^verbatim>\<open>virtual_sensor_cooler_backlight.c\<close>), wireless charging
  (\<^verbatim>\<open>virtual_sensor_cooler_wpc_bcct.c\<close>) and CPU power budget (\<^verbatim>\<open>virtual_sensor_cooler_budget.c\<close>). Each
  keeps a bank of coolers, one per device tree node; a cooling device is the number of its data in
  the bank, or NULL. Setting the state of one cooler applies the tightest level over the bank. The
  theory shows that each driver, the wireless one only for docks that allow every state, implements
  the interface the thermal governor uses (locale \<open>cooling_device\<close>), and what limit is in force.
\<close>

section \<open>The interface of a cooling device\<close>

text \<open>
  What the thermal core may rely on: for every device of a set the maximal state does not change,
  and a state that was set is the one read back, cut at the maximum; setting one device leaves the
  state of the others.
\<close>

locale cooling_device =
  fixes get_max_state :: "'s \<Rightarrow> nat \<Rightarrow> nat" and get_cur_state :: "'s \<Rightarrow> nat \<Rightarrow> nat"
    and set_cur_state :: "'s \<Rightarrow> nat \<Rightarrow> nat \<Rightarrow> 's option" and ok :: "'s \<Rightarrow> bool" and devs :: "nat set"
  assumes set_total: "ok s \<Longrightarrow> d \<in> devs \<Longrightarrow> \<exists>s'. set_cur_state s d n = Some s'"
    and set_ok: "ok s \<Longrightarrow> d \<in> devs \<Longrightarrow> set_cur_state s d n = Some s' \<Longrightarrow> ok s'"
    and set_max: "ok s \<Longrightarrow> d \<in> devs \<Longrightarrow> set_cur_state s d n = Some s' \<Longrightarrow> get_max_state s' e = get_max_state s e"
    and set_get: "ok s \<Longrightarrow> d \<in> devs \<Longrightarrow> set_cur_state s d n = Some s' \<Longrightarrow>
      get_cur_state s' e = (if e = d then min n (get_max_state s d) else get_cur_state s e)"
    and cur_le_max: "ok s \<Longrightarrow> d \<in> devs \<Longrightarrow> get_cur_state s d \<le> get_max_state s d"
begin

lemma set_again: "ok s \<Longrightarrow> d \<in> devs \<Longrightarrow> set_cur_state s d n = Some s' \<Longrightarrow> set_cur_state s' d m = Some s'' \<Longrightarrow>
    get_cur_state s'' e = (if e = d then min m (get_max_state s d) else get_cur_state s e)"
  using set_ok [of s d n s'] set_max [of s d n s'] set_get [of s d n s'] set_get [of s' d m s''] by simp

end

section \<open>State\<close>

record cooler_drv =
  cd_bank :: cooler_bank
  cd_if :: vs_if

abbreviation cd_pdata :: "'m cooler_drv_scheme \<Rightarrow> nat \<Rightarrow> vs_cooler_platform_data" where
  "cd_pdata s \<equiv> cb_data (cd_bank s)"

definition cd_put :: "'m cooler_drv_scheme \<Rightarrow> nat \<Rightarrow> vs_cooler_platform_data \<Rightarrow> 'm cooler_drv_scheme" where
  "cd_put s c p = s\<lparr>cd_bank := (cd_bank s)\<lparr>cb_data := (cd_pdata s)(c := p)\<rparr>\<rparr>"

text \<open>The level of a state: \<open>free_level\<close> when not cooling, else the entry of the table (\<open>None\<close> past its end).\<close>

definition state_level :: "int \<Rightarrow> vs_cooler_platform_data \<Rightarrow> nat \<Rightarrow> int option" where
  "state_level free_level p st = (if st = 0 then Some free_level else if st - 1 < length (cl_levels p) then Some (cl_levels p ! (st - 1)) else None)"

section \<open>Battery charge current\<close>

definition CHARGE_CURRENT_MAX :: int where "CHARGE_CURRENT_MAX = 320001"

definition bcct_get_max_state :: "cooler_drv \<Rightarrow> nat option \<Rightarrow> int + nat" where
  "bcct_get_max_state s cdev = (case cdev of None \<Rightarrow> Inl (- EINVAL) | Some c \<Rightarrow> Inr (cl_max_state (cd_pdata s c)))"

definition bcct_get_cur_state :: "cooler_drv \<Rightarrow> nat option \<Rightarrow> int + nat" where
  "bcct_get_cur_state s cdev = (case cdev of None \<Rightarrow> Inl (- EINVAL) | Some c \<Rightarrow> Inr (cl_state (cd_pdata s c)))"

definition bcct_set_cur_state :: "vs_env \<Rightarrow> cooler_drv \<Rightarrow> nat option \<Rightarrow> nat \<Rightarrow> (int \<times> cooler_drv) option" where
  "bcct_set_cur_state env s cdev state =
     (case cdev of None \<Rightarrow> Some (- EINVAL, s)
      | Some c \<Rightarrow>
          let p = cd_pdata s c in
          if cl_state p = state then Some (0, s)
          else
            let st = (if state > cl_max_state p then cl_max_state p else state); p = p\<lparr>cl_state := st\<rparr>
            in case state_level CHARGE_CURRENT_MAX p st of None \<Rightarrow> None
               | Some level \<Rightarrow>
                   if level = cl_level p then Some (0, cd_put s c p)
                   else
                     let p = p\<lparr>cl_level := level\<rparr>; s = cd_put s c p
                     in case thermal_level_compare (cd_bank s) True of None \<Rightarrow> None
                        | Some (level, b) \<Rightarrow>
                            (case vs_set_cooling_level env (cd_if s) (vs_thermal_cooler_of (cl_cooler_id p))
                                    (if level \<ge> CHARGE_CURRENT_MAX then -1 else level sdiv 100) of None \<Rightarrow> None
                             | Some (_, i) \<Rightarrow> Some (0, \<lparr>cd_bank = b, cd_if = i\<rparr>)))"

section \<open>Backlight\<close>

definition MAX_BRIGHTNESS :: int where "MAX_BRIGHTNESS = 255"

definition backlight_get_max_state :: "cooler_drv \<Rightarrow> nat option \<Rightarrow> int + nat" where
  "backlight_get_max_state s cdev = (case cdev of None \<Rightarrow> Inl (- EINVAL) | Some c \<Rightarrow> Inr (cl_max_state (cd_pdata s c)))"

definition backlight_get_cur_state :: "cooler_drv \<Rightarrow> nat option \<Rightarrow> int + nat" where
  "backlight_get_cur_state s cdev = (case cdev of None \<Rightarrow> Inl (- EINVAL) | Some c \<Rightarrow> Inr (cl_state (cd_pdata s c)))"

definition backlight_set_cur_state :: "vs_env \<Rightarrow> cooler_drv \<Rightarrow> nat option \<Rightarrow> nat \<Rightarrow> (int \<times> cooler_drv) option" where
  "backlight_set_cur_state env s cdev state =
     (case cdev of None \<Rightarrow> Some (- EINVAL, s)
      | Some c \<Rightarrow>
          let p = cd_pdata s c in
          if cl_state p = state then Some (0, s)
          else
            let st = (if state > cl_max_state p then cl_max_state p else state); p = p\<lparr>cl_state := st\<rparr>
            in case state_level MAX_BRIGHTNESS p st of None \<Rightarrow> None
               | Some level \<Rightarrow>
                   if level = cl_level p then Some (0, cd_put s c p)
                   else
                     let p = p\<lparr>cl_level := level\<rparr>; s = cd_put s c p
                     in case thermal_level_compare (cd_bank s) True of None \<Rightarrow> None
                        | Some (level, b) \<Rightarrow>
                            (case vs_set_cooling_level env (cd_if s) VS_COOLER_BACKLIGHT level of None \<Rightarrow> None
                             | Some (_, i) \<Rightarrow> Some (0, \<lparr>cd_bank = b, cd_if = i\<rparr>)))"

section \<open>Wireless charging\<close>

definition WPC_CHARGE_CURRENT_MAX :: int where "WPC_CHARGE_CURRENT_MAX = 10000"
definition POLICY_BPP_IDX :: nat where "POLICY_BPP_IDX = 1"
definition POLICY_MFA_IDX :: nat where "POLICY_MFA_IDX = 2"
definition POWER_SUPPLY_TYPE_WIRELESS_10W :: int where "POWER_SUPPLY_TYPE_WIRELESS_10W = 18"

definition dock_type :: "int \<Rightarrow> nat" where
  "dock_type ty = (if ty = POWER_SUPPLY_TYPE_WIRELESS_10W then POLICY_MFA_IDX else POLICY_BPP_IDX)"

text \<open>
  The check of the cooler \<^verbatim>\<open>wpc_bcct1\<close> against the kind of dock: an error, or whether the state is
  to be applied.
\<close>

definition wpc_dock_check :: "vs_env \<Rightarrow> string \<Rightarrow> nat \<Rightarrow> int + bool" where
  "wpc_dock_check env ty state =
     (if ty = ''wpc_bcct1'' then
        if \<not> psy_found env ''mt6370_pmu_charger'' then Inl (- ENODEV)
        else let (ret, val) = psy_get env ''mt6370_pmu_charger'' PSP_TYPE
             in if ret < 0 then Inl ret else Inr (\<not> (state \<noteq> 0 \<and> state < dock_type val))
      else Inr True)"

definition wpc_get_max_state :: "cooler_drv \<Rightarrow> nat option \<Rightarrow> int + nat" where
  "wpc_get_max_state s cdev = (case cdev of None \<Rightarrow> Inl (- EINVAL) | Some c \<Rightarrow> Inr (cl_max_state (cd_pdata s c)))"

definition wpc_get_cur_state :: "cooler_drv \<Rightarrow> nat option \<Rightarrow> int + nat" where
  "wpc_get_cur_state s cdev = (case cdev of None \<Rightarrow> Inl (- EINVAL) | Some c \<Rightarrow> Inr (cl_state (cd_pdata s c)))"

definition wpc_set_cur_state :: "vs_env \<Rightarrow> cooler_drv \<Rightarrow> nat option \<Rightarrow> nat \<Rightarrow> (int \<times> cooler_drv) option" where
  "wpc_set_cur_state env s cdev state =
     (case cdev of None \<Rightarrow> Some (- EINVAL, s)
      | Some c \<Rightarrow>
          let p = cd_pdata s c in
          if cl_state p = state then Some (0, s)
          else case wpc_dock_check env (cl_type p) state of
            Inl e \<Rightarrow> Some (e, s)
          | Inr False \<Rightarrow> Some (0, s)
          | Inr True \<Rightarrow>
            let st = (if state > cl_max_state p then cl_max_state p else state); p = p\<lparr>cl_state := st\<rparr>
            in case state_level WPC_CHARGE_CURRENT_MAX p st of None \<Rightarrow> None
               | Some level \<Rightarrow>
                   if level = cl_level p then Some (0, cd_put s c p)
                   else
                     let p = p\<lparr>cl_level := level\<rparr>; s = cd_put s c p
                     in case thermal_level_compare (cd_bank s) True of None \<Rightarrow> None
                        | Some (level, b) \<Rightarrow>
                            (case vs_set_cooling_level env (cd_if s) (vs_thermal_cooler_of (cl_cooler_id p))
                                    (if level \<ge> WPC_CHARGE_CURRENT_MAX then -1 else level) of None \<Rightarrow> None
                             | Some (_, i) \<Rightarrow> Some (0, \<lparr>cd_bank = b, cd_if = i\<rparr>)))"

section \<open>CPU power budget\<close>

definition MAXIMUM_CPU_POWER :: int where "MAXIMUM_CPU_POWER = 4600"

record budget_drv = cooler_drv +
  thermal_budget :: int
  thermal_budget_cooler :: int
  thermal_budget_cpu :: int

definition budget_notify :: "vs_env \<Rightarrow> budget_drv \<Rightarrow> int \<Rightarrow> int \<Rightarrow> budget_drv option" where
  "budget_notify env s budget1 budget2 =
     (let budget = min budget1 budget2 in
      if budget = thermal_budget s then Some s
      else case vs_set_cooling_level env (cd_if s) VS_COOLER_BUDGET (if budget < MAXIMUM_CPU_POWER then budget else 0) of
             None \<Rightarrow> None
           | Some (_, i) \<Rightarrow> Some (s\<lparr>thermal_budget := budget, cd_if := i\<rparr>))"

definition thermal_budget_notify :: "vs_env \<Rightarrow> budget_drv \<Rightarrow> int \<Rightarrow> budget_drv option" where
  "thermal_budget_notify env s budget =
     (let cpu = (if budget = 0 then MAXIMUM_CPU_POWER else budget)
      in budget_notify env (s\<lparr>thermal_budget_cpu := cpu\<rparr>) cpu (thermal_budget_cooler s))"

definition thermal_budget_get :: "budget_drv \<Rightarrow> int" where
  "thermal_budget_get s = thermal_budget s"

text \<open>
  A write to the character device: the number parsed as an unsigned int (\<open>None\<close> when that fails,
  which leaves the value 0), passed on as an int.
\<close>

definition thermal_budget_write :: "vs_env \<Rightarrow> budget_drv \<Rightarrow> int option \<Rightarrow> int \<Rightarrow> (int \<times> budget_drv) option" where
  "thermal_budget_write env s parsed len =
     (let budget = (case parsed of None \<Rightarrow> 0 | Some v \<Rightarrow> v)
      in case thermal_budget_notify env s (if budget \<noteq> 0 then s32 budget else MAXIMUM_CPU_POWER) of None \<Rightarrow> None
         | Some s \<Rightarrow> Some (len, s))"

definition thermal_budget_get_max_state :: "budget_drv \<Rightarrow> nat option \<Rightarrow> int + nat" where
  "thermal_budget_get_max_state s cdev = (case cdev of None \<Rightarrow> Inl (- EINVAL) | Some c \<Rightarrow> Inr (cl_max_state (cb_data (cd_bank s) c)))"

definition thermal_budget_get_cur_state :: "budget_drv \<Rightarrow> nat option \<Rightarrow> int + nat" where
  "thermal_budget_get_cur_state s cdev = (case cdev of None \<Rightarrow> Inl (- EINVAL) | Some c \<Rightarrow> Inr (cl_state (cb_data (cd_bank s) c)))"

definition thermal_budget_set_cur_state :: "vs_env \<Rightarrow> budget_drv \<Rightarrow> nat option \<Rightarrow> nat \<Rightarrow> (int \<times> budget_drv) option" where
  "thermal_budget_set_cur_state env s cdev state =
     (case cdev of None \<Rightarrow> Some (- EINVAL, s)
      | Some c \<Rightarrow>
          let p = cb_data (cd_bank s) c in
          if cl_state p = state then Some (0, s)
          else
            let st = (if state > cl_max_state p then cl_max_state p else state); p = p\<lparr>cl_state := st\<rparr>
            in case state_level MAXIMUM_CPU_POWER p st of None \<Rightarrow> None
               | Some level \<Rightarrow>
                   let b = (cd_bank s)\<lparr>cb_data := (cb_data (cd_bank s))(c := p\<lparr>cl_level := level\<rparr>)\<rparr>
                   in case thermal_level_compare b True of None \<Rightarrow> None
                      | Some (level, b) \<Rightarrow>
                          (case budget_notify env (s\<lparr>cd_bank := b, thermal_budget_cooler := level\<rparr>)
                                  (thermal_budget_cpu s) level of None \<Rightarrow> None
                           | Some s \<Rightarrow> Some (0, s)))"

section \<open>The level table file\<close>

text \<open>
  Every driver has the same pair of functions for the file \<^verbatim>\<open>levels\<close>: the lines shown, and a store of
  one entry, whose parsed state and level are given (\<open>None\<close> when the text is not two numbers). The
  state is compared as an unsigned long, so a negative one is refused; the bound is the maximal
  state, not the size of the table.
\<close>

definition levels_show :: "'m cooler_drv_scheme \<Rightarrow> nat option \<Rightarrow> (int + (nat \<times> int) list) option" where
  "levels_show s cdev =
     (case cdev of None \<Rightarrow> Some (Inl (- EINVAL))
      | Some c \<Rightarrow> let p = cd_pdata s c in
          if cl_max_state p \<le> length (cl_levels p)
          then Some (Inr (map (\<lambda>i. (i + 1, cl_levels p ! i)) [0..<cl_max_state p])) else None)"

definition levels_store :: "'m cooler_drv_scheme \<Rightarrow> nat option \<Rightarrow> (int \<times> int) option \<Rightarrow> int \<Rightarrow> (int \<times> 'm cooler_drv_scheme) option" where
  "levels_store s cdev parsed cnt =
     (case cdev of None \<Rightarrow> Some (- EINVAL, s)
      | Some c \<Rightarrow>
          (case parsed of None \<Rightarrow> Some (- EINVAL, s)
           | Some (state, level) \<Rightarrow>
               let p = cd_pdata s c in
               if u64w state \<ge> int (cl_max_state p) then Some (- EINVAL, s)
               else if nat state < length (cl_levels p)
                    then Some (cnt, cd_put s c (p\<lparr>cl_levels := (cl_levels p)[nat state := level]\<rparr>)) else None))"

section \<open>Registration\<close>

text \<open>
  Probe of the cooler of number \<open>c\<close>: the outcomes of the two allocations and of the registration of
  the cooling device are given. The four drivers differ in nothing here.
\<close>

definition cooler_probe :: "bool \<Rightarrow> bool \<Rightarrow> bool \<Rightarrow> device_node \<Rightarrow> 'm cooler_drv_scheme \<Rightarrow> nat
    \<Rightarrow> (int \<times> 'm cooler_drv_scheme) option" where
  "cooler_probe alloc1 registered alloc2 np s c =
     (if \<not> alloc1 then Some (- ENOMEM, s)
      else case cooler_init_cust_data_from_dt np of None \<Rightarrow> None
           | Some p \<Rightarrow>
               if \<not> registered then Some (- EINVAL, s)
               else if \<not> alloc2 then Some (- ENOMEM, s)
               else let s = cd_put s c p in Some (0, s\<lparr>cd_bank := (cd_bank s)\<lparr>cb_list := c # cb_list (cd_bank s)\<rparr>\<rparr>))"

definition cooler_remove :: "'m cooler_drv_scheme \<Rightarrow> nat option \<Rightarrow> int \<times> 'm cooler_drv_scheme" where
  "cooler_remove s pdata =
     (case pdata of None \<Rightarrow> (0, s)
      | Some c \<Rightarrow> (0, s\<lparr>cd_bank := (cd_bank s)\<lparr>cb_list := remove1 c (cb_list (cd_bank s))\<rparr>\<rparr>))"

section \<open>The step all coolers share\<close>

text \<open>
  The common shape of the state setters: \<open>free_level\<close> is the level of state 0 and \<open>push\<close> applies a level.
\<close>

definition cooler_step :: "int \<Rightarrow> (vs_if \<Rightarrow> int \<Rightarrow> vs_if option) \<Rightarrow> cooler_drv \<Rightarrow> nat \<Rightarrow> nat \<Rightarrow> cooler_drv option" where
  "cooler_step free_level push s c n =
     (let p = cd_pdata s c in
      if cl_state p = n then Some s
      else let p = p\<lparr>cl_state := min n (cl_max_state p)\<rparr>
           in case state_level free_level p (min n (cl_max_state p)) of None \<Rightarrow> None
              | Some level \<Rightarrow>
                  if level = cl_level p then Some (cd_put s c p)
                  else case thermal_level_compare (cd_bank (cd_put s c (p\<lparr>cl_level := level\<rparr>))) True of None \<Rightarrow> None
                       | Some (l, b) \<Rightarrow> map_option (\<lambda>i. \<lparr>cd_bank = b, cd_if = i\<rparr>) (push (cd_if s) l))"

definition bcct_push :: "vs_env \<Rightarrow> vs_if \<Rightarrow> int \<Rightarrow> vs_if option" where
  "bcct_push env i l = map_option snd (vs_set_cooling_level env i VS_COOLER_BCCT (if l \<ge> CHARGE_CURRENT_MAX then -1 else l sdiv 100))"

definition backlight_push :: "vs_env \<Rightarrow> vs_if \<Rightarrow> int \<Rightarrow> vs_if option" where
  "backlight_push env i l = map_option snd (vs_set_cooling_level env i VS_COOLER_BACKLIGHT l)"

definition wpc_push :: "vs_env \<Rightarrow> vs_thermal_cooler_id \<Rightarrow> vs_if \<Rightarrow> int \<Rightarrow> vs_if option" where
  "wpc_push env id' i l = map_option snd (vs_set_cooling_level env i id' (if l \<ge> WPC_CHARGE_CURRENT_MAX then -1 else l))"

lemma cap_is_min: "(if n > m then m else n) = min n (m :: nat)"
  by simp

lemma bcct_is_cooler_step:
  assumes "vs_thermal_cooler_of (cl_cooler_id (cd_pdata s c)) = VS_COOLER_BCCT"
  shows "bcct_set_cur_state env s (Some c) n = map_option (Pair 0) (cooler_step CHARGE_CURRENT_MAX (bcct_push env) s c n)"
  using assms unfolding bcct_set_cur_state_def cooler_step_def Let_def option.simps cap_is_min
  by (simp add: bcct_push_def cd_put_def vs_set_cooling_level_def split: option.splits prod.splits)

lemma backlight_is_cooler_step:
  "backlight_set_cur_state env s (Some c) n = map_option (Pair 0) (cooler_step MAX_BRIGHTNESS (backlight_push env) s c n)"
  unfolding backlight_set_cur_state_def cooler_step_def Let_def option.simps cap_is_min
  by (simp add: backlight_push_def cd_put_def vs_set_cooling_level_def split: option.splits prod.splits)

lemma wpc_is_cooler_step:
  assumes "cl_state (cd_pdata s c) \<noteq> n" "wpc_dock_check env (cl_type (cd_pdata s c)) n = Inr True"
  shows "wpc_set_cur_state env s (Some c) n
    = map_option (Pair 0) (cooler_step WPC_CHARGE_CURRENT_MAX
        (wpc_push env (vs_thermal_cooler_of (cl_cooler_id (cd_pdata s c)))) s c n)"
  using assms unfolding wpc_set_cur_state_def cooler_step_def Let_def option.simps cap_is_min
  by (simp add: wpc_push_def cd_put_def split: option.splits prod.splits)

text \<open>
  Coolers in order: the devices \<open>D\<close> are registered, their tables hold the states up to the maximum,
  and each cooler's level is that of its state.
\<close>

definition cooler_ok :: "int \<Rightarrow> nat set \<Rightarrow> cooler_bank \<Rightarrow> bool" where
  "cooler_ok free_level D b \<longleftrightarrow> set (cb_list b) = D \<and> D \<noteq> {} \<and>
     (\<forall>c\<in>D. cl_max_state (cb_data b c) \<le> length (cl_levels (cb_data b c)) \<and>
        cl_state (cb_data b c) \<le> cl_max_state (cb_data b c) \<and>
        (\<forall>l\<in>set (cl_levels (cb_data b c)). 0 \<le> l \<and> l < 2147483648) \<and>
        state_level free_level (cb_data b c) (cl_state (cb_data b c)) = Some (cl_level (cb_data b c)))"

text \<open>The tightest level of all coolers, from their states.\<close>

definition bank_limit :: "cooler_bank \<Rightarrow> int" where
  "bank_limit b = Min (bank_levels b)"

lemma state_level_range:
  "state_level f p st = Some l \<Longrightarrow> 0 \<le> f \<Longrightarrow> f < 2147483648 \<Longrightarrow> \<forall>l\<in>set (cl_levels p). 0 \<le> l \<and> l < 2147483648 \<Longrightarrow>
    0 \<le> l \<and> l < 2147483648"
  by (auto simp: state_level_def split: if_splits)

lemma cooler_ok_in_range:
  assumes "cooler_ok f D b" "0 \<le> f" "f < 2147483648"
  shows "levels_in_range b"
  unfolding levels_in_range_def
proof
  fix i assume "i \<in> set (cb_list b)"
  with assms(1) have "\<forall>l\<in>set (cl_levels (cb_data b i)). 0 \<le> l \<and> l < 2147483648"
    "state_level f (cb_data b i) (cl_state (cb_data b i)) = Some (cl_level (cb_data b i))"
    by (auto simp: cooler_ok_def)
  from state_level_range [OF this(2) assms(2,3) this(1)]
  show "0 \<le> cl_level (cb_data b i) \<and> cl_level (cb_data b i) < 2147483648" .
qed

lemma state_level_total: "n \<le> length (cl_levels p) \<Longrightarrow> \<exists>l. state_level f p n = Some l"
  by (cases n) (auto simp: state_level_def)

lemma state_level_state [simp]:
  "state_level f (p\<lparr>cl_state := st\<rparr>) n = state_level f p n" "state_level f (p\<lparr>cl_level := l\<rparr>) n = state_level f p n"
  by (simp_all add: state_level_def)

lemma cooler_ok_put:
  assumes "cooler_ok f D b" "c \<in> D" "n \<le> cl_max_state (cb_data b c)" "state_level f (cb_data b c) n = Some l"
  shows "cooler_ok f D (b\<lparr>cb_data := (cb_data b)(c := (cb_data b c)\<lparr>cl_state := n, cl_level := l\<rparr>)\<rparr>)"
  using assms by (auto simp: cooler_ok_def)

lemma cooler_ok_list: "cooler_ok f D b \<Longrightarrow> set l = set (cb_list b) \<Longrightarrow> cooler_ok f D (b\<lparr>cb_list := l\<rparr>)"
  by (simp add: cooler_ok_def)

lemma bank_limit_nonneg:
  assumes "cooler_ok f D b" "0 \<le> f" "f < 2147483648"
  shows "0 \<le> bank_limit b"
proof -
  have "bank_levels b \<noteq> {}" "finite (bank_levels b)" using assms(1) by (auto simp: cooler_ok_def bank_levels_def)
  then have "bank_limit b \<in> bank_levels b" unfolding bank_limit_def by (intro Min_in)
  then show ?thesis using cooler_ok_in_range [OF assms] by (auto simp: bank_levels_def levels_in_range_def)
qed

text \<open>
  One step on coolers in order: it succeeds when the push does, only the state and level of the one
  cooler change, and a change of the level pushes the tightest level of all coolers.
\<close>

lemma cooler_step_ok:
  assumes ok: "cooler_ok f D (cd_bank s)" "0 \<le> f" "f < 2147483648" and c: "c \<in> D"
    and push: "\<And>l. 0 \<le> l \<Longrightarrow> push (cd_if s) l = Some (pushed l)"
  shows "\<exists>s'. cooler_step f push s c n = Some s' \<and> cooler_ok f D (cd_bank s') \<and>
     (\<forall>e. cl_max_state (cd_pdata s' e) = cl_max_state (cd_pdata s e) \<and> cl_cooler_id (cd_pdata s' e) = cl_cooler_id (cd_pdata s e)) \<and>
     (\<forall>e. cl_state (cd_pdata s' e) = (if e = c then min n (cl_max_state (cd_pdata s c)) else cl_state (cd_pdata s e))) \<and>
     (cd_if s' = pushed (bank_limit (cd_bank s')) \<or> cd_if s' = cd_if s \<and> bank_limit (cd_bank s') = bank_limit (cd_bank s))"
proof -
  let ?p = "cd_pdata s c" and ?m = "min n (cl_max_state (cd_pdata s c))"
  have len: "cl_max_state ?p \<le> length (cl_levels ?p)" "cl_state ?p \<le> cl_max_state ?p"
    "state_level f ?p (cl_state ?p) = Some (cl_level ?p)"
    using ok(1) c by (auto simp: cooler_ok_def)
  obtain l where l: "state_level f ?p ?m = Some l" using state_level_total [of ?m ?p f] len(1) by (meson le_trans min.cobounded2)
  let ?b = "(cd_bank s)\<lparr>cb_data := (cd_pdata s)(c := ?p\<lparr>cl_state := ?m, cl_level := l\<rparr>)\<rparr>"
  have b: "cooler_ok f D ?b" using cooler_ok_put [OF ok(1) c _ l] by simp
  show ?thesis
  proof (cases "cl_state ?p = n")
    case True
    then show ?thesis using ok(1) len(2) by (intro exI [of _ s]) (auto simp: cooler_step_def)
  next
    case ne: False
    show ?thesis
    proof (cases "l = cl_level ?p")
      case True
      have e: "?p\<lparr>cl_state := ?m, cl_level := l\<rparr> = ?p\<lparr>cl_state := ?m\<rparr>" using True by simp
      have "cooler_step f push s c n = Some (s\<lparr>cd_bank := ?b\<rparr>)"
        using ne l True by (simp add: cooler_step_def cd_put_def Let_def)
      moreover have "bank_limit ?b = bank_limit (cd_bank s)" using True by (auto simp: bank_limit_def bank_levels_def intro!: arg_cong [where f = Min])
      ultimately show ?thesis using b by (intro exI [of _ "s\<lparr>cd_bank := ?b\<rparr>"]) auto
    next
      case False
      have "cb_list ?b \<noteq> []" using b by (auto simp: cooler_ok_def)
      from vs_levels.tightest_least [OF this cooler_ok_in_range [OF b ok(2,3)]] obtain k
        where k: "thermal_level_compare ?b True = Some (bank_limit ?b, ?b\<lparr>cb_list := k\<rparr>)" "set k = set (cb_list ?b)"
        unfolding bank_limit_def by blast
      let ?s = "\<lparr>cd_bank = ?b\<lparr>cb_list := k\<rparr>, cd_if = pushed (bank_limit ?b)\<rparr>"
      have push': "push (cd_if s) (bank_limit ?b) = Some (pushed (bank_limit ?b))" using bank_limit_nonneg [OF b ok(2,3)] by (rule push)
      have "cooler_step f push s c n = Some ?s"
        using ne l False k push' by (simp add: cooler_step_def cd_put_def Let_def)
      moreover have "bank_limit (?b\<lparr>cb_list := k\<rparr>) = bank_limit ?b" using k(2) by (simp add: bank_limit_def bank_levels_def)
      moreover have "cooler_ok f D (?b\<lparr>cb_list := k\<rparr>)" using cooler_ok_list [OF b] k(2) by simp
      ultimately show ?thesis by (intro exI [of _ ?s]) auto
    qed
  qed
qed

section \<open>Battery charge current and backlight\<close>

definition cd_state :: "cooler_drv \<Rightarrow> nat \<Rightarrow> nat" where "cd_state s c = cl_state (cd_pdata s c)"
definition cd_max_state :: "cooler_drv \<Rightarrow> nat \<Rightarrow> nat" where "cd_max_state s c = cl_max_state (cd_pdata s c)"

text \<open>The charge current property for a level, and when it is the one last written.\<close>

definition bcct_value :: "int \<Rightarrow> int" where
  "bcct_value l = (if l \<ge> CHARGE_CURRENT_MAX then -1 else s32 (l sdiv 100 * 1000))"

definition bcct_in_force :: "cooler_drv \<Rightarrow> bool" where
  "bcct_in_force s \<longleftrightarrow> psy_sets (cd_if s) \<noteq> [] \<and>
     last (psy_sets (cd_if s)) = (BATTERY_NAME, PSP_CONSTANT_CHARGE_CURRENT, bcct_value (bank_limit (cd_bank s)))"

definition bcct_ok :: "nat set \<Rightarrow> cooler_drv \<Rightarrow> bool" where
  "bcct_ok D s \<longleftrightarrow> cooler_ok CHARGE_CURRENT_MAX D (cd_bank s) \<and> (\<forall>c\<in>D. cl_cooler_id (cd_pdata s c) = 0) \<and> bat_psy (cd_if s)"

definition bcct_pushed :: "vs_if \<Rightarrow> int \<Rightarrow> vs_if" where
  "bcct_pushed i l = i\<lparr>psy_sets := psy_sets i @ [(BATTERY_NAME, PSP_CONSTANT_CHARGE_CURRENT, bcct_value l)]\<rparr>"

lemma bcct_push_eq: "bat_psy i \<Longrightarrow> 0 \<le> l \<Longrightarrow> bcct_push env i l = Some (bcct_pushed i l)"
proof -
  assume "bat_psy i" "0 \<le> l"
  moreover have "l sdiv 100 \<noteq> -1" using \<open>0 \<le> l\<close> by (simp add: sdiv_nonneg)
  ultimately show ?thesis
    by (simp add: bcct_push_def vs_set_cooling_level_def set_charging_level_limit_def bcct_pushed_def bcct_value_def)
qed

lemma bcct_step:
  assumes "bcct_ok D s" "c \<in> D"
  shows "\<exists>s'. bcct_set_cur_state env s (Some c) n = Some (0, s') \<and> bcct_ok D s' \<and>
     (\<forall>e. cd_max_state s' e = cd_max_state s e) \<and>
     (\<forall>e. cd_state s' e = (if e = c then min n (cd_max_state s c) else cd_state s e)) \<and>
     (bcct_in_force s' \<or> cd_if s' = cd_if s \<and> bank_limit (cd_bank s') = bank_limit (cd_bank s))"
proof -
  have ok: "cooler_ok CHARGE_CURRENT_MAX D (cd_bank s)" "\<forall>c\<in>D. cl_cooler_id (cd_pdata s c) = 0" "bat_psy (cd_if s)"
    using assms(1) by (simp_all add: bcct_ok_def)
  have "0 \<le> CHARGE_CURRENT_MAX" "CHARGE_CURRENT_MAX < 2147483648" by (simp_all add: CHARGE_CURRENT_MAX_def)
  from cooler_step_ok [OF ok(1) this assms(2), of "bcct_push env", OF bcct_push_eq [OF ok(3)]]
  obtain s' where s': "cooler_step CHARGE_CURRENT_MAX (bcct_push env) s c n = Some s'" "cooler_ok CHARGE_CURRENT_MAX D (cd_bank s')"
    "\<forall>e. cl_max_state (cd_pdata s' e) = cl_max_state (cd_pdata s e) \<and> cl_cooler_id (cd_pdata s' e) = cl_cooler_id (cd_pdata s e)"
    "\<forall>e. cl_state (cd_pdata s' e) = (if e = c then min n (cl_max_state (cd_pdata s c)) else cl_state (cd_pdata s e))"
    "cd_if s' = bcct_pushed (cd_if s) (bank_limit (cd_bank s')) \<or> cd_if s' = cd_if s \<and> bank_limit (cd_bank s') = bank_limit (cd_bank s)"
    by blast
  have "bcct_set_cur_state env s (Some c) n = Some (0, s')"
    using bcct_is_cooler_step [of s c env n] s'(1) ok(2) assms(2) by (simp add: vs_thermal_cooler_of_def)
  moreover have "bcct_ok D s'" using ok s'(2,3,5) by (auto simp: bcct_ok_def bcct_pushed_def)
  ultimately show ?thesis using s'(3-5) by (auto simp: cd_state_def cd_max_state_def bcct_in_force_def bcct_pushed_def)
qed

definition bcct_set :: "vs_env \<Rightarrow> cooler_drv \<Rightarrow> nat \<Rightarrow> nat \<Rightarrow> cooler_drv option" where
  "bcct_set env s c n = map_option snd (bcct_set_cur_state env s (Some c) n)"

lemma bcct_setD: "bcct_ok D s \<Longrightarrow> c \<in> D \<Longrightarrow> bcct_set env s c n = Some s' \<Longrightarrow>
    bcct_ok D s' \<and> (\<forall>e. cd_max_state s' e = cd_max_state s e) \<and>
     (\<forall>e. cd_state s' e = (if e = c then min n (cd_max_state s c) else cd_state s e)) \<and>
     (bcct_in_force s' \<or> cd_if s' = cd_if s \<and> bank_limit (cd_bank s') = bank_limit (cd_bank s))"
  using bcct_step [of D s c env n] by (auto simp: bcct_set_def)

interpretation bcct_cd: cooling_device cd_max_state cd_state "bcct_set env" "bcct_ok D" D for env D
proof (unfold_locales, goal_cases)
  case (1 s d n)
  then show ?case using bcct_step [of D s d env n] by (auto simp: bcct_set_def)
next
  case (5 s d)
  then show ?case by (auto simp: bcct_ok_def cooler_ok_def cd_state_def cd_max_state_def)
qed (use bcct_setD in \<open>auto split: if_splits\<close>)

definition backlight_set :: "vs_env \<Rightarrow> cooler_drv \<Rightarrow> nat \<Rightarrow> nat \<Rightarrow> cooler_drv option" where
  "backlight_set env s c n = map_option snd (backlight_set_cur_state env s (Some c) n)"

definition backlight_ok :: "nat set \<Rightarrow> cooler_drv \<Rightarrow> bool" where
  "backlight_ok D s \<longleftrightarrow> cooler_ok MAX_BRIGHTNESS D (cd_bank s)"

lemma backlight_step:
  assumes "backlight_ok D s" "c \<in> D"
  shows "\<exists>s'. backlight_set env s c n = Some s' \<and> backlight_ok D s' \<and>
     (\<forall>e. cd_max_state s' e = cd_max_state s e) \<and>
     (\<forall>e. cd_state s' e = (if e = c then min n (cd_max_state s c) else cd_state s e)) \<and>
     (brightness_sets (cd_if s') = brightness_sets (cd_if s) @ [bank_limit (cd_bank s')] \<or>
      cd_if s' = cd_if s \<and> bank_limit (cd_bank s') = bank_limit (cd_bank s))"
proof -
  have r: "0 \<le> MAX_BRIGHTNESS" "MAX_BRIGHTNESS < 2147483648" by (simp_all add: MAX_BRIGHTNESS_def)
  have p: "backlight_push env (cd_if s) l = Some ((cd_if s)\<lparr>brightness_sets := brightness_sets (cd_if s) @ [l]\<rparr>)" for l
    by (simp add: backlight_push_def vs_set_cooling_level_def)
  from cooler_step_ok [OF assms(1) [unfolded backlight_ok_def] r assms(2), of "backlight_push env", OF p, of n] obtain s'
    where "cooler_step MAX_BRIGHTNESS (backlight_push env) s c n = Some s'" "cooler_ok MAX_BRIGHTNESS D (cd_bank s')"
    "\<forall>e. cl_max_state (cd_pdata s' e) = cl_max_state (cd_pdata s e) \<and> cl_cooler_id (cd_pdata s' e) = cl_cooler_id (cd_pdata s e)"
    "\<forall>e. cl_state (cd_pdata s' e) = (if e = c then min n (cl_max_state (cd_pdata s c)) else cl_state (cd_pdata s e))"
    "cd_if s' = (cd_if s)\<lparr>brightness_sets := brightness_sets (cd_if s) @ [bank_limit (cd_bank s')]\<rparr> \<or>
     cd_if s' = cd_if s \<and> bank_limit (cd_bank s') = bank_limit (cd_bank s)" by blast
  then show ?thesis
    by (intro exI [of _ s']) (auto simp: backlight_set_def backlight_is_cooler_step backlight_ok_def cd_state_def cd_max_state_def)
qed

interpretation backlight_cd: cooling_device cd_max_state cd_state "backlight_set env" "backlight_ok D" D for env D
proof (unfold_locales, goal_cases)
  case (1 s d n)
  then show ?case using backlight_step [of D s d env n] by auto
next
  case (2 s d n s')
  then show ?case using backlight_step [of D s d env n] by auto
next
  case (3 s d n s' e)
  then show ?case using backlight_step [of D s d env n] by auto
next
  case (4 s d n s' e)
  then show ?case using backlight_step [of D s d env n] by auto
next
  case (5 s d)
  then show ?case by (auto simp: backlight_ok_def cooler_ok_def cd_state_def cd_max_state_def)
qed

section \<open>CPU power budget\<close>

definition cpu_ready :: "vs_if \<Rightarrow> bool" where
  "cpu_ready i \<longleftrightarrow> (case cpufreq_cdev i of None \<Rightarrow> False
     | Some c \<Rightarrow> 0 < vc_cpus c \<and> length (vc_em c) = Suc (vc_max_level c) \<and> vc_qos c \<noteq> None)"

text \<open>The frequency limit that belongs to a budget, and when it is in force.\<close>

definition budget_freq :: "vs_cpufreq_cdev \<Rightarrow> int \<Rightarrow> int option" where
  "budget_freq c b = vs_cpu_power_to_freq (vc_em c) (vc_max_level c) (u32w (if b < MAXIMUM_CPU_POWER then b else 0) div vc_cpus c)"

definition budget_in_force :: "budget_drv \<Rightarrow> bool" where
  "budget_in_force s \<longleftrightarrow> (case cpufreq_cdev (cd_if s) of None \<Rightarrow> False
     | Some c \<Rightarrow> vc_qos c = budget_freq c (thermal_budget s))"

definition budget_inv :: "nat set \<Rightarrow> budget_drv \<Rightarrow> bool" where
  "budget_inv D s \<longleftrightarrow> cooler_ok MAXIMUM_CPU_POWER D (cd_bank s) \<and> cpu_ready (cd_if s) \<and>
     thermal_budget_cooler s = bank_limit (cd_bank s) \<and>
     thermal_budget s = min (thermal_budget_cpu s) (thermal_budget_cooler s)"

lemma budget_in_force_cong:
  "thermal_budget s' = thermal_budget s \<Longrightarrow> cd_if s' = cd_if s \<Longrightarrow> budget_in_force s \<Longrightarrow> budget_in_force s'"
  by (simp add: budget_in_force_def split: option.splits)

lemma cpu_freq_total:
  assumes "length em = Suc n"
  shows "\<exists>f. vs_cpu_power_to_freq em n pw = Some f"
  using power_level_greatest [of n em pw] assms by (auto simp: vs_cpu_power_to_freq_def em_freq_def)

lemma budget_push:
  assumes "cpu_ready i"
  shows "\<exists>i' c. vs_set_cooling_level env i VS_COOLER_BUDGET (if b < MAXIMUM_CPU_POWER then b else 0) = Some (0, i') \<and>
     cpu_ready i' \<and> cpufreq_cdev i' = Some c \<and> vc_qos c = budget_freq c b"
proof -
  obtain c where c: "cpufreq_cdev i = Some c" "0 < vc_cpus c" "length (vc_em c) = Suc (vc_max_level c)" "vc_qos c \<noteq> None"
    using assms by (auto simp: cpu_ready_def split: option.splits)
  obtain f where f: "budget_freq c b = Some f" using cpu_freq_total [OF c(3)] unfolding budget_freq_def by blast
  then have "set_cpufreq_thermal_power env i (if b < MAXIMUM_CPU_POWER then b else 0)
      = Some (0, i\<lparr>cpufreq_cdev := Some (c\<lparr>vc_qos := Some f\<rparr>)\<rparr>)"
    using c by (auto simp: set_cpufreq_thermal_power_def budget_freq_def freq_qos_update_request_def)
  then show ?thesis using c f
    by (auto simp: vs_set_cooling_level_def cpu_ready_def budget_freq_def)
qed

lemma budget_notify_ok:
  assumes "cpu_ready (cd_if s)"
  shows "\<exists>s'. budget_notify env s b1 b2 = Some s' \<and> cpu_ready (cd_if s') \<and> thermal_budget s' = min b1 b2 \<and>
     cd_bank s' = cd_bank s \<and> thermal_budget_cooler s' = thermal_budget_cooler s \<and> thermal_budget_cpu s' = thermal_budget_cpu s \<and>
     (budget_in_force s' \<or> thermal_budget s' = thermal_budget s \<and> cd_if s' = cd_if s)"
proof (cases "min b1 b2 = thermal_budget s")
  case True
  then show ?thesis using assms by (auto simp: budget_notify_def)
next
  case False
  obtain i' c where "vs_set_cooling_level env (cd_if s) VS_COOLER_BUDGET (if min b1 b2 < MAXIMUM_CPU_POWER then min b1 b2 else 0) = Some (0, i')"
     "cpu_ready i'" "cpufreq_cdev i' = Some c" "vc_qos c = budget_freq c (min b1 b2)"
    using budget_push [OF assms] by blast
  then show ?thesis using False
    by (intro exI [of _ "s\<lparr>thermal_budget := min b1 b2, cd_if := i'\<rparr>"]) (simp add: budget_notify_def Let_def budget_in_force_def)
qed

lemma thermal_budget_notify_inv:
  assumes "budget_inv D s"
  shows "\<exists>s'. thermal_budget_notify env s b = Some s' \<and> budget_inv D s' \<and> cd_bank s' = cd_bank s \<and>
     thermal_budget_cpu s' = (if b = 0 then MAXIMUM_CPU_POWER else b) \<and> (budget_in_force s \<longrightarrow> budget_in_force s')"
proof -
  let ?cpu = "if b = 0 then MAXIMUM_CPU_POWER else b"
  let ?s = "s\<lparr>thermal_budget_cpu := ?cpu\<rparr>"
  have inv: "cooler_ok MAXIMUM_CPU_POWER D (cd_bank s)" "cpu_ready (cd_if s)" "thermal_budget_cooler s = bank_limit (cd_bank s)"
    using assms by (simp_all add: budget_inv_def)
  from budget_notify_ok [of ?s env ?cpu "thermal_budget_cooler s"] inv(2) obtain s'
    where s': "budget_notify env ?s ?cpu (thermal_budget_cooler s) = Some s'" "cpu_ready (cd_if s')"
      "thermal_budget s' = min ?cpu (thermal_budget_cooler s)" "cd_bank s' = cd_bank s"
      "thermal_budget_cooler s' = thermal_budget_cooler s" "thermal_budget_cpu s' = ?cpu"
      "budget_in_force s' \<or> thermal_budget s' = thermal_budget s \<and> cd_if s' = cd_if s" by auto
  have "budget_inv D s'" using inv s'(2-6) by (simp add: budget_inv_def)
  moreover have "budget_in_force s \<longrightarrow> budget_in_force s'" using s'(7) budget_in_force_cong by blast
  ultimately show ?thesis using s'(1,4,6) by (auto simp: thermal_budget_notify_def Let_def)
qed

lemma thermal_budget_set_inv:
  assumes "budget_inv D s" "c \<in> D"
  shows "\<exists>s'. thermal_budget_set_cur_state env s (Some c) n = Some (0, s') \<and> budget_inv D s' \<and>
     thermal_budget_cpu s' = thermal_budget_cpu s \<and> (budget_in_force s \<longrightarrow> budget_in_force s') \<and>
     (\<forall>e. cl_max_state (cb_data (cd_bank s') e) = cl_max_state (cb_data (cd_bank s) e)) \<and>
     (\<forall>e. cl_state (cb_data (cd_bank s') e)
        = (if e = c then min n (cl_max_state (cb_data (cd_bank s) c)) else cl_state (cb_data (cd_bank s) e)))"
proof -
  let ?p = "cb_data (cd_bank s) c" and ?m = "min n (cl_max_state (cb_data (cd_bank s) c))"
  have inv: "cooler_ok MAXIMUM_CPU_POWER D (cd_bank s)" "cpu_ready (cd_if s)" using assms(1) by (simp_all add: budget_inv_def)
  have f: "0 \<le> MAXIMUM_CPU_POWER" "MAXIMUM_CPU_POWER < 2147483648" by (simp_all add: MAXIMUM_CPU_POWER_def)
  have p: "cl_max_state ?p \<le> length (cl_levels ?p)" "cl_state ?p \<le> cl_max_state ?p" using inv(1) assms(2) by (auto simp: cooler_ok_def)
  show ?thesis
  proof (cases "cl_state ?p = n")
    case True
    then show ?thesis using assms p(2) by (intro exI [of _ s]) (auto simp: thermal_budget_set_cur_state_def)
  next
    case False
    obtain l where l: "state_level MAXIMUM_CPU_POWER ?p ?m = Some l" using state_level_total [of ?m ?p] p(1) by (meson le_trans min.cobounded2)
    let ?b = "(cd_bank s)\<lparr>cb_data := (cb_data (cd_bank s))(c := ?p\<lparr>cl_state := ?m, cl_level := l\<rparr>)\<rparr>"
    have b: "cooler_ok MAXIMUM_CPU_POWER D ?b" using cooler_ok_put [OF inv(1) assms(2) _ l] by simp
    have "cb_list ?b \<noteq> []" using b by (auto simp: cooler_ok_def)
    from vs_levels.tightest_least [OF this cooler_ok_in_range [OF b f]] obtain k
      where k: "thermal_level_compare ?b True = Some (bank_limit ?b, ?b\<lparr>cb_list := k\<rparr>)" "set k = set (cb_list ?b)"
      unfolding bank_limit_def by blast
    let ?s = "s\<lparr>cd_bank := ?b\<lparr>cb_list := k\<rparr>, thermal_budget_cooler := bank_limit ?b\<rparr>"
    have k': "cooler_ok MAXIMUM_CPU_POWER D (?b\<lparr>cb_list := k\<rparr>)" "bank_limit (?b\<lparr>cb_list := k\<rparr>) = bank_limit ?b"
      using cooler_ok_list [OF b] k(2) by (simp_all add: bank_limit_def bank_levels_def)
    from budget_notify_ok [of ?s env "thermal_budget_cpu s" "bank_limit ?b"] inv(2) obtain s'
      where s': "budget_notify env ?s (thermal_budget_cpu s) (bank_limit ?b) = Some s'" "cpu_ready (cd_if s')"
        "thermal_budget s' = min (thermal_budget_cpu s) (bank_limit ?b)" "cd_bank s' = ?b\<lparr>cb_list := k\<rparr>"
        "thermal_budget_cooler s' = bank_limit ?b" "thermal_budget_cpu s' = thermal_budget_cpu s"
        "budget_in_force s' \<or> thermal_budget s' = thermal_budget s \<and> cd_if s' = cd_if s" by auto
    have "thermal_budget_set_cur_state env s (Some c) n = Some (0, s')"
      using False l k(1) s'(1) unfolding thermal_budget_set_cur_state_def Let_def option.simps cap_is_min by simp
    moreover have "budget_inv D s'" using s'(2-6) k' by (simp add: budget_inv_def)
    moreover have "budget_in_force s \<longrightarrow> budget_in_force s'" using s'(7) budget_in_force_cong by blast
    ultimately show ?thesis using s'(4,6) by (intro exI [of _ s']) auto
  qed
qed

definition budget_set :: "vs_env \<Rightarrow> budget_drv \<Rightarrow> nat \<Rightarrow> nat \<Rightarrow> budget_drv option" where
  "budget_set env s c n = map_option snd (thermal_budget_set_cur_state env s (Some c) n)"

definition bd_state :: "budget_drv \<Rightarrow> nat \<Rightarrow> nat" where "bd_state s c = cl_state (cb_data (cd_bank s) c)"
definition bd_max_state :: "budget_drv \<Rightarrow> nat \<Rightarrow> nat" where "bd_max_state s c = cl_max_state (cb_data (cd_bank s) c)"

lemma budget_setD:
  assumes "budget_inv D s" "c \<in> D"
  shows "\<exists>s'. budget_set env s c n = Some s' \<and> budget_inv D s' \<and> (\<forall>e. bd_max_state s' e = bd_max_state s e) \<and>
     (\<forall>e. bd_state s' e = (if e = c then min n (bd_max_state s c) else bd_state s e))"
  using thermal_budget_set_inv [OF assms, of env n] by (auto simp: budget_set_def bd_state_def bd_max_state_def)

interpretation budget_cd: cooling_device bd_max_state bd_state "budget_set env" "budget_inv D" D for env D
proof (unfold_locales, goal_cases)
  case (1 s d n)
  then show ?case using budget_setD [of D s d env n] by auto
next
  case (2 s d n s')
  then show ?case using budget_setD [of D s d env n] by auto
next
  case (3 s d n s' e)
  then show ?case using budget_setD [of D s d env n] by auto
next
  case (4 s d n s' e)
  then show ?case using budget_setD [of D s d env n] by auto
next
  case (5 s d)
  then show ?case by (auto simp: budget_inv_def cooler_ok_def bd_state_def bd_max_state_def)
qed

section \<open>Correctness of the coolers\<close>

text \<open>A run of requests to the charge current coolers, each a device and a state.\<close>

fun bcct_run :: "vs_env \<Rightarrow> cooler_drv \<Rightarrow> (nat \<times> nat) list \<Rightarrow> cooler_drv option" where
  "bcct_run env s [] = Some s"
| "bcct_run env s ((c, n) # reqs) = (case bcct_set_cur_state env s (Some c) n of None \<Rightarrow> None | Some (_, s) \<Rightarrow> bcct_run env s reqs)"

text \<open>C15: whatever states are requested of the charge current coolers, in any order: every request
  succeeds, each cooler ends in its last requested state, cut at its maximum, and the charge current
  last written to the battery is that of the tightest level over all coolers (or no limit).\<close>

theorem charge_limit_is_tightest:
  assumes "bcct_ok D s" "bcct_in_force s" "fst ` set reqs \<subseteq> D"
  shows "\<exists>s'. bcct_run env s reqs = Some s' \<and> bcct_ok D s' \<and> bcct_in_force s' \<and>
    (\<forall>c\<in>D. cd_state s' c = (case map_of (rev reqs) c of None \<Rightarrow> cd_state s c | Some n \<Rightarrow> min n (cd_max_state s c)))"
  using assms
proof (induction reqs arbitrary: s)
  case Nil
  then show ?case by simp
next
  case (Cons r reqs)
  obtain c n where r: "r = (c, n)" by (cases r)
  then have c: "c \<in> D" using Cons.prems(3) by auto
  from bcct_step [OF Cons.prems(1) c, of env n] obtain s1 where s1: "bcct_set_cur_state env s (Some c) n = Some (0, s1)" "bcct_ok D s1"
    "\<forall>e. cd_max_state s1 e = cd_max_state s e" "\<forall>e. cd_state s1 e = (if e = c then min n (cd_max_state s c) else cd_state s e)"
    "bcct_in_force s1 \<or> cd_if s1 = cd_if s \<and> bank_limit (cd_bank s1) = bank_limit (cd_bank s)" by blast
  have "bcct_in_force s1" using s1(5) Cons.prems(2) by (auto simp: bcct_in_force_def)
  from Cons.IH [OF s1(2) this] Cons.prems(3) obtain s' where s': "bcct_run env s1 reqs = Some s'" "bcct_ok D s'" "bcct_in_force s'"
    "\<forall>c\<in>D. cd_state s' c = (case map_of (rev reqs) c of None \<Rightarrow> cd_state s1 c | Some n \<Rightarrow> min n (cd_max_state s1 c))" by auto
  then show ?case using r s1(1,3,4) by (auto simp: map_add_def split: option.splits)
qed

definition bcct_example :: cooler_drv where
  "bcct_example = \<lparr>cd_bank = \<lparr>cb_data = (\<lambda>c. \<lparr>cl_type = ''bcct'', cl_state = 0, cl_max_state = 2, cl_level = 320001, cl_cooler_id = 0,
       cl_levels = (if c = 0 then [200000, 100000] else [150000, 50000])\<rparr>), cb_list = [1, 0]\<rparr>,
     cd_if = \<lparr>bat_psy = True, wpc_psy = False, chg_psy = False, cpufreq_cdev = None, cpufreq_cdev_mc = [None, None],
       psy_sets = [(BATTERY_NAME, PSP_CONSTANT_CHARGE_CURRENT, -1)], brightness_sets = []\<rparr>\<rparr>"

lemma bcct_example_ok: "bcct_ok {0, 1} bcct_example" "bcct_in_force bcct_example"
  by (auto simp: bcct_ok_def cooler_ok_def bcct_example_def state_level_def CHARGE_CURRENT_MAX_def bcct_in_force_def
      bcct_value_def bank_limit_def bank_levels_def)

theorem charge_limit_is_tightest_witness:
  "\<forall>env. \<exists>s'. bcct_run env bcct_example [(0, 2), (1, 1), (0, 7), (1, 0)] = Some s' \<and> bcct_in_force s' \<and> cd_state s' 0 = 2 \<and> cd_state s' 1 = 0"
proof
  fix env
  have "fst ` set [(0 :: nat, 2 :: nat), (1, 1), (0, 7), (1, 0)] \<subseteq> {0, 1}" by simp
  from charge_limit_is_tightest [OF bcct_example_ok this, of env] obtain s'
    where "bcct_run env bcct_example [(0, 2), (1, 1), (0, 7), (1, 0)] = Some s'" "bcct_in_force s'"
      "\<forall>c\<in>{0, 1}. cd_state s' c = (case map_of (rev [(0, 2), (1, 1), (0, 7), (1, 0)]) c of None \<Rightarrow> cd_state bcct_example c
         | Some n \<Rightarrow> min n (cd_max_state bcct_example c))" by blast
  then show "\<exists>s'. bcct_run env bcct_example [(0, 2), (1, 1), (0, 7), (1, 0)] = Some s' \<and> bcct_in_force s' \<and> cd_state s' 0 = 2 \<and> cd_state s' 1 = 0"
    by (intro exI [of _ s']) (simp add: cd_max_state_def bcct_example_def)
qed

datatype budget_request = Cool nat nat | Write "int option"

fun budget_run :: "vs_env \<Rightarrow> budget_drv \<Rightarrow> budget_request list \<Rightarrow> budget_drv option" where
  "budget_run env s [] = Some s"
| "budget_run env s (Cool c n # reqs) =
     (case thermal_budget_set_cur_state env s (Some c) n of None \<Rightarrow> None | Some (_, s) \<Rightarrow> budget_run env s reqs)"
| "budget_run env s (Write v # reqs) =
     (case thermal_budget_write env s v 0 of None \<Rightarrow> None | Some (_, s) \<Rightarrow> budget_run env s reqs)"

text \<open>The budget user space asked for last.\<close>

definition written_budget :: "int option \<Rightarrow> int" where
  "written_budget v = (case v of None \<Rightarrow> MAXIMUM_CPU_POWER | Some v \<Rightarrow> if s32 v = 0 then MAXIMUM_CPU_POWER else s32 v)"

fun budget_asked :: "int \<Rightarrow> budget_request list \<Rightarrow> int" where
  "budget_asked b [] = b"
| "budget_asked b (Cool c n # reqs) = budget_asked b reqs"
| "budget_asked b (Write v # reqs) = budget_asked (written_budget v) reqs"

text \<open>C20: after any sequence of cooler requests and budgets written by user space, the thermal budget
  is the smaller of the last budget written (as a signed number; the maximum for 0 or unreadable
  text) and the tightest cooler level, and the CPU frequency limit in force is the one of that
  budget.\<close>

theorem thermal_budget_is_tightest:
  assumes "budget_inv D s" "budget_in_force s" "\<forall>c n. Cool c n \<in> set reqs \<longrightarrow> c \<in> D"
  shows "\<exists>s'. budget_run env s reqs = Some s' \<and> budget_inv D s' \<and> budget_in_force s' \<and>
    thermal_budget_get s' = min (thermal_budget_cpu s') (bank_limit (cd_bank s')) \<and>
    thermal_budget_cpu s' = budget_asked (thermal_budget_cpu s) reqs"
  using assms
proof (induction reqs arbitrary: s)
  case Nil
  then show ?case by (simp add: budget_inv_def thermal_budget_get_def)
next
  case (Cons r reqs)
  have ok: "\<forall>c n. Cool c n \<in> set reqs \<longrightarrow> c \<in> D" using Cons.prems(3) by simp
  show ?case
  proof (cases r)
    case (Cool c n)
    then have "c \<in> D" using Cons.prems(3) by simp
    from thermal_budget_set_inv [OF Cons.prems(1) this, of env n] obtain s1
      where "thermal_budget_set_cur_state env s (Some c) n = Some (0, s1)" "budget_inv D s1" "budget_in_force s1"
        "thermal_budget_cpu s1 = thermal_budget_cpu s" using Cons.prems(2) by blast
    then show ?thesis using Cons.IH [of s1] ok Cool by simp
  next
    case (Write v)
    let ?b = "if (case v of None \<Rightarrow> 0 | Some v \<Rightarrow> v) \<noteq> 0 then s32 (case v of None \<Rightarrow> 0 | Some v \<Rightarrow> v) else MAXIMUM_CPU_POWER"
    from thermal_budget_notify_inv [OF Cons.prems(1), of env ?b] obtain s1
      where s1: "thermal_budget_notify env s ?b = Some s1" "budget_inv D s1" "budget_in_force s1"
        "thermal_budget_cpu s1 = (if ?b = 0 then MAXIMUM_CPU_POWER else ?b)" using Cons.prems(2) by blast
    have "thermal_budget_cpu s1 = written_budget v" using s1(4) by (auto simp: written_budget_def s32_id split: option.splits)
    moreover have "thermal_budget_write env s v 0 = Some (0, s1)" using s1(1) by (simp add: thermal_budget_write_def Let_def)
    ultimately show ?thesis using Cons.IH [OF s1(2,3) ok] Write by simp
  qed
qed

definition budget_example :: budget_drv where
  "budget_example = \<lparr>cd_bank = \<lparr>cb_data = (\<lambda>c. \<lparr>cl_type = ''budget'', cl_state = 0, cl_max_state = 2, cl_level = 4600, cl_cooler_id = 2,
       cl_levels = [3000, 1500]\<rparr>), cb_list = [0]\<rparr>,
     cd_if = vs_if_example\<lparr>cpufreq_cdev := Some (vs_cpu_example\<lparr>vc_qos := Some 2000000\<rparr>)\<rparr>,
     thermal_budget = 4600, thermal_budget_cooler = 4600, thermal_budget_cpu = 4600\<rparr>"

lemma budget_example_ok: "budget_inv {0} budget_example" "budget_in_force budget_example"
  by (simp_all add: budget_inv_def cooler_ok_def budget_example_def state_level_def MAXIMUM_CPU_POWER_def cpu_ready_def
      vs_if_example_def vs_cpu_example_def bank_limit_def bank_levels_def budget_in_force_def budget_freq_def
      vs_cpu_power_to_freq_def em_freq_def u32w_def)

theorem thermal_budget_is_tightest_witness:
  "\<forall>env. \<exists>s'. budget_run env budget_example [Write (Some 2000), Cool 0 1, Write None, Cool 0 2] = Some s' \<and>
     budget_inv {0} s' \<and> budget_in_force s' \<and> thermal_budget_cpu s' = 4600"
proof
  fix env
  have "\<forall>c n. Cool c n \<in> set [Write (Some 2000), Cool 0 1, Write None, Cool 0 2] \<longrightarrow> c \<in> {0}" by simp
  from thermal_budget_is_tightest [OF budget_example_ok this, of env]
  show "\<exists>s'. budget_run env budget_example [Write (Some 2000), Cool 0 1, Write None, Cool 0 2] = Some s' \<and>
     budget_inv {0} s' \<and> budget_in_force s' \<and> thermal_budget_cpu s' = 4600"
    by (auto simp: written_budget_def MAXIMUM_CPU_POWER_def)
qed

text \<open>A budget of $2^{31}$ or more written by user space is taken as a negative number, which is
  below every cooler level: the thermal budget becomes that negative number, and the frequency
  limit is computed for the huge unsigned budget, so that the throttling in force is lost.\<close>

theorem huge_budget_defeats_throttling:
  assumes "budget_inv D s" "cpufreq_cdev (cd_if s) = Some c" "\<forall>p\<in>set (vc_em c). em_power p * vc_cpus c \<le> v"
    "2147483648 \<le> v" "v < 4294967296" "vc_cpus c \<le> v" "thermal_budget s \<noteq> v - 4294967296"
  shows "\<exists>s' c'. thermal_budget_write env s (Some v) len = Some (len, s') \<and> thermal_budget s' = v - 4294967296 \<and>
     cpufreq_cdev (cd_if s') = Some c' \<and> vc_qos c' = Some (em_frequency (vc_em c ! vc_max_level c))"
proof -
  have r: "cpu_ready (cd_if s)" "cooler_ok MAXIMUM_CPU_POWER D (cd_bank s)" "thermal_budget_cooler s = bank_limit (cd_bank s)"
    using assms(1) by (simp_all add: budget_inv_def)
  have c: "0 < vc_cpus c" "length (vc_em c) = Suc (vc_max_level c)" "vc_qos c \<noteq> None"
    using r(1) assms(2) by (simp_all add: cpu_ready_def)
  have v: "s32 v = v - 4294967296" using assms(4,5) by (rule s32_high)
  have "0 \<le> bank_limit (cd_bank s)" using bank_limit_nonneg [OF r(2)] by (simp add: MAXIMUM_CPU_POWER_def)
  then have m: "min (s32 v) (thermal_budget_cooler s) = s32 v" using r(3) v assms(5) by simp
  have neg: "s32 v < MAXIMUM_CPU_POWER" "u32w (s32 v) = v" "s32 v \<noteq> 0" "v \<noteq> 0"
    using v assms(4,5) by (simp_all add: MAXIMUM_CPU_POWER_def u32w_def)
  let ?n = "vc_max_level c"
  have "v div vc_cpus c \<noteq> 0" using int_le_div_iff [OF c(1), of 1 v] assms(6) by simp
  moreover have "power_level (vc_em c) ?n (v div vc_cpus c) = Some ?n"
  proof (cases ?n)
    case (Suc k)
    then have "em_power (vc_em c ! Suc k) \<le> v div vc_cpus c" using assms(3) int_le_div_iff [OF c(1)] c(2) by simp
    then show ?thesis using Suc c(2) by simp
  qed simp
  ultimately have f: "vs_cpu_power_to_freq (vc_em c) ?n (v div vc_cpus c) = Some (em_frequency (vc_em c ! ?n))"
    using c(2) by (simp add: vs_cpu_power_to_freq_def em_freq_def)
  obtain q where "vc_qos c = Some q" using c(3) by auto
  then have "set_cpufreq_thermal_power env (cd_if s) (s32 v)
      = Some (0, (cd_if s)\<lparr>cpufreq_cdev := Some (c\<lparr>vc_qos := Some (em_frequency (vc_em c ! ?n))\<rparr>)\<rparr>)"
    using assms(2) c(1) f neg(2) by (simp add: set_cpufreq_thermal_power_def freq_qos_update_request_def)
  then show ?thesis using m neg assms(7) v
    by (simp add: thermal_budget_write_def thermal_budget_notify_def budget_notify_def vs_set_cooling_level_def Let_def)
qed

theorem huge_budget_defeats_throttling_witness:
  "\<forall>env. \<exists>s' c'. thermal_budget_write env budget_example (Some 3000000000) 10 = Some (10, s') \<and> thermal_budget s' = - 1294967296 \<and>
     cpufreq_cdev (cd_if s') = Some c' \<and> vc_qos c' = Some 2000000"
  using huge_budget_defeats_throttling [OF budget_example_ok(1), of "vs_cpu_example\<lparr>vc_qos := Some 2000000\<rparr>" 3000000000]
  by (simp add: budget_example_def vs_cpu_example_def)

definition wpc_example :: cooler_drv where
  "wpc_example = bcct_example\<lparr>cd_bank := \<lparr>cb_data = (\<lambda>c. \<lparr>cl_type = ''wpc_bcct1'', cl_state = 0, cl_max_state = 2, cl_level = 10000,
     cl_cooler_id = 4, cl_levels = [700, 500]\<rparr>), cb_list = [0]\<rparr>\<rparr>"

text \<open>The wireless charging cooler of the foreign object detection obeys the kind of dock: a
  failed query of the charger changes nothing and returns its error, a non-zero state below the
  dock's index is accepted and ignored, and every other request sets the state, cut at its maximum.\<close>

theorem wpc_state_by_dock:
  assumes "cl_type (cd_pdata s c) = ''wpc_bcct1''" "cl_state (cd_pdata s c) \<noteq> n"
    "cooler_ok WPC_CHARGE_CURRENT_MAX D (cd_bank s)" "c \<in> D"
    "vs_thermal_cooler_of (cl_cooler_id (cd_pdata s c)) \<in> {VS_COOLER_WIRELESS_CHG, VS_COOLER_FOD_WIRELESS_CHG}"
  shows "(\<not> psy_found env ''mt6370_pmu_charger'' \<longrightarrow> wpc_set_cur_state env s (Some c) n = Some (- ENODEV, s)) \<and>
    (psy_found env ''mt6370_pmu_charger'' \<longrightarrow> psy_get env ''mt6370_pmu_charger'' PSP_TYPE = (ret, ty) \<longrightarrow>
       (ret < 0 \<longrightarrow> wpc_set_cur_state env s (Some c) n = Some (ret, s)) \<and>
       (0 \<le> ret \<longrightarrow> n \<noteq> 0 \<and> n < dock_type ty \<longrightarrow> wpc_set_cur_state env s (Some c) n = Some (0, s)) \<and>
       (0 \<le> ret \<longrightarrow> n = 0 \<or> dock_type ty \<le> n \<longrightarrow>
          (\<exists>s'. wpc_set_cur_state env s (Some c) n = Some (0, s') \<and> cooler_ok WPC_CHARGE_CURRENT_MAX D (cd_bank s') \<and>
             cl_state (cd_pdata s' c) = min n (cl_max_state (cd_pdata s c)))))"
proof -
  let ?id = "vs_thermal_cooler_of (cl_cooler_id (cd_pdata s c))"
  have w: "0 \<le> WPC_CHARGE_CURRENT_MAX" "WPC_CHARGE_CURRENT_MAX < 2147483648" by (simp_all add: WPC_CHARGE_CURRENT_MAX_def)
  have push: "wpc_push env ?id (cd_if s) l = Some (the (wpc_push env ?id (cd_if s) l))" for l
    using assms(5) unfolding wpc_push_def vs_set_cooling_level_def by (elim insertE emptyE) simp_all
  have "\<exists>s'. wpc_set_cur_state env s (Some c) n = Some (0, s') \<and> cooler_ok WPC_CHARGE_CURRENT_MAX D (cd_bank s') \<and>
             cl_state (cd_pdata s' c) = min n (cl_max_state (cd_pdata s c))"
    if "wpc_dock_check env (cl_type (cd_pdata s c)) n = Inr True"
    using wpc_is_cooler_step [OF assms(2) that] cooler_step_ok [OF assms(3) w assms(4), of "wpc_push env ?id", OF push, of n] by auto
  moreover have "wpc_set_cur_state env s (Some c) n = Some (e, s)" if "wpc_dock_check env (cl_type (cd_pdata s c)) n = Inl e" for e
    using assms(2) that by (simp add: wpc_set_cur_state_def Let_def)
  moreover have "wpc_set_cur_state env s (Some c) n = Some (0, s)" if "wpc_dock_check env (cl_type (cd_pdata s c)) n = Inr False"
    using assms(2) that by (simp add: wpc_set_cur_state_def Let_def)
  ultimately show ?thesis using assms(1) by (simp add: wpc_dock_check_def not_less)
qed

definition wpc_env :: vs_env where
  "wpc_env = \<lparr>psy_found = (\<lambda>_. True), psy_get = (\<lambda>_ _. (0, 18)), psy_set = (\<lambda>_ _ _. 0), pmic_temp = (\<lambda>_. 0), gadc_temp = (\<lambda>_. 0),
     cpu_policy = (\<lambda>_. None), kzalloc_ok = True, qos_add = 0\<rparr>"

theorem wpc_state_by_dock_witness:
  "wpc_set_cur_state wpc_env wpc_example (Some 0) 1 = Some (0, wpc_example) \<and>
   (\<exists>s'. wpc_set_cur_state wpc_env wpc_example (Some 0) 2 = Some (0, s') \<and> cl_state (cd_pdata s' 0) = 2)"
proof -
  have w: "cooler_ok WPC_CHARGE_CURRENT_MAX {0} (cd_bank wpc_example)" "cl_type (cd_pdata wpc_example 0) = ''wpc_bcct1''"
    "vs_thermal_cooler_of (cl_cooler_id (cd_pdata wpc_example 0)) \<in> {VS_COOLER_WIRELESS_CHG, VS_COOLER_FOD_WIRELESS_CHG}"
    "cl_state (cd_pdata wpc_example 0) = 0" "cl_max_state (cd_pdata wpc_example 0) = 2"
    by (auto simp: wpc_example_def cooler_ok_def state_level_def WPC_CHARGE_CURRENT_MAX_def vs_thermal_cooler_of_def)
  have d: "dock_type 18 = 2" by (simp add: dock_type_def POWER_SUPPLY_TYPE_WIRELESS_10W_def POLICY_MFA_IDX_def)
  show ?thesis using wpc_state_by_dock [OF w(2) _ w(1) _ w(3), of 1 wpc_env 0 18] wpc_state_by_dock [OF w(2) _ w(1) _ w(3), of 2 wpc_env 0 18]
    by (auto simp: w(4,5) d wpc_env_def)
qed

end
