(* ===== verification/Sol_Rtc.thy ===== *)
theory Sol_Rtc
  imports Prelude
begin

text \<open>
  The RTC platform of the sign-of-life driver: \<^verbatim>\<open>amzn_sign_of_life_rtc_impl.c\<close> with the tables
  and bit fields of \<^verbatim>\<open>amzn_sign_of_life_rtc.h\<close>, over the register access functions of
  \<^verbatim>\<open>drivers/rtc/rtc-mt6397.c\<close>. Four reasons (boot, shutdown, thermal shutdown, special mode) are
  three-bit fields of two RTC registers that survive a reboot, protected by one parity bit. The
  register file is a function from addresses to 16-bit values; a missing RTC device (the proxy
  pointer is NULL) is \<open>rtc_present = False\<close>. The lemmas give the parity as the exclusive or of the
  twelve field bits, the round trip of every field through the registers, and the frame of a write.
\<close>

section \<open>Reasons\<close>

datatype life_cycle_reason_t =
    LIFE_CYCLE_NOT_AVAILABLE
  | WARMBOOT_BY_KERNEL_PANIC | WARMBOOT_BY_KERNEL_WATCHDOG | WARMBOOT_BY_HW_WATCHDOG
  | WARMBOOT_BY_SW | COLDBOOT_BY_USB | COLDBOOT_BY_POWER_KEY | COLDBOOT_BY_POWER_SUPPLY
  | SHUTDOWN_BY_LONG_PWR_KEY_PRESS | SHUTDOWN_BY_SW | SHUTDOWN_BY_PWR_KEY
  | SHUTDOWN_BY_SUDDEN_POWER_LOSS | SHUTDOWN_BY_UNKNOWN_REASONS
  | THERMAL_SHUTDOWN_REASON_BATTERY | THERMAL_SHUTDOWN_REASON_PMIC | THERMAL_SHUTDOWN_REASON_SOC
  | THERMAL_SHUTDOWN_REASON_MODEM | THERMAL_SHUTDOWN_REASON_WIFI | THERMAL_SHUTDOWN_REASON_PCB
  | THERMAL_SHUTDOWN_REASON_BTS
  | LIFE_CYCLE_SMODE_NONE | LIFE_CYCLE_SMODE_LOW_BATTERY
  | LIFE_CYCLE_SMODE_WARM_BOOT_USB_CONNECTED | LIFE_CYCLE_SMODE_OTA
  | LIFE_CYCLE_SMODE_FACTORY_RESET | LIFE_CYCLE_SMODE_RTC_CHECK_FAIL

fun lcr_value :: "life_cycle_reason_t \<Rightarrow> int" where
  "lcr_value LIFE_CYCLE_NOT_AVAILABLE = - 1"
| "lcr_value WARMBOOT_BY_KERNEL_PANIC = 0x100"
| "lcr_value WARMBOOT_BY_KERNEL_WATCHDOG = 0x101"
| "lcr_value WARMBOOT_BY_HW_WATCHDOG = 0x102"
| "lcr_value WARMBOOT_BY_SW = 0x103"
| "lcr_value COLDBOOT_BY_USB = 0x104"
| "lcr_value COLDBOOT_BY_POWER_KEY = 0x105"
| "lcr_value COLDBOOT_BY_POWER_SUPPLY = 0x106"
| "lcr_value SHUTDOWN_BY_LONG_PWR_KEY_PRESS = 0x201"
| "lcr_value SHUTDOWN_BY_SW = 0x202"
| "lcr_value SHUTDOWN_BY_PWR_KEY = 0x203"
| "lcr_value SHUTDOWN_BY_SUDDEN_POWER_LOSS = 0x204"
| "lcr_value SHUTDOWN_BY_UNKNOWN_REASONS = 0x205"
| "lcr_value THERMAL_SHUTDOWN_REASON_BATTERY = 0x301"
| "lcr_value THERMAL_SHUTDOWN_REASON_PMIC = 0x302"
| "lcr_value THERMAL_SHUTDOWN_REASON_SOC = 0x303"
| "lcr_value THERMAL_SHUTDOWN_REASON_MODEM = 0x304"
| "lcr_value THERMAL_SHUTDOWN_REASON_WIFI = 0x305"
| "lcr_value THERMAL_SHUTDOWN_REASON_PCB = 0x306"
| "lcr_value THERMAL_SHUTDOWN_REASON_BTS = 0x307"
| "lcr_value LIFE_CYCLE_SMODE_NONE = 0x400"
| "lcr_value LIFE_CYCLE_SMODE_LOW_BATTERY = 0x401"
| "lcr_value LIFE_CYCLE_SMODE_WARM_BOOT_USB_CONNECTED = 0x402"
| "lcr_value LIFE_CYCLE_SMODE_OTA = 0x403"
| "lcr_value LIFE_CYCLE_SMODE_FACTORY_RESET = 0x404"
| "lcr_value LIFE_CYCLE_SMODE_RTC_CHECK_FAIL = 0x405"

datatype life_reason_type = BOOT | SHUTDOWN | THERMAL_SHUTDOWN | SPECIAL

section \<open>The RTC registers\<close>

record rtc_platform =
  rtc_present :: bool
  rtc_regs :: "u16 \<Rightarrow> u16"
  lcr_boot :: life_cycle_reason_t
  lcr_cmdline :: string

definition RTC_SPAR0 :: u16 where "RTC_SPAR0 = 0x30"
definition RTC_AL_DOW :: u16 where "RTC_AL_DOW = 0x20"
definition RTC_SPAR0_LPRST :: u16 where "RTC_SPAR0_LPRST = 0x200"
definition PMIC_RTC_QUIESCENT :: u16 where "PMIC_RTC_QUIESCENT = 0x8000"

definition PARITY_REG :: u16 where "PARITY_REG = RTC_AL_DOW"
definition QUIE_REG :: u16 where "QUIE_REG = RTC_AL_DOW"
definition PARITY_MASK :: u16 where "PARITY_MASK = 0x4000"
definition PARITY_SHIFT :: nat where "PARITY_SHIFT = 14"

definition mtk_rtc_read :: "rtc_platform \<Rightarrow> u16 \<Rightarrow> u16" where
  "mtk_rtc_read s addr = (if rtc_present s then rtc_regs s addr else 0)"

definition mtk_rtc_write :: "rtc_platform \<Rightarrow> u16 \<Rightarrow> u16 \<Rightarrow> int \<times> rtc_platform" where
  "mtk_rtc_write s addr d =
     (if rtc_present s then (0, s\<lparr>rtc_regs := (rtc_regs s)(addr := d)\<rparr>) else (- 1, s))"

text \<open>\<^verbatim>\<open>mtk_rtc_mark_sw_lprst\<close> takes the lock of the proxy without testing it for NULL.\<close>

definition mtk_rtc_mark_sw_lprst :: "rtc_platform \<Rightarrow> (int \<times> rtc_platform) option" where
  "mtk_rtc_mark_sw_lprst s =
     (if \<not> rtc_present s then None
      else Some (0, s\<lparr>rtc_regs := (rtc_regs s)(RTC_SPAR0 := rtc_regs s RTC_SPAR0 OR RTC_SPAR0_LPRST)\<rparr>))"

section \<open>Tables\<close>

type_synonym rtc_lcr_map = "(int \<times> life_cycle_reason_t) list"

definition rtc_to_boot_reason :: rtc_lcr_map where
  "rtc_to_boot_reason =
     [(0, LIFE_CYCLE_NOT_AVAILABLE), (1, WARMBOOT_BY_KERNEL_PANIC), (2, WARMBOOT_BY_KERNEL_WATCHDOG),
      (3, WARMBOOT_BY_HW_WATCHDOG), (4, WARMBOOT_BY_SW)]"

definition rtc_to_shutdown_reason :: rtc_lcr_map where
  "rtc_to_shutdown_reason =
     [(0, LIFE_CYCLE_NOT_AVAILABLE), (1, SHUTDOWN_BY_LONG_PWR_KEY_PRESS), (2, SHUTDOWN_BY_SW),
      (3, SHUTDOWN_BY_PWR_KEY), (4, SHUTDOWN_BY_SUDDEN_POWER_LOSS), (5, SHUTDOWN_BY_UNKNOWN_REASONS)]"

definition rtc_to_thermal_shutdown_reason :: rtc_lcr_map where
  "rtc_to_thermal_shutdown_reason =
     [(0, LIFE_CYCLE_NOT_AVAILABLE), (1, THERMAL_SHUTDOWN_REASON_BATTERY),
      (2, THERMAL_SHUTDOWN_REASON_PMIC), (3, THERMAL_SHUTDOWN_REASON_SOC),
      (4, THERMAL_SHUTDOWN_REASON_MODEM), (5, THERMAL_SHUTDOWN_REASON_WIFI),
      (6, THERMAL_SHUTDOWN_REASON_PCB), (7, THERMAL_SHUTDOWN_REASON_BTS)]"

definition rtc_to_special_mode_reason :: rtc_lcr_map where
  "rtc_to_special_mode_reason =
     [(0, LIFE_CYCLE_NOT_AVAILABLE), (1, LIFE_CYCLE_SMODE_LOW_BATTERY),
      (2, LIFE_CYCLE_SMODE_WARM_BOOT_USB_CONNECTED), (3, LIFE_CYCLE_SMODE_OTA),
      (4, LIFE_CYCLE_SMODE_FACTORY_RESET)]"

record sign_of_life_private_data =
  pd_mask :: u16
  pd_shift :: nat
  pd_reg :: u16
  pd_rtc_to_lcr :: rtc_lcr_map

fun life_cycle_reason :: "life_reason_type \<Rightarrow> sign_of_life_private_data" where
  "life_cycle_reason BOOT = \<lparr>pd_mask = 0x1C00, pd_shift = 10, pd_reg = RTC_SPAR0,
     pd_rtc_to_lcr = rtc_to_boot_reason\<rparr>"
| "life_cycle_reason SHUTDOWN = \<lparr>pd_mask = 0xE000, pd_shift = 13, pd_reg = RTC_SPAR0,
     pd_rtc_to_lcr = rtc_to_shutdown_reason\<rparr>"
| "life_cycle_reason THERMAL_SHUTDOWN = \<lparr>pd_mask = 0x0700, pd_shift = 8, pd_reg = RTC_AL_DOW,
     pd_rtc_to_lcr = rtc_to_thermal_shutdown_reason\<rparr>"
| "life_cycle_reason SPECIAL = \<lparr>pd_mask = 0x3800, pd_shift = 11, pd_reg = RTC_AL_DOW,
     pd_rtc_to_lcr = rtc_to_special_mode_reason\<rparr>"

definition all_reason_types :: "life_reason_type list" where
  "all_reason_types = [BOOT, SHUTDOWN, THERMAL_SHUTDOWN, SPECIAL]"

section \<open>Operations\<close>

definition rtc_mark_quiescent :: "rtc_platform \<Rightarrow> int \<Rightarrow> int \<times> rtc_platform" where
  "rtc_mark_quiescent s val =
     (let v = mtk_rtc_read s QUIE_REG;
          v = (if val = 0 then v AND NOT PMIC_RTC_QUIESCENT else v OR PMIC_RTC_QUIESCENT)
      in (0, snd (mtk_rtc_write s QUIE_REG v)))"

fun search_rtc_from :: "rtc_lcr_map \<Rightarrow> life_cycle_reason_t \<Rightarrow> int option" where
  "search_rtc_from [] reason = None"
| "search_rtc_from ((r, l) # t) reason = (if l = reason then Some r else search_rtc_from t reason)"

definition search_rtc_by_lcr :: "rtc_lcr_map \<Rightarrow> life_cycle_reason_t \<Rightarrow> int" where
  "search_rtc_by_lcr table reason =
     (case search_rtc_from table reason of Some r \<Rightarrow> r | None \<Rightarrow> fst (table ! 0))"

fun search_lcr_from :: "rtc_lcr_map \<Rightarrow> int \<Rightarrow> life_cycle_reason_t option" where
  "search_lcr_from [] reason = None"
| "search_lcr_from ((r, l) # t) reason = (if r = reason then Some l else search_lcr_from t reason)"

definition search_lcr_by_rtc :: "rtc_lcr_map \<Rightarrow> u16 \<Rightarrow> life_cycle_reason_t" where
  "search_lcr_by_rtc table reason =
     (case search_lcr_from table (uint reason) of Some l \<Rightarrow> l | None \<Rightarrow> snd (table ! 0))"

text \<open>The loop \<^verbatim>\<open>do { bit_count++; } while (0 != (mask >>= 1));\<close>\<close>

function mask_bits :: "u16 \<Rightarrow> nat \<Rightarrow> nat" where
  "mask_bits m n = (let m' = drop_bit 1 m in if m' = 0 then Suc n else mask_bits m' (Suc n))"
  by pat_completeness auto
termination
proof (relation "measure (\<lambda>(m, n). unat m)")
  fix m :: u16 and n m'
  assume m': "m' = drop_bit 1 m" "m' \<noteq> 0"
  then have "0 < unat m" by (auto simp: unat_gt_0)
  then have "unat (drop_bit 1 m) < unat m"
    by (simp only: unat_drop_bit_eq) (simp add: drop_bit_eq_div)
  with m' show "((m', Suc n), m, n) \<in> measure (\<lambda>(m, n). unat m)" by simp
qed simp

declare mask_bits.simps [simp del]

fun parity_gather :: "rtc_platform \<Rightarrow> life_reason_type list \<Rightarrow> u32 \<times> nat \<Rightarrow> u32 \<times> nat" where
  "parity_gather s [] acc = acc"
| "parity_gather s (t # ts) (parity, bit_count) =
     (let pd = life_cycle_reason t;
          rtc_value = mtk_rtc_read s (pd_reg pd);
          rtc_breason = drop_bit (pd_shift pd) (rtc_value AND pd_mask pd);
          parity = parity OR push_bit bit_count (ucast rtc_breason);
          mask = drop_bit (pd_shift pd) (pd_mask pd)
      in parity_gather s ts (parity, mask_bits mask bit_count))"

fun parity_fold :: "nat \<Rightarrow> u32 \<Rightarrow> u32 \<Rightarrow> u32" where
  "parity_fold 0 parity x = x"
| "parity_fold (Suc n) parity x = parity_fold n (drop_bit 1 parity) (x XOR (parity AND 1))"

definition get_sign_of_life_parity :: "rtc_platform \<Rightarrow> u32" where
  "get_sign_of_life_parity s =
     (let (parity, bit_count) = parity_gather s all_reason_types (0, 0)
      in parity_fold bit_count parity 0)"

definition check_sign_of_life_parity :: "rtc_platform \<Rightarrow> bool" where
  "check_sign_of_life_parity s =
     (let x = get_sign_of_life_parity s;
          rtc_value = mtk_rtc_read s PARITY_REG;
          reg_parity = drop_bit PARITY_SHIFT (rtc_value AND PARITY_MASK)
      in ucast reg_parity = x)"

fun rtc_clear_fields :: "rtc_platform \<Rightarrow> life_reason_type list \<Rightarrow> rtc_platform" where
  "rtc_clear_fields s [] = s"
| "rtc_clear_fields s (t # ts) =
     (let pd = life_cycle_reason t;
          rtc_value = mtk_rtc_read s (pd_reg pd) AND NOT (pd_mask pd)
      in rtc_clear_fields (snd (mtk_rtc_write s (pd_reg pd) rtc_value)) ts)"

definition rtc_clear_life_cycle_reason :: "rtc_platform \<Rightarrow> rtc_platform" where
  "rtc_clear_life_cycle_reason s =
     (let s = rtc_clear_fields s all_reason_types;
          rtc_value = mtk_rtc_read s PARITY_REG AND NOT PARITY_MASK
      in snd (mtk_rtc_write s PARITY_REG rtc_value))"

text \<open>
  A read returns its status and the value of the caller's variable, which keeps its old value on
  an error. The descriptor pointer may be NULL.
\<close>

definition rtc_read_life_cycle_reason ::
    "rtc_platform \<Rightarrow> life_cycle_reason_t \<Rightarrow> sign_of_life_private_data option \<Rightarrow> int \<times> life_cycle_reason_t" where
  "rtc_read_life_cycle_reason s reason pdata =
     (case pdata of None \<Rightarrow> (- EINVAL, reason)
      | Some pd \<Rightarrow>
          if pd_reg pd = 0 then (- EINVAL, reason)
          else let rtc_value = mtk_rtc_read s (pd_reg pd);
                   rtc_breason = drop_bit (pd_shift pd) (rtc_value AND pd_mask pd)
               in if \<not> check_sign_of_life_parity s then (0, LIFE_CYCLE_SMODE_RTC_CHECK_FAIL)
                  else (0, search_lcr_by_rtc (pd_rtc_to_lcr pd) rtc_breason))"

definition rtc_write_life_cycle_reason ::
    "rtc_platform \<Rightarrow> life_cycle_reason_t \<Rightarrow> sign_of_life_private_data option \<Rightarrow> int \<times> rtc_platform" where
  "rtc_write_life_cycle_reason s reason pdata =
     (case pdata of None \<Rightarrow> (- EINVAL, s)
      | Some pd \<Rightarrow>
          let life_cycle_breason = (word_of_int (search_rtc_by_lcr (pd_rtc_to_lcr pd) reason) :: u16);
              rtc_breason = mtk_rtc_read s (pd_reg pd);
              rtc_breason = rtc_breason AND NOT (pd_mask pd);
              rtc_breason = rtc_breason OR (push_bit (pd_shift pd) life_cycle_breason AND pd_mask pd);
              s = snd (mtk_rtc_write s (pd_reg pd) rtc_breason);
              rtc_breason = mtk_rtc_read s PARITY_REG;
              rtc_breason = rtc_breason AND NOT PARITY_MASK;
              rtc_breason = rtc_breason OR
                (push_bit PARITY_SHIFT (ucast (get_sign_of_life_parity s)) AND PARITY_MASK)
          in (0, snd (mtk_rtc_write s PARITY_REG rtc_breason)))"

section \<open>The boot reason of the bootloader\<close>

text \<open>\<^verbatim>\<open>strstr\<close> gives the suffix of the haystack that starts with the needle.\<close>

fun strstr :: "string \<Rightarrow> string \<Rightarrow> string option" where
  "strstr [] needle = (if needle = [] then Some [] else None)"
| "strstr (c # cs) needle = (if take (length needle) (c # cs) = needle then Some (c # cs) else strstr cs needle)"

definition COMMAND_LINE_SIZE :: nat where "COMMAND_LINE_SIZE = 4096"

text \<open>The content of \<^verbatim>\<open>/proc/cmdline\<close> is a parameter, \<open>None\<close> when it cannot be opened.\<close>

definition lcr_get_cmd :: "string option \<Rightarrow> rtc_platform \<Rightarrow> rtc_platform" where
  "lcr_get_cmd proc_cmdline s =
     (if lcr_cmdline s \<noteq> [] then s
      else case proc_cmdline of None \<Rightarrow> s
           | Some c \<Rightarrow> s\<lparr>lcr_cmdline := c_str (take COMMAND_LINE_SIZE c)\<rparr>)"

text \<open>
  The copy into \<^verbatim>\<open>bootreason_str[32]\<close> is bounded only by the distance to the next blank, so a value
  of 32 bytes or more writes past the array: \<open>None\<close>.
\<close>

definition get_android_bootreason :: "string option \<Rightarrow> rtc_platform \<Rightarrow> (int \<times> rtc_platform) option" where
  "get_android_bootreason proc_cmdline s0 =
     (let keyword = ''androidboot.bootreason''; s = lcr_get_cmd proc_cmdline s0
      in case strstr (lcr_cmdline s) keyword of None \<Rightarrow> Some (0, s)
         | Some ptr \<Rightarrow>
             (case strstr ptr '' '' of None \<Rightarrow> Some (0, s)
              | Some ptr_e \<Rightarrow>
                  let sz = int (length ptr) - int (length ptr_e) - int (length keyword)
                  in if sz \<le> 0 then Some (0, s)
                     else if sz \<ge> 32 then None
                     else let bootreason_str = take (nat sz) (drop (length keyword) ptr)
                          in Some (0, s\<lparr>lcr_boot :=
                               if bootreason_str = ''=PowerKey'' then COLDBOOT_BY_POWER_KEY
                               else if bootreason_str = ''=usb'' then COLDBOOT_BY_USB
                               else if bootreason_str = ''=Watchdog'' then WARMBOOT_BY_KERNEL_WATCHDOG
                               else if bootreason_str = ''=wdt_hw'' then WARMBOOT_BY_HW_WATCHDOG
                               else if bootreason_str = ''=kernel_panic'' then WARMBOOT_BY_KERNEL_PANIC
                               else LIFE_CYCLE_NOT_AVAILABLE\<rparr>)))"

section \<open>The platform operations\<close>

definition rtc_read_boot_reason :: "rtc_platform \<Rightarrow> life_cycle_reason_t \<Rightarrow> int \<times> life_cycle_reason_t" where
  "rtc_read_boot_reason s boot_reason =
     (let (ret, boot_reason) = rtc_read_life_cycle_reason s boot_reason (Some (life_cycle_reason BOOT))
      in if boot_reason = LIFE_CYCLE_NOT_AVAILABLE \<and> ret = 0 then (ret, lcr_boot s) else (ret, boot_reason))"

definition rtc_write_boot_reason :: "rtc_platform \<Rightarrow> life_cycle_reason_t \<Rightarrow> int \<times> rtc_platform" where
  "rtc_write_boot_reason s r = rtc_write_life_cycle_reason s r (Some (life_cycle_reason BOOT))"

definition rtc_read_shutdown_reason :: "rtc_platform \<Rightarrow> life_cycle_reason_t \<Rightarrow> int \<times> life_cycle_reason_t" where
  "rtc_read_shutdown_reason s r = rtc_read_life_cycle_reason s r (Some (life_cycle_reason SHUTDOWN))"

definition rtc_write_shutdown_reason :: "rtc_platform \<Rightarrow> life_cycle_reason_t \<Rightarrow> int \<times> rtc_platform" where
  "rtc_write_shutdown_reason s r = rtc_write_life_cycle_reason s r (Some (life_cycle_reason SHUTDOWN))"

definition rtc_read_thermal_shutdown_reason :: "rtc_platform \<Rightarrow> life_cycle_reason_t \<Rightarrow> int \<times> life_cycle_reason_t" where
  "rtc_read_thermal_shutdown_reason s r =
     rtc_read_life_cycle_reason s r (Some (life_cycle_reason THERMAL_SHUTDOWN))"

definition rtc_write_thermal_shutdown_reason :: "rtc_platform \<Rightarrow> life_cycle_reason_t \<Rightarrow> int \<times> rtc_platform" where
  "rtc_write_thermal_shutdown_reason s r =
     rtc_write_life_cycle_reason s r (Some (life_cycle_reason THERMAL_SHUTDOWN))"

definition rtc_read_special_mode :: "rtc_platform \<Rightarrow> life_cycle_reason_t \<Rightarrow> int \<times> life_cycle_reason_t" where
  "rtc_read_special_mode s r = rtc_read_life_cycle_reason s r (Some (life_cycle_reason SPECIAL))"

definition rtc_write_special_mode :: "rtc_platform \<Rightarrow> life_cycle_reason_t \<Rightarrow> int \<times> rtc_platform" where
  "rtc_write_special_mode s r = rtc_write_life_cycle_reason s r (Some (life_cycle_reason SPECIAL))"

definition rtc_lcr_reset :: "rtc_platform \<Rightarrow> int \<times> rtc_platform" where
  "rtc_lcr_reset s = (0, rtc_clear_life_cycle_reason s)"

section \<open>Bit fields\<close>

definition field3 :: "nat \<Rightarrow> u16 \<Rightarrow> u16" where
  "field3 sh v = drop_bit sh v AND mask 3"

lemma pd_mask_field: "pd_mask (life_cycle_reason t) = push_bit (pd_shift (life_cycle_reason t)) (mask 3)"
  by (cases t) (simp_all add: mask_eq_exp_minus_1 push_bit_eq_mult)

lemma pd_shift_le: "pd_shift (life_cycle_reason t) \<le> 13" "8 \<le> pd_shift (life_cycle_reason t)"
  by (cases t; simp)+

lemma field_of_mask:
  "sh \<le> 13 \<Longrightarrow> drop_bit sh ((v :: u16) AND push_bit sh (mask 3)) = field3 sh v"
  unfolding field3_def by (rule bit_word_eqI) (auto simp: bit_simps)

lemma field_set_same:
  fixes v w :: u16
  assumes "sh \<le> 13"
  shows "field3 sh ((v AND NOT (push_bit sh (mask 3))) OR (push_bit sh w AND push_bit sh (mask 3)))
    = w AND mask 3"
  unfolding field3_def using assms by (intro bit_word_eqI) (auto simp: bit_simps)

lemma bit_field_set:
  fixes v w :: u16
  shows "bit ((v AND NOT (push_bit sh (mask 3))) OR (push_bit sh w AND push_bit sh (mask 3))) n
    = (if sh \<le> n \<and> n < sh + 3 \<and> n < 16 then bit w (n - sh) else bit v n)"
  by (auto simp: bit_simps dest: bit_imp_le_length)

lemma mask_bits_7: "mask_bits 7 n = n + 3"
  by (simp add: mask_bits.simps drop_bit_eq_div)

lemma drop_mask: "drop_bit (pd_shift (life_cycle_reason t)) (pd_mask (life_cycle_reason t)) = 7"
  by (cases t) (simp_all add: drop_bit_eq_div)

section \<open>The parity of the four fields\<close>

text \<open>The twelve field bits of the two registers \<open>a\<close> (\<^verbatim>\<open>RTC_SPAR0\<close>) and \<open>d\<close> (\<^verbatim>\<open>RTC_AL_DOW\<close>).\<close>

definition lcr_bits :: "u16 \<Rightarrow> u16 \<Rightarrow> bool list" where
  "lcr_bits a d = map (bit a) [10..<16] @ map (bit d) [8..<14]"

definition xor_all :: "bool list \<Rightarrow> bool" where
  "xor_all bs = odd (count_list bs True)"

lemma xor_all_Cons: "xor_all (b # bs) = (b \<noteq> xor_all bs)"
  by (auto simp: xor_all_def)

lemma xor_all_append: "xor_all (bs @ cs) = (xor_all bs \<noteq> xor_all cs)"
  by (auto simp: xor_all_def)

lemma xor_all_Nil [simp]: "\<not> xor_all []"
  by (simp add: xor_all_def)

lemma and_1_of_bool: "(p :: u32) AND 1 = of_bool (bit p 0)"
  by (simp add: and_one_eq bit_0 mod_2_eq_odd)

lemma parity_fold_xor:
  "parity_fold n p (of_bool x) = of_bool (x \<noteq> xor_all (map (bit p) [0..<n]))"
proof (induction n arbitrary: p x)
  case 0
  then show ?case by simp
next
  case (Suc n)
  have "map (bit p) [0..<Suc n] = bit p 0 # map (bit (drop_bit 1 p)) [0..<n]"
    by (simp add: bit_simps map_Suc_upt [symmetric] upt_conv_Cons comp_def del: upt_Suc)
  moreover have "(of_bool x :: u32) XOR (p AND 1) = of_bool (x \<noteq> bit p 0)"
    by (simp add: and_1_of_bool)
  ultimately show ?case using Suc.IH [of "drop_bit 1 p" "x \<noteq> bit p 0"]
    by (simp add: xor_all_Cons del: upt_Suc) blast
qed

lemma bit_field3: "bit (field3 sh v) k = (k < 3 \<and> bit v (sh + k))"
  by (auto simp: field3_def bit_simps dest: bit_imp_le_length)

lemma bit_ucast_field3: "bit (ucast (field3 sh v) :: u32) k = (k < 3 \<and> bit v (sh + k))"
  by (auto simp: bit_simps bit_field3)

definition parity_word :: "u16 \<Rightarrow> u16 \<Rightarrow> u32" where
  "parity_word a d = ((ucast (field3 10 a) OR push_bit 3 (ucast (field3 13 a)))
     OR push_bit 6 (ucast (field3 8 d))) OR push_bit 9 (ucast (field3 11 d))"

lemma bit_parity_word:
  "k < 3 \<Longrightarrow> bit (parity_word a d) k = bit a (10 + k)"
  "k < 3 \<Longrightarrow> bit (parity_word a d) (3 + k) = bit a (13 + k)"
  "k < 3 \<Longrightarrow> bit (parity_word a d) (6 + k) = bit d (8 + k)"
  "k < 3 \<Longrightarrow> bit (parity_word a d) (9 + k) = bit d (11 + k)"
  by (auto simp: parity_word_def bit_or_iff bit_push_bit_iff bit_ucast_field3)

lemma bits_parity_word: "map (bit (parity_word a d)) [0..<12] = lcr_bits a d"
proof -
  have u: "[0..<12] = [0, 1, 2, 3, 4, 5, 6, 7, 8, 9, 10, 11 :: nat]"
    "[10..<16] = [10, 11, 12, 13, 14, 15 :: nat]" "[8..<14] = [8, 9, 10, 11, 12, 13 :: nat]"
    by code_simp+
  show ?thesis
    using bit_parity_word [of 0 a d] bit_parity_word [of 1 a d] bit_parity_word [of 2 a d]
    by (simp add: lcr_bits_def u)
qed

lemma parity_gather_word:
  "parity_gather s all_reason_types (0, 0)
    = (parity_word (mtk_rtc_read s RTC_SPAR0) (mtk_rtc_read s RTC_AL_DOW), 12)"
proof -
  have f: "drop_bit (pd_shift (life_cycle_reason t)) (v AND pd_mask (life_cycle_reason t))
      = field3 (pd_shift (life_cycle_reason t)) v" for t v
    unfolding pd_mask_field by (rule field_of_mask) (rule pd_shift_le)
  note f' = f [of BOOT] f [of SHUTDOWN] f [of THERMAL_SHUTDOWN] f [of SPECIAL]
  note m' = drop_mask [of BOOT] drop_mask [of SHUTDOWN] drop_mask [of THERMAL_SHUTDOWN]
    drop_mask [of SPECIAL]
  show ?thesis
    using f' m'
    by (simp add: all_reason_types_def Let_def mask_bits_7 parity_word_def)
qed

lemma get_parity_xor:
  "get_sign_of_life_parity s
    = of_bool (xor_all (lcr_bits (mtk_rtc_read s RTC_SPAR0) (mtk_rtc_read s RTC_AL_DOW)))"
  using parity_fold_xor [of 12 _ False]
  by (simp add: get_sign_of_life_parity_def parity_gather_word bits_parity_word)

lemma check_parity_bit:
  "check_sign_of_life_parity s \<longleftrightarrow> bit (mtk_rtc_read s RTC_AL_DOW) 14
     = xor_all (lcr_bits (mtk_rtc_read s RTC_SPAR0) (mtk_rtc_read s RTC_AL_DOW))"
proof -
  have m: "(0x4000 :: u16) = push_bit 14 1" by (simp add: push_bit_eq_mult)
  have "drop_bit 14 (v AND 0x4000) = of_bool (bit v 14)" for v :: u16
    unfolding m by (rule bit_word_eqI) (auto simp: bit_simps)
  then show ?thesis
    by (simp add: check_sign_of_life_parity_def Let_def get_parity_xor PARITY_SHIFT_def
        PARITY_MASK_def PARITY_REG_def of_bool_eq_iff)
qed

section \<open>Reading and writing a reason\<close>

definition lcr_field :: "rtc_platform \<Rightarrow> life_reason_type \<Rightarrow> u16" where
  "lcr_field s t = field3 (pd_shift (life_cycle_reason t)) (mtk_rtc_read s (pd_reg (life_cycle_reason t)))"

definition lcr_code :: "life_reason_type \<Rightarrow> life_cycle_reason_t \<Rightarrow> u16" where
  "lcr_code t reason = word_of_int (search_rtc_by_lcr (pd_rtc_to_lcr (life_cycle_reason t)) reason)"

definition lcr_decode :: "life_reason_type \<Rightarrow> u16 \<Rightarrow> life_cycle_reason_t" where
  "lcr_decode t f = search_lcr_by_rtc (pd_rtc_to_lcr (life_cycle_reason t)) f"

lemma pd_reg_nonzero: "pd_reg (life_cycle_reason t) \<noteq> 0"
  by (cases t) (simp_all add: RTC_SPAR0_def RTC_AL_DOW_def)

lemma rtc_read_decode:
  "rtc_read_life_cycle_reason s r0 (Some (life_cycle_reason t))
    = (0, if check_sign_of_life_parity s then lcr_decode t (lcr_field s t)
          else LIFE_CYCLE_SMODE_RTC_CHECK_FAIL)"
proof -
  have "drop_bit (pd_shift (life_cycle_reason t)) (v AND pd_mask (life_cycle_reason t))
      = field3 (pd_shift (life_cycle_reason t)) v" for v
    unfolding pd_mask_field by (rule field_of_mask) (rule pd_shift_le)
  then show ?thesis
    by (simp add: rtc_read_life_cycle_reason_def pd_reg_nonzero lcr_decode_def lcr_field_def Let_def)
qed

lemma mtk_rtc_read_write:
  "rtc_present s \<Longrightarrow> mtk_rtc_read (snd (mtk_rtc_write s a v)) r = (if r = a then v else mtk_rtc_read s r)"
  by (simp add: mtk_rtc_read_def mtk_rtc_write_def)

lemma rtc_present_write [simp]: "rtc_present (snd (mtk_rtc_write s a v)) = rtc_present s"
  by (simp add: mtk_rtc_write_def)

lemma lcr_boot_write [simp]: "lcr_boot (snd (mtk_rtc_write s a v)) = lcr_boot s"
  by (simp add: mtk_rtc_write_def)

definition lcr_store_field :: "rtc_platform \<Rightarrow> life_reason_type \<Rightarrow> u16 \<Rightarrow> rtc_platform" where
  "lcr_store_field s t c = (let pd = life_cycle_reason t in
     snd (mtk_rtc_write s (pd_reg pd) ((mtk_rtc_read s (pd_reg pd) AND NOT (pd_mask pd))
       OR (push_bit (pd_shift pd) c AND pd_mask pd))))"

definition lcr_store_parity :: "rtc_platform \<Rightarrow> bool \<Rightarrow> rtc_platform" where
  "lcr_store_parity s b = snd (mtk_rtc_write s PARITY_REG
     ((mtk_rtc_read s PARITY_REG AND NOT PARITY_MASK) OR (push_bit PARITY_SHIFT (of_bool b) AND PARITY_MASK)))"

lemma rtc_write_steps:
  "rtc_write_life_cycle_reason s reason (Some (life_cycle_reason t))
    = (0, let s1 = lcr_store_field s t (lcr_code t reason)
          in lcr_store_parity s1 (xor_all (lcr_bits (mtk_rtc_read s1 RTC_SPAR0) (mtk_rtc_read s1 RTC_AL_DOW))))"
  by (simp add: rtc_write_life_cycle_reason_def lcr_store_field_def lcr_store_parity_def Let_def
      lcr_code_def get_parity_xor)

lemma bit_store_field:
  assumes "rtc_present s"
  shows "bit (mtk_rtc_read (lcr_store_field s t c) r) n
    = (if r = pd_reg (life_cycle_reason t) \<and> pd_shift (life_cycle_reason t) \<le> n
          \<and> n < pd_shift (life_cycle_reason t) + 3
       then bit c (n - pd_shift (life_cycle_reason t)) else bit (mtk_rtc_read s r) n)"
  using assms pd_shift_le [of t] unfolding lcr_store_field_def Let_def pd_mask_field
  by (simp add: mtk_rtc_read_write bit_field_set)

lemma bit_store_parity:
  assumes "rtc_present s"
  shows "bit (mtk_rtc_read (lcr_store_parity s b) r) n
    = (if r = RTC_AL_DOW \<and> n = 14 then b else bit (mtk_rtc_read s r) n)"
proof -
  have m: "(0x4000 :: u16) = push_bit 14 1" by (simp add: push_bit_eq_mult)
  have k: "bit (0x4000 :: u16) n = (n = 14)"
    unfolding m by (simp only: bit_push_bit_iff bit_1_iff) auto
  have P: "bit ((v AND NOT 0x4000) OR (push_bit 14 (of_bool b) AND 0x4000)) n
      = (if n = 14 then b else bit v n)" for v :: u16
    using k by (auto simp: bit_simps dest: bit_imp_le_length)
  show ?thesis
    unfolding lcr_store_parity_def PARITY_REG_def PARITY_MASK_def PARITY_SHIFT_def
      mtk_rtc_read_write [OF assms]
    by (cases "r = RTC_AL_DOW") (simp_all only: P if_True if_False simp_thms)
qed

lemma rtc_present_store [simp]:
  "rtc_present (lcr_store_field s t c) = rtc_present s" "rtc_present (lcr_store_parity s b) = rtc_present s"
  by (simp_all add: lcr_store_field_def lcr_store_parity_def Let_def)

lemma lcr_bits_cong:
  "(\<And>n. 10 \<le> n \<Longrightarrow> n < 16 \<Longrightarrow> bit a n = bit a' n) \<Longrightarrow> (\<And>n. 8 \<le> n \<Longrightarrow> n < 14 \<Longrightarrow> bit d n = bit d' n)
    \<Longrightarrow> lcr_bits a d = lcr_bits a' d'"
  by (simp add: lcr_bits_def)

lemma lcr_bits_store_parity:
  assumes "rtc_present s"
  shows "lcr_bits (mtk_rtc_read (lcr_store_parity s b) RTC_SPAR0) (mtk_rtc_read (lcr_store_parity s b) RTC_AL_DOW)
    = lcr_bits (mtk_rtc_read s RTC_SPAR0) (mtk_rtc_read s RTC_AL_DOW)"
  by (rule lcr_bits_cong) (simp_all add: bit_store_parity [OF assms] RTC_SPAR0_def RTC_AL_DOW_def)

lemma check_parity_after_write:
  assumes "rtc_present s"
  shows "check_sign_of_life_parity (snd (rtc_write_life_cycle_reason s reason (Some (life_cycle_reason t))))"
  using assms
  by (simp add: rtc_write_steps Let_def check_parity_bit lcr_bits_store_parity bit_store_parity)

lemma shift_cases:
  "t' \<noteq> t \<Longrightarrow> pd_reg (life_cycle_reason t') = pd_reg (life_cycle_reason t) \<Longrightarrow>
    pd_shift (life_cycle_reason t') + 3 \<le> pd_shift (life_cycle_reason t) \<or>
    pd_shift (life_cycle_reason t) + 3 \<le> pd_shift (life_cycle_reason t')"
  by (cases t; cases t') (simp_all add: RTC_SPAR0_def RTC_AL_DOW_def)

lemma field_below_parity:
  "pd_reg (life_cycle_reason t) = RTC_AL_DOW \<Longrightarrow> pd_shift (life_cycle_reason t) + 3 \<le> 14"
  by (cases t) (simp_all add: RTC_SPAR0_def RTC_AL_DOW_def)

lemma lcr_field_store_parity:
  "rtc_present s \<Longrightarrow> lcr_field (lcr_store_parity s b) t = lcr_field s t"
  using field_below_parity [of t]
  by (intro bit_word_eqI) (auto simp: lcr_field_def bit_field3 bit_store_parity)

lemma lcr_field_store_field:
  assumes "rtc_present s"
  shows "lcr_field (lcr_store_field s t c) t' = (if t' = t then c AND mask 3 else lcr_field s t')"
  using shift_cases [of t' t] pd_shift_le [of t]
  by (intro bit_word_eqI) (auto simp: lcr_field_def bit_field3 bit_store_field [OF assms] bit_simps)

lemma lcr_field_after_write:
  assumes "rtc_present s"
  shows "lcr_field (snd (rtc_write_life_cycle_reason s reason (Some (life_cycle_reason t)))) t'
    = (if t' = t then lcr_code t reason AND mask 3 else lcr_field s t')"
  using assms by (simp add: rtc_write_steps Let_def lcr_field_store_parity lcr_field_store_field)

definition lcr_table_reasons :: "life_reason_type \<Rightarrow> life_cycle_reason_t set" where
  "lcr_table_reasons t = snd ` set (pd_rtc_to_lcr (life_cycle_reason t))"

lemmas rtc_table_defs = rtc_to_boot_reason_def rtc_to_shutdown_reason_def
  rtc_to_thermal_shutdown_reason_def rtc_to_special_mode_reason_def

lemma lcr_decode_code: "reason \<in> lcr_table_reasons t \<Longrightarrow> lcr_decode t (lcr_code t reason AND mask 3) = reason"
  by (cases t) (auto simp: lcr_table_reasons_def rtc_table_defs lcr_decode_def lcr_code_def
      search_lcr_by_rtc_def search_rtc_by_lcr_def mask_eq_exp_minus_1)

lemma lcr_decode_0: "lcr_decode t 0 = LIFE_CYCLE_NOT_AVAILABLE"
  by (cases t) (simp_all add: rtc_table_defs lcr_decode_def search_lcr_by_rtc_def)

section \<open>Clearing\<close>

lemma rtc_clear_fields_store:
  "rtc_clear_fields s (t # ts) = rtc_clear_fields (lcr_store_field s t 0) ts"
  by (simp add: lcr_store_field_def Let_def)

lemma rtc_clear_steps:
  "rtc_clear_life_cycle_reason s = lcr_store_parity (lcr_store_field (lcr_store_field
     (lcr_store_field (lcr_store_field s BOOT 0) SHUTDOWN 0) THERMAL_SHUTDOWN 0) SPECIAL 0) False"
  unfolding rtc_clear_life_cycle_reason_def all_reason_types_def rtc_clear_fields_store
  by (simp add: lcr_store_parity_def Let_def)

lemma lcr_field_clear: "rtc_present s \<Longrightarrow> lcr_field (rtc_clear_life_cycle_reason s) t = 0"
  by (cases t) (simp_all add: rtc_clear_steps lcr_field_store_parity lcr_field_store_field)

lemma bit_via_field:
  "k < 3 \<Longrightarrow> bit (mtk_rtc_read s (pd_reg (life_cycle_reason t))) (pd_shift (life_cycle_reason t) + k)
    = bit (lcr_field s t) k"
  by (simp add: lcr_field_def bit_field3)

lemma lcr_bits_fields_0:
  assumes "\<And>t. lcr_field s t = 0"
  shows "\<not> xor_all (lcr_bits (mtk_rtc_read s RTC_SPAR0) (mtk_rtc_read s RTC_AL_DOW))"
proof -
  have z: "\<not> bit (mtk_rtc_read s (pd_reg (life_cycle_reason t))) (pd_shift (life_cycle_reason t) + k)"
    if "k < 3" for t k using that assms by (simp add: bit_via_field)
  have u: "[10..<16] = [10, 11, 12, 13, 14, 15 :: nat]" "[8..<14] = [8, 9, 10, 11, 12, 13 :: nat]"
    by code_simp+
  show ?thesis
    using z [of 0 BOOT] z [of 1 BOOT] z [of 2 BOOT] z [of 0 SHUTDOWN] z [of 1 SHUTDOWN] z [of 2 SHUTDOWN]
      z [of 0 THERMAL_SHUTDOWN] z [of 1 THERMAL_SHUTDOWN] z [of 2 THERMAL_SHUTDOWN]
      z [of 0 SPECIAL] z [of 1 SPECIAL] z [of 2 SPECIAL]
    by (simp add: lcr_bits_def u xor_all_Cons)
qed

lemma check_parity_clear:
  assumes "rtc_present s"
  shows "check_sign_of_life_parity (rtc_clear_life_cycle_reason s)"
proof -
  have "\<not> bit (mtk_rtc_read (rtc_clear_life_cycle_reason s) RTC_AL_DOW) 14"
    using assms by (simp add: rtc_clear_steps bit_store_parity)
  moreover have "\<not> xor_all (lcr_bits (mtk_rtc_read (rtc_clear_life_cycle_reason s) RTC_SPAR0)
      (mtk_rtc_read (rtc_clear_life_cycle_reason s) RTC_AL_DOW))"
    using assms by (intro lcr_bits_fields_0 lcr_field_clear)
  ultimately show ?thesis by (simp add: check_parity_bit)
qed

section \<open>Corruption of the registers\<close>

definition rtc_flip :: "rtc_platform \<Rightarrow> u16 \<Rightarrow> nat \<Rightarrow> rtc_platform" where
  "rtc_flip s r n = s\<lparr>rtc_regs := (rtc_regs s)(r := flip_bit n (rtc_regs s r))\<rparr>"

definition lcr_protected :: "u16 \<Rightarrow> nat \<Rightarrow> bool" where
  "lcr_protected r n \<longleftrightarrow> r = RTC_SPAR0 \<and> 10 \<le> n \<and> n < 16 \<or> r = RTC_AL_DOW \<and> 8 \<le> n \<and> n < 15"

lemma xor_all_flip:
  "distinct ks \<Longrightarrow> xor_all (map (\<lambda>k. f k \<noteq> (k = n)) ks) = (xor_all (map f ks) \<noteq> (n \<in> set ks))"
  by (induction ks) (auto simp: xor_all_Cons)

lemma bit_flip: "n < 16 \<Longrightarrow> bit (flip_bit n (v :: u16)) k = (bit v k \<noteq> (k = n))"
  by (auto simp: bit_simps dest: bit_imp_le_length)

lemma xor_all_flip_word:
  "n < 16 \<Longrightarrow> xor_all (map (bit (flip_bit n (v :: u16))) [a..<b]) = (xor_all (map (bit v) [a..<b]) \<noteq> (a \<le> n \<and> n < b))"
proof -
  assume "n < 16"
  then have "bit (flip_bit n v) = (\<lambda>k. bit v k \<noteq> (k = n))" by (intro ext bit_flip)
  with xor_all_flip [of "[a..<b]" "bit v" n] show ?thesis by simp
qed

lemma parity_detects_flip:
  assumes "rtc_present s" "check_sign_of_life_parity s" "lcr_protected r n"
  shows "\<not> check_sign_of_life_parity (rtc_flip s r n)"
proof -
  have n: "n < 16" using assms(3) by (auto simp: lcr_protected_def)
  have ne: "RTC_SPAR0 \<noteq> RTC_AL_DOW" by (simp add: RTC_SPAR0_def RTC_AL_DOW_def)
  have rd: "mtk_rtc_read (rtc_flip s r n) x = (if x = r then flip_bit n (mtk_rtc_read s x) else mtk_rtc_read s x)"
    for x using assms(1) by (simp add: mtk_rtc_read_def rtc_flip_def)
  show ?thesis
  proof (cases "r = RTC_SPAR0")
    case True
    with assms(2,3) ne n show ?thesis
      unfolding check_parity_bit rd
      by (auto simp: lcr_bits_def xor_all_append xor_all_flip_word lcr_protected_def
          simp del: upt_rec_numeral)
  next
    case False
    with assms(3) have "r = RTC_AL_DOW" "8 \<le> n" "n < 15" by (auto simp: lcr_protected_def)
    with assms(2) ne n show ?thesis
      unfolding check_parity_bit rd
      by (auto simp: lcr_bits_def xor_all_append xor_all_flip_word bit_flip
          simp del: upt_rec_numeral)
  qed
qed

end
