(* ===== verification/Sign_Of_Life.thy ===== *)
theory Sign_Of_Life
  imports Sol_Rtc
begin

text \<open>
  The platform-independent sign-of-life driver, \<^verbatim>\<open>amzn_sign_of_life_v3.c\<close> with the reason table
  of \<^verbatim>\<open>amzn_sign_of_life_platform.h\<close>. The driver calls the platform through a struct of function
  pointers (\<open>sign_of_life_ops\<close>, a NULL pointer is \<open>None\<close>); the locale \<open>lcr_platform\<close> states what
  the driver relies on, and the RTC platform of theory \<open>Sol_Rtc\<close> is its instance. Memory allocation,
  the boot mode and the content of \<^verbatim>\<open>/proc/cmdline\<close> are arguments. The functions under
  \<^verbatim>\<open>CONFIG_AMAZON_DRV_TEST\<close> are included.
\<close>

section \<open>The driver's data\<close>

record 's sign_of_life_ops =
  ops_read_boot_reason :: "('s \<Rightarrow> life_cycle_reason_t \<Rightarrow> int \<times> life_cycle_reason_t) option"
  ops_write_boot_reason :: "('s \<Rightarrow> life_cycle_reason_t \<Rightarrow> int \<times> 's) option"
  ops_read_shutdown_reason :: "('s \<Rightarrow> life_cycle_reason_t \<Rightarrow> int \<times> life_cycle_reason_t) option"
  ops_write_shutdown_reason :: "('s \<Rightarrow> life_cycle_reason_t \<Rightarrow> int \<times> 's) option"
  ops_read_thermal_shutdown_reason :: "('s \<Rightarrow> life_cycle_reason_t \<Rightarrow> int \<times> life_cycle_reason_t) option"
  ops_write_thermal_shutdown_reason :: "('s \<Rightarrow> life_cycle_reason_t \<Rightarrow> int \<times> 's) option"
  ops_read_special_mode :: "('s \<Rightarrow> life_cycle_reason_t \<Rightarrow> int \<times> life_cycle_reason_t) option"
  ops_write_special_mode :: "('s \<Rightarrow> life_cycle_reason_t \<Rightarrow> int \<times> 's) option"
  ops_lcr_reset :: "('s \<Rightarrow> int \<times> 's) option"

record 's dev_sol =
  sol_version :: string
  life_cycle_reason_idx :: nat
  sol_ops :: "'s sign_of_life_ops"

record 's sol_driver =
  p_dev_sol :: "'s dev_sol option"
  is_charger_mode :: bool
  sol_platform :: 's

definition null_ops :: "'s sign_of_life_ops" where
  "null_ops = \<lparr>ops_read_boot_reason = None, ops_write_boot_reason = None,
     ops_read_shutdown_reason = None, ops_write_shutdown_reason = None,
     ops_read_thermal_shutdown_reason = None, ops_write_thermal_shutdown_reason = None,
     ops_read_special_mode = None, ops_write_special_mode = None, ops_lcr_reset = None\<rparr>"

definition lcr_data :: "(life_cycle_reason_t \<times> string \<times> string) list" where
  "lcr_data =
    [(LIFE_CYCLE_NOT_AVAILABLE, ''Life Cycle Reason Not Available'', ''LCR_abnormal''),
     (SHUTDOWN_BY_SW, ''Software Shutdown'', ''LCR_normal''),
     (SHUTDOWN_BY_LONG_PWR_KEY_PRESS, ''Long Pressed Power Key Shutdown'', ''LCR_abnormal''),
     (THERMAL_SHUTDOWN_REASON_PMIC, ''PMIC Overheated Thermal Shutdown'', ''LCR_abnormal''),
     (THERMAL_SHUTDOWN_REASON_BATTERY, ''Battery Overheated Thermal Shutdown'', ''LCR_abnormal''),
     (THERMAL_SHUTDOWN_REASON_SOC, ''SOC Overheated Thermal Shutdown'', ''LCR_abnormal''),
     (THERMAL_SHUTDOWN_REASON_PCB, ''PCB Overheated Thermal Shutdown'', ''LCR_abnormal''),
     (THERMAL_SHUTDOWN_REASON_WIFI, ''WIFI Overheated Thermal Shutdown'', ''LCR_abnormal''),
     (THERMAL_SHUTDOWN_REASON_BTS, ''BTS Overheated Thermal Shutdown'', ''LCR_abnormal''),
     (THERMAL_SHUTDOWN_REASON_MODEM, ''Modem Overheated Thermal Shutdown'', ''LCR_abnormal''),
     (LIFE_CYCLE_SMODE_LOW_BATTERY, ''Low Battery Shutdown'', ''LCR_normal''),
     (SHUTDOWN_BY_SUDDEN_POWER_LOSS, ''Sudden Power Loss Shutdown'', ''LCR_abnormal''),
     (SHUTDOWN_BY_UNKNOWN_REASONS, ''Unknown Shutdown'', ''LCR_abnormal''),
     (COLDBOOT_BY_POWER_KEY, ''Cold Boot By Power Key'', ''LCR_normal''),
     (COLDBOOT_BY_USB, ''Cold Boot By USB'', ''LCR_normal''),
     (COLDBOOT_BY_POWER_SUPPLY, ''Cold Boot By Power Supply'', ''LCR_normal''),
     (WARMBOOT_BY_SW, ''Warm Boot By Software'', ''LCR_normal''),
     (WARMBOOT_BY_KERNEL_PANIC, ''Warm Boot By Kernel Panic'', ''LCR_abnormal''),
     (WARMBOOT_BY_KERNEL_WATCHDOG, ''Warm Boot By Kernel Watchdog'', ''LCR_abnormal''),
     (WARMBOOT_BY_HW_WATCHDOG, ''Warm Boot By HW Watchdog'', ''LCR_abnormal''),
     (LIFE_CYCLE_SMODE_WARM_BOOT_USB_CONNECTED, ''Power Off Charging Mode'', ''LCR_normal''),
     (LIFE_CYCLE_SMODE_FACTORY_RESET, ''Factory Reset Reboot'', ''LCR_normal''),
     (LIFE_CYCLE_SMODE_OTA, ''OTA Reboot'', ''LCR_normal''),
     (LIFE_CYCLE_SMODE_RTC_CHECK_FAIL, ''RTC Check Fail'', ''LCR_normal'')]"

section \<open>Looking a reason up\<close>

fun search_lcr_loop :: "(life_cycle_reason_t \<times> string \<times> string) list \<Rightarrow> nat \<Rightarrow> life_cycle_reason_t \<Rightarrow> nat" where
  "search_lcr_loop [] i reason = 0"
| "search_lcr_loop ((r, _) # t) i reason = (if r = reason then i else search_lcr_loop t (Suc i) reason)"

text \<open>The search starts at index 1; index 0 is the default entry.\<close>

definition search_lcr_table :: "(life_cycle_reason_t \<times> string \<times> string) list \<Rightarrow> life_cycle_reason_t \<Rightarrow> nat" where
  "search_lcr_table table reason = search_lcr_loop (drop 1 table) 1 reason"

definition clear_life_cycle_reason :: "'s sol_driver \<Rightarrow> int \<times> 's sol_driver" where
  "clear_life_cycle_reason d =
     (case p_dev_sol d of None \<Rightarrow> (- 1, d)
      | Some ds \<Rightarrow>
          (case ops_lcr_reset (sol_ops ds) of None \<Rightarrow> (- 1, d)
           | Some f \<Rightarrow> (0, d\<lparr>sol_platform := snd (f (sol_platform d))\<rparr>)))"

fun ops_read :: "'s sign_of_life_ops \<Rightarrow> life_reason_type \<Rightarrow> ('s \<Rightarrow> life_cycle_reason_t \<Rightarrow> int \<times> life_cycle_reason_t) option" where
  "ops_read ops BOOT = ops_read_boot_reason ops"
| "ops_read ops SHUTDOWN = ops_read_shutdown_reason ops"
| "ops_read ops THERMAL_SHUTDOWN = ops_read_thermal_shutdown_reason ops"
| "ops_read ops SPECIAL = ops_read_special_mode ops"

definition read_life_cycle_reason :: "'s sol_driver \<Rightarrow> life_reason_type \<Rightarrow> int" where
  "read_life_cycle_reason d t =
     (case p_dev_sol d of None \<Rightarrow> - 1
      | Some ds \<Rightarrow>
          (case ops_read (sol_ops ds) t of None \<Rightarrow> - 1
           | Some f \<Rightarrow>
               let (ret, life_reason) = f (sol_platform d) LIFE_CYCLE_NOT_AVAILABLE
               in if ret < 0 then - 1
                  else let index = search_lcr_table lcr_data life_reason
                       in if index = 0 then - 1 else int index))"

definition life_cycle_reason_lookup :: "'s sol_driver \<Rightarrow> int \<times> 's sol_driver" where
  "life_cycle_reason_lookup d =
     (case p_dev_sol d of None \<Rightarrow> (- 1, d)
      | Some ds \<Rightarrow>
          (case (ops_read_boot_reason (sol_ops ds), ops_read_shutdown_reason (sol_ops ds),
                 ops_read_thermal_shutdown_reason (sol_ops ds), ops_read_special_mode (sol_ops ds)) of
             (Some rb, Some rs, Some rt, Some rm) \<Rightarrow>
               let s = sol_platform d;
                   (ret1, boot_reason) = rb s LIFE_CYCLE_NOT_AVAILABLE;
                   (ret2, shutdown_reason) = rs s LIFE_CYCLE_NOT_AVAILABLE;
                   (ret3, thermal_shutdown_reason) = rt s LIFE_CYCLE_NOT_AVAILABLE;
                   (ret4, s_mode) = rm s LIFE_CYCLE_NOT_AVAILABLE
               in if ret1 < 0 then (- 1, d)
                  else if ret2 < 0 then (- 1, d)
                  else if ret3 < 0 then (- 1, d)
                  else if ret4 < 0 then (- 1, d)
                  else let i1 = (if lcr_value thermal_shutdown_reason > 0
                                 then search_lcr_table lcr_data thermal_shutdown_reason else 0);
                           i2 = (if lcr_value shutdown_reason > 0
                                 then search_lcr_table lcr_data shutdown_reason else 0);
                           i3 = (if lcr_value boot_reason > 0
                                 then search_lcr_table lcr_data boot_reason else 0);
                           i4 = (if lcr_value s_mode > 0
                                 then search_lcr_table lcr_data s_mode else 0);
                           index = (if i1 \<noteq> 0 then i1 else if i2 \<noteq> 0 then i2 else if i3 \<noteq> 0 then i3 else i4)
                       in (int index, d\<lparr>p_dev_sol := Some (ds\<lparr>life_cycle_reason_idx := index\<rparr>)\<rparr>)
           | _ \<Rightarrow> (- 1, d)))"

definition life_cycle_reason_show :: "'s sol_driver \<Rightarrow> string" where
  "life_cycle_reason_show d =
     (case p_dev_sol d of
        Some ds \<Rightarrow> ''lc_version:'' @ sol_version ds @ [CHR 0x0A] @
                  ''lc_reason:'' @ fst (snd (lcr_data ! life_cycle_reason_idx ds)) @ [CHR 0x0A] @
                  ''lc_type:'' @ snd (snd (lcr_data ! life_cycle_reason_idx ds)) @ [CHR 0x0A]
      | None \<Rightarrow> ''life cycle reason driver is not initialized'')"

section \<open>Recording a reason\<close>

definition life_cycle_set_boot_reason :: "'s sol_driver \<Rightarrow> life_cycle_reason_t \<Rightarrow> int \<times> 's sol_driver" where
  "life_cycle_set_boot_reason d r =
     (case p_dev_sol d of None \<Rightarrow> (- 1, d)
      | Some ds \<Rightarrow> (case ops_write_boot_reason (sol_ops ds) of None \<Rightarrow> (- 1, d)
                    | Some f \<Rightarrow> (0, d\<lparr>sol_platform := snd (f (sol_platform d) r)\<rparr>)))"

definition life_cycle_set_shutdown_reason :: "'s sol_driver \<Rightarrow> life_cycle_reason_t \<Rightarrow> int \<times> 's sol_driver" where
  "life_cycle_set_shutdown_reason d r =
     (case p_dev_sol d of None \<Rightarrow> (- 1, d)
      | Some ds \<Rightarrow> (case ops_write_shutdown_reason (sol_ops ds) of None \<Rightarrow> (- 1, d)
                    | Some f \<Rightarrow> (0, d\<lparr>sol_platform := snd (f (sol_platform d) r)\<rparr>)))"

definition life_cycle_set_thermal_shutdown_reason :: "'s sol_driver \<Rightarrow> life_cycle_reason_t \<Rightarrow> int \<times> 's sol_driver" where
  "life_cycle_set_thermal_shutdown_reason d r =
     (case p_dev_sol d of None \<Rightarrow> (- 1, d)
      | Some ds \<Rightarrow> (case ops_write_thermal_shutdown_reason (sol_ops ds) of None \<Rightarrow> (- 1, d)
                    | Some f \<Rightarrow> (0, d\<lparr>sol_platform := snd (f (sol_platform d) r)\<rparr>)))"

definition life_cycle_set_special_mode :: "'s sol_driver \<Rightarrow> life_cycle_reason_t \<Rightarrow> int \<times> 's sol_driver" where
  "life_cycle_set_special_mode d r =
     (case p_dev_sol d of None \<Rightarrow> (- 1, d)
      | Some ds \<Rightarrow> (case ops_write_special_mode (sol_ops ds) of None \<Rightarrow> (- 1, d)
                    | Some f \<Rightarrow> (0, d\<lparr>sol_platform := snd (f (sol_platform d) r)\<rparr>)))"

datatype reboot_code = SYS_RESTART | SYS_HALT | SYS_POWER_OFF

definition life_cycle_reboot_notifier :: "'s sol_driver \<Rightarrow> reboot_code \<Rightarrow> 's sol_driver" where
  "life_cycle_reboot_notifier d code =
     (case code of SYS_RESTART \<Rightarrow> snd (life_cycle_set_boot_reason d WARMBOOT_BY_SW)
      | SYS_POWER_OFF \<Rightarrow> snd (life_cycle_set_shutdown_reason d SHUTDOWN_BY_SW)
      | _ \<Rightarrow> d)"

section \<open>Initialisation\<close>

definition life_cycle_platform_init :: "rtc_platform sign_of_life_ops \<Rightarrow> int \<times> rtc_platform sign_of_life_ops" where
  "life_cycle_platform_init ops =
     (0, ops\<lparr>ops_read_boot_reason := Some rtc_read_boot_reason,
            ops_write_boot_reason := Some rtc_write_boot_reason,
            ops_read_shutdown_reason := Some rtc_read_shutdown_reason,
            ops_write_shutdown_reason := Some rtc_write_shutdown_reason,
            ops_read_thermal_shutdown_reason := Some rtc_read_thermal_shutdown_reason,
            ops_write_thermal_shutdown_reason := Some rtc_write_thermal_shutdown_reason,
            ops_read_special_mode := Some rtc_read_special_mode,
            ops_write_special_mode := Some rtc_write_special_mode,
            ops_lcr_reset := Some rtc_lcr_reset\<rparr>)"

text \<open>
  \<^verbatim>\<open>dev_sol_init\<close> on the RTC platform: whether the allocation succeeds, the content of
  \<^verbatim>\<open>/proc/cmdline\<close> and the boot mode are arguments; \<open>None\<close> is the fault of the boot reason parser.
\<close>

definition dev_sol_init :: "bool \<Rightarrow> string option \<Rightarrow> bool \<Rightarrow> rtc_platform sol_driver
    \<Rightarrow> (int \<times> rtc_platform sol_driver) option" where
  "dev_sol_init alloc_ok proc_cmdline charging d =
     (if \<not> alloc_ok then Some (- ENOMEM, d\<lparr>p_dev_sol := None\<rparr>)
      else let ds = \<lparr>sol_version = ''3.0'', life_cycle_reason_idx = 0, sol_ops = null_ops\<rparr>;
               ds = ds\<lparr>sol_ops := snd (life_cycle_platform_init (sol_ops ds))\<rparr>
           in case get_android_bootreason proc_cmdline (sol_platform d) of None \<Rightarrow> None
              | Some (_, s) \<Rightarrow>
                  let d = d\<lparr>p_dev_sol := Some ds, sol_platform := s\<rparr>;
                      (_, d) = life_cycle_reason_lookup d;
                      d = (if charging then d\<lparr>is_charger_mode := True\<rparr> else d)
                  in if \<not> is_charger_mode d
                     then Some (0, case ops_lcr_reset (sol_ops ds) of None \<Rightarrow> d
                                   | Some f \<Rightarrow> d\<lparr>sol_platform := snd (f (sol_platform d))\<rparr>)
                     else Some (0, d))"

section \<open>The platform interface\<close>

definition mk_ops :: "(life_reason_type \<Rightarrow> 's \<Rightarrow> life_cycle_reason_t \<Rightarrow> int \<times> life_cycle_reason_t)
    \<Rightarrow> (life_reason_type \<Rightarrow> 's \<Rightarrow> life_cycle_reason_t \<Rightarrow> int \<times> 's) \<Rightarrow> ('s \<Rightarrow> int \<times> 's) \<Rightarrow> 's sign_of_life_ops" where
  "mk_ops rd wr rst = \<lparr>ops_read_boot_reason = Some (rd BOOT), ops_write_boot_reason = Some (wr BOOT),
     ops_read_shutdown_reason = Some (rd SHUTDOWN), ops_write_shutdown_reason = Some (wr SHUTDOWN),
     ops_read_thermal_shutdown_reason = Some (rd THERMAL_SHUTDOWN),
     ops_write_thermal_shutdown_reason = Some (wr THERMAL_SHUTDOWN),
     ops_read_special_mode = Some (rd SPECIAL), ops_write_special_mode = Some (wr SPECIAL),
     ops_lcr_reset = Some rst\<rparr>"

text \<open>The reasons in the order of their priority, and the index the lookup is to find.\<close>

definition lcr_index :: "life_cycle_reason_t \<Rightarrow> nat" where
  "lcr_index r = (if lcr_value r > 0 then search_lcr_table lcr_data r else 0)"

fun first_index :: "life_cycle_reason_t list \<Rightarrow> nat" where
  "first_index [] = 0"
| "first_index (r # rs) = (if lcr_index r \<noteq> 0 then lcr_index r else first_index rs)"

lemma lookup_of_values:
  assumes "p_dev_sol d = Some ds" "sol_ops ds = mk_ops rd wr rst"
    "rd BOOT (sol_platform d) LIFE_CYCLE_NOT_AVAILABLE = (0, b)"
    "rd SHUTDOWN (sol_platform d) LIFE_CYCLE_NOT_AVAILABLE = (0, h)"
    "rd THERMAL_SHUTDOWN (sol_platform d) LIFE_CYCLE_NOT_AVAILABLE = (0, t)"
    "rd SPECIAL (sol_platform d) LIFE_CYCLE_NOT_AVAILABLE = (0, m)"
  shows "life_cycle_reason_lookup d = (int (first_index [t, h, b, m]),
    d\<lparr>p_dev_sol := Some (ds\<lparr>life_cycle_reason_idx := first_index [t, h, b, m]\<rparr>)\<rparr>)"
  by (simp add: life_cycle_reason_lookup_def assms mk_ops_def lcr_index_def [symmetric] Let_def
      split del: if_split) simp

locale lcr_platform =
  fixes rd :: "life_reason_type \<Rightarrow> 's \<Rightarrow> life_cycle_reason_t \<Rightarrow> int \<times> life_cycle_reason_t"
    and wr :: "life_reason_type \<Rightarrow> 's \<Rightarrow> life_cycle_reason_t \<Rightarrow> int \<times> 's"
    and rst :: "'s \<Rightarrow> int \<times> 's"
    and present :: "'s \<Rightarrow> bool"
    and intact :: "'s \<Rightarrow> bool"
    and stored :: "'s \<Rightarrow> life_reason_type \<Rightarrow> life_cycle_reason_t"
    and fallback :: "'s \<Rightarrow> life_cycle_reason_t"
    and storable :: "life_reason_type \<Rightarrow> life_cycle_reason_t set"
  assumes rd_intact: "intact s \<Longrightarrow> rd t s r0 = (0, if t = BOOT \<and> stored s t = LIFE_CYCLE_NOT_AVAILABLE
      then fallback s else stored s t)"
    and rd_corrupt: "\<not> intact s \<Longrightarrow> rd t s r0 = (0, LIFE_CYCLE_SMODE_RTC_CHECK_FAIL)"
    and wr_stores: "present s \<Longrightarrow> r \<in> storable t \<Longrightarrow> stored (snd (wr t s r)) = (stored s)(t := r)"
    and wr_keeps: "present s \<Longrightarrow> present (snd (wr t s r)) \<and> intact (snd (wr t s r)) \<and>
      fallback (snd (wr t s r)) = fallback s"
    and rst_clears: "present s \<Longrightarrow> present (snd (rst s)) \<and> intact (snd (rst s)) \<and>
      stored (snd (rst s)) = (\<lambda>_. LIFE_CYCLE_NOT_AVAILABLE) \<and> fallback (snd (rst s)) = fallback s"
begin

abbreviation reason_of :: "'s \<Rightarrow> life_reason_type \<Rightarrow> life_cycle_reason_t" where
  "reason_of s t \<equiv> (if t = BOOT \<and> stored s BOOT = LIFE_CYCLE_NOT_AVAILABLE then fallback s else stored s t)"

lemma lookup_priority:
  assumes "p_dev_sol d = Some ds" "sol_ops ds = mk_ops rd wr rst" "intact (sol_platform d)"
  shows "life_cycle_reason_lookup d = (let i = first_index [reason_of (sol_platform d) THERMAL_SHUTDOWN,
      reason_of (sol_platform d) SHUTDOWN, reason_of (sol_platform d) BOOT, reason_of (sol_platform d) SPECIAL]
    in (int i, d\<lparr>p_dev_sol := Some (ds\<lparr>life_cycle_reason_idx := i\<rparr>)\<rparr>))"
  unfolding Let_def
  by (rule lookup_of_values [OF assms(1,2)]) (simp_all add: rd_intact [OF assms(3)])

lemma lookup_corrupt:
  assumes "p_dev_sol d = Some ds" "sol_ops ds = mk_ops rd wr rst" "\<not> intact (sol_platform d)"
  shows "life_cycle_reason_lookup d = (let i = lcr_index LIFE_CYCLE_SMODE_RTC_CHECK_FAIL
    in (int i, d\<lparr>p_dev_sol := Some (ds\<lparr>life_cycle_reason_idx := i\<rparr>)\<rparr>))"
proof -
  let ?f = LIFE_CYCLE_SMODE_RTC_CHECK_FAIL
  have "first_index [?f, ?f, ?f, ?f] = lcr_index ?f" by simp
  moreover have "life_cycle_reason_lookup d = (int (first_index [?f, ?f, ?f, ?f]),
      d\<lparr>p_dev_sol := Some (ds\<lparr>life_cycle_reason_idx := first_index [?f, ?f, ?f, ?f]\<rparr>)\<rparr>)"
    by (rule lookup_of_values [OF assms(1,2)]) (simp_all add: rd_corrupt [OF assms(3)])
  ultimately show ?thesis by (simp only: Let_def)
qed

lemma rst_forgets: "present s \<Longrightarrow> rd t (snd (rst s)) r0
    = (0, if t = BOOT then fallback s else LIFE_CYCLE_NOT_AVAILABLE)"
  using rst_clears [of s] rd_intact [of "snd (rst s)" t r0] by auto

lemma wr_after_rst:
  assumes "present s" "r \<in> storable t"
  shows "stored (snd (wr t (snd (rst s)) r)) = (\<lambda>_. LIFE_CYCLE_NOT_AVAILABLE)(t := r)"
  using rst_clears [OF assms(1)] wr_stores [of "snd (rst s)" r t] assms by simp

end

section \<open>The RTC platform provides it\<close>

fun rtc_rd :: "life_reason_type \<Rightarrow> rtc_platform \<Rightarrow> life_cycle_reason_t \<Rightarrow> int \<times> life_cycle_reason_t" where
  "rtc_rd BOOT = rtc_read_boot_reason"
| "rtc_rd SHUTDOWN = rtc_read_shutdown_reason"
| "rtc_rd THERMAL_SHUTDOWN = rtc_read_thermal_shutdown_reason"
| "rtc_rd SPECIAL = rtc_read_special_mode"

fun rtc_wr :: "life_reason_type \<Rightarrow> rtc_platform \<Rightarrow> life_cycle_reason_t \<Rightarrow> int \<times> rtc_platform" where
  "rtc_wr BOOT = rtc_write_boot_reason"
| "rtc_wr SHUTDOWN = rtc_write_shutdown_reason"
| "rtc_wr THERMAL_SHUTDOWN = rtc_write_thermal_shutdown_reason"
| "rtc_wr SPECIAL = rtc_write_special_mode"

lemma platform_init_ops: "snd (life_cycle_platform_init ops) = mk_ops rtc_rd rtc_wr rtc_lcr_reset"
  by (simp add: life_cycle_platform_init_def mk_ops_def)

definition rtc_stored :: "rtc_platform \<Rightarrow> life_reason_type \<Rightarrow> life_cycle_reason_t" where
  "rtc_stored s t = lcr_decode t (lcr_field s t)"

lemma rtc_wr_eq: "rtc_wr t s r = rtc_write_life_cycle_reason s r (Some (life_cycle_reason t))"
  by (cases t) (simp_all add: rtc_write_boot_reason_def rtc_write_shutdown_reason_def
      rtc_write_thermal_shutdown_reason_def rtc_write_special_mode_def)

lemma rtc_rd_eq: "rtc_rd t s r0 = (0, if \<not> check_sign_of_life_parity s then LIFE_CYCLE_SMODE_RTC_CHECK_FAIL
    else if t = BOOT \<and> rtc_stored s BOOT = LIFE_CYCLE_NOT_AVAILABLE then lcr_boot s else rtc_stored s t)"
  by (cases t) (simp_all add: rtc_read_boot_reason_def rtc_read_shutdown_reason_def rtc_read_decode
      rtc_read_thermal_shutdown_reason_def rtc_read_special_mode_def rtc_stored_def
      del: life_cycle_reason.simps)

lemma lcr_boot_store [simp]:
  "lcr_boot (lcr_store_field s t c) = lcr_boot s" "lcr_boot (lcr_store_parity s b) = lcr_boot s"
  by (simp_all add: lcr_store_field_def lcr_store_parity_def Let_def)

interpretation sol: lcr_platform rtc_rd rtc_wr rtc_lcr_reset rtc_present check_sign_of_life_parity
  rtc_stored lcr_boot lcr_table_reasons
proof (unfold_locales, goal_cases)
  case (1 s t r0)
  then show ?case by (auto simp: rtc_rd_eq)
next
  case (2 s t r0)
  then show ?case by (simp add: rtc_rd_eq)
next
  case (3 s r t)
  then show ?case
    by (auto simp: rtc_wr_eq rtc_stored_def lcr_field_after_write lcr_decode_code fun_eq_iff)
next
  case (4 s t r)
  then show ?case
    by (simp add: rtc_wr_eq check_parity_after_write) (simp add: rtc_write_steps Let_def)
next
  case (5 s)
  then show ?case
    by (simp add: rtc_lcr_reset_def check_parity_clear rtc_stored_def lcr_field_clear lcr_decode_0 fun_eq_iff)
      (simp add: rtc_clear_steps)
qed

section \<open>From one boot to the next\<close>

text \<open>
  A reboot keeps the RTC registers and loses everything in memory: the driver's pointers, the
  parsed boot reason and the cached command line.
\<close>

definition reboot_device :: "rtc_platform sol_driver \<Rightarrow> rtc_platform sol_driver" where
  "reboot_device d = \<lparr>p_dev_sol = None, is_charger_mode = False,
     sol_platform = (sol_platform d)\<lparr>lcr_boot := LIFE_CYCLE_NOT_AVAILABLE, lcr_cmdline := []\<rparr>\<rparr>"

fun life_cycle_set :: "life_reason_type \<Rightarrow> 's sol_driver \<Rightarrow> life_cycle_reason_t \<Rightarrow> int \<times> 's sol_driver" where
  "life_cycle_set BOOT = life_cycle_set_boot_reason"
| "life_cycle_set SHUTDOWN = life_cycle_set_shutdown_reason"
| "life_cycle_set THERMAL_SHUTDOWN = life_cycle_set_thermal_shutdown_reason"
| "life_cycle_set SPECIAL = life_cycle_set_special_mode"

lemma life_cycle_set_eq:
  assumes "p_dev_sol d = Some ds" "sol_ops ds = mk_ops rtc_rd rtc_wr rtc_lcr_reset"
  shows "life_cycle_set t d r = (0, d\<lparr>sol_platform := snd (rtc_wr t (sol_platform d) r)\<rparr>)"
  using assms by (cases t) (simp_all add: life_cycle_set_boot_reason_def life_cycle_set_shutdown_reason_def
      life_cycle_set_thermal_shutdown_reason_def life_cycle_set_special_mode_def mk_ops_def)

lemma bootreason_keeps_regs:
  "get_android_bootreason c s = Some (n, s') \<Longrightarrow> rtc_regs s' = rtc_regs s \<and> rtc_present s' = rtc_present s"
  by (auto simp: get_android_bootreason_def lcr_get_cmd_def Let_def split: option.splits if_splits)

lemma regs_cong:
  assumes "rtc_regs s' = rtc_regs s" "rtc_present s' = rtc_present s"
  shows "mtk_rtc_read s' = mtk_rtc_read s" "check_sign_of_life_parity s' = check_sign_of_life_parity s"
    "rtc_stored s' = rtc_stored s"
proof -
  show r: "mtk_rtc_read s' = mtk_rtc_read s" using assms by (auto simp: mtk_rtc_read_def fun_eq_iff)
  then show "check_sign_of_life_parity s' = check_sign_of_life_parity s" "rtc_stored s' = rtc_stored s"
    by (simp_all add: check_parity_bit rtc_stored_def lcr_field_def fun_eq_iff)
qed

lemma dev_sol_init_lookup:
  assumes "dev_sol_init True c ch d = Some (n, d')" "rtc_present (sol_platform d)"
    "get_android_bootreason c (sol_platform d) = Some (m, s)"
  shows "\<exists>ds. p_dev_sol d' = Some ds \<and> sol_ops ds = mk_ops rtc_rd rtc_wr rtc_lcr_reset \<and>
    int (life_cycle_reason_idx ds) = fst (life_cycle_reason_lookup (d\<lparr>p_dev_sol := Some
      \<lparr>sol_version = ''3.0'', life_cycle_reason_idx = 0, sol_ops = mk_ops rtc_rd rtc_wr rtc_lcr_reset\<rparr>,
      sol_platform := s\<rparr>)) \<and>
    sol_platform d' = (if is_charger_mode d \<or> ch then s else rtc_clear_life_cycle_reason s) \<and> n = 0"
proof -
  let ?ds = "\<lparr>sol_version = ''3.0'', life_cycle_reason_idx = 0, sol_ops = mk_ops rtc_rd rtc_wr rtc_lcr_reset\<rparr>"
  let ?d = "d\<lparr>p_dev_sol := Some ?ds, sol_platform := s\<rparr>"
  have "\<exists>i. life_cycle_reason_lookup ?d = (int i, ?d\<lparr>p_dev_sol := Some (?ds\<lparr>life_cycle_reason_idx := i\<rparr>)\<rparr>)"
    using sol.lookup_priority [of ?d ?ds] sol.lookup_corrupt [of ?d ?ds]
    by (cases "check_sign_of_life_parity s") (auto simp: Let_def)
  then obtain i where i: "life_cycle_reason_lookup ?d
      = (int i, ?d\<lparr>p_dev_sol := Some (?ds\<lparr>life_cycle_reason_idx := i\<rparr>)\<rparr>)" by blast
  have reset: "ops_lcr_reset (mk_ops rtc_rd rtc_wr rtc_lcr_reset) = Some rtc_lcr_reset"
    by (simp add: mk_ops_def)
  show ?thesis
    using assms(1) i
    by (auto simp: dev_sol_init_def assms(3) platform_init_ops Let_def reset rtc_lcr_reset_def
        split: if_splits)
qed

section \<open>Properties\<close>

definition sol_example :: rtc_platform where
  "sol_example = \<lparr>rtc_present = True, rtc_regs = (\<lambda>a. 0x83FF), lcr_boot = LIFE_CYCLE_NOT_AVAILABLE,
     lcr_cmdline = []\<rparr>"

definition sol_driver_example :: "rtc_platform sol_driver" where
  "sol_driver_example = \<lparr>p_dev_sol = None, is_charger_mode = False, sol_platform = sol_example\<rparr>"

text \<open>C14: a reason written to its field of the RTC registers is the reason read back, whatever the
  registers held before (also when their parity was wrong), and the other three fields read as
  they are stored.\<close>

theorem lcr_write_read_roundtrip:
  assumes "rtc_present s" "reason \<in> lcr_table_reasons t"
  shows "rtc_read_life_cycle_reason (snd (rtc_write_life_cycle_reason s reason (Some (life_cycle_reason t))))
      r0 (Some (life_cycle_reason t')) = (0, if t' = t then reason else rtc_stored s t')"
  using check_parity_after_write [OF assms(1), of reason t] lcr_field_after_write [OF assms(1), of reason t t']
    lcr_decode_code [OF assms(2)]
  by (simp add: rtc_read_decode rtc_stored_def)

theorem lcr_write_read_roundtrip_witness:
  "rtc_read_life_cycle_reason (snd (rtc_write_life_cycle_reason sol_example THERMAL_SHUTDOWN_REASON_SOC
      (Some (life_cycle_reason THERMAL_SHUTDOWN)))) LIFE_CYCLE_NOT_AVAILABLE
      (Some (life_cycle_reason THERMAL_SHUTDOWN))
    = (0, if THERMAL_SHUTDOWN = THERMAL_SHUTDOWN then THERMAL_SHUTDOWN_REASON_SOC
          else rtc_stored sol_example THERMAL_SHUTDOWN)"
  by (rule lcr_write_read_roundtrip)
    (simp_all add: sol_example_def lcr_table_reasons_def rtc_table_defs)

text \<open>C26: the parity bit detects every single-bit corruption of the protected bits: after any one
  of the twelve field bits or the parity bit itself has flipped, reading any of the four reasons
  reports the check failure.\<close>

theorem lcr_single_bit_corruption_detected:
  assumes "rtc_present s" "check_sign_of_life_parity s" "lcr_protected r n"
  shows "rtc_read_life_cycle_reason (rtc_flip s r n) r0 (Some (life_cycle_reason t))
    = (0, LIFE_CYCLE_SMODE_RTC_CHECK_FAIL)"
  using parity_detects_flip [OF assms] by (simp add: rtc_read_decode)

theorem lcr_single_bit_corruption_detected_witness:
  "rtc_read_life_cycle_reason (rtc_flip (rtc_clear_life_cycle_reason sol_example) RTC_SPAR0 12)
      LIFE_CYCLE_NOT_AVAILABLE (Some (life_cycle_reason BOOT)) = (0, LIFE_CYCLE_SMODE_RTC_CHECK_FAIL)"
proof (rule lcr_single_bit_corruption_detected)
  show "rtc_present (rtc_clear_life_cycle_reason sol_example)"
    by (simp add: rtc_clear_steps sol_example_def)
  show "check_sign_of_life_parity (rtc_clear_life_cycle_reason sol_example)"
    by (rule check_parity_clear) (simp add: sol_example_def)
  show "lcr_protected RTC_SPAR0 12" by (simp add: lcr_protected_def)
qed

text \<open>Writing a reason changes no bit outside its three-bit field and the parity bit, in any
  register: the power-on seconds, the long-press-reset flag and the quiescent flag survive.\<close>

theorem lcr_write_frame:
  assumes "rtc_present s" "\<not> (r = pd_reg (life_cycle_reason t) \<and> pd_shift (life_cycle_reason t) \<le> n \<and>
      n < pd_shift (life_cycle_reason t) + 3)" "\<not> (r = PARITY_REG \<and> n = PARITY_SHIFT)"
  shows "bit (mtk_rtc_read (snd (rtc_write_life_cycle_reason s reason (Some (life_cycle_reason t)))) r) n
    = bit (mtk_rtc_read s r) n"
  using assms
  by (auto simp: rtc_write_steps Let_def bit_store_parity bit_store_field PARITY_REG_def PARITY_SHIFT_def)

theorem lcr_write_frame_witness:
  "bit (mtk_rtc_read (snd (rtc_write_life_cycle_reason sol_example WARMBOOT_BY_SW
      (Some (life_cycle_reason BOOT)))) RTC_SPAR0) 9 = bit (mtk_rtc_read sol_example RTC_SPAR0) 9"
  by (rule lcr_write_frame) (simp_all add: sol_example_def PARITY_SHIFT_def)

text \<open>A started driver whose registers are intact and hold the reasons \<open>m\<close>.\<close>

definition sol_running :: "rtc_platform sol_driver \<Rightarrow> (life_reason_type \<Rightarrow> life_cycle_reason_t) \<Rightarrow> bool" where
  "sol_running d m \<longleftrightarrow> (\<exists>ds. p_dev_sol d = Some ds \<and> sol_ops ds = mk_ops rtc_rd rtc_wr rtc_lcr_reset) \<and>
     rtc_present (sol_platform d) \<and> check_sign_of_life_parity (sol_platform d) \<and> rtc_stored (sol_platform d) = m"

lemma sol_running_init:
  assumes "dev_sol_init True c False d = Some (n, d')" "rtc_present (sol_platform d)" "\<not> is_charger_mode d"
  shows "sol_running d' (\<lambda>_. LIFE_CYCLE_NOT_AVAILABLE)"
proof -
  obtain m s where b: "get_android_bootreason c (sol_platform d) = Some (m, s)"
    using assms(1) by (auto simp: dev_sol_init_def Let_def split: option.splits)
  have "rtc_present s" using bootreason_keeps_regs [OF b] assms(2) by simp
  from sol.rst_clears [OF this] dev_sol_init_lookup [OF assms(1,2) b] assms(3) show ?thesis
    by (auto simp: sol_running_def rtc_lcr_reset_def)
qed

lemma sol_running_set:
  assumes "sol_running d m" "r \<in> lcr_table_reasons t"
  shows "sol_running (snd (life_cycle_set t d r)) (m(t := r))"
proof -
  obtain ds where ds: "p_dev_sol d = Some ds" "sol_ops ds = mk_ops rtc_rd rtc_wr rtc_lcr_reset"
    using assms(1) by (auto simp: sol_running_def)
  show ?thesis
    using assms sol.wr_stores [of "sol_platform d" r t] sol.wr_keeps [of "sol_platform d" t r]
    by (simp add: sol_running_def life_cycle_set_eq [OF ds] ds)
qed

lemma sol_running_notifier:
  assumes "sol_running d m"
  shows "\<exists>m'. sol_running (life_cycle_reboot_notifier d code) m' \<and> m' THERMAL_SHUTDOWN = m THERMAL_SHUTDOWN \<and>
    (code \<noteq> SYS_POWER_OFF \<longrightarrow> m' SHUTDOWN = m SHUTDOWN)"
proof (cases code)
  case SYS_RESTART
  have "WARMBOOT_BY_SW \<in> lcr_table_reasons BOOT" by (simp add: lcr_table_reasons_def rtc_table_defs)
  from sol_running_set [OF assms this] SYS_RESTART show ?thesis by (intro exI) (auto simp: life_cycle_reboot_notifier_def)
next
  case SYS_HALT
  then show ?thesis using assms by (auto simp: life_cycle_reboot_notifier_def)
next
  case SYS_POWER_OFF
  have "SHUTDOWN_BY_SW \<in> lcr_table_reasons SHUTDOWN" by (simp add: lcr_table_reasons_def rtc_table_defs)
  from sol_running_set [OF assms this] SYS_POWER_OFF show ?thesis by (intro exI) (auto simp: life_cycle_reboot_notifier_def)
qed

text \<open>The mark of a long press is a bit of \<^verbatim>\<open>RTC_SPAR0\<close> below the reason fields.\<close>

lemma sol_running_lprst:
  assumes "sol_running d m" "mtk_rtc_mark_sw_lprst (sol_platform d) = Some (n, s)"
  shows "sol_running (d\<lparr>sol_platform := s\<rparr>) m"
proof -
  let ?s = "sol_platform d"
  have p: "rtc_present ?s" using assms(1) by (simp add: sol_running_def)
  with assms(2) have s: "rtc_present s" "\<And>r. mtk_rtc_read s r = (if r = RTC_SPAR0 then mtk_rtc_read ?s r OR RTC_SPAR0_LPRST else mtk_rtc_read ?s r)"
    by (auto simp: mtk_rtc_mark_sw_lprst_def mtk_rtc_read_def)
  have dow: "mtk_rtc_read s RTC_AL_DOW = mtk_rtc_read ?s RTC_AL_DOW" by (simp add: s(2)) (simp add: RTC_AL_DOW_def RTC_SPAR0_def)
  have l: "RTC_SPAR0_LPRST = push_bit 9 1" by (simp add: RTC_SPAR0_LPRST_def push_bit_eq_mult)
  have b: "bit (mtk_rtc_read s r) k = bit (mtk_rtc_read ?s r) k" if "k \<noteq> 9" for r k
    using that by (simp add: s(2) bit_or_iff) (simp only: l bit_push_bit_iff bit_1_iff, auto)
  have "lcr_field s t = lcr_field ?s t" for t
    by (rule bit_word_eqI, cases t) (simp_all add: lcr_field_def bit_field3 b dow)
  moreover have "check_sign_of_life_parity s = check_sign_of_life_parity ?s"
    by (simp add: check_parity_bit lcr_bits_def b dow)
  ultimately show ?thesis using assms(1) s(1) by (auto simp: sol_running_def rtc_stored_def fun_eq_iff)
qed

lemma sol_running_reboot:
  assumes "sol_running d m" "dev_sol_init True c ch (reboot_device d) = Some (n, d2)"
  shows "\<exists>ds fb. p_dev_sol d2 = Some ds \<and> life_cycle_reason_idx ds
    = first_index [m THERMAL_SHUTDOWN, m SHUTDOWN, if m BOOT = LIFE_CYCLE_NOT_AVAILABLE then fb else m BOOT, m SPECIAL]"
proof -
  let ?d = "reboot_device d" and ?ds = "\<lparr>sol_version = ''3.0'', life_cycle_reason_idx = 0, sol_ops = mk_ops rtc_rd rtc_wr rtc_lcr_reset\<rparr>"
  obtain k s where b: "get_android_bootreason c (sol_platform ?d) = Some (k, s)"
    using assms(2) by (auto simp: dev_sol_init_def Let_def split: option.splits)
  have r: "rtc_regs s = rtc_regs (sol_platform d)" "rtc_present s = rtc_present (sol_platform d)"
    using bootreason_keeps_regs [OF b] by (simp_all add: reboot_device_def)
  have c: "check_sign_of_life_parity s" "rtc_stored s = m" using regs_cong [OF r] assms(1) by (simp_all add: sol_running_def)
  have p: "rtc_present (sol_platform ?d)" using assms(1) by (simp add: sol_running_def reboot_device_def)
  from sol.lookup_priority [of "?d\<lparr>p_dev_sol := Some ?ds, sol_platform := s\<rparr>" ?ds] c dev_sol_init_lookup [OF assms(2) p b]
  show ?thesis by (auto simp: Let_def simp del: first_index.simps)
qed

lemma recorded_reason_found:
  assumes "dev_sol_init True c1 False d0 = Some (n1, d1)" "rtc_present (sol_platform d0)"
    "\<not> is_charger_mode d0" "r \<in> lcr_table_reasons t" "t \<noteq> SPECIAL" "lcr_index r \<noteq> 0"
    "dev_sol_init True c2 ch (reboot_device (snd (life_cycle_set t d1 r))) = Some (n2, d2)"
  shows "\<exists>ds. p_dev_sol d2 = Some ds \<and> life_cycle_reason_idx ds = lcr_index r"
proof -
  have "r \<noteq> LIFE_CYCLE_NOT_AVAILABLE" "lcr_index LIFE_CYCLE_NOT_AVAILABLE = 0" using assms(6) by (auto simp: lcr_index_def)
  with sol_running_reboot [OF sol_running_set [OF sol_running_init [OF assms(1-3)] assms(4)] assms(7)] assms(5,6)
  show ?thesis by (cases t) auto
qed


lemma dev_sol_init_no_cmdline:
  "lcr_cmdline (sol_platform d) = [] \<Longrightarrow> \<exists>d'. dev_sol_init True None ch d = Some (0, d')"
  by (auto simp: dev_sol_init_def get_android_bootreason_def lcr_get_cmd_def Let_def split: prod.split)


lemma search_loop_zero: "0 < i \<Longrightarrow> search_lcr_loop t i r = 0 \<longleftrightarrow> r \<notin> fst ` set t"
  by (induction t i r rule: search_lcr_loop.induct) auto

lemma search_loop_hit:
  "search_lcr_loop t i r \<noteq> 0 \<Longrightarrow> i \<le> search_lcr_loop t i r \<and> search_lcr_loop t i r < i + length t \<and>
    fst (t ! (search_lcr_loop t i r - i)) = r"
  by (induction t i r rule: search_lcr_loop.induct) (auto simp: nth_Cons' split: if_splits)

lemma search_table_hit:
  assumes "search_lcr_table t r \<noteq> 0"
  shows "search_lcr_table t r < length t" "fst (t ! search_lcr_table t r) = r"
  using assms search_loop_hit [of "drop 1 t" 1 r] by (auto simp: search_lcr_table_def)

definition lcr_known :: "life_cycle_reason_t list" where
  "lcr_known = [SHUTDOWN_BY_SW, SHUTDOWN_BY_LONG_PWR_KEY_PRESS, THERMAL_SHUTDOWN_REASON_PMIC,
     THERMAL_SHUTDOWN_REASON_BATTERY, THERMAL_SHUTDOWN_REASON_SOC, THERMAL_SHUTDOWN_REASON_PCB,
     THERMAL_SHUTDOWN_REASON_WIFI, THERMAL_SHUTDOWN_REASON_BTS, THERMAL_SHUTDOWN_REASON_MODEM,
     LIFE_CYCLE_SMODE_LOW_BATTERY, SHUTDOWN_BY_SUDDEN_POWER_LOSS, SHUTDOWN_BY_UNKNOWN_REASONS,
     COLDBOOT_BY_POWER_KEY, COLDBOOT_BY_USB, COLDBOOT_BY_POWER_SUPPLY, WARMBOOT_BY_SW,
     WARMBOOT_BY_KERNEL_PANIC, WARMBOOT_BY_KERNEL_WATCHDOG, WARMBOOT_BY_HW_WATCHDOG,
     LIFE_CYCLE_SMODE_WARM_BOOT_USB_CONNECTED, LIFE_CYCLE_SMODE_FACTORY_RESET, LIFE_CYCLE_SMODE_OTA,
     LIFE_CYCLE_SMODE_RTC_CHECK_FAIL]"

lemma lcr_data_known: "map fst (drop 1 lcr_data) = lcr_known"
  by (simp add: lcr_data_def lcr_known_def)

lemma search_lcr_data_zero: "search_lcr_table lcr_data r = 0 \<longleftrightarrow> r \<notin> set lcr_known"
  unfolding search_lcr_table_def lcr_data_known [symmetric] by (simp add: search_loop_zero)

text \<open>The reason \<^verbatim>\<open>SHUTDOWN_BY_PWR_KEY\<close> can be recorded in the registers and is stored
  faithfully, but has no entry in the reason table: reading it back through the driver fails, and
  in general the driver finds a stored shutdown reason exactly when it is another one.\<close>

theorem shutdown_reason_reported:
  assumes "p_dev_sol d = Some ds" "sol_ops ds = mk_ops rtc_rd rtc_wr rtc_lcr_reset"
    "rtc_present (sol_platform d)" "r \<in> lcr_table_reasons SHUTDOWN" "r \<noteq> LIFE_CYCLE_NOT_AVAILABLE"
  shows "if r = SHUTDOWN_BY_PWR_KEY then read_life_cycle_reason (snd (life_cycle_set_shutdown_reason d r)) SHUTDOWN = - 1
    else \<exists>i. read_life_cycle_reason (snd (life_cycle_set_shutdown_reason d r)) SHUTDOWN = int i \<and>
      i < length lcr_data \<and> fst (lcr_data ! i) = r"
proof -
  let ?d = "snd (life_cycle_set_shutdown_reason d r)"
  have d: "?d = d\<lparr>sol_platform := snd (rtc_wr SHUTDOWN (sol_platform d) r)\<rparr>"
    using life_cycle_set_eq [OF assms(1,2), of SHUTDOWN r] by simp
  have "rtc_rd SHUTDOWN (sol_platform ?d) LIFE_CYCLE_NOT_AVAILABLE = (0, r)"
    using sol.rd_intact [of "sol_platform ?d" SHUTDOWN] sol.wr_keeps [OF assms(3), of SHUTDOWN r]
      sol.wr_stores [OF assms(3,4)] by (simp add: d)
  then have rd: "read_life_cycle_reason ?d SHUTDOWN
      = (if search_lcr_table lcr_data r = 0 then - 1 else int (search_lcr_table lcr_data r))"
    using assms(1,2) by (simp add: read_life_cycle_reason_def d mk_ops_def)
  have z: "search_lcr_table lcr_data r = 0 \<longleftrightarrow> r = SHUTDOWN_BY_PWR_KEY"
    unfolding search_lcr_data_zero using assms(4,5)
    by (auto simp: lcr_table_reasons_def rtc_table_defs lcr_known_def)
  then show ?thesis unfolding rd using search_table_hit [of lcr_data r] by auto
qed

theorem shutdown_reason_reported_witness:
  "\<exists>d :: rtc_platform sol_driver. read_life_cycle_reason (snd (life_cycle_set_shutdown_reason d SHUTDOWN_BY_PWR_KEY)) SHUTDOWN = - 1 \<and>
     (\<exists>i. read_life_cycle_reason (snd (life_cycle_set_shutdown_reason d SHUTDOWN_BY_SW)) SHUTDOWN = int i \<and>
        i < length lcr_data \<and> fst (lcr_data ! i) = SHUTDOWN_BY_SW)"
proof -
  let ?ds = "\<lparr>sol_version = ''3.0'', life_cycle_reason_idx = 0, sol_ops = mk_ops rtc_rd rtc_wr rtc_lcr_reset\<rparr>"
  let ?d = "\<lparr>p_dev_sol = Some ?ds, is_charger_mode = False, sol_platform = sol_example\<rparr>"
  have h: "SHUTDOWN_BY_PWR_KEY \<in> lcr_table_reasons SHUTDOWN" "SHUTDOWN_BY_SW \<in> lcr_table_reasons SHUTDOWN"
    by (simp_all add: lcr_table_reasons_def rtc_table_defs)
  have p: "rtc_present (sol_platform ?d)" by (simp add: sol_example_def)
  show ?thesis
    using shutdown_reason_reported [OF _ _ p h(1)] shutdown_reason_reported [OF _ _ p h(2)]
    by - (rule exI [of _ ?d], simp)
qed

section \<open>The boot reason on the command line\<close>

lemma strstr_head: "strstr (needle @ rest) needle = Some (needle @ rest)"
  by (cases needle; cases rest) auto

lemma strstr_blank: "CHR '' '' \<notin> set v \<Longrightarrow> strstr (v @ CHR '' '' # rest) '' '' = Some (CHR '' '' # rest)"
  by (induction v) auto

definition bootreason_of :: "string \<Rightarrow> life_cycle_reason_t" where
  "bootreason_of v = (if v = ''=PowerKey'' then COLDBOOT_BY_POWER_KEY
     else if v = ''=usb'' then COLDBOOT_BY_USB
     else if v = ''=Watchdog'' then WARMBOOT_BY_KERNEL_WATCHDOG
     else if v = ''=wdt_hw'' then WARMBOOT_BY_HW_WATCHDOG
     else if v = ''=kernel_panic'' then WARMBOOT_BY_KERNEL_PANIC
     else LIFE_CYCLE_NOT_AVAILABLE)"

text \<open>A command line that starts with the boot reason keyword, followed by a value and a
  blank, sets the boot reason from the value when the value is shorter than 32 bytes; a longer
  value overruns the 32-byte array on the stack.\<close>

theorem bootreason_parsed_or_overrun:
  assumes "lcr_cmdline s = ''androidboot.bootreason'' @ v @ CHR '' '' # rest" "CHR '' '' \<notin> set v" "v \<noteq> []"
  shows "get_android_bootreason c s
    = (if length v < 32 then Some (0, s\<lparr>lcr_boot := bootreason_of v\<rparr>) else None)"
proof -
  let ?k = "''androidboot.bootreason''"
  have k: "strstr (lcr_cmdline s) ?k = Some (?k @ v @ CHR '' '' # rest)"
    unfolding assms(1) by (rule strstr_head)
  have b: "strstr (?k @ v @ CHR '' '' # rest) '' '' = Some (CHR '' '' # rest)"
    using strstr_blank [of "?k @ v" rest] assms(2) by simp
  have g: "lcr_get_cmd c s = s" using assms(1) by (simp add: lcr_get_cmd_def)
  have sz: "int (length (?k @ v @ CHR '' '' # rest)) - int (length (CHR '' '' # rest)) - int (length ?k)
      = int (length v)" by simp
  show ?thesis
    unfolding get_android_bootreason_def Let_def g k option.case b sz
    using assms(3) by (simp add: bootreason_of_def)
qed

theorem bootreason_parsed_or_overrun_witness:
  "get_android_bootreason None (sol_example\<lparr>lcr_cmdline := ''androidboot.bootreason=usb quiet''\<rparr>)
     = Some (0, sol_example\<lparr>lcr_cmdline := ''androidboot.bootreason=usb quiet'', lcr_boot := COLDBOOT_BY_USB\<rparr>)"
  using bootreason_parsed_or_overrun [of "sol_example\<lparr>lcr_cmdline := ''androidboot.bootreason=usb quiet''\<rparr>"
      "''=usb''" "''quiet''" None]
  by (simp add: bootreason_of_def)

end
