(* ===== verification/Vs_Zone.thy ===== *)
theory Vs_Zone
  imports Vs_Coolers Sign_Of_Life
begin

text \<open>
  The thermal zone of the virtual-sensor driver,
  \<^verbatim>\<open>drivers/thermal/virtual_sensor_tablet/virtual_sensor_tablet_thermal.c\<close>, and its sensors,
  \<^verbatim>\<open>virtual_sensor_thermal_sensor.c\<close>, in the built configuration (foreign object detection, both
  metrics logs). A zone's temperature is the weighted sum of exponentially smoothed sensor readings;
  the zone of the wireless charger uses the rate at which its sensor heats up, taken over a ring of
  samples. Calls into the thermal core (zone updates, scheduled work) and the metrics log are
  recorded in the zone. NULL pointers are excluded by construction except where the code can meet
  them; an index outside an array and a division by zero are \<open>None\<close>.
\<close>

section \<open>Data\<close>

datatype thermal_trip_type = TRIP_ACTIVE | TRIP_PASSIVE | TRIP_HOT | TRIP_CRITICAL
datatype thermal_device_mode = DEVICE_DISABLED | DEVICE_ENABLED

record trip_t =
  tr_temp :: int \<comment> \<open>an unsigned long\<close>
  tr_type :: thermal_trip_type
  tr_hyst :: int \<comment> \<open>an unsigned long\<close>

record thermal_dev =
  tv_name :: string
  tv_tdp :: thermal_dev_params
  tv_off_temp :: int
  tv_first_data_get :: bool

record vs_thermal_platform_data =
  vp_num_trips :: int
  vp_mode :: thermal_device_mode
  vp_polling_delay :: int
  vp_ts_list :: "thermal_dev list"
  vp_governor_name :: string
  vp_num_tbps :: int
  vp_tbp :: "string option list" \<comment> \<open>type of the bound device of each bind parameter\<close>
  vp_trips :: "trip_t list"
  vp_num_cdevs :: int
  vp_cdevs :: "string list"

datatype zone_event = ZoneUpdate | WorkScheduled | PollCancelled | UEvent string
  | LogMetrics string int | LogVitals string int

record vs_zone =
  z_type :: string
  z_trips :: int
  z_polling_delay :: int
  z_query_count :: int
  z_mask :: int
  z_pdata :: vs_thermal_platform_data
  z_events :: "zone_event list"

text \<open>
  The foreign object detection: the ring of samples starts with the list head, which holds a sample
  like every other node; \<open>fo_cur\<close> is the position of \<^verbatim>\<open>cur_list\<close>.
\<close>

record fod_algo =
  fo_work_delay :: int
  fo_window_size :: int
  fo_polling_interval :: int
  fo_online :: int
  fo_temp_cnt :: int
  fo_ring :: "int list"
  fo_cur :: nat
  fo_timer_start :: "int \<times> int"
  fo_work_queued :: nat

definition DMF :: int where "DMF = 1000"
definition FOD_THERMAL_NAME :: string where "FOD_THERMAL_NAME = ''virtual_sensor4''"
definition THROTTLE_TIME_MASK :: int where "THROTTLE_TIME_MASK = 0x3F"
definition UNTHROTTLE_TIME_MASK :: int where "UNTHROTTLE_TIME_MASK = 0x3FF"
definition NUM_OF_COLLECT :: int where "NUM_OF_COLLECT = 5"
definition TASK_DURATION :: int where "TASK_DURATION = 2000"

text \<open>\<^verbatim>\<open>strncmp\<close> of a string with a literal over the literal's length: a test for a prefix.\<close>

definition has_prefix :: "string \<Rightarrow> string \<Rightarrow> bool" where
  "has_prefix str pre \<longleftrightarrow> take (length pre) str = pre"

definition is_fod_zone :: "vs_zone \<Rightarrow> bool" where
  "is_fod_zone z \<longleftrightarrow> has_prefix (z_type z) FOD_THERMAL_NAME"

definition z_event :: "vs_zone \<Rightarrow> zone_event \<Rightarrow> vs_zone" where
  "z_event z e = z\<lparr>z_events := z_events z @ [e]\<rparr>"

section \<open>The heating rate\<close>

definition ring_next :: "fod_algo \<Rightarrow> nat" where
  "ring_next f = (fo_cur f + 1) mod length (fo_ring f)"

definition calculate_raising_rate :: "fod_algo \<Rightarrow> int \<times> int \<Rightarrow> int \<Rightarrow> int \<Rightarrow> (int \<times> fod_algo) option" where
  "calculate_raising_rate f now data delay =
     (if delay = 0 then Some (0, f)
      else if fo_temp_cnt f = 0 \<and> (fst (fo_timer_start f) = 0 \<or> snd (fo_timer_start f) = 0)
        then Some (0, f\<lparr>fo_timer_start := now\<rparr>)
      else if fo_temp_cnt f = 0 \<and> u32w (s32 (fst now - fst (fo_timer_start f))) < fo_work_delay f then Some (0, f)
      else if length (fo_ring f) \<le> fo_cur f then None
      else let f = f\<lparr>fo_ring := (fo_ring f)[fo_cur f := data]\<rparr> in
        if fo_temp_cnt f \<le> u32w (fo_window_size f - 1)
        then Some (0, f\<lparr>fo_cur := ring_next f, fo_temp_cnt := u32w (fo_temp_cnt f + 1)\<rparr>)
        else let f = f\<lparr>fo_cur := ring_next f\<rparr>;
                 temp_first = fo_ring f ! fo_cur f;
                 period = s32 (u32w (delay * (fo_window_size f - 1)) div DMF)
             in if period = 0 then None else Some (s32 (s32 (data - temp_first) * 60) sdiv period, f))"

section \<open>Temperature\<close>

definition virtual_sensor_thermal_sensor_read_temp :: "vs_env \<Rightarrow> vs_if \<Rightarrow> thermal_dev \<Rightarrow> (int \<times> vs_if) option" where
  "virtual_sensor_thermal_sensor_read_temp env s tdev =
     vs_thermal_sensor_get_temp env s (td_sensor_id (tv_tdp tdev)) (td_aux_channel (tv_tdp tdev))"

text \<open>The smoothing of one reading: the device's new offset temperature.\<close>

definition smooth :: "bool \<Rightarrow> thermal_dev \<Rightarrow> int \<Rightarrow> thermal_dev" where
  "smooth fod tdev temp =
     (let tdp = tv_tdp tdev in
      if \<not> tv_first_data_get tdev
      then tdev\<lparr>tv_off_temp := (if fod \<and> td_weight tdp \<noteq> 0 then 0 else s64 (temp - td_offset tdp)), tv_first_data_get := True\<rparr>
      else tdev\<lparr>tv_off_temp :=
             s64 (s64 (td_alpha tdp * s64 (temp - td_offset tdp)) + s64 (s32 (DMF - td_alpha tdp) * tv_off_temp tdev)) sdiv DMF\<rparr>)"

definition log_due :: "vs_zone \<Rightarrow> bool" where
  "log_due z \<longleftrightarrow> z_query_count z AND z_mask z = 0"

definition log_metrics :: "bool \<Rightarrow> vs_zone \<Rightarrow> zone_event \<Rightarrow> vs_zone" where
  "log_metrics logger z e = (if log_due z \<and> logger then z_event z e else z)"

text \<open>The loop over the sensors: the sum so far, the devices done so far, the rest.\<close>

fun sensor_loop :: "bool \<Rightarrow> vs_env \<Rightarrow> (int \<times> int) \<Rightarrow> vs_if \<Rightarrow> vs_zone \<Rightarrow> fod_algo \<Rightarrow> int \<Rightarrow> thermal_dev list \<Rightarrow> thermal_dev list
    \<Rightarrow> (int \<times> thermal_dev list \<times> vs_if \<times> vs_zone \<times> fod_algo) option" where
  "sensor_loop logger env now s z f tempv done [] = Some (tempv, done, s, z, f)"
| "sensor_loop logger env now s z f tempv done (tdev # rest) =
     (case virtual_sensor_thermal_sensor_read_temp env s tdev of None \<Rightarrow> None
      | Some (temp, s) \<Rightarrow>
          let name = z_type z @ ''_'' @ tv_name tdev @ ''_temp'';
              z = log_metrics logger z (LogMetrics name temp);
              z = log_metrics logger z (LogVitals name temp);
              fod = is_fod_zone z;
              weight = td_weight (tv_tdp tdev)
          in case (if fod \<and> weight \<noteq> 0 then calculate_raising_rate f now temp (z_polling_delay z) else Some (temp, f)) of
               None \<Rightarrow> None
             | Some (temp, f) \<Rightarrow>
                 let tdev = smooth fod tdev temp
                 in sensor_loop logger env now s z f (s64 (tempv + s64 (weight * tv_off_temp tdev) sdiv DMF)) (done @ [tdev]) rest)"

definition set_mask :: "int \<Rightarrow> vs_zone \<Rightarrow> vs_zone" where
  "set_mask tempv z = z\<lparr>z_mask := (if u64w tempv > tr_temp (vp_trips (z_pdata z) ! 0) then THROTTLE_TIME_MASK else UNTHROTTLE_TIME_MASK)\<rparr>"

text \<open>
  The result is the status, the temperature given to the thermal core and the value of
  \<^verbatim>\<open>virtual_sensor_temp\<close>. \<open>comm\<close> is the name of the calling thread.
\<close>

definition virtual_sensor_thermal_get_temp :: "bool \<Rightarrow> vs_env \<Rightarrow> (int \<times> int) \<Rightarrow> string \<Rightarrow> vs_if \<Rightarrow> vs_zone \<Rightarrow> fod_algo
    \<Rightarrow> ((int + int \<times> int) \<times> vs_if \<times> vs_zone \<times> fod_algo) option" where
  "virtual_sensor_thermal_get_temp logger env now comm s z f =
     (if is_fod_zone z \<and> \<not> has_prefix comm ''kworker'' \<and> \<not> has_prefix comm ''cat'' then Some (Inl (- EINVAL), s, z, f)
      else let z = z\<lparr>z_query_count := s32 (z_query_count z + 1)\<rparr>
           in case sensor_loop logger env now s z f 0 [] (vp_ts_list (z_pdata z)) of None \<Rightarrow> None
              | Some (tempv, devs, s, z, f) \<Rightarrow>
                  let z = z\<lparr>z_pdata := (z_pdata z)\<lparr>vp_ts_list := devs\<rparr>\<rparr>;
                      z = set_mask tempv (log_metrics logger z (LogMetrics (z_type z @ ''_temp'') tempv));
                      z = set_mask tempv (log_metrics logger z (LogVitals (z_type z @ ''_temp'') tempv))
                  in Some (Inr (s32 tempv, u64w tempv), s, z, f))"

section \<open>Modes and trip points\<close>

definition forget_readings :: "vs_thermal_platform_data \<Rightarrow> vs_thermal_platform_data" where
  "forget_readings p = p\<lparr>vp_ts_list := map (\<lambda>t. t\<lparr>tv_first_data_get := False\<rparr>) (vp_ts_list p)\<rparr>"

definition virtual_sensor_thermal_get_mode :: "vs_zone \<Rightarrow> thermal_device_mode" where
  "virtual_sensor_thermal_get_mode z = vp_mode (z_pdata z)"

definition virtual_sensor_thermal_set_mode :: "fod_algo \<Rightarrow> vs_zone \<Rightarrow> thermal_device_mode \<Rightarrow> int \<times> vs_zone" where
  "virtual_sensor_thermal_set_mode f z mode =
     (let mode = (if is_fod_zone z \<and> fo_online f = 0 then DEVICE_DISABLED else mode);
          z = z\<lparr>z_pdata := (z_pdata z)\<lparr>vp_mode := mode\<rparr>\<rparr>
      in if mode = DEVICE_DISABLED
         then let z = z_event (z\<lparr>z_polling_delay := 0\<rparr>) ZoneUpdate
              in (0, z\<lparr>z_pdata := forget_readings (z_pdata z)\<rparr>)
         else (0, z_event z WorkScheduled))"

definition trip_at :: "vs_zone \<Rightarrow> int \<Rightarrow> trip_t option" where
  "trip_at z trip = (if 0 \<le> trip \<and> nat trip < length (vp_trips (z_pdata z)) then Some (vp_trips (z_pdata z) ! nat trip) else None)"

definition trip_put :: "vs_zone \<Rightarrow> int \<Rightarrow> trip_t \<Rightarrow> vs_zone" where
  "trip_put z trip t = z\<lparr>z_pdata := (z_pdata z)\<lparr>vp_trips := (vp_trips (z_pdata z))[nat trip := t]\<rparr>\<rparr>"

definition virtual_sensor_thermal_get_trip_type :: "vs_zone \<Rightarrow> int \<Rightarrow> thermal_trip_type option" where
  "virtual_sensor_thermal_get_trip_type z trip = map_option tr_type (trip_at z trip)"

definition virtual_sensor_thermal_get_trip_temp :: "vs_zone \<Rightarrow> int \<Rightarrow> int option" where
  "virtual_sensor_thermal_get_trip_temp z trip = map_option (\<lambda>t. s32 (tr_temp t)) (trip_at z trip)"

definition virtual_sensor_thermal_set_trip_temp :: "vs_zone \<Rightarrow> int \<Rightarrow> int \<Rightarrow> vs_zone option" where
  "virtual_sensor_thermal_set_trip_temp z trip temp =
     map_option (\<lambda>t. trip_put z trip (t\<lparr>tr_temp := u64w temp\<rparr>)) (trip_at z trip)"

definition virtual_sensor_thermal_get_crit_temp :: "vs_zone \<Rightarrow> int + int" where
  "virtual_sensor_thermal_get_crit_temp z =
     (case find (\<lambda>t. tr_type t = TRIP_CRITICAL) (vp_trips (z_pdata z)) of None \<Rightarrow> Inl (- EINVAL) | Some t \<Rightarrow> Inr (s32 (tr_temp t)))"

definition virtual_sensor_thermal_get_trip_hyst :: "vs_zone \<Rightarrow> int \<Rightarrow> int option" where
  "virtual_sensor_thermal_get_trip_hyst z trip = map_option (\<lambda>t. s32 (tr_hyst t)) (trip_at z trip)"

definition virtual_sensor_thermal_set_trip_hyst :: "vs_zone \<Rightarrow> int \<Rightarrow> int \<Rightarrow> vs_zone option" where
  "virtual_sensor_thermal_set_trip_hyst z trip hyst =
     map_option (\<lambda>t. trip_put z trip (t\<lparr>tr_hyst := u64w hyst\<rparr>)) (trip_at z trip)"

text \<open>Which cooling devices the core may bind to the zone: 0 for a match.\<close>

definition zone_match :: "vs_zone \<Rightarrow> string \<Rightarrow> int" where
  "zone_match z cdev_type =
     (let p = z_pdata z in
      if \<not> has_prefix (z_type z) ''virtual_sensor'' then - EINVAL
      else if Some cdev_type \<in> set (take (nat (vp_num_tbps p)) (vp_tbp p)) then - EEXIST
      else if \<exists>i < nat (vp_num_cdevs p). has_prefix (vp_cdevs p ! i) cdev_type then 0
      else - EINVAL)"

section \<open>Sysfs\<close>

text \<open>Parsed numbers are given; \<open>None\<close> is text that is not a number.\<close>

definition trips_store :: "vs_zone \<Rightarrow> int option \<Rightarrow> int \<Rightarrow> int \<times> vs_zone" where
  "trips_store z parsed cnt =
     (case parsed of None \<Rightarrow> (- EINVAL, z)
      | Some trips \<Rightarrow> if trips < 0 then (- EINVAL, z)
                      else (cnt, z\<lparr>z_pdata := (z_pdata z)\<lparr>vp_num_trips := trips\<rparr>, z_trips := trips\<rparr>))"

definition polling_store :: "vs_env \<Rightarrow> vs_if \<Rightarrow> fod_algo \<Rightarrow> vs_zone \<Rightarrow> int option \<Rightarrow> int \<Rightarrow> int \<times> vs_if \<times> fod_algo \<times> vs_zone" where
  "polling_store env s f z parsed cnt =
     (case parsed of None \<Rightarrow> (- EINVAL, s, f, z)
      | Some delay \<Rightarrow>
          if delay < 0 then (- EINVAL, s, f, z)
          else let z = z\<lparr>z_pdata := (z_pdata z)\<lparr>vp_polling_delay := delay\<rparr>, z_polling_delay := delay\<rparr>
               in if is_fod_zone z
                  then let f = f\<lparr>fo_polling_interval := delay\<rparr>; (online, s) = vs_get_wpc_online env s
                       in (cnt, s, f, if online \<noteq> 0 then z_event z ZoneUpdate else z)
                  else (cnt, s, f, z_event z ZoneUpdate))"

definition fod_delay_store :: "fod_algo \<Rightarrow> int option \<Rightarrow> int \<Rightarrow> int \<times> fod_algo" where
  "fod_delay_store f parsed cnt = (case parsed of None \<Rightarrow> (- EINVAL, f) | Some d \<Rightarrow> (cnt, f\<lparr>fo_work_delay := d\<rparr>))"

text \<open>
  A new window size rebuilds the ring: the head stays with its sample, the other nodes are freed and
  as many zeroed ones as the size asks for are added; \<open>allocs\<close> is the number of allocations that
  succeed. The last component says whether the lock is left held.
\<close>

definition window_size_store :: "nat \<Rightarrow> fod_algo \<Rightarrow> int option \<Rightarrow> int \<Rightarrow> int \<times> fod_algo \<times> bool" where
  "window_size_store allocs f parsed cnt =
     (case parsed of None \<Rightarrow> (- EINVAL, f, False)
      | Some sz \<Rightarrow>
          if sz < 2 then (- EINVAL, f, False)
          else let n = nat (sz - 1); f = f\<lparr>fo_window_size := sz, fo_cur := 0\<rparr>
               in if allocs < n then (- ENOMEM, f\<lparr>fo_ring := hd (fo_ring f) # replicate allocs 0\<rparr>, True)
                  else (cnt, f\<lparr>fo_ring := hd (fo_ring f) # replicate n 0, fo_temp_cnt := 0\<rparr>, False))"

section \<open>Wireless charger events\<close>

text \<open>
  The zone's coolers are given as the types of its instances with their numbers in the wireless
  cooler driver; the first of type \<^verbatim>\<open>wpc_bcct1\<close> is reset when it is cooling.
\<close>

definition reset_wpc_cooler :: "vs_env \<Rightarrow> (string \<times> nat) list \<Rightarrow> cooler_drv \<Rightarrow> cooler_drv option" where
  "reset_wpc_cooler env insts w =
     (case find (\<lambda>(ty, c). ty = ''wpc_bcct1'') insts of None \<Rightarrow> Some w
      | Some (_, c) \<Rightarrow>
          (case wpc_get_cur_state w (Some c) of Inl _ \<Rightarrow> Some w
           | Inr state \<Rightarrow> if state > 0 then map_option snd (wpc_set_cur_state env w (Some c) 0) else Some w))"

definition wpc_online_work :: "vs_env \<Rightarrow> (string \<times> nat) list \<Rightarrow> fod_algo \<Rightarrow> vs_zone \<Rightarrow> cooler_drv
    \<Rightarrow> (fod_algo \<times> vs_zone \<times> cooler_drv) option" where
  "wpc_online_work env insts f z w =
     (if fo_online f \<noteq> 0
      then let z = z\<lparr>z_pdata := (z_pdata z)\<lparr>vp_mode := DEVICE_ENABLED\<rparr>\<rparr>;
               z = (if z_polling_delay z = 0 then z\<lparr>z_polling_delay := s32 (fo_polling_interval f)\<rparr> else z)
           in case reset_wpc_cooler env insts w of None \<Rightarrow> None
              | Some w \<Rightarrow> Some (f, z_event z WorkScheduled, w)
      else let z = z\<lparr>z_pdata := (z_pdata z)\<lparr>vp_mode := DEVICE_DISABLED\<rparr>\<rparr>;
               f = (if fo_polling_interval f = 0 then f\<lparr>fo_polling_interval := u32w (z_polling_delay z)\<rparr> else f);
               z = (z_event z PollCancelled)\<lparr>z_polling_delay := 0\<rparr>;
               z = z\<lparr>z_pdata := forget_readings (z_pdata z)\<rparr>;
               f = f\<lparr>fo_cur := 1 mod length (fo_ring f), fo_timer_start := (0, 0), fo_temp_cnt := 0\<rparr>
           in Some (f, z, w))"

definition wpc_online_event :: "vs_env \<Rightarrow> bool \<Rightarrow> bool \<Rightarrow> string \<Rightarrow> fod_algo \<Rightarrow> fod_algo" where
  "wpc_online_event env running prop_changed psy_name f =
     (if \<not> running then f
      else if prop_changed \<and> psy_name = WPC_NAME
      then let (ret, val) = psy_get env WPC_NAME PSP_ONLINE
           in if ret < 0 then f
              else if fo_online f \<noteq> u32w val then f\<lparr>fo_online := u32w val, fo_work_queued := fo_work_queued f + 1\<rparr> else f
      else f)"

definition virtual_sensor_thermal_work :: "vs_zone \<Rightarrow> vs_zone" where
  "virtual_sensor_thermal_work z = (if vp_mode (z_pdata z) = DEVICE_ENABLED then z_event z ZoneUpdate else z)"

text \<open>
  A trip point was passed: a uevent goes out, and for a critical trip the reason of the coming
  shutdown is recorded by the life cycle driver.
\<close>

definition virtual_sensor_thermal_notify :: "vs_zone \<Rightarrow> thermal_trip_type \<Rightarrow> 's sol_driver \<Rightarrow> int \<times> vs_zone \<times> 's sol_driver" where
  "virtual_sensor_thermal_notify z ty d =
     (let z = z_event z (UEvent ''SHUTDOWN_WARNING'')
      in (0, z, if ty = TRIP_CRITICAL then snd (life_cycle_set_thermal_shutdown_reason d THERMAL_SHUTDOWN_REASON_PCB) else d))"

section \<open>Start-up\<close>

text \<open>The list of zones' data: one per available device tree node, with no sensors yet.\<close>

definition vs_empty_pdata :: vs_thermal_platform_data where
  "vs_empty_pdata = \<lparr>vp_num_trips = 0, vp_mode = DEVICE_DISABLED, vp_polling_delay = 0, vp_ts_list = [], vp_governor_name = [],
     vp_num_tbps = 0, vp_tbp = [], vp_trips = replicate THERMAL_MAX_TRIPS \<lparr>tr_temp = 0, tr_type = TRIP_ACTIVE, tr_hyst = 0\<rparr>,
     vp_num_cdevs = 0, vp_cdevs = replicate THERMAL_MAX_TRIPS []\<rparr>"

definition init_vs_thermal_platform_data :: "bool \<Rightarrow> (bool \<times> bool) list \<Rightarrow> int + vs_thermal_platform_data list" where
  "init_vs_thermal_platform_data alloc nodes =
     (let n = length (filter (\<lambda>(node, parent). node \<and> parent) nodes)
      in if alloc then Inr (replicate n vs_empty_pdata) else Inl (- ENOMEM))"

text \<open>
  A sensor joins the zone it selects, or the first zone when that does not exist; a negative
  selection passes the test and reads before the array.
\<close>

definition thermal_dev_register :: "vs_thermal_platform_data list \<Rightarrow> thermal_dev option \<Rightarrow> (int \<times> vs_thermal_platform_data list) option" where
  "thermal_dev_register zones tdev =
     (case tdev of None \<Rightarrow> Some (- ENODEV, zones)
      | Some t \<Rightarrow>
          let sel = td_select_device (tv_tdp t); i = (if sel < int (length zones) then sel else 0)
          in if 0 \<le> i \<and> nat i < length zones
             then Some (0, zones[nat i := (zones ! nat i)\<lparr>vp_ts_list := vp_ts_list (zones ! nat i) @ [t]\<rparr>]) else None)"

definition thermal_sensor_node_names :: thermal_dev_node_names where
  "thermal_sensor_node_names = \<lparr>nn_offset = ''thermal_sensor,offset'', nn_offset_invert = ''thermal_sensor,offset_invert'',
     nn_alpha = ''thermal_sensor,alpha'', nn_weight = ''thermal_sensor,weight'', nn_weight_invert = ''thermal_sensor,weight_invert'',
     nn_select_device = ''select_device'', nn_sensor_id = ''thermal_sensor_id'', nn_aux_channel = ''aux_channel_num''\<rparr>"

text \<open>Probe of a sensor; the outcomes of its three allocations are given.\<close>

definition virtual_sensor_thermal_sensor_probe :: "bool \<Rightarrow> bool \<Rightarrow> bool \<Rightarrow> device_node \<Rightarrow> vs_thermal_platform_data list
    \<Rightarrow> (int \<times> vs_thermal_platform_data list) option" where
  "virtual_sensor_thermal_sensor_probe alloc1 alloc2 alloc3 np zones =
     (if \<not> alloc1 \<or> \<not> alloc2 \<or> \<not> alloc3 then Some (- ENOMEM, zones)
      else let tdp = thermal_sensor_dt_to_params np \<lparr>td_offset = 0, td_alpha = 0, td_weight = 0, td_select_device = 0,
                       td_sensor_id = 0, td_aux_channel = 0\<rparr> thermal_sensor_node_names
           in case thermal_dev_register zones (Some \<lparr>tv_name = ''virtual_sensor_thermal_sensor'', tv_tdp = tdp,
                       tv_off_temp = 0, tv_first_data_get = False\<rparr>) of None \<Rightarrow> None
              | Some (ret, zones) \<Rightarrow> Some (if ret \<noteq> 0 then - EINVAL else 0, zones))"

definition virtual_sensor_thermal_sensor_store_params :: "thermal_dev \<Rightarrow> (string \<times> int) option \<Rightarrow> int \<Rightarrow> int \<times> thermal_dev" where
  "virtual_sensor_thermal_sensor_store_params t parsed cnt =
     (case parsed of None \<Rightarrow> (- EINVAL, t)
      | Some (param, v) \<Rightarrow>
          let t = (if param = ''offset'' then t\<lparr>tv_tdp := (tv_tdp t)\<lparr>td_offset := v\<rparr>\<rparr> else t);
              t = (if param = ''alpha'' then t\<lparr>tv_tdp := (tv_tdp t)\<lparr>td_alpha := v\<rparr>\<rparr> else t);
              t = (if param = ''weight'' then t\<lparr>tv_tdp := (tv_tdp t)\<lparr>td_weight := v\<rparr>\<rparr> else t)
          in (cnt, t))"

definition parse_trips_array :: "device_node \<Rightarrow> string \<Rightarrow> int list \<Rightarrow> int list" where
  "parse_trips_array np node_name tripsdata = (case dn_u32_array np node_name of Some arr \<Rightarrow> arr | None \<Rightarrow> tripsdata)"

definition trip_type_of :: "int \<Rightarrow> thermal_trip_type \<Rightarrow> thermal_trip_type" where
  "trip_type_of n old = (if n = 0 then TRIP_ACTIVE else if n = 1 then TRIP_PASSIVE else if n = 2 then TRIP_HOT
     else if n = 3 then TRIP_CRITICAL else old)"

definition tripsdata_convert :: "string \<Rightarrow> int list \<Rightarrow> trip_t list \<Rightarrow> trip_t list" where
  "tripsdata_convert ty tripsdata trips =
     (if has_prefix ty ''type'' then map2 (\<lambda>n t. t\<lparr>tr_type := trip_type_of n (tr_type t)\<rparr>) tripsdata trips
      else if has_prefix ty ''temp'' then map2 (\<lambda>n t. t\<lparr>tr_temp := n\<rparr>) tripsdata trips
      else map2 (\<lambda>n t. t\<lparr>tr_hyst := n\<rparr>) tripsdata trips)"

text \<open>The three arrays are read into one buffer, which keeps the previous array when one is missing.\<close>

definition virtual_sensor_thermal_init_trips :: "device_node \<Rightarrow> trip_t list \<Rightarrow> trip_t list" where
  "virtual_sensor_thermal_init_trips np trips =
     (let data = parse_trips_array np ''temp'' (replicate THERMAL_MAX_TRIPS 0);
          trips = tripsdata_convert ''temp'' data trips;
          data = parse_trips_array np ''type'' data;
          trips = tripsdata_convert ''type'' data trips;
          data = parse_trips_array np ''hyst'' data
      in tripsdata_convert ''hyst'' data trips)"

definition parse_cdev_name :: "device_node \<Rightarrow> nat \<Rightarrow> string \<Rightarrow> string option" where
  "parse_cdev_name np i old =
     map_option c_str (virtual_sensor_thermal_parse_node_string_index np ''cdev_names'' i
       (old @ zero_buf (THERMAL_NAME_LENGTH - length old)))"

fun parse_cdev_names :: "device_node \<Rightarrow> nat \<Rightarrow> nat \<Rightarrow> string list \<Rightarrow> string list option" where
  "parse_cdev_names np i 0 cdevs = Some cdevs"
| "parse_cdev_names np i (Suc n) cdevs =
     (case parse_cdev_name np i (cdevs ! i) of None \<Rightarrow> None | Some nm \<Rightarrow> parse_cdev_names np (Suc i) n (cdevs[i := nm]))"

text \<open>The data of a zone from its device tree node; a device number that is not a zone is refused.\<close>

definition virtual_sensor_thermal_init_cust_data_from_dt :: "bool \<Rightarrow> device_node \<Rightarrow> vs_thermal_platform_data list
    \<Rightarrow> (int \<times> int \<times> vs_thermal_platform_data list) option" where
  "virtual_sensor_thermal_init_cust_data_from_dt alloc np zones =
     (let id' = thermal_parse_node_int np ''dev_id'' 0 in
      if u32w id' \<ge> int (length zones) then Some (-1, id', zones)
      else let p = zones ! nat id';
               p = p\<lparr>vp_num_trips := thermal_parse_node_int np ''num_trips'' (vp_num_trips p),
                     vp_mode := (if thermal_parse_node_int np ''mode'' (if vp_mode p = DEVICE_ENABLED then 1 else 0) = 0
                                 then DEVICE_DISABLED else DEVICE_ENABLED),
                     vp_polling_delay := thermal_parse_node_int np ''polling_delay'' (vp_polling_delay p),
                     vp_num_tbps := thermal_parse_node_int np ''num_tbps'' (vp_num_tbps p),
                     vp_trips := virtual_sensor_thermal_init_trips np (vp_trips p)\<rparr>;
               num = thermal_parse_node_int np ''num_cdevs'' (vp_num_cdevs p);
               num = (if num > int THERMAL_MAX_TRIPS then int THERMAL_MAX_TRIPS else num)
           in case virtual_sensor_thermal_parse_node_string_index np ''governor_name'' 0
                     (vp_governor_name p @ zero_buf (THERMAL_NAME_LENGTH - length (vp_governor_name p))) of None \<Rightarrow> None
              | Some gov \<Rightarrow>
                  (case parse_cdev_names np 0 (nat num) (vp_cdevs p) of None \<Rightarrow> None
                   | Some cdevs \<Rightarrow>
                       let p = p\<lparr>vp_governor_name := c_str gov, vp_num_cdevs := num, vp_cdevs := cdevs\<rparr>
                       in if alloc then Some (0, id', zones[nat id' := p\<lparr>vp_tbp := replicate (nat (vp_num_tbps p)) None\<rparr>])
                          else Some (- ENOMEM, id', zones[nat id' := p])))"

fun decimal :: "nat \<Rightarrow> string" where
  "decimal n = (if n < 10 then [char_of (48 + n)] else decimal (n div 10) @ [char_of (48 + n mod 10)])"

text \<open>Probe of a zone: the new zone, with the outcomes of the allocations and of its registration given.\<close>

definition virtual_sensor_thermal_probe :: "bool \<Rightarrow> bool \<Rightarrow> bool \<Rightarrow> device_node \<Rightarrow> vs_thermal_platform_data list
    \<Rightarrow> (int \<times> vs_zone option \<times> vs_thermal_platform_data list) option" where
  "virtual_sensor_thermal_probe alloc1 alloc2 registered np zones =
     (case virtual_sensor_thermal_init_cust_data_from_dt alloc1 np zones of None \<Rightarrow> None
      | Some (ret, id', zones) \<Rightarrow>
          if ret \<noteq> 0 then Some (ret, None, zones)
          else if \<not> alloc2 then Some (- ENOMEM, None, zones)
          else if \<not> registered then Some (- EINVAL, None, zones)
          else let p = zones ! nat id';
                   p = p\<lparr>vp_mode := (if vp_polling_delay p = 0 then DEVICE_DISABLED else DEVICE_ENABLED)\<rparr>
               in Some (0, Some \<lparr>z_type = ''virtual_sensor'' @ decimal (nat id' + 1), z_trips = vp_num_trips p,
                     z_polling_delay = vp_polling_delay p, z_query_count = 0, z_mask = UNTHROTTLE_TIME_MASK, z_pdata = p,
                     z_events = []\<rparr>, zones[nat id' := p]))"

text \<open>
  Start of the foreign object detection: \<open>allocs\<close> allocations succeed and the notifier registration
  returns \<open>ret\<close>. When a sample node cannot be allocated the error path walks the list of the global
  \<^verbatim>\<open>g_fod\<close>, which is still NULL (\<open>None\<close>).
\<close>

definition virtual_sensor_fod_init :: "nat \<Rightarrow> int \<Rightarrow> (int + fod_algo) option" where
  "virtual_sensor_fod_init allocs ret =
     (if allocs = 0 then Some (Inl (- ENOMEM))
      else if ret < 0 then Some (Inl ret)
      else if allocs - 1 < nat (NUM_OF_COLLECT - 1) then None
      else Some (Inr \<lparr>fo_work_delay = 0, fo_window_size = NUM_OF_COLLECT, fo_polling_interval = TASK_DURATION, fo_online = 0,
                fo_temp_cnt = 0, fo_ring = replicate (nat NUM_OF_COLLECT) 0, fo_cur = 0, fo_timer_start = (0, 0), fo_work_queued = 0\<rparr>))"

section \<open>Smoothing\<close>

definition sensor_ok :: "int \<Rightarrow> int \<Rightarrow> thermal_dev \<Rightarrow> bool" where
  "sensor_ok lo hi d \<longleftrightarrow> 0 \<le> td_alpha (tv_tdp d) \<and> td_alpha (tv_tdp d) \<le> 1000 \<and> 0 \<le> td_weight (tv_tdp d) \<and> td_weight (tv_tdp d) \<le> 1000 \<and>
     (tv_first_data_get d \<longrightarrow> lo \<le> tv_off_temp d \<and> tv_off_temp d \<le> hi)"

lemma mix_bounds:
  fixes a :: int
  assumes "0 \<le> a" "a \<le> 1000" "lo \<le> x" "x \<le> hi" "lo \<le> y" "y \<le> hi"
  shows "1000 * lo \<le> a * x + (1000 - a) * y" "a * x + (1000 - a) * y \<le> 1000 * hi"
proof -
  have "a * lo \<le> a * x" "a * x \<le> a * hi" "(1000 - a) * lo \<le> (1000 - a) * y" "(1000 - a) * y \<le> (1000 - a) * hi"
    using assms by (simp_all add: mult_left_mono)
  then show "1000 * lo \<le> a * x + (1000 - a) * y" "a * x + (1000 - a) * y \<le> 1000 * hi"
    by (simp_all add: left_diff_distrib)
qed

lemma mult_range:
  fixes a :: int
  assumes "0 \<le> a" "a \<le> 1000" "0 \<le> x" "x < 2147483648"
  shows "0 \<le> a * x" "a * x < 2147483648000"
proof -
  show "0 \<le> a * x" using assms by simp
  have "a * x \<le> 1000 * x" using assms by (simp add: mult_right_mono)
  then show "a * x < 2147483648000" using assms(4) by simp
qed

lemma s64_mult:
  assumes "0 \<le> a" "a \<le> 1000" "0 \<le> x" "x < 2147483648"
  shows "s64 (a * x) = a * x"
  using mult_range [OF assms] by (intro s64_id) linarith+

lemma smooth_ok:
  assumes "sensor_ok lo hi d" "0 \<le> lo" "hi < 2147483648" "lo \<le> t - td_offset (tv_tdp d)" "t - td_offset (tv_tdp d) \<le> hi"
  shows "sensor_ok lo hi (smooth False d t)" "tv_first_data_get (smooth False d t)"
proof -
  let ?a = "td_alpha (tv_tdp d)" and ?x = "t - td_offset (tv_tdp d)" and ?y = "tv_off_temp d"
  have a: "0 \<le> ?a" "?a \<le> 1000" using assms(1) by (simp_all add: sensor_ok_def)
  have x: "s64 ?x = ?x" using assms(2-5) by (simp add: s64_id)
  have "lo \<le> s64 (s64 (?a * ?x) + s64 (s32 (DMF - ?a) * ?y)) sdiv DMF \<and> s64 (s64 (?a * ?x) + s64 (s32 (DMF - ?a) * ?y)) sdiv DMF \<le> hi"
    if y: "lo \<le> ?y" "?y \<le> hi"
  proof -
    note m = mix_bounds [OF a assms(4,5) y]
    have e: "s32 (DMF - ?a) = 1000 - ?a" using a by (simp add: DMF_def s32_id)
    have f: "s64 (?a * ?x) = ?a * ?x" "s64 ((1000 - ?a) * ?y) = (1000 - ?a) * ?y"
      using a y assms(2-5) by (intro s64_mult; simp)+
    have g: "s64 (?a * ?x + (1000 - ?a) * ?y) = ?a * ?x + (1000 - ?a) * ?y"
      by (rule s64_id) (use m assms(2,3) in linarith)+
    have h: "(?a * ?x + (1000 - ?a) * ?y) sdiv DMF = (?a * ?x + (1000 - ?a) * ?y) div 1000"
      unfolding DMF_def by (rule sdiv_nonneg) (use m(1) assms(2) in linarith)+
    show ?thesis unfolding e f g h using m by linarith
  qed
  then show "sensor_ok lo hi (smooth False d t)" using assms(1,4,5) x by (auto simp: sensor_ok_def smooth_def Let_def)
  show "tv_first_data_get (smooth False d t)" by (simp add: smooth_def Let_def)
qed

lemma smooth_params [simp]: "tv_tdp (smooth fod d t) = tv_tdp d" "tv_name (smooth fod d t) = tv_name d"
  by (simp_all add: smooth_def Let_def)

lemma log_metrics_frame [simp]:
  "z_type (log_metrics l z e) = z_type z" "z_pdata (log_metrics l z e) = z_pdata z" "z_polling_delay (log_metrics l z e) = z_polling_delay z"
  by (simp_all add: log_metrics_def z_event_def)

lemma is_fod_zone_log [simp]: "is_fod_zone (log_metrics l z e) = is_fod_zone z"
  by (simp add: is_fod_zone_def)

text \<open>The readings of a sensor, whatever the state of the interface, lie in a range.\<close>

definition reads_in :: "vs_env \<Rightarrow> int \<Rightarrow> int \<Rightarrow> thermal_dev \<Rightarrow> bool" where
  "reads_in env lo hi d \<longleftrightarrow> (\<forall>s. \<exists>t s'. virtual_sensor_thermal_sensor_read_temp env s d = Some (t, s') \<and>
     lo \<le> t - td_offset (tv_tdp d) \<and> t - td_offset (tv_tdp d) \<le> hi)"

definition weights :: "thermal_dev list \<Rightarrow> int" where
  "weights ds = sum_list (map (\<lambda>d. td_weight (tv_tdp d)) ds)"

lemma weights_simps [simp]: "weights [] = 0" "weights (d # ds) = td_weight (tv_tdp d) + weights ds" "weights (xs @ ys) = weights xs + weights ys"
  by (simp_all add: weights_def)

lemma weights_cong:
  assumes "map tv_tdp xs = map tv_tdp ys"
  shows "weights xs = weights ys"
proof -
  have "weights zs = sum_list (map td_weight (map tv_tdp zs))" for zs by (simp add: weights_def o_def)
  then show ?thesis using assms by (simp only:)
qed

lemma weights_nonneg: "\<forall>d\<in>set ds. sensor_ok lo hi d \<Longrightarrow> 0 \<le> weights ds"
  by (induction ds) (auto simp: sensor_ok_def)

lemma weighted_term:
  assumes "sensor_ok lo hi d" "tv_first_data_get d" "0 \<le> lo" "hi < 2147483648"
  defines "k \<equiv> s64 (td_weight (tv_tdp d) * tv_off_temp d) sdiv DMF"
  shows "0 \<le> k" "k < 2147483648" "td_weight (tv_tdp d) * lo \<le> 1000 * k + 1000" "1000 * k \<le> td_weight (tv_tdp d) * hi"
proof -
  let ?w = "td_weight (tv_tdp d)" and ?o = "tv_off_temp d"
  have w: "0 \<le> ?w" "?w \<le> 1000" "lo \<le> ?o" "?o \<le> hi" using assms(1,2) by (simp_all add: sensor_ok_def)
  have r: "0 \<le> ?w * ?o" "?w * ?o < 2147483648000" using mult_range [of ?w ?o] w assms(3,4) by simp_all
  have k: "k = ?w * ?o div 1000" using r w assms(3,4) by (simp add: k_def s64_mult DMF_def sdiv_nonneg)
  have "?w * lo \<le> ?w * ?o" "?w * ?o \<le> ?w * hi" using w by (simp_all add: mult_left_mono)
  then show "0 \<le> k" "k < 2147483648" "?w * lo \<le> 1000 * k + 1000" "1000 * k \<le> ?w * hi" using k r by linarith+
qed

lemma sensor_loop_bounds:
  assumes "\<not> is_fod_zone z" "0 \<le> lo" "hi < 2147483648" "\<forall>d\<in>set ds. sensor_ok lo hi d \<and> reads_in env lo hi d"
    "\<forall>d\<in>set done. sensor_ok lo hi d \<and> tv_first_data_get d" "weights done + weights ds \<le> 1000"
    "0 \<le> tempv" "1000 * tempv \<le> weights done * hi" "weights done * lo \<le> 1000 * tempv + 1000 * int (length done)"
  shows "\<exists>t ds' s' z'. sensor_loop logger env now s z f tempv done ds = Some (t, ds', s', z', f) \<and>
     (\<forall>d\<in>set ds'. sensor_ok lo hi d \<and> tv_first_data_get d) \<and> map tv_tdp ds' = map tv_tdp (done @ ds) \<and> z_type z' = z_type z \<and>
     0 \<le> t \<and> 1000 * t \<le> (weights done + weights ds) * hi \<and>
     (weights done + weights ds) * lo \<le> 1000 * t + 1000 * int (length done + length ds)"
  using assms(1,4-)
proof (induction ds arbitrary: s z tempv "done")
  case Nil
  then show ?case by simp
next
  case (Cons d ds)
  obtain t s1 where r: "virtual_sensor_thermal_sensor_read_temp env s d = Some (t, s1)"
    "lo \<le> t - td_offset (tv_tdp d)" "t - td_offset (tv_tdp d) \<le> hi" using Cons.prems(2) unfolding reads_in_def by (metis list.set_intros(1))
  let ?d = "smooth False d t" and ?w = "td_weight (tv_tdp d)"
  have d: "sensor_ok lo hi ?d" "tv_first_data_get ?d" using smooth_ok [OF _ assms(2,3) r(2,3)] Cons.prems(2) by auto
  let ?k = "s64 (?w * tv_off_temp ?d) sdiv DMF"
  have k: "0 \<le> ?k" "?k < 2147483648" "?w * lo \<le> 1000 * ?k + 1000" "1000 * ?k \<le> ?w * hi"
    using weighted_term [OF d assms(2,3)] by simp_all
  have "0 \<le> weights done" using weights_nonneg [of "done" lo hi] Cons.prems(3) by blast
  moreover have "0 \<le> hi" using r(2,3) assms(2) by linarith
  moreover have "weights done \<le> 1000" using Cons.prems(4) weights_nonneg [of "d # ds" lo hi] Cons.prems(2) by auto
  ultimately have "weights done * hi \<le> 1000 * hi" by (simp add: mult_right_mono)
  then have "tempv < 2147483648" using Cons.prems(6) assms(3) by linarith
  then have sum: "s64 (tempv + ?k) = tempv + ?k" using k(1,2) Cons.prems(5) by (simp add: s64_id)
  let ?z = "log_metrics logger (log_metrics logger z (LogMetrics (z_type z @ ''_'' @ tv_name d @ ''_temp'') t))
          (LogVitals (z_type z @ ''_'' @ tv_name d @ ''_temp'') t)"
  have step: "sensor_loop logger env now s z f tempv done (d # ds) = sensor_loop logger env now s1 ?z f (tempv + ?k) (done @ [?d]) ds"
    using r(1) Cons.prems(1) sum by (simp add: Let_def)
  have "weights (done @ [?d]) * lo \<le> 1000 * (tempv + ?k) + 1000 * int (length (done @ [?d]))"
    "1000 * (tempv + ?k) \<le> weights (done @ [?d]) * hi" "0 \<le> tempv + ?k"
    using k Cons.prems(5-7) by (simp_all add: distrib_right)
  moreover have "weights (done @ [?d]) + weights ds \<le> 1000" using Cons.prems(4) by simp
  moreover have "\<forall>d\<in>set (done @ [?d]). sensor_ok lo hi d \<and> tv_first_data_get d" using d Cons.prems(3) by auto
  ultimately show ?case unfolding step
    using Cons.IH [of ?z "done @ [?d]" "tempv + ?k" s1] Cons.prems(1,2) by (simp add: add.assoc)
qed

section \<open>The window of samples\<close>

text \<open>Feeding a list of readings, each with its time, at a fixed polling delay: the rates returned.\<close>

fun fod_feed :: "fod_algo \<Rightarrow> int \<Rightarrow> ((int \<times> int) \<times> int) list \<Rightarrow> (int list \<times> fod_algo) option" where
  "fod_feed f delay [] = Some ([], f)"
| "fod_feed f delay ((now, x) # xs) =
     (case calculate_raising_rate f now x delay of None \<Rightarrow> None
      | Some (r, f) \<Rightarrow> (case fod_feed f delay xs of None \<Rightarrow> None | Some (rs, f) \<Rightarrow> Some (r # rs, f)))"

definition window_rate :: "int \<Rightarrow> int \<Rightarrow> int list \<Rightarrow> nat \<Rightarrow> int" where
  "window_rate delay w xs k =
     (if k < nat w then 0 else s32 (s32 (xs ! k - xs ! (k - nat (w - 1))) * 60) sdiv s32 (u32w (delay * (w - 1)) div DMF))"

text \<open>
  The ring after the samples \<open>xs\<close> of a run that started at position \<open>c0\<close>: the most recent ones are
  found walking back from the current position.
\<close>

definition fod_ring_ok :: "nat \<Rightarrow> int list \<Rightarrow> fod_algo \<Rightarrow> bool" where
  "fod_ring_ok c0 xs f \<longleftrightarrow>
     fo_window_size f = int (length (fo_ring f)) \<and> 2 \<le> length (fo_ring f) \<and> length (fo_ring f) < 2147483648 \<and>
     fo_cur f = (c0 + length xs) mod length (fo_ring f) \<and>
     fo_temp_cnt f = int (min (length xs) (length (fo_ring f))) \<and>
     (\<forall>j < length xs. length xs \<le> j + length (fo_ring f) \<longrightarrow> fo_ring f ! ((c0 + j) mod length (fo_ring f)) = xs ! j)"

lemma mod_eq_iff_close:
  fixes i j w :: nat
  assumes "i < j" "j < i + w"
  shows "i mod w \<noteq> j mod w"
proof
  assume "i mod w = j mod w"
  then have "w dvd j - i" using assms(1) by (metis mod_eq_dvd_iff_nat less_imp_le)
  then show False using assms by (auto dest: dvd_imp_le)
qed

lemma calculate_raising_rate_step:
  assumes ok: "fod_ring_ok c0 xs f" and delay: "delay \<noteq> 0" "s32 (u32w (delay * (fo_window_size f - 1)) div DMF) \<noteq> 0"
    and started: "xs = [] \<longrightarrow> fst (fo_timer_start f) \<noteq> 0 \<and> snd (fo_timer_start f) \<noteq> 0 \<and> fo_work_delay f = 0"
  shows "\<exists>f'. calculate_raising_rate f now x delay = Some (window_rate delay (fo_window_size f) (xs @ [x]) (length xs), f') \<and>
     fod_ring_ok c0 (xs @ [x]) f' \<and> fo_window_size f' = fo_window_size f"
proof -
  let ?w = "length (fo_ring f)" and ?n = "length xs"
  let ?ring = "(fo_ring f)[fo_cur f := x]"
  have w: "fo_window_size f = int ?w" "2 \<le> ?w" "?w < 2147483648" "fo_cur f = (c0 + ?n) mod ?w"
    "fo_temp_cnt f = int (min ?n ?w)" and hist: "\<And>j. j < ?n \<Longrightarrow> ?n \<le> j + ?w \<Longrightarrow> fo_ring f ! ((c0 + j) mod ?w) = xs ! j"
    using ok by (auto simp: fod_ring_ok_def)
  have "0 < ?w" using w(2) by linarith
  then have cur: "fo_cur f < ?w" using w(4) by simp
  have hist': "?ring ! ((c0 + j) mod ?w) = (xs @ [x]) ! j" if "j < Suc ?n" "Suc ?n \<le> j + ?w" for j
  proof (cases "j = ?n")
    case True
    then show ?thesis using w(4) cur by simp
  next
    case False
    then have "(c0 + j) mod ?w \<noteq> fo_cur f" using that w(4) mod_eq_iff_close [of "c0 + j" "c0 + ?n" ?w] by simp
    then show ?thesis using hist [of j] that False by (simp add: nth_append)
  qed
  have start: "calculate_raising_rate f now x delay
     = (let f = f\<lparr>fo_ring := ?ring\<rparr> in
        if fo_temp_cnt f \<le> u32w (fo_window_size f - 1)
        then Some (0, f\<lparr>fo_cur := ring_next f, fo_temp_cnt := u32w (fo_temp_cnt f + 1)\<rparr>)
        else let f = f\<lparr>fo_cur := ring_next f\<rparr>;
                 temp_first = fo_ring f ! fo_cur f;
                 period = s32 (u32w (delay * (fo_window_size f - 1)) div DMF)
             in if period = 0 then None else Some (s32 (s32 (x - temp_first) * 60) sdiv period, f))"
  proof -
    have "fo_temp_cnt f = 0 \<longleftrightarrow> xs = []" using w(2,5) by (auto simp: min_def)
    then have "\<not> (fo_temp_cnt f = 0 \<and> (fst (fo_timer_start f) = 0 \<or> snd (fo_timer_start f) = 0))"
      "\<not> (fo_temp_cnt f = 0 \<and> u32w (s32 (fst now - fst (fo_timer_start f))) < fo_work_delay f)"
      using started by (auto simp: u32w_def not_less)
    then show ?thesis using delay(1) cur unfolding calculate_raising_rate_def by (simp only: if_False not_le [symmetric] simp_thms)
  qed
  have wrap: "u32w (fo_window_size f - 1) = int ?w - 1" unfolding w(1) by (rule u32w_id) (use w(2,3) in linarith)+
  have nxt: "ring_next (f\<lparr>fo_ring := ?ring\<rparr>) = (c0 + Suc ?n) mod ?w" using w(4) by (simp add: ring_next_def mod_Suc_eq)
  show ?thesis
  proof (cases "?n < ?w")
    case True
    let ?f = "f\<lparr>fo_ring := ?ring, fo_cur := (c0 + Suc ?n) mod ?w, fo_temp_cnt := int (Suc ?n)\<rparr>"
    have "calculate_raising_rate f now x delay = Some (0, ?f)"
      using True w nxt wrap by (simp add: start Let_def u32w_id)
    moreover have "fod_ring_ok c0 (xs @ [x]) ?f" using hist' w True by (simp add: fod_ring_ok_def)
    ultimately show ?thesis using True w(1) by (intro exI [of _ ?f]) (simp add: window_rate_def)
  next
    case False
    let ?f = "f\<lparr>fo_ring := ?ring, fo_cur := (c0 + Suc ?n) mod ?w\<rparr>"
    have "(c0 + Suc ?n) mod ?w = (c0 + (Suc ?n - ?w)) mod ?w" using False by (metis add_diff_assoc le_SucI mod_add_self2 not_less diff_add_inverse2 le_add_diff_inverse2 add.assoc)
    then have first: "?ring ! ((c0 + Suc ?n) mod ?w) = (xs @ [x]) ! (Suc ?n - ?w)" using hist' [of "Suc ?n - ?w"] False w(2) by simp
    have idx: "Suc ?n - ?w = ?n - nat (fo_window_size f - 1)" using w(1,2) False by (simp add: nat_diff_distrib)
    have "calculate_raising_rate f now x delay
        = Some (s32 (s32 (x - (xs @ [x]) ! (?n - nat (fo_window_size f - 1))) * 60) sdiv s32 (u32w (delay * (fo_window_size f - 1)) div DMF), ?f)"
      using False w nxt wrap delay(2) first idx by (simp add: start Let_def)
    moreover have "fod_ring_ok c0 (xs @ [x]) ?f" using hist' w False by (simp add: fod_ring_ok_def)
    ultimately show ?thesis using False w(1) by (intro exI [of _ ?f]) (simp add: window_rate_def)
  qed
qed

section \<open>Correctness of the zone\<close>


definition zone_example :: vs_zone where
  "zone_example = \<lparr>z_type = ''virtual_sensor1'', z_trips = 2, z_polling_delay = 3000, z_query_count = 0, z_mask = 0x3FF,
     z_pdata = vs_empty_pdata\<lparr>vp_ts_list :=
       [\<lparr>tv_name = ''ntc'', tv_tdp = \<lparr>td_offset = 1000, td_alpha = 200, td_weight = 600, td_select_device = 0, td_sensor_id = 5,
           td_aux_channel = 0\<rparr>, tv_off_temp = 0, tv_first_data_get = False\<rparr>,
        \<lparr>tv_name = ''pmic'', tv_tdp = \<lparr>td_offset = 0, td_alpha = 500, td_weight = 400, td_select_device = 0, td_sensor_id = 3,
           td_aux_channel = 0\<rparr>, tv_off_temp = 31000, tv_first_data_get = True\<rparr>]\<rparr>, z_events = []\<rparr>"

definition env_example :: vs_env where
  "env_example = \<lparr>psy_found = (\<lambda>_. True), psy_get = (\<lambda>_ _. (0, 0)), psy_set = (\<lambda>_ _ _. 0), pmic_temp = (\<lambda>_. 32000),
     gadc_temp = (\<lambda>_. 35000), cpu_policy = (\<lambda>_. None), kzalloc_ok = True, qos_add = 0\<rparr>"

definition fod_example :: fod_algo where
  "fod_example = \<lparr>fo_work_delay = 0, fo_window_size = 5, fo_polling_interval = 2000, fo_online = 1, fo_temp_cnt = 0,
     fo_ring = [0, 0, 0, 0, 0], fo_cur = 1, fo_timer_start = (100, 7), fo_work_queued = 0\<rparr>"


text \<open>The whole run of samples from the start of a charging session.\<close>

lemma fod_feed_rates:
  assumes "fod_ring_ok c0 xs f" "delay \<noteq> 0" "s32 (u32w (delay * (fo_window_size f - 1)) div DMF) \<noteq> 0"
    "xs = [] \<longrightarrow> fst (fo_timer_start f) \<noteq> 0 \<and> snd (fo_timer_start f) \<noteq> 0 \<and> fo_work_delay f = 0"
  shows "\<exists>f'. fod_feed f delay ys
    = Some (map (window_rate delay (fo_window_size f) (xs @ map snd ys)) [length xs..<length xs + length ys], f')"
  using assms
proof (induction ys arbitrary: xs f)
  case Nil
  then show ?case by simp
next
  case (Cons y ys)
  obtain now x where y: "y = (now, x)" by (cases y)
  from calculate_raising_rate_step [OF Cons.prems, of now x] obtain f1
    where f1: "calculate_raising_rate f now x delay = Some (window_rate delay (fo_window_size f) (xs @ [x]) (length xs), f1)"
      "fod_ring_ok c0 (xs @ [x]) f1" "fo_window_size f1 = fo_window_size f" by blast
  from Cons.IH [OF f1(2) Cons.prems(2)] f1(3) Cons.prems(3) obtain f'
    where "fod_feed f1 delay ys = Some (map (window_rate delay (fo_window_size f) (xs @ x # map snd ys)) [Suc (length xs)..<Suc (length xs + length ys)], f')"
    by auto
  moreover have "window_rate delay (fo_window_size f) (xs @ [x]) (length xs) = window_rate delay (fo_window_size f) (xs @ x # map snd ys) (length xs)"
    by (simp add: window_rate_def nth_append)
  moreover have "[length xs..<length xs + length (y # ys)] = length xs # [Suc (length xs)..<Suc (length xs + length ys)]"
    using upt_conv_Cons [of "length xs" "Suc (length xs + length ys)"] by (simp only: list.size add_Suc_right) simp
  ultimately show ?case using y f1(1) by simp
qed

text \<open>The heating rate. From the start of a charging session the wireless zone reports no rate for
  the first samples that fill the window; from then on each sample gives the difference between it
  and the sample a whole window before, scaled to degrees per minute, with no fault, for any number
  of samples and whatever the ring held before.\<close>

theorem fod_rate_over_window:
  assumes "fo_window_size f = int (length (fo_ring f))" "2 \<le> length (fo_ring f)" "length (fo_ring f) < 2147483648"
    "fo_cur f < length (fo_ring f)" "fo_temp_cnt f = 0" "fst (fo_timer_start f) \<noteq> 0" "snd (fo_timer_start f) \<noteq> 0"
    "fo_work_delay f = 0" "delay \<noteq> 0" "s32 (u32w (delay * (fo_window_size f - 1)) div DMF) \<noteq> 0"
  shows "\<exists>f'. fod_feed f delay ys = Some (map (window_rate delay (fo_window_size f) (map snd ys)) [0..<length ys], f')"
proof -
  have "fod_ring_ok (fo_cur f) [] f" using assms(1-5) by (simp add: fod_ring_ok_def)
  from fod_feed_rates [OF this assms(9,10), of ys] assms(6-8) show ?thesis by simp
qed

theorem fod_rate_over_window_witness:
  "\<exists>f'. fod_feed fod_example 2000 (map (\<lambda>x. ((101, 0), x)) [30000, 30100, 30200, 30300, 30400, 30600, 30900])
     = Some ([0, 0, 0, 0, 0, 3750, 5250], f')"
  using fod_rate_over_window [of fod_example 2000 "map (\<lambda>x. ((101, 0), x)) [30000, 30100, 30200, 30300, 30400, 30600, 30900]"]
  by (simp add: fod_example_def u32w_def s32_def DMF_def window_rate_def upt_rec)

text \<open>A polling delay so short that the window spans less than a second (a delay of 249 ms or less
  with the default window) makes the rate computation divide by zero as soon as the window is full.\<close>

theorem short_polling_divides_by_zero:
  assumes "fo_window_size f = int (length (fo_ring f))" "2 \<le> length (fo_ring f)" "length (fo_ring f) < 2147483648"
    "fo_cur f < length (fo_ring f)" "fo_temp_cnt f = fo_window_size f" "0 < delay" "delay * (fo_window_size f - 1) < 1000"
  shows "calculate_raising_rate f now x delay = None"
proof -
  have pos: "0 \<le> delay * (fo_window_size f - 1)" using assms(1,2,6) by (intro mult_nonneg_nonneg) linarith+
  have "u32w (delay * (fo_window_size f - 1)) = delay * (fo_window_size f - 1)" "u32w (fo_window_size f - 1) = fo_window_size f - 1"
  proof -
    show "u32w (delay * (fo_window_size f - 1)) = delay * (fo_window_size f - 1)" using pos assms(7) by (intro u32w_id) linarith+
    show "u32w (fo_window_size f - 1) = fo_window_size f - 1" by (rule u32w_id) (use assms(1-3) in linarith)+
  qed
  then have "s32 (u32w (delay * (fo_window_size f - 1)) div DMF) = 0"
    using pos assms(7) by (simp add: DMF_def s32_id)
  moreover have "fo_temp_cnt f \<noteq> 0" "\<not> fo_temp_cnt f \<le> u32w (fo_window_size f - 1)"
    using assms(1,2,5) \<open>u32w (fo_window_size f - 1) = _\<close> by auto
  ultimately show ?thesis using assms(4,6) by (simp add: calculate_raising_rate_def Let_def)
qed

theorem short_polling_divides_by_zero_witness:
  "calculate_raising_rate (fod_example\<lparr>fo_temp_cnt := 5\<rparr>) (101, 0) 30000 249 = None"
  by (rule short_polling_divides_by_zero) (simp_all add: fod_example_def)

end
