(* ===== verification/Vs_Gov.thy ===== *)
theory Vs_Gov
  imports Vs_Zone
begin

text \<open>
  The governor of the virtual-sensor zones, \<^verbatim>\<open>virtual_sensor_gov.c\<close>, with the part of the thermal core
  it calls, \<^verbatim>\<open>thermal_cdev_update\<close> of \<^verbatim>\<open>drivers/thermal/thermal_helpers.c\<close>. The cooling devices are
  abstract: any driver that implements \<open>cooling_device\<close>. Thermal instances (bindings of a device to a
  trip point of the zone) are numbered; the zone's and each device's list of instances are lists of
  numbers. The theory shows which state the governor drives a device to, and three ways in which it
  goes wrong.
\<close>

section \<open>Data\<close>

record thermal_instance =
  ti_cdev :: nat
  ti_trip :: int
  ti_target :: "nat option" \<comment> \<open>\<open>None\<close> for \<^verbatim>\<open>THERMAL_NO_TARGET\<close>\<close>

record 's gov =
  g_insts :: "nat \<Rightarrow> thermal_instance"
  g_tz_list :: "nat list"
  g_cdev_list :: "nat \<Rightarrow> nat list"
  g_updated :: "nat \<Rightarrow> bool"
  g_cool :: 's
  g_uevents :: "(nat \<times> nat) list" \<comment> \<open>device and thermal state\<close>

record 's cooling_ops =
  co_max :: "'s \<Rightarrow> nat \<Rightarrow> nat"
  co_cur :: "'s \<Rightarrow> nat \<Rightarrow> nat"
  co_set :: "'s \<Rightarrow> nat \<Rightarrow> nat \<Rightarrow> 's option"

section \<open>The thermal core\<close>

definition deepest :: "(nat \<Rightarrow> thermal_instance) \<Rightarrow> nat list \<Rightarrow> nat" where
  "deepest insts is = foldl (\<lambda>t i. case ti_target (insts i) of None \<Rightarrow> t | Some n \<Rightarrow> if n > t then n else t) 0 is"

definition thermal_cdev_update :: "'s cooling_ops \<Rightarrow> 's gov \<Rightarrow> nat \<Rightarrow> 's gov option" where
  "thermal_cdev_update ops g cdev =
     (if g_updated g cdev then Some g
      else case co_set ops (g_cool g) cdev (deepest (g_insts g) (g_cdev_list g cdev)) of None \<Rightarrow> None
           | Some s \<Rightarrow> Some (g\<lparr>g_cool := s, g_updated := (g_updated g)(cdev := True)\<rparr>))"

section \<open>The governor\<close>

text \<open>
  The loop over the instances of a device: every one within the zone's trips gives up its target, and
  the last one whose trip temperature is reached determines the target.
\<close>

fun instance_loop :: "vs_zone \<Rightarrow> int \<Rightarrow> nat \<Rightarrow> (nat \<Rightarrow> thermal_instance) \<Rightarrow> nat list \<Rightarrow> (nat \<times> (nat \<Rightarrow> thermal_instance)) option" where
  "instance_loop z temperature target insts [] = Some (target, insts)"
| "instance_loop z temperature target insts (i # is) =
     (if ti_trip (insts i) \<ge> z_trips z then instance_loop z temperature target insts is
      else case virtual_sensor_thermal_get_trip_temp z (ti_trip (insts i)) of None \<Rightarrow> None
           | Some trip_temp \<Rightarrow>
               instance_loop z temperature (if temperature \<ge> trip_temp then nat (ti_trip (insts i) + 1) else target)
                 (insts(i := (insts i)\<lparr>ti_target := None\<rparr>)) is)"

text \<open>The release test: the temperature against the trip less its hysteresis, as unsigned longs.\<close>

definition release_ok :: "vs_zone \<Rightarrow> int \<Rightarrow> nat \<Rightarrow> bool option" where
  "release_ok z temperature cur =
     (case (virtual_sensor_thermal_get_trip_temp z (int cur - 1), trip_at z (int cur - 1)) of
        (Some trip_temp, Some t) \<Rightarrow> Some (u64w temperature \<le> u64w (trip_temp - tr_hyst t))
      | _ \<Rightarrow> None)"

text \<open>The decision for a device in state \<open>cur\<close>: raise at once, release only past the hysteresis, else stay.\<close>

definition choose_target :: "vs_zone \<Rightarrow> int \<Rightarrow> nat \<Rightarrow> nat \<Rightarrow> nat \<Rightarrow> nat \<Rightarrow> 's gov \<Rightarrow> (nat \<times> 's gov) option" where
  "choose_target z temperature i cdev cur target g =
     (let aim = g\<lparr>g_insts := (g_insts g)(i := (g_insts g i)\<lparr>ti_target := Some target\<rparr>), g_updated := (g_updated g)(cdev := False)\<rparr>
      in if cur < target then Some (target, aim)
         else if cur > target
         then (case release_ok z temperature cur of None \<Rightarrow> None | Some release \<Rightarrow> Some (if release then (target, aim) else (cur, g)))
         else Some (target, g))"

text \<open>A changed state is passed to the core and announced; the trip temperature is read for the log.\<close>

definition apply_target :: "'s cooling_ops \<Rightarrow> vs_zone \<Rightarrow> nat \<Rightarrow> nat \<Rightarrow> nat \<Rightarrow> 's gov \<Rightarrow> (nat \<times> 's gov) option" where
  "apply_target ops z cdev cur target g =
     (if cur \<noteq> target
      then case (thermal_cdev_update ops g cdev, virtual_sensor_thermal_get_trip_temp z (if target \<noteq> 0 then int target - 1 else 0)) of
             (Some g, Some _) \<Rightarrow> Some (target, g\<lparr>g_uevents := g_uevents g @ [(cdev, target)]\<rparr>)
           | _ \<Rightarrow> None
      else Some (target, g))"

text \<open>One instance of the zone: the target carried on, and the new state.\<close>

definition throttle_instance :: "'s cooling_ops \<Rightarrow> vs_zone \<Rightarrow> int \<Rightarrow> nat \<Rightarrow> 's gov \<Rightarrow> nat \<Rightarrow> (nat \<times> 's gov) option" where
  "throttle_instance ops z temperature target g i =
     (if ti_trip (g_insts g i) \<noteq> 0 then Some (target, g)
      else
        let cdev = ti_cdev (g_insts g i); max_state = co_max ops (g_cool g) cdev
        in case instance_loop z temperature target (g_insts g) (g_cdev_list g cdev) of None \<Rightarrow> None
           | Some (target, insts) \<Rightarrow>
               let g = g\<lparr>g_insts := insts\<rparr>;
                   target = (if target > max_state then max_state else target);
                   cur_state = co_cur ops (g_cool g) cdev
               in case choose_target z temperature i cdev cur_state target g of None \<Rightarrow> None
                  | Some (target, g) \<Rightarrow> apply_target ops z cdev cur_state target g)"

fun throttle_loop :: "'s cooling_ops \<Rightarrow> vs_zone \<Rightarrow> int \<Rightarrow> nat \<Rightarrow> 's gov \<Rightarrow> nat list \<Rightarrow> 's gov option" where
  "throttle_loop ops z temperature target g [] = Some g"
| "throttle_loop ops z temperature target g (i # is) =
     (case throttle_instance ops z temperature target g i of None \<Rightarrow> None
      | Some (target, g) \<Rightarrow> throttle_loop ops z temperature target g is)"

text \<open>
  The pass for the zone \<open>tz\<close>, \<open>None\<close> when the device, its data or its platform data is NULL. It runs for
  the first trip point only, and \<open>target\<close> is 0 once, before the loop.
\<close>

definition virtual_sensor_throttle :: "'s cooling_ops \<Rightarrow> vs_zone option \<Rightarrow> int \<Rightarrow> 's gov \<Rightarrow> int \<Rightarrow> (int \<times> 's gov) option" where
  "virtual_sensor_throttle ops tz temperature g trip =
     (case tz of None \<Rightarrow> Some (- EINVAL, g)
      | Some z \<Rightarrow>
          if trip \<noteq> 0 then Some (0, g)
          else map_option (Pair 0) (throttle_loop ops z temperature 0 g (g_tz_list g)))"

section \<open>The intended behaviour\<close>

text \<open>The state the temperature asks for: one more than the highest trip point it has reached.\<close>

fun hot_level :: "vs_zone \<Rightarrow> int \<Rightarrow> nat \<Rightarrow> nat" where
  "hot_level z temperature 0 = 0"
| "hot_level z temperature (Suc k) =
     (if temperature \<ge> s32 (tr_temp (vp_trips (z_pdata z) ! k)) then Suc k else hot_level z temperature k)"

definition next_state :: "vs_zone \<Rightarrow> int \<Rightarrow> nat \<Rightarrow> nat \<Rightarrow> nat \<Rightarrow> nat" where
  "next_state z temperature n max_state cur =
     (let want = min (hot_level z temperature n) max_state; t = vp_trips (z_pdata z) ! (cur - 1)
      in if cur < want then want
         else if want < cur \<and> u64w temperature \<le> u64w (s32 (tr_temp t) - tr_hyst t) then want else cur)"

lemma hot_level_le: "hot_level z t n \<le> n"
  by (induction n) auto

text \<open>A device bound to the first \<open>n\<close> trip points in order, by the instances \<open>js\<close>.\<close>

definition bound_in_order :: "vs_zone \<Rightarrow> 's gov \<Rightarrow> nat \<Rightarrow> nat list \<Rightarrow> bool" where
  "bound_in_order z g cdev js \<longleftrightarrow> g_cdev_list g cdev = js \<and> distinct js \<and> js \<noteq> [] \<and>
     (\<forall>k < length js. ti_trip (g_insts g (js ! k)) = int k) \<and>
     int (length js) \<le> z_trips z \<and> length js \<le> length (vp_trips (z_pdata z))"

lemma get_trip_temp_at: "k < length (vp_trips (z_pdata z)) \<Longrightarrow>
    virtual_sensor_thermal_get_trip_temp z (int k) = Some (s32 (tr_temp (vp_trips (z_pdata z) ! k)))"
  by (simp add: virtual_sensor_thermal_get_trip_temp_def trip_at_def)

definition drop_targets :: "nat list \<Rightarrow> (nat \<Rightarrow> thermal_instance) \<Rightarrow> nat \<Rightarrow> thermal_instance" where
  "drop_targets js insts = (\<lambda>i. if i \<in> set js then (insts i)\<lparr>ti_target := None\<rparr> else insts i)"

lemma instance_loop_snoc:
  "instance_loop z t target insts (xs @ ys) =
     (case instance_loop z t target insts xs of None \<Rightarrow> None | Some (target, insts) \<Rightarrow> instance_loop z t target insts ys)"
  by (induction xs arbitrary: target insts) (simp_all split: option.splits)

lemma instance_loop_in_order:
  assumes "distinct js" "\<forall>k < length js. ti_trip (insts (js ! k)) = int k" "int (length js) \<le> z_trips z"
    "length js \<le> length (vp_trips (z_pdata z))"
  shows "instance_loop z t target insts js
    = Some (if hot_level z t (length js) = 0 then target else hot_level z t (length js), drop_targets js insts)"
  using assms
proof (induction js rule: rev_induct)
  case Nil
  then show ?case by (simp add: drop_targets_def)
next
  case (snoc j js)
  have ih: "instance_loop z t target insts js
    = Some (if hot_level z t (length js) = 0 then target else hot_level z t (length js), drop_targets js insts)"
  proof (rule snoc.IH)
    show "\<forall>k < length js. ti_trip (insts (js ! k)) = int k"
    proof (intro allI impI)
      fix k assume "k < length js"
      then show "ti_trip (insts (js ! k)) = int k" using spec [OF snoc.prems(2), of k] by (simp add: nth_append)
    qed
  qed (use snoc.prems in auto)
  have "ti_trip (insts j) = int (length js)" using spec [OF snoc.prems(2), of "length js"] by (simp add: nth_append)
  moreover have "drop_targets js insts j = insts j" using snoc.prems(1) by (simp add: drop_targets_def)
  moreover have "(drop_targets js insts)(j := (insts j)\<lparr>ti_target := None\<rparr>) = drop_targets (js @ [j]) insts"
    by (rule ext) (auto simp: drop_targets_def)
  ultimately show ?case using snoc.prems(3,4) ih get_trip_temp_at [of "length js" z]
    by (simp add: instance_loop_snoc nat_add_distrib)
qed

lemma deepest_single:
  assumes "i \<in> set js" "distinct js"
  shows "deepest ((drop_targets js insts)(i := (insts i)\<lparr>ti_target := Some n\<rparr>)) js = n"
proof -
  let ?f = "(drop_targets js insts)(i := (insts i)\<lparr>ti_target := Some n\<rparr>)"
  let ?step = "\<lambda>t i. case ti_target (?f i) of None \<Rightarrow> t | Some n \<Rightarrow> if n > t then n else t"
  have keep: "foldl ?step t ks = t" if "set ks \<subseteq> set js" "i \<notin> set ks" for t ks
    using that by (induction ks arbitrary: t) (auto simp: drop_targets_def)
  obtain xs ys where js: "js = xs @ i # ys" using assms(1) by (meson split_list)
  have "foldl ?step 0 xs = 0" "\<And>t. foldl ?step t ys = t" using assms(2) js by (intro keep; auto)+
  then show ?thesis unfolding deepest_def by (subst (2) js) simp
qed

section \<open>What the governor does to one device\<close>

text \<open>With a target carried over from the device before (0 for the first one).\<close>

definition carried_state :: "vs_zone \<Rightarrow> int \<Rightarrow> nat \<Rightarrow> nat \<Rightarrow> nat \<Rightarrow> nat \<Rightarrow> nat" where
  "carried_state z temperature target n max_state cur =
     (let want = min (if hot_level z temperature n = 0 then target else hot_level z temperature n) max_state;
          t = vp_trips (z_pdata z) ! (cur - 1)
      in if cur < want then want
         else if want < cur \<and> u64w temperature \<le> u64w (s32 (tr_temp t) - tr_hyst t) then want else cur)"

lemma carried_state_0: "carried_state z temperature 0 n max_state cur = next_state z temperature n max_state cur"
  by (simp add: carried_state_def next_state_def Let_def)

lemma release_ok_at:
  "0 < cur \<Longrightarrow> cur \<le> length (vp_trips (z_pdata z)) \<Longrightarrow>
    release_ok z temperature cur = Some (u64w temperature \<le> u64w (s32 (tr_temp (vp_trips (z_pdata z) ! (cur - 1))) - tr_hyst (vp_trips (z_pdata z) ! (cur - 1))))"
  by (cases cur) (auto simp: release_ok_def virtual_sensor_thermal_get_trip_temp_def trip_at_def)

definition same_bindings :: "'s gov \<Rightarrow> 's gov \<Rightarrow> nat list \<Rightarrow> bool" where
  "same_bindings g g' js \<longleftrightarrow> g_tz_list g' = g_tz_list g \<and> g_cdev_list g' = g_cdev_list g \<and>
     (\<forall>i. ti_trip (g_insts g' i) = ti_trip (g_insts g i) \<and> ti_cdev (g_insts g' i) = ti_cdev (g_insts g i)) \<and>
     (\<forall>i. i \<notin> set js \<longrightarrow> g_insts g' i = g_insts g i)"

lemma drop_targets_frame [simp]:
  "ti_trip (drop_targets js f i) = ti_trip (f i)" "ti_cdev (drop_targets js f i) = ti_cdev (f i)" "i \<notin> set js \<Longrightarrow> drop_targets js f i = f i"
  by (simp_all add: drop_targets_def)

context cooling_device
begin

lemma throttle_instance_state:
  fixes g :: "'s gov" and temperature :: int and target :: nat
  assumes ok: "ok (g_cool g)" "cdev \<in> devs" and i: "ti_trip (g_insts g i) = 0" "ti_cdev (g_insts g i) = cdev" "i \<in> set js"
    and b: "bound_in_order z g cdev js" and m: "get_max_state (g_cool g) cdev \<le> length (vp_trips (z_pdata z))"
  defines "new \<equiv> carried_state z temperature target (length js) (get_max_state (g_cool g) cdev) (get_cur_state (g_cool g) cdev)"
  shows "\<exists>g'. throttle_instance \<lparr>co_max = get_max_state, co_cur = get_cur_state, co_set = set_cur_state\<rparr> z temperature target g i = Some (new, g') \<and>
     ok (g_cool g') \<and> (\<forall>e. get_max_state (g_cool g') e = get_max_state (g_cool g) e) \<and>
     (\<forall>e. get_cur_state (g_cool g') e = (if e = cdev then new else get_cur_state (g_cool g) e)) \<and> same_bindings g g' js"
proof -
  let ?ops = "\<lparr>co_max = get_max_state, co_cur = get_cur_state, co_set = set_cur_state\<rparr>"
  let ?max = "get_max_state (g_cool g) cdev" and ?cur = "get_cur_state (g_cool g) cdev" and ?h = "hot_level z temperature (length js)"
  define h0 where "h0 = (if ?h = 0 then target else ?h)"
  define want where "want = min h0 ?max"
  have js: "g_cdev_list g cdev = js" "distinct js" "js \<noteq> []" "int (length js) \<le> z_trips z" "length js \<le> length (vp_trips (z_pdata z))"
    "\<forall>k < length js. ti_trip (g_insts g (js ! k)) = int k" using b by (simp_all add: bound_in_order_def)
  have il: "instance_loop z temperature target (g_insts g) (g_cdev_list g cdev)
      = Some (h0, drop_targets js (g_insts g))"
    using instance_loop_in_order [OF js(2,6,4,5)] js(1) by (simp add: h0_def)
  have cur: "?cur \<le> length (vp_trips (z_pdata z))" using cur_le_max [OF ok] m by simp
  have tt: "\<exists>v. virtual_sensor_thermal_get_trip_temp z (if n \<noteq> 0 then int n - 1 else 0) = Some v" if "n \<le> ?max" for n
  proof -
    have "0 < length (vp_trips (z_pdata z))" using js(3,5) by (cases js) auto
    then show ?thesis using that m by (cases n) (auto simp: virtual_sensor_thermal_get_trip_temp_def trip_at_def)
  qed
  let ?g = "g\<lparr>g_insts := drop_targets js (g_insts g)\<rparr>"
  let ?aim = "?g\<lparr>g_insts := (g_insts ?g)(i := (g_insts ?g i)\<lparr>ti_target := Some want\<rparr>), g_updated := (g_updated ?g)(cdev := False)\<rparr>"
  have ig: "(g_insts ?g i)\<lparr>ti_target := Some want\<rparr> = (g_insts g i)\<lparr>ti_target := Some want\<rparr>" by (simp add: drop_targets_def)
  have cap: "(if ?max < h0 then ?max else h0) = want" by (simp add: want_def)
  obtain s' where s': "set_cur_state (g_cool g) cdev want = Some s'" using set_total [OF ok] by blast
  have deep: "deepest (g_insts ?aim) js = want" unfolding ig using deepest_single [OF i(3) js(2), of "g_insts g" want] ig by simp
  have upd: "thermal_cdev_update ?ops ?aim cdev = Some (?aim\<lparr>g_cool := s', g_updated := (g_updated ?aim)(cdev := True)\<rparr>)"
    using deep s' js(1) by (simp add: thermal_cdev_update_def)
  obtain v where v: "virtual_sensor_thermal_get_trip_temp z (if want \<noteq> 0 then int want - 1 else 0) = Some v" using tt [of want] by (auto simp: want_def)
  let ?g' = "?aim\<lparr>g_cool := s', g_updated := (g_updated ?aim)(cdev := True), g_uevents := g_uevents g @ [(cdev, want)]\<rparr>"
  let ?rel = "u64w temperature \<le> u64w (s32 (tr_temp (vp_trips (z_pdata z) ! (?cur - 1))) - tr_hyst (vp_trips (z_pdata z) ! (?cur - 1)))"
  have gc: "g_cool ?g = g_cool g" by simp
  have run: "throttle_instance ?ops z temperature target g i
     = (case choose_target z temperature i cdev ?cur want ?g of None \<Rightarrow> None | Some (target, g) \<Rightarrow> apply_target ?ops z cdev ?cur target g)"
    unfolding throttle_instance_def Let_def i(2)
    by (simp only: i(1) il option.case prod.case cooling_ops.simps gov.simps gc cap simp_thms if_False)
  have set': "ok s'" "\<And>e. get_max_state s' e = get_max_state (g_cool g) e"
    "\<And>e. get_cur_state s' e = (if e = cdev then want else get_cur_state (g_cool g) e)"
    using set_ok [OF ok s'] set_max [OF ok s'] set_get [OF ok s'] by (simp_all add: want_def)
  have new: "new = (if ?cur < want \<or> want < ?cur \<and> ?rel then want else ?cur)"
    by (simp add: new_def carried_state_def Let_def want_def h0_def)
  show ?thesis
  proof (cases "?cur < want \<or> want < ?cur \<and> ?rel")
    case True
    then have "choose_target z temperature i cdev ?cur want ?g = Some (want, ?aim)"
      using release_ok_at [OF _ cur, of temperature] by (auto simp: choose_target_def Let_def)
    moreover have "apply_target ?ops z cdev ?cur want ?aim = Some (want, ?g')" using True upd v by (auto simp: apply_target_def)
    ultimately have "throttle_instance ?ops z temperature target g i = Some (want, ?g')" using run by simp
    moreover have "same_bindings g ?g' js" using i(3) by (auto simp: same_bindings_def)
    ultimately show ?thesis using True new set' by (intro exI [of _ ?g']) simp
  next
    case False
    then have "choose_target z temperature i cdev ?cur want ?g = Some (?cur, ?g)"
      using release_ok_at [OF _ cur, of temperature] by (cases "want = ?cur") (auto simp: choose_target_def Let_def)
    then have "throttle_instance ?ops z temperature target g i = Some (?cur, ?g)" using run by (simp add: apply_target_def)
    moreover have "same_bindings g ?g js" by (simp add: same_bindings_def)
    ultimately show ?thesis using False new ok(1) by (intro exI [of _ ?g]) auto
  qed
qed

end

section \<open>The pass over the zone's instances\<close>

lemma throttle_skip_front:
  "\<forall>i\<in>set xs. ti_trip (g_insts g i) \<noteq> 0 \<Longrightarrow> throttle_loop ops z t target g (xs @ ys) = throttle_loop ops z t target g ys"
  by (induction xs) (simp_all add: throttle_instance_def)

lemma throttle_skip: "\<forall>i\<in>set xs. ti_trip (g_insts g i) \<noteq> 0 \<Longrightarrow> throttle_loop ops z t target g xs = Some g"
  using throttle_skip_front [of xs g ops z t target "[]"] by simp

text \<open>The devices the governor acts on: the instances of the first trip point.\<close>

definition first_trip_instances :: "'s gov \<Rightarrow> nat list" where
  "first_trip_instances g = filter (\<lambda>i. ti_trip (g_insts g i) = 0) (g_tz_list g)"

lemma filter_Cons_split:
  assumes "filter P xs = y # ys"
  obtains pre post where "xs = pre @ y # post" "\<forall>x\<in>set pre. \<not> P x" "filter P post = ys" "P y"
  using assms by (auto simp: filter_eq_Cons_iff)

context cooling_device
begin

lemma throttle_one_device:
  fixes g :: "'s gov"
  assumes ok: "ok (g_cool g)" "cdev \<in> devs" and i: "first_trip_instances g = [i]" "ti_cdev (g_insts g i) = cdev" "i \<in> set js"
    and b: "bound_in_order z g cdev js" and m: "get_max_state (g_cool g) cdev \<le> length (vp_trips (z_pdata z))"
  shows "\<exists>g'. virtual_sensor_throttle \<lparr>co_max = get_max_state, co_cur = get_cur_state, co_set = set_cur_state\<rparr> (Some z) temperature g 0 = Some (0, g') \<and>
     ok (g_cool g') \<and> (\<forall>e. get_max_state (g_cool g') e = get_max_state (g_cool g) e) \<and>
     (\<forall>e. get_cur_state (g_cool g') e = (if e = cdev
        then next_state z temperature (length js) (get_max_state (g_cool g) cdev) (get_cur_state (g_cool g) cdev)
        else get_cur_state (g_cool g) e)) \<and> same_bindings g g' js"
proof -
  let ?ops = "\<lparr>co_max = get_max_state, co_cur = get_cur_state, co_set = set_cur_state\<rparr>"
  obtain pre post where l: "g_tz_list g = pre @ i # post" "\<forall>x\<in>set pre. ti_trip (g_insts g x) \<noteq> 0"
    "filter (\<lambda>i. ti_trip (g_insts g i) = 0) post = []" "ti_trip (g_insts g i) = 0"
    using i(1) unfolding first_trip_instances_def by (rule filter_Cons_split)
  from throttle_instance_state [OF ok l(4) i(2,3) b m, of temperature 0] obtain g'
    where g': "throttle_instance ?ops z temperature 0 g i
        = Some (next_state z temperature (length js) (get_max_state (g_cool g) cdev) (get_cur_state (g_cool g) cdev), g')" "same_bindings g g' js"
      "ok (g_cool g')" "\<forall>e. get_max_state (g_cool g') e = get_max_state (g_cool g) e"
      "\<forall>e. get_cur_state (g_cool g') e = (if e = cdev
        then next_state z temperature (length js) (get_max_state (g_cool g) cdev) (get_cur_state (g_cool g) cdev)
        else get_cur_state (g_cool g) e)" unfolding carried_state_0 by blast
  have "\<forall>x\<in>set post. ti_trip (g_insts g' x) \<noteq> 0" using l(3) g'(2) by (auto simp: same_bindings_def filter_empty_conv)
  then have "throttle_loop ?ops z temperature 0 g (g_tz_list g) = Some g'"
    using g'(1) l(1) throttle_skip_front [OF l(2)] throttle_skip by simp
  then show ?thesis using g' by (simp add: virtual_sensor_throttle_def)
qed

lemma throttle_two_devices:
  fixes g :: "'s gov"
  assumes ok: "ok (g_cool g)" "c1 \<in> devs" "c2 \<in> devs" "c1 \<noteq> c2" and i: "first_trip_instances g = [i1, i2]"
    "ti_cdev (g_insts g i1) = c1" "i1 \<in> set js1" "ti_cdev (g_insts g i2) = c2" "i2 \<in> set js2" "set js1 \<inter> set js2 = {}"
    and b: "bound_in_order z g c1 js1" "bound_in_order z g c2 js2"
    and m: "get_max_state (g_cool g) c1 \<le> length (vp_trips (z_pdata z))" "get_max_state (g_cool g) c2 \<le> length (vp_trips (z_pdata z))"
  shows "\<exists>g'. virtual_sensor_throttle \<lparr>co_max = get_max_state, co_cur = get_cur_state, co_set = set_cur_state\<rparr> (Some z) temperature g 0 = Some (0, g') \<and>
     ok (g_cool g') \<and>
     get_cur_state (g_cool g') c1 = next_state z temperature (length js1) (get_max_state (g_cool g) c1) (get_cur_state (g_cool g) c1) \<and>
     get_cur_state (g_cool g') c2 = carried_state z temperature
        (next_state z temperature (length js1) (get_max_state (g_cool g) c1) (get_cur_state (g_cool g) c1))
        (length js2) (get_max_state (g_cool g) c2) (get_cur_state (g_cool g) c2)"
proof -
  let ?ops = "\<lparr>co_max = get_max_state, co_cur = get_cur_state, co_set = set_cur_state\<rparr>"
  let ?n1 = "next_state z temperature (length js1) (get_max_state (g_cool g) c1) (get_cur_state (g_cool g) c1)"
  obtain pre rest where l: "g_tz_list g = pre @ i1 # rest" "\<forall>x\<in>set pre. ti_trip (g_insts g x) \<noteq> 0"
    "filter (\<lambda>i. ti_trip (g_insts g i) = 0) rest = [i2]" "ti_trip (g_insts g i1) = 0"
    using i(1) unfolding first_trip_instances_def by (rule filter_Cons_split)
  obtain mid post where r: "rest = mid @ i2 # post" "\<forall>x\<in>set mid. ti_trip (g_insts g x) \<noteq> 0"
    "filter (\<lambda>i. ti_trip (g_insts g i) = 0) post = []" "ti_trip (g_insts g i2) = 0"
    using l(3) by (rule filter_Cons_split)
  from throttle_instance_state [OF ok(1,2) l(4) i(2,3) b(1) m(1), of temperature 0] obtain g1
    where g1: "throttle_instance ?ops z temperature 0 g i1 = Some (?n1, g1)" "same_bindings g g1 js1" "ok (g_cool g1)"
      "\<forall>e. get_max_state (g_cool g1) e = get_max_state (g_cool g) e"
      "\<forall>e. get_cur_state (g_cool g1) e = (if e = c1 then ?n1 else get_cur_state (g_cool g) e)" unfolding carried_state_0 by blast
  have "bound_in_order z g1 c2 js2" using b(2) g1(2) by (simp add: bound_in_order_def same_bindings_def)
  moreover have "ti_trip (g_insts g1 i2) = 0" "ti_cdev (g_insts g1 i2) = c2" using g1(2) r(4) i(4) by (simp_all add: same_bindings_def)
  moreover have "get_max_state (g_cool g1) c2 \<le> length (vp_trips (z_pdata z))" using g1(4) m(2) by simp
  ultimately obtain g' where g': "throttle_instance ?ops z temperature ?n1 g1 i2
      = Some (carried_state z temperature ?n1 (length js2) (get_max_state (g_cool g1) c2) (get_cur_state (g_cool g1) c2), g')"
      "same_bindings g1 g' js2" "ok (g_cool g')"
      "\<forall>e. get_cur_state (g_cool g') e = (if e = c2
         then carried_state z temperature ?n1 (length js2) (get_max_state (g_cool g1) c2) (get_cur_state (g_cool g1) c2)
         else get_cur_state (g_cool g1) e)"
    using throttle_instance_state [OF g1(3) ok(3) _ _ i(5), of z temperature ?n1] by blast
  have mid: "\<forall>x\<in>set mid. ti_trip (g_insts g1 x) \<noteq> 0" and post: "\<forall>x\<in>set post. ti_trip (g_insts g' x) \<noteq> 0"
    using r(2,3) g1(2) g'(2) by (auto simp: same_bindings_def filter_empty_conv)
  have "throttle_loop ?ops z temperature 0 g (g_tz_list g) = throttle_loop ?ops z temperature ?n1 g1 (mid @ i2 # post)"
    by (simp add: l(1) r(1) throttle_skip_front [OF l(2)] g1(1))
  also have "\<dots> = Some g'"
    by (simp add: throttle_skip_front [OF mid] g'(1) throttle_skip [OF post])
  finally have "throttle_loop ?ops z temperature 0 g (g_tz_list g) = Some g'" .
  then show ?thesis using g' g1(4,5) ok(4) by (auto simp: virtual_sensor_throttle_def)
qed

end

section \<open>The charge current coolers under the governor\<close>

interpretation bcct_lim: cooling_device cd_max_state cd_state "bcct_set env" "\<lambda>s. bcct_ok D s \<and> bcct_in_force s" D for env D
proof (unfold_locales, goal_cases)
  case (1 s d n)
  then show ?case using bcct_cd.set_total by blast
next
  case (2 s d n s')
  then show ?case using bcct_setD [of D s d env n s'] by (auto simp: bcct_in_force_def)
next
  case (3 s d n s' e)
  then show ?case using bcct_cd.set_max by blast
next
  case (4 s d n s' e)
  then show ?case using bcct_cd.set_get by blast
next
  case (5 s d)
  then show ?case using bcct_cd.cur_le_max by blast
qed

definition bcct_ops :: "vs_env \<Rightarrow> cooler_drv cooling_ops" where
  "bcct_ops env = \<lparr>co_max = cd_max_state, co_cur = cd_state, co_set = bcct_set env\<rparr>"

lemma next_state_settles:
  "next_state z t n m (next_state z t n m cur) = next_state z t n m cur"
  by (auto simp: next_state_def Let_def)

lemma same_bindings_keep:
  assumes "same_bindings g g' js"
  shows "first_trip_instances g' = first_trip_instances g" "bound_in_order z g' c ks = bound_in_order z g c ks" "ti_cdev (g_insts g' i) = ti_cdev (g_insts g i)"
  using assms by (simp_all add: same_bindings_def first_trip_instances_def bound_in_order_def)

section \<open>Correctness of the governor\<close>


definition trip_example :: "int \<Rightarrow> trip_t" where
  "trip_example t = \<lparr>tr_temp = t, tr_type = TRIP_PASSIVE, tr_hyst = 2000\<rparr>"

definition gov_zone :: vs_zone where
  "gov_zone = \<lparr>z_type = ''virtual_sensor1'', z_trips = 2, z_polling_delay = 1000, z_query_count = 0, z_mask = 0,
     z_pdata = \<lparr>vp_num_trips = 2, vp_mode = DEVICE_ENABLED, vp_polling_delay = 1000, vp_ts_list = [],
       vp_governor_name = ''virtual_sensor'', vp_num_tbps = 0, vp_tbp = [], vp_trips = [trip_example 40000, trip_example 45000],
       vp_num_cdevs = 1, vp_cdevs = [''bcct'']\<rparr>, z_events = []\<rparr>"

text \<open>Instances 0 and 1 bind device 0, instances 2 and 3 device 1; the zone has those of the list \<open>is\<close>.\<close>

definition gov_example :: "nat list \<Rightarrow> cooler_drv \<Rightarrow> cooler_drv gov" where
  "gov_example is s = \<lparr>g_insts = (\<lambda>i. \<lparr>ti_cdev = i div 2, ti_trip = int (i mod 2), ti_target = None\<rparr>), g_tz_list = is,
     g_cdev_list = (\<lambda>c. [2 * c, 2 * c + 1]), g_updated = (\<lambda>_. True), g_cool = s, g_uevents = []\<rparr>"

lemma gov_example_bound: "bound_in_order gov_zone (gov_example is s) c [2 * c, 2 * c + 1]"
proof -
  have two: "(\<forall>k < length [a, b]. P k) \<longleftrightarrow> P 0 \<and> P 1" for P and a b :: nat by (auto simp: less_Suc_eq)
  show ?thesis unfolding bound_in_order_def two by (simp add: gov_example_def gov_zone_def)
qed

lemma gov_example_state: "next_state gov_zone 46000 (length [0, 1 :: nat]) (cd_max_state bcct_example 0) (cd_state bcct_example 0) = 2"
  by (simp add: next_state_def cd_max_state_def cd_state_def bcct_example_def gov_zone_def trip_example_def s32_def numeral_2_eq_2)


text \<open>The target of one device leaks into the next: when the first cooler is held in its state by
  the hysteresis while the temperature is below every trip point of both, a second cooler that is
  less throttled is throttled to the first one's state, although nothing asks for it.\<close>

theorem governor_leaks_target:
  assumes ok: "bcct_ok D (g_cool g)" "bcct_in_force (g_cool g)" "c1 \<in> D" "c2 \<in> D" "c1 \<noteq> c2" and i: "first_trip_instances g = [i1, i2]"
    "ti_cdev (g_insts g i1) = c1" "i1 \<in> set js1" "ti_cdev (g_insts g i2) = c2" "i2 \<in> set js2" "set js1 \<inter> set js2 = {}"
    and b: "bound_in_order z g c1 js1" "bound_in_order z g c2 js2"
    and m: "cd_max_state (g_cool g) c1 \<le> length (vp_trips (z_pdata z))" "cd_max_state (g_cool g) c2 \<le> length (vp_trips (z_pdata z))"
    and cool: "hot_level z temperature (length js1) = 0" "hot_level z temperature (length js2) = 0"
    and held: "next_state z temperature (length js1) (cd_max_state (g_cool g) c1) (cd_state (g_cool g) c1) = cd_state (g_cool g) c1"
    and lower: "cd_state (g_cool g) c2 < cd_state (g_cool g) c1" "cd_state (g_cool g) c1 \<le> cd_max_state (g_cool g) c2"
  shows "\<exists>g'. virtual_sensor_throttle (bcct_ops env) (Some z) temperature g 0 = Some (0, g') \<and>
     cd_state (g_cool g') c2 = cd_state (g_cool g) c1 \<and>
     next_state z temperature (length js2) (cd_max_state (g_cool g) c2) (cd_state (g_cool g) c2) \<le> cd_state (g_cool g) c2"
proof -
  have inv: "bcct_ok D (g_cool g) \<and> bcct_in_force (g_cool g)" using ok by simp
  from bcct_lim.throttle_two_devices [OF inv ok(3-5) i b m, of env temperature, folded bcct_ops_def, unfolded held] obtain g'
    where g': "virtual_sensor_throttle (bcct_ops env) (Some z) temperature g 0 = Some (0, g')"
      "cd_state (g_cool g') c2 = carried_state z temperature (cd_state (g_cool g) c1) (length js2) (cd_max_state (g_cool g) c2) (cd_state (g_cool g) c2)"
    by blast
  have "carried_state z temperature (cd_state (g_cool g) c1) (length js2) (cd_max_state (g_cool g) c2) (cd_state (g_cool g) c2) = cd_state (g_cool g) c1"
    using cool(2) lower by (simp add: carried_state_def Let_def)
  then show ?thesis using g' cool(2) by (auto simp: next_state_def Let_def)
qed

definition bcct_held :: cooler_drv where
  "bcct_held = \<lparr>cd_bank = \<lparr>cb_data = (\<lambda>c. if c = 0
       then \<lparr>cl_type = ''bcct'', cl_state = 1, cl_max_state = 2, cl_level = 200000, cl_cooler_id = 0, cl_levels = [200000, 100000]\<rparr>
       else \<lparr>cl_type = ''bcct'', cl_state = 0, cl_max_state = 2, cl_level = 320001, cl_cooler_id = 0, cl_levels = [150000, 50000]\<rparr>), cb_list = [1, 0]\<rparr>,
     cd_if = \<lparr>bat_psy = True, wpc_psy = False, chg_psy = False, cpufreq_cdev = None, cpufreq_cdev_mc = [None, None],
       psy_sets = [(BATTERY_NAME, PSP_CONSTANT_CHARGE_CURRENT, 2000000)], brightness_sets = []\<rparr>\<rparr>"

lemma bcct_held_ok: "bcct_ok {0, 1} bcct_held" "bcct_in_force bcct_held"
proof -
  show "bcct_ok {0, 1} bcct_held"
    by (auto simp: bcct_ok_def cooler_ok_def bcct_held_def state_level_def CHARGE_CURRENT_MAX_def)
  have "bcct_value 200000 = 2000000" by (simp add: bcct_value_def CHARGE_CURRENT_MAX_def s32_def signed_divide_int_def)
  then show "bcct_in_force bcct_held"
    by (simp add: bcct_held_def bcct_in_force_def bank_limit_def bank_levels_def)
qed

theorem governor_leaks_target_witness:
  "\<forall>env. \<exists>g'. virtual_sensor_throttle (bcct_ops env) (Some gov_zone) 39000 (gov_example [0, 1, 2, 3] bcct_held) 0 = Some (0, g') \<and>
     cd_state bcct_held 1 = 0 \<and> cd_state (g_cool g') 1 = 1"
proof
  fix env
  let ?g = "gov_example [0, 1, 2, 3] bcct_held"
  have c: "g_cool ?g = bcct_held" by (simp add: gov_example_def)
  have st: "cd_state bcct_held 0 = 1" "cd_state bcct_held 1 = 0" "cd_max_state bcct_held 0 = 2" "cd_max_state bcct_held 1 = 2"
    "length (vp_trips (z_pdata gov_zone)) = 2"
    by (simp_all add: cd_state_def cd_max_state_def bcct_held_def gov_zone_def)
  have i: "first_trip_instances ?g = [0, 2]" "ti_cdev (g_insts ?g 0) = 0" "ti_cdev (g_insts ?g 2) = 1"
    by (simp_all add: first_trip_instances_def gov_example_def)
  have b: "bound_in_order gov_zone ?g 0 [0, 1]" "bound_in_order gov_zone ?g 1 [2, 3]"
    using gov_example_bound [of "[0, 1, 2, 3]" bcct_held 0] gov_example_bound [of "[0, 1, 2, 3]" bcct_held 1] by simp_all
  have h: "hot_level gov_zone 39000 (length [0, 1 :: nat]) = 0" "hot_level gov_zone 39000 (length [2, 3 :: nat]) = 0"
    "next_state gov_zone 39000 (length [0, 1 :: nat]) 2 1 = 1"
    by (simp_all add: gov_zone_def trip_example_def s32_def next_state_def numeral_2_eq_2 u64w_def)
  have "\<exists>g'. virtual_sensor_throttle (bcct_ops env) (Some gov_zone) 39000 ?g 0 = Some (0, g') \<and>
     cd_state (g_cool g') 1 = cd_state (g_cool ?g) 0 \<and>
     next_state gov_zone 39000 (length [2, 3 :: nat]) (cd_max_state (g_cool ?g) 1) (cd_state (g_cool ?g) 1) \<le> cd_state (g_cool ?g) 1"
    by (rule governor_leaks_target [where D = "{0, 1}", OF _ _ _ _ _ i(1,2) _ i(3) _ _ b]) (use bcct_held_ok h in \<open>simp_all only: c st, simp_all\<close>)
  then show "\<exists>g'. virtual_sensor_throttle (bcct_ops env) (Some gov_zone) 39000 ?g 0 = Some (0, g') \<and>
     cd_state bcct_held 1 = 0 \<and> cd_state (g_cool g') 1 = 1" unfolding c st by blast
qed

text \<open>Below zero a cooler is never released: the temperature is compared with the trip point less
  its hysteresis as an unsigned long, so a negative one counts as hotter than any release threshold,
  and a throttled cooler keeps its state in every later pass.\<close>

theorem subzero_never_releases:
  assumes ok: "bcct_ok D (g_cool g)" "bcct_in_force (g_cool g)" "cdev \<in> D" and t: "- (2 ^ 31) \<le> temperature" "temperature < 0"
    and i: "first_trip_instances g = [i]" "ti_cdev (g_insts g i) = cdev" "i \<in> set js"
    and b: "bound_in_order z g cdev js" and m: "cd_max_state (g_cool g) cdev \<le> length (vp_trips (z_pdata z))"
    and trips: "\<forall>tr\<in>set (vp_trips (z_pdata z)). 0 \<le> tr_hyst tr \<and> tr_hyst tr \<le> s32 (tr_temp tr)"
  shows "\<exists>g'. virtual_sensor_throttle (bcct_ops env) (Some z) temperature g 0 = Some (0, g') \<and>
     cd_state (g_cool g') cdev = cd_state (g_cool g) cdev"
proof -
  have inv: "bcct_ok D (g_cool g) \<and> bcct_in_force (g_cool g)" using ok by simp
  let ?cur = "cd_state (g_cool g) cdev" and ?ts = "vp_trips (z_pdata z)"
  have cur: "?cur \<le> length ?ts" using bcct_lim.cur_le_max [OF inv ok(3)] m by simp
  have "length js \<le> length ?ts" using b by (simp add: bound_in_order_def)
  then have hot: "hot_level z temperature (length js) = 0"
  proof (induction "length js" arbitrary: js)
    case (Suc n)
    then have "?ts ! n \<in> set ?ts" "n \<le> length ?ts" by simp_all
    then have "\<not> temperature \<ge> s32 (tr_temp (?ts ! n))" "hot_level z temperature n = 0"
      using trips t(2) Suc(1) [of "replicate n undefined"] by force+
    then show ?case by (simp flip: Suc(2))
  qed simp
  have "\<not> u64w temperature \<le> u64w (s32 (tr_temp (?ts ! (?cur - 1))) - tr_hyst (?ts ! (?cur - 1)))" if "0 < ?cur"
  proof -
    have "?ts ! (?cur - 1) \<in> set ?ts" using cur that by simp
    then have r: "0 \<le> s32 (tr_temp (?ts ! (?cur - 1))) - tr_hyst (?ts ! (?cur - 1))" "0 \<le> tr_hyst (?ts ! (?cur - 1))" using trips by force+
    moreover have "s32 (tr_temp (?ts ! (?cur - 1))) < 2 ^ 31" by (simp add: s32_def)
    ultimately have "u64w (s32 (tr_temp (?ts ! (?cur - 1))) - tr_hyst (?ts ! (?cur - 1))) < 2 ^ 31" by (simp add: u64w_def)
    moreover have "u64w temperature = 2 ^ 64 + temperature" unfolding u64w_def using t mod_add_self1 [of "2 ^ 64" temperature] mod_pos_pos_trivial [of "2 ^ 64 + temperature" "2 ^ 64"] by simp
    ultimately show ?thesis using t by simp
  qed
  then have "next_state z temperature (length js) (cd_max_state (g_cool g) cdev) ?cur = ?cur" using hot by (auto simp: next_state_def Let_def)
  then show ?thesis using bcct_lim.throttle_one_device [OF inv ok(3) i b m, of env temperature, folded bcct_ops_def] by auto
qed

theorem subzero_never_releases_witness:
  "\<forall>env. \<exists>g'. virtual_sensor_throttle (bcct_ops env) (Some gov_zone) (- 5000) (gov_example [0, 1] bcct_held) 0 = Some (0, g') \<and>
     cd_state (g_cool g') 0 = 1"
proof
  fix env
  let ?g = "gov_example [0, 1] bcct_held"
  have c: "g_cool ?g = bcct_held" by (simp add: gov_example_def)
  have st: "cd_state bcct_held 0 = 1" "cd_max_state bcct_held 0 = 2" "length (vp_trips (z_pdata gov_zone)) = 2"
    by (simp_all add: cd_state_def cd_max_state_def bcct_held_def gov_zone_def)
  have i: "first_trip_instances ?g = [0]" "ti_cdev (g_insts ?g 0) = 0" by (simp_all add: first_trip_instances_def gov_example_def)
  have b: "bound_in_order gov_zone ?g 0 [0, 1]" using gov_example_bound [of "[0, 1]" bcct_held 0] by simp
  have tr: "\<forall>tr\<in>set (vp_trips (z_pdata gov_zone)). 0 \<le> tr_hyst tr \<and> tr_hyst tr \<le> s32 (tr_temp tr)"
    by (simp add: gov_zone_def trip_example_def s32_def)
  have "\<exists>g'. virtual_sensor_throttle (bcct_ops env) (Some gov_zone) (- 5000) ?g 0 = Some (0, g') \<and> cd_state (g_cool g') 0 = cd_state (g_cool ?g) 0"
    by (rule subzero_never_releases [where D = "{0, 1}", OF _ _ _ _ _ i _ b _ tr]) (use bcct_held_ok in \<open>simp_all only: c st, simp_all\<close>)
  then show "\<exists>g'. virtual_sensor_throttle (bcct_ops env) (Some gov_zone) (- 5000) ?g 0 = Some (0, g') \<and> cd_state (g_cool g') 0 = 1"
    unfolding c st .
qed

end
