(* ===== verification/Liquid_Port.thy ===== *)
theory Liquid_Port
  imports Prelude
begin

text \<open>
  What the three liquid detection drivers of the USB port share. Exactly one of \<^verbatim>\<open>amzn_ld\<close>, \<^verbatim>\<open>fusb251\<close>
  and \<^verbatim>\<open>max20342\<close> serves a board (all under \<^verbatim>\<open>drivers/usb/typec/\<close>); each reports the state of the
  port through the switch class (\<^verbatim>\<open>drivers/switch/switch_class.c\<close>) and protects it by the Type-C role and
  the input current limit. The functions for that are the same text in the three drivers; they are
  modelled once here, over the part of the driver data they touch. The abstract port (\<open>port_step\<close>) is
  what the drivers promise, and the locale \<open>port_detector\<close> carries its consequences to any driver whose
  work refines it.
\<close>

section \<open>State\<close>

abbreviation (input) TYPE_DRY :: int where "TYPE_DRY \<equiv> 0"
abbreviation (input) TYPE_WET :: int where "TYPE_WET \<equiv> 1"
abbreviation (input) TYPE_WET_VBUS :: int where "TYPE_WET_VBUS \<equiv> 2"

datatype typec_role = ROLE_SNK | ROLE_TRY_SNK

text \<open>
  \<open>ld_role\<close> is the role last requested of the Type-C stack, \<open>ld_limit\<close> the input current limit last
  accepted by the battery power supply. \<open>ld_metrics\<close> lists the reported changes with the state before
  and the duration.
\<close>

record ld_port =
  st_switch :: int
  switch_uevents :: "int list"
  ld_role :: "typec_role option"
  ld_limit :: "int option"
  ld_chg_psy :: bool
  ld_bat_psy :: bool
  ld_event_ts :: int
  ld_metrics :: "(int \<times> int \<times> int) list"

text \<open>
  The kernel services at the time of a call: whether the system runs, the boot time in seconds,
  whether the power supplies are found, the charger's voltage with the status of the query, and the
  status of setting the limit.
\<close>

record ld_env =
  le_running :: bool
  le_now :: int
  le_chg_found :: bool
  le_bat_found :: bool
  le_vbus :: "int \<times> int"
  le_limit_ret :: int

section \<open>Operations\<close>

definition switch_set_state :: "'m ld_port_scheme \<Rightarrow> int \<Rightarrow> 'm ld_port_scheme" where
  "switch_set_state p state =
     (if st_switch p \<noteq> state then p\<lparr>st_switch := state, switch_uevents := switch_uevents p @ [state]\<rparr> else p)"

definition ld_report_event :: "ld_env \<Rightarrow> 'm ld_port_scheme \<Rightarrow> int \<Rightarrow> 'm ld_port_scheme" where
  "ld_report_event env p event =
     (let pre_event = st_switch p in
      if pre_event \<noteq> event
      then let p = switch_set_state p event;
               duration_sec = (if pre_event = TYPE_DRY then 0 else s32 (le_now env - ld_event_ts p))
           in p\<lparr>ld_metrics := ld_metrics p @ [(event, pre_event, duration_sec)], ld_event_ts := le_now env\<rparr>
      else p)"

definition INVALID_VBUS_MV :: int where "INVALID_VBUS_MV = 3000"
definition IUSB_LIMITATION_UA :: int where "IUSB_LIMITATION_UA = 10000"
definition RECHECK_DELAY_SEC :: int where "RECHECK_DELAY_SEC = 5"

definition ld_check_vbus_valid :: "ld_env \<Rightarrow> 'm ld_port_scheme \<Rightarrow> bool \<times> 'm ld_port_scheme" where
  "ld_check_vbus_valid env p =
     (if \<not> ld_chg_psy p \<and> \<not> le_chg_found env then (False, p)
      else let p = p\<lparr>ld_chg_psy := True\<rparr>; (ret, val) = le_vbus env
           in if ret < 0 then (False, p) else (val > INVALID_VBUS_MV, p))"

definition ld_limit_charging_current :: "ld_env \<Rightarrow> 'm ld_port_scheme \<Rightarrow> bool \<Rightarrow> int \<times> 'm ld_port_scheme" where
  "ld_limit_charging_current env p en =
     (if \<not> ld_bat_psy p \<and> \<not> le_bat_found env then (0, p)
      else let p = p\<lparr>ld_bat_psy := True\<rparr>; ret = le_limit_ret env
           in (ret, if ret < 0 then p else p\<lparr>ld_limit := Some (if en then IUSB_LIMITATION_UA else -1)\<rparr>))"

definition tcpm_typec_change_role :: "'m ld_port_scheme \<Rightarrow> typec_role \<Rightarrow> 'm ld_port_scheme" where
  "tcpm_typec_change_role p role = p\<lparr>ld_role := Some role\<rparr>"

definition ld_select_interval :: "int list \<Rightarrow> int \<Rightarrow> int" where
  "ld_select_interval work_interval state =
     (if 0 \<le> state \<and> state < 3 then work_interval ! nat state else work_interval ! 1)"

text \<open>The VBUS work: the state is read first, the charger and the report come after.\<close>

definition ld_vbus_act :: "ld_env \<Rightarrow> int \<Rightarrow> 'm ld_port_scheme \<Rightarrow> 'm ld_port_scheme" where
  "ld_vbus_act env state p =
     (let (valid, p) = ld_check_vbus_valid env p
      in if valid then (if state = TYPE_WET then ld_report_event env p TYPE_WET_VBUS else p)
         else (if state = TYPE_WET_VBUS then ld_report_event env p TYPE_WET else p))"

definition ld_vbus_detect :: "ld_env \<Rightarrow> 'm ld_port_scheme \<Rightarrow> 'm ld_port_scheme" where
  "ld_vbus_detect env p = ld_vbus_act env (st_switch p) p"

text \<open>
  The reaction of the drivers to liquid and to its absence, in the order of \<^verbatim>\<open>liquid_is_wet\<close> and
  \<^verbatim>\<open>liquid_is_dry\<close>.
\<close>

definition ld_go_wet :: "ld_env \<Rightarrow> 'm ld_port_scheme \<Rightarrow> 'm ld_port_scheme" where
  "ld_go_wet env p =
     (let p = snd (ld_limit_charging_current env (tcpm_typec_change_role p ROLE_SNK) True);
          (valid, p) = ld_check_vbus_valid env p
      in ld_report_event env p (if valid then TYPE_WET_VBUS else TYPE_WET))"

definition ld_go_dry :: "ld_env \<Rightarrow> 'm ld_port_scheme \<Rightarrow> 'm ld_port_scheme" where
  "ld_go_dry env p =
     snd (ld_limit_charging_current env (tcpm_typec_change_role (ld_report_event env p TYPE_DRY) ROLE_TRY_SNK) False)"

section \<open>The abstract port\<close>

text \<open>The view of a port: reported state, role, limit.\<close>

type_synonym port_view = "int \<times> typec_role option \<times> int option"

definition view :: "'m ld_port_scheme \<Rightarrow> port_view" where
  "view p = (st_switch p, ld_role p, ld_limit p)"

text \<open>
  A step: liquid is found in a dry port, which is protected; the port has dried and is released; VBUS
  comes or goes in a wet port; or nothing changes.
\<close>

inductive port_step :: "port_view \<Rightarrow> port_view \<Rightarrow> bool" where
  found: "w \<in> {TYPE_WET, TYPE_WET_VBUS} \<Longrightarrow> port_step (TYPE_DRY, r, l) (w, Some ROLE_SNK, Some IUSB_LIMITATION_UA)"
| dried: "st \<noteq> TYPE_DRY \<Longrightarrow> port_step (st, r, l) (TYPE_DRY, Some ROLE_TRY_SNK, Some (-1))"
| vbus: "st \<in> {TYPE_WET, TYPE_WET_VBUS} \<Longrightarrow> st' \<in> {TYPE_WET, TYPE_WET_VBUS} \<Longrightarrow> port_step (st, r, l) (st', r, l)"
| idle: "port_step v v"

inductive_cases port_stepE: "port_step v v'"

text \<open>The protection that belongs to the reported state.\<close>

fun view_ok :: "port_view \<Rightarrow> bool" where
  "view_ok (st, r, l) \<longleftrightarrow> (if st = TYPE_DRY then r \<noteq> Some ROLE_SNK \<and> l \<noteq> Some IUSB_LIMITATION_UA
     else st \<in> {TYPE_WET, TYPE_WET_VBUS} \<and> r = Some ROLE_SNK \<and> l = Some IUSB_LIMITATION_UA)"

lemma port_step_ok: "port_step v v' \<Longrightarrow> view_ok v \<Longrightarrow> view_ok v'"
  by (induction rule: port_step.induct) (auto simp: IUSB_LIMITATION_UA_def split: if_splits)

lemma port_steps_ok: "port_step\<^sup>*\<^sup>* v v' \<Longrightarrow> view_ok v \<Longrightarrow> view_ok v'"
  by (induction rule: rtranclp_induct) (auto dest: port_step_ok)

lemma port_step_uevent_free: "port_step (st, r, l) (st, r', l') \<Longrightarrow> r' = r \<and> l' = l"
  by (auto elim: port_stepE)

lemma port_step_released: "port_step (st, r, l) (TYPE_DRY, r', l') \<Longrightarrow> st \<noteq> TYPE_DRY \<Longrightarrow> r' = Some ROLE_TRY_SNK \<and> l' = Some (-1)"
  by (erule port_stepE) auto

text \<open>
  A detector: every work it runs, in an environment where the battery accepts the limit, is a step of
  the abstract port.
\<close>

locale port_detector =
  fixes work :: "'e \<Rightarrow> 's \<Rightarrow> 's" and portv :: "'s \<Rightarrow> port_view" and good :: "'e \<Rightarrow> bool" and inv :: "'s \<Rightarrow> bool"
  assumes work_step: "good e \<Longrightarrow> inv s \<Longrightarrow> fst (portv s) \<in> {TYPE_DRY, TYPE_WET, TYPE_WET_VBUS} \<Longrightarrow> port_step (portv s) (portv (work e s))"
    and work_inv: "good e \<Longrightarrow> inv s \<Longrightarrow> inv (work e s)"
begin

lemma work_state: "good e \<Longrightarrow> inv s \<Longrightarrow> fst (portv s) \<in> {TYPE_DRY, TYPE_WET, TYPE_WET_VBUS} \<Longrightarrow>
    fst (portv (work e s)) \<in> {TYPE_DRY, TYPE_WET, TYPE_WET_VBUS}"
  using work_step [of e s] by (auto elim!: port_stepE)

lemma run_steps:
  "\<forall>e\<in>set es. good e \<Longrightarrow> inv s \<Longrightarrow> fst (portv s) \<in> {TYPE_DRY, TYPE_WET, TYPE_WET_VBUS} \<Longrightarrow>
    port_step\<^sup>*\<^sup>* (portv s) (portv (fold work es s)) \<and> inv (fold work es s)"
proof (induction es arbitrary: s)
  case (Cons e es)
  then have "port_step (portv s) (portv (work e s))" "inv (work e s)" "fst (portv (work e s)) \<in> {TYPE_DRY, TYPE_WET, TYPE_WET_VBUS}"
    using work_step work_inv work_state by simp_all
  with Cons show ?case by (auto intro: converse_rtranclp_into_rtranclp)
qed simp

lemma run_protected:
  assumes "\<forall>e\<in>set es. good e" "inv s" "view_ok (portv s)"
  shows "view_ok (portv (fold work es s)) \<and> inv (fold work es s)"
proof -
  have "fst (portv s) \<in> {TYPE_DRY, TYPE_WET, TYPE_WET_VBUS}" using assms(3) by (cases "portv s") (auto split: if_splits)
  with run_steps [OF assms(1,2)] port_steps_ok [OF _ assms(3)] show ?thesis by blast
qed

text \<open>While the port stays reported dry, no work changes its role or limit.\<close>

lemma run_stays_dry:
  "\<forall>e\<in>set es. good e \<Longrightarrow> inv s \<Longrightarrow> \<forall>n \<le> length es. fst (portv (fold work (take n es) s)) = TYPE_DRY \<Longrightarrow>
    portv (fold work es s) = portv s"
proof (induction es arbitrary: s)
  case (Cons e es)
  have dry: "fst (portv s) = TYPE_DRY" "fst (portv (work e s)) = TYPE_DRY" using Cons.prems(3) by (force dest: spec [of _ 0], force dest: spec [of _ 1])
  have "port_step (portv s) (portv (work e s))" using Cons.prems(1,2) dry(1) by (simp add: work_step)
  then have eq: "portv (work e s) = portv s" using dry by (cases "portv s"; cases "portv (work e s)") (auto dest: port_step_uevent_free)
  have "portv (fold work es (work e s)) = portv (work e s)"
  proof (rule Cons.IH)
    show "\<forall>n \<le> length es. fst (portv (fold work (take n es) (work e s))) = TYPE_DRY"
    proof (intro allI impI)
      fix n assume "n \<le> length es"
      then show "fst (portv (fold work (take n es) (work e s))) = TYPE_DRY" using spec [OF Cons.prems(3), of "Suc n"] by simp
    qed
  qed (use Cons.prems work_inv in auto)
  then show ?case using eq by simp
qed simp

end

section \<open>The shared operations refine the abstract port\<close>

definition good_env :: "ld_env \<Rightarrow> bool" where
  "good_env env \<longleftrightarrow> le_bat_found env \<and> 0 \<le> le_limit_ret env"

lemma report_event_fields [simp]:
  "st_switch (ld_report_event env p e) = e" "ld_role (ld_report_event env p e) = ld_role p"
  "ld_limit (ld_report_event env p e) = ld_limit p" "ld_bat_psy (ld_report_event env p e) = ld_bat_psy p"
  "ld_port.more (ld_report_event env p e) = ld_port.more p"
  by (simp_all add: ld_report_event_def switch_set_state_def Let_def)

lemma check_vbus_fields [simp]:
  "st_switch (snd (ld_check_vbus_valid env p)) = st_switch p" "ld_role (snd (ld_check_vbus_valid env p)) = ld_role p"
  "ld_limit (snd (ld_check_vbus_valid env p)) = ld_limit p" "ld_port.more (snd (ld_check_vbus_valid env p)) = ld_port.more p"
  by (simp_all add: ld_check_vbus_valid_def Let_def split: prod.split)

lemma limit_fields [simp]:
  "st_switch (snd (ld_limit_charging_current env p en)) = st_switch p" "ld_role (snd (ld_limit_charging_current env p en)) = ld_role p"
  "ld_port.more (snd (ld_limit_charging_current env p en)) = ld_port.more p"
  by (simp_all add: ld_limit_charging_current_def Let_def)

lemma limit_set: "good_env env \<Longrightarrow> ld_limit (snd (ld_limit_charging_current env p en)) = Some (if en then IUSB_LIMITATION_UA else -1)"
  by (simp add: ld_limit_charging_current_def good_env_def Let_def)

lemma change_role_fields [simp]:
  "st_switch (tcpm_typec_change_role p r) = st_switch p" "ld_role (tcpm_typec_change_role p r) = Some r"
  "ld_limit (tcpm_typec_change_role p r) = ld_limit p" "ld_port.more (tcpm_typec_change_role p r) = ld_port.more p"
  by (simp_all add: tcpm_typec_change_role_def)

lemma go_wet_view: "good_env env \<Longrightarrow> \<exists>w\<in>{TYPE_WET, TYPE_WET_VBUS}. view (ld_go_wet env p) = (w, Some ROLE_SNK, Some IUSB_LIMITATION_UA)"
  by (simp add: ld_go_wet_def view_def Let_def limit_set case_prod_beta)

lemma go_dry_view: "good_env env \<Longrightarrow> view (ld_go_dry env p) = (TYPE_DRY, Some ROLE_TRY_SNK, Some (-1))"
  by (simp add: ld_go_dry_def view_def limit_set)

lemma go_more [simp]: "ld_port.more (ld_go_wet env p) = ld_port.more p" "ld_port.more (ld_go_dry env p) = ld_port.more p"
  by (simp_all add: ld_go_wet_def ld_go_dry_def Let_def case_prod_beta)

lemma vbus_act_fields: "ld_role (ld_vbus_act env st p) = ld_role p" "ld_limit (ld_vbus_act env st p) = ld_limit p"
  "ld_port.more (ld_vbus_act env st p) = ld_port.more p"
  by (simp_all add: ld_vbus_act_def case_prod_beta)

lemma vbus_detect_step: "port_step (view p) (view (ld_vbus_detect env p))"
proof -
  obtain valid q where q: "ld_check_vbus_valid env p = (valid, q)" by (cases "ld_check_vbus_valid env p")
  then have "view q = view p" using check_vbus_fields [of env p] by (simp add: view_def)
  moreover have "view (ld_vbus_detect env p) = view q \<or> (st_switch p \<in> {TYPE_WET, TYPE_WET_VBUS} \<and>
      (\<exists>w\<in>{TYPE_WET, TYPE_WET_VBUS}. view (ld_vbus_detect env p) = (w, ld_role q, ld_limit q)))"
    using q by (auto simp: ld_vbus_detect_def ld_vbus_act_def view_def)
  ultimately show ?thesis by (auto simp: view_def intro: port_step.intros)
qed

end
