(* ===== verification/Pubadc.thy ===== *)
theory Pubadc
  imports Prelude
begin

text \<open>
  The manager of the shared analog input, \<^verbatim>\<open>drivers/usb/typec/pubadc_manage/pubadc_manage.c\<close>: the
  battery driver and the liquid detection read one converter through a multiplexer, which is switched
  only when the kind of the read changes. The converter is a parameter: the outcome (status and
  value) of a read of the caller's own channel, or of the shared one at a position of the multiplexer.
  The theory shows that every read sees its own input, whatever the order of the users.
\<close>

section \<open>State\<close>

datatype pubadc_type = PUBADC_NONE | PUBADC_BAT_ID | PUBADC_LIQUID

record pubadc =
  init_state :: bool
  last_pubadc_type :: pubadc_type \<comment> \<open>static variable of \<^verbatim>\<open>pubadc_iio_read_channel\<close>\<close>
  pubadc_mux :: pubadc_type \<comment> \<open>selected pin state\<close>

text \<open>The identification pins: for each whether it is valid, the status of the request, the level.\<close>

type_synonym id_gpio = "bool \<times> int \<times> int"

section \<open>Operations\<close>

definition get_pubadc_init_state :: "pubadc \<Rightarrow> bool" where
  "get_pubadc_init_state s = init_state s"

definition pubadc_iio_read_channel :: "(pubadc_type option \<Rightarrow> int \<times> int) \<Rightarrow> pubadc \<Rightarrow> pubadc_type \<Rightarrow> (int \<times> int) \<times> pubadc" where
  "pubadc_iio_read_channel conv s type =
     (if init_state s
      then let s = (if last_pubadc_type s \<noteq> type
                    then s\<lparr>pubadc_mux := (if type = PUBADC_LIQUID then PUBADC_LIQUID else PUBADC_BAT_ID), last_pubadc_type := type\<rparr>
                    else s)
           in (conv (Some (pubadc_mux s)), s)
      else (conv None, s))"

definition pubadc_get_id :: "id_gpio \<Rightarrow> id_gpio \<Rightarrow> u8" where
  "pubadc_get_id g0 g1 =
     (let (valid0, req0, id0) = g0; (valid1, req1, id1) = g1
      in if \<not> valid0 then 0 else if req0 \<noteq> 0 then 0
         else if \<not> valid1 then 0 else if req1 \<noteq> 0 then 0
         else word_of_int (push_bit 1 id1 OR id0))"

definition pubadc_check_id :: "u8 option \<Rightarrow> id_gpio \<Rightarrow> id_gpio \<Rightarrow> bool" where
  "pubadc_check_id dts_id g0 g1 = (case dts_id of None \<Rightarrow> False | Some i \<Rightarrow> i = pubadc_get_id g0 g1)"

text \<open>\<open>lookup\<close> says which of the pin states \<^verbatim>\<open>pubadc_bat_id\<close> and \<^verbatim>\<open>pubadc_liquid\<close> exist.\<close>

definition pubadc_pinctrl_init :: "bool \<Rightarrow> (string \<Rightarrow> bool) \<Rightarrow> pubadc \<Rightarrow> int \<times> pubadc" where
  "pubadc_pinctrl_init found lookup s =
     (if \<not> found then (-1, s)
      else if \<not> lookup ''pubadc_bat_id'' then (-1, s)
      else if \<not> lookup ''pubadc_liquid'' then (-1, s)
      else (0, s\<lparr>pubadc_mux := PUBADC_BAT_ID\<rparr>))"

definition pubadc_get_auxadc_channel :: "bool \<Rightarrow> int" where
  "pubadc_get_auxadc_channel found = (if found then 0 else -1)"

definition pubadc_probe :: "u8 option \<Rightarrow> id_gpio \<Rightarrow> id_gpio \<Rightarrow> bool \<Rightarrow> (string \<Rightarrow> bool) \<Rightarrow> bool \<Rightarrow> pubadc \<Rightarrow> int \<times> pubadc" where
  "pubadc_probe dts_id g0 g1 found lookup channel s =
     (let failed = (\<lambda>s. (- ENODEV, s\<lparr>init_state := False\<rparr>)) in
      if \<not> pubadc_check_id dts_id g0 g1 then failed s
      else let (ret, s) = pubadc_pinctrl_init found lookup s
           in if ret \<noteq> 0 then failed s
              else if pubadc_get_auxadc_channel channel \<noteq> 0 then failed s
              else (0, s\<lparr>init_state := True\<rparr>))"

section \<open>Every read sees its own input\<close>

text \<open>The multiplexer agrees with the last kind of read.\<close>

definition pubadc_ok :: "pubadc \<Rightarrow> bool" where
  "pubadc_ok s \<longleftrightarrow> last_pubadc_type s \<noteq> PUBADC_NONE \<and> pubadc_mux s = last_pubadc_type s"

lemma pubadc_read:
  assumes "init_state s" "pubadc_ok s" "type \<noteq> PUBADC_NONE"
  shows "\<exists>s'. pubadc_iio_read_channel conv s type = (conv (Some type), s') \<and> init_state s' \<and> pubadc_ok s'"
  using assms by (cases type) (auto simp: pubadc_iio_read_channel_def pubadc_ok_def Let_def)

lemma pubadc_probe_ok:
  "pubadc_probe dts_id g0 g1 found lookup channel s = (0, s') \<Longrightarrow> last_pubadc_type s = PUBADC_BAT_ID \<Longrightarrow> init_state s' \<and> pubadc_ok s'"
  by (auto simp: pubadc_probe_def pubadc_pinctrl_init_def pubadc_ok_def errno_defs Let_def split: if_splits)

fun pubadc_reads :: "(nat \<Rightarrow> pubadc_type option \<Rightarrow> int \<times> int) \<Rightarrow> nat \<Rightarrow> pubadc \<Rightarrow> pubadc_type list \<Rightarrow> (int \<times> int) list \<times> pubadc" where
  "pubadc_reads conv k s [] = ([], s)"
| "pubadc_reads conv k s (t # ts) =
     (let (v, s) = pubadc_iio_read_channel (conv k) s t; (vs, s) = pubadc_reads conv (Suc k) s ts in (v # vs, s))"

text \<open>C40: after the first successful probe any sequence of battery and liquid reads gives each user the
  value of its own input.\<close>

theorem pubadc_reads_own_input:
  assumes "pubadc_probe dts_id g0 g1 found lookup channel s0 = (0, s)" "last_pubadc_type s0 = PUBADC_BAT_ID"
    "PUBADC_NONE \<notin> set ts"
  shows "fst (pubadc_reads conv k s ts) = map (\<lambda>i. conv (k + i) (Some (ts ! i))) [0..<length ts]"
proof -
  have "init_state s \<and> pubadc_ok s" using pubadc_probe_ok [OF assms(1,2)] .
  then show ?thesis using assms(3)
  proof (induction ts arbitrary: k s)
    case (Cons t ts)
    then have "init_state s" "pubadc_ok s" "t \<noteq> PUBADC_NONE" by auto
    from pubadc_read [OF this, of "conv k"] obtain s' where "pubadc_iio_read_channel (conv k) s t = (conv k (Some t), s')" "init_state s'" "pubadc_ok s'" by blast
    moreover from this Cons have "fst (pubadc_reads conv (Suc k) s' ts) = map (\<lambda>i. conv (Suc k + i) (Some (ts ! i))) [0..<length ts]" by simp
    moreover have "map (\<lambda>i. conv (k + i) (Some ((t # ts) ! i))) [0..<length (t # ts)]
        = conv k (Some t) # map (\<lambda>i. conv (Suc k + i) (Some (ts ! i))) [0..<length ts]"
      by (simp add: upt_conv_Cons map_Suc_upt [symmetric] del: upt_Suc)
    ultimately show ?case by (simp add: case_prod_beta)
  qed simp
qed

theorem pubadc_reads_own_input_witness:
  "fst (pubadc_reads (\<lambda>k m. (0, if m = Some PUBADC_LIQUID then 1200 else 300))
      7 (snd (pubadc_probe (Some 2) (True, 0, 0) (True, 0, 1) True (\<lambda>_. True) True
          \<lparr>init_state = False, last_pubadc_type = PUBADC_BAT_ID, pubadc_mux = PUBADC_NONE\<rparr>)) [PUBADC_LIQUID, PUBADC_BAT_ID, PUBADC_LIQUID])
    = [(0, 1200), (0, 300), (0, 1200)]"
proof -
  let ?p = "pubadc_probe (Some 2) (True, 0, 0) (True, 0, 1) True (\<lambda>_. True) True
          \<lparr>init_state = False, last_pubadc_type = PUBADC_BAT_ID, pubadc_mux = PUBADC_NONE\<rparr>"
  have "?p = (0, snd ?p)" by (simp add: pubadc_probe_def pubadc_check_id_def pubadc_get_id_def pubadc_pinctrl_init_def pubadc_get_auxadc_channel_def)
  from pubadc_reads_own_input [OF this, of "[PUBADC_LIQUID, PUBADC_BAT_ID, PUBADC_LIQUID]" "\<lambda>k m. (0, if m = Some PUBADC_LIQUID then 1200 else 300)" 7]
  show ?thesis by (simp add: upt_rec)
qed

end
