(* ===== verification/Amzn_Ld.thy ===== *)
theory Amzn_Ld
  imports Liquid_Port Pubadc
begin

text \<open>
  The liquid detection driver without a chip of its own, \<^verbatim>\<open>drivers/usb/typec/amzn_ld/amzn_ld.c\<close>: it
  selects an SBU line with a switch, may pull it, and reads its voltage through the shared analog input
  (\<^verbatim>\<open>Pubadc\<close>). The driver data extend the port of \<^verbatim>\<open>Liquid_Port\<close>. The converter is a parameter: the
  outcome of each conversion, numbered, at the position of the multiplexer and of the pins. The theory
  shows that the works refine the abstract port, that liquid is reported after exactly the configured
  number of detections, that a failing converter changes no reported state, and that probing releases
  what it acquired.
\<close>

section \<open>State\<close>

record adc_step_val =
  sbu1_step1_val :: int
  sbu1_step2_val :: int
  sbu2_step1_val :: int
  sbu2_step2_val :: int

record liquid = ld_port +
  gpio_reverse_ctrl :: bool
  lq_work_interval :: "int list"
  lq_threshold :: "int list" \<comment> \<open>low and high, unsigned\<close>
  lq_steps :: adc_step_val
  lq_adc_ch :: bool \<comment> \<open>channel is not NULL\<close>
  lq_sbu1 :: bool \<comment> \<open>the switch selects SBU1\<close>
  lq_pull1 :: bool \<comment> \<open>level of the pull pin of SBU1\<close>
  lq_pull2 :: bool
  lq_pubadc :: pubadc
  lq_conversions :: nat
  wet_count_threshold :: int
  wet_count :: int \<comment> \<open>an unsigned int\<close>
  wet_adc :: int
  falsepositive_ts :: int
  lq_vitals :: "int list"

text \<open>The pins of a conversion: SBU1 selected, the two pull levels.\<close>

type_synonym adc = "nat \<Rightarrow> pubadc_type option \<Rightarrow> bool \<times> bool \<times> bool \<Rightarrow> int \<times> int"

datatype LD_DETECTION_SWITCH = DETECTION_SBU1 | DETECTION_SBU2
datatype LD_SBU_PULL = SBU1_PULL_UP | SBU1_PULL_DOWN | SBU2_PULL_UP | SBU2_PULL_DOWN
datatype LD_STATE_CHANGE = STATE_DRY | STATE_DRY_TO_WET | STATE_WET_TO_DRY | STATE_WET

definition ADC_MAX_MV :: int where "ADC_MAX_MV = 1500"

section \<open>Measurements\<close>

definition liquid_get_auxadc_value :: "adc \<Rightarrow> liquid \<Rightarrow> int \<times> liquid" where
  "liquid_get_auxadc_value adc s =
     (if \<not> lq_adc_ch s then (- EINVAL, s)
      else let ((ret, auxadc_cali_mv), pa) =
                 pubadc_iio_read_channel (\<lambda>m. adc (lq_conversions s) m (lq_sbu1 s, lq_pull1 s, lq_pull2 s)) (lq_pubadc s) PUBADC_LIQUID;
               s = s\<lparr>lq_pubadc := pa, lq_conversions := Suc (lq_conversions s)\<rparr>
           in (if ret < 0 then ret else auxadc_cali_mv, s))"

definition liquid_select_detection_switch :: "liquid \<Rightarrow> LD_DETECTION_SWITCH \<Rightarrow> liquid" where
  "liquid_select_detection_switch s switch_val =
     (case switch_val of DETECTION_SBU1 \<Rightarrow> s\<lparr>lq_sbu1 := True\<rparr> | DETECTION_SBU2 \<Rightarrow> s\<lparr>lq_sbu1 := False\<rparr>)"

definition liquid_en_pull_sbu :: "liquid \<Rightarrow> LD_SBU_PULL \<Rightarrow> liquid" where
  "liquid_en_pull_sbu s pull_val =
     (case pull_val of SBU1_PULL_UP \<Rightarrow> s\<lparr>lq_pull1 := True\<rparr> | SBU1_PULL_DOWN \<Rightarrow> s\<lparr>lq_pull1 := False\<rparr>
      | SBU2_PULL_UP \<Rightarrow> s\<lparr>lq_pull2 := True\<rparr> | SBU2_PULL_DOWN \<Rightarrow> s\<lparr>lq_pull2 := False\<rparr>)"

definition liquid_is_in_range :: "int \<Rightarrow> int \<Rightarrow> int \<Rightarrow> bool" where
  "liquid_is_in_range mv range_l range_h \<longleftrightarrow> mv \<ge> range_l \<and> mv \<le> range_h"

definition liquid_get_step1_adcval :: "adc \<Rightarrow> liquid \<Rightarrow> liquid" where
  "liquid_get_step1_adcval adc s =
     (let s = liquid_select_detection_switch s DETECTION_SBU1;
          (v, s) = liquid_get_auxadc_value adc s; s = s\<lparr>lq_steps := (lq_steps s)\<lparr>sbu1_step1_val := v\<rparr>\<rparr>;
          s = liquid_select_detection_switch s DETECTION_SBU2;
          (v, s) = liquid_get_auxadc_value adc s
      in s\<lparr>lq_steps := (lq_steps s)\<lparr>sbu2_step1_val := v\<rparr>\<rparr>)"

definition liquid_get_step2_adcval :: "adc \<Rightarrow> liquid \<Rightarrow> liquid" where
  "liquid_get_step2_adcval adc s =
     (let s = liquid_select_detection_switch s DETECTION_SBU1;
          s = liquid_en_pull_sbu s (if gpio_reverse_ctrl s then SBU1_PULL_DOWN else SBU1_PULL_UP);
          (v, s) = liquid_get_auxadc_value adc s; s = s\<lparr>lq_steps := (lq_steps s)\<lparr>sbu1_step2_val := v\<rparr>\<rparr>;
          s = liquid_en_pull_sbu s (if gpio_reverse_ctrl s then SBU1_PULL_UP else SBU1_PULL_DOWN);
          s = liquid_select_detection_switch s DETECTION_SBU2;
          s = liquid_en_pull_sbu s (if gpio_reverse_ctrl s then SBU2_PULL_DOWN else SBU2_PULL_UP);
          (v, s) = liquid_get_auxadc_value adc s; s = s\<lparr>lq_steps := (lq_steps s)\<lparr>sbu2_step2_val := v\<rparr>\<rparr>
      in liquid_en_pull_sbu s (if gpio_reverse_ctrl s then SBU2_PULL_UP else SBU2_PULL_DOWN))"

definition liquid_clear_sbuval :: "liquid \<Rightarrow> int \<Rightarrow> int \<Rightarrow> liquid" where
  "liquid_clear_sbuval s step1_val step2_val =
     s\<lparr>lq_steps := \<lparr>sbu1_step1_val = step1_val, sbu1_step2_val = step2_val, sbu2_step1_val = step1_val, sbu2_step2_val = step2_val\<rparr>\<rparr>"

section \<open>Reports\<close>

definition liquid_is_dry :: "ld_env \<Rightarrow> liquid \<Rightarrow> liquid" where
  "liquid_is_dry = ld_go_dry"

definition liquid_is_wet :: "ld_env \<Rightarrow> liquid \<Rightarrow> liquid" where
  "liquid_is_wet = ld_go_wet"

definition metrics_log_report_falsepositive :: "ld_env \<Rightarrow> liquid \<Rightarrow> liquid" where
  "metrics_log_report_falsepositive env s =
     (let duration_hour = s32 ((le_now env - falsepositive_ts s) sdiv 3600)
      in if falsepositive_ts s = 0 \<or> duration_hour \<ge> 2
         then s\<lparr>falsepositive_ts := le_now env, lq_vitals := lq_vitals s @ [wet_adc s]\<rparr> else s)"

definition debounce_report_event :: "ld_env \<Rightarrow> liquid \<Rightarrow> LD_STATE_CHANGE \<Rightarrow> liquid" where
  "debounce_report_event env s event =
     (case event of
        STATE_DRY \<Rightarrow>
          if wet_count s \<noteq> 0 \<and> wet_count s < wet_count_threshold s
          then metrics_log_report_falsepositive env (s\<lparr>wet_count := 0\<rparr>) else s
      | STATE_DRY_TO_WET \<Rightarrow>
          let s = s\<lparr>wet_count := u32w (wet_count s + 1)\<rparr>
          in if wet_count s \<ge> wet_count_threshold s then liquid_is_wet env (s\<lparr>wet_count := 0\<rparr>) else s
      | STATE_WET \<Rightarrow> s
      | STATE_WET_TO_DRY \<Rightarrow> liquid_is_dry env s)"

section \<open>The routine work\<close>

text \<open>Whether one of the lines of step 1 is in the range of liquid.\<close>

definition step1_wet :: "liquid \<Rightarrow> bool" where
  "step1_wet s \<longleftrightarrow> liquid_is_in_range (sbu1_step1_val (lq_steps s)) (s32 (lq_threshold s ! 0)) ADC_MAX_MV \<or>
     liquid_is_in_range (sbu2_step1_val (lq_steps s)) (s32 (lq_threshold s ! 0)) ADC_MAX_MV"

definition step2_dry :: "liquid \<Rightarrow> bool" where
  "step2_dry s \<longleftrightarrow> liquid_is_in_range (sbu1_step2_val (lq_steps s)) (s32 (lq_threshold s ! 1)) ADC_MAX_MV \<and>
     liquid_is_in_range (sbu2_step2_val (lq_steps s)) (s32 (lq_threshold s ! 1)) ADC_MAX_MV"

definition liquid_dry_work :: "ld_env \<Rightarrow> adc \<Rightarrow> liquid \<Rightarrow> liquid" where
  "liquid_dry_work env adc s =
     (if step1_wet s
      then let s = liquid_get_step1_adcval adc s
           in if step1_wet s
              then debounce_report_event env
                     (s\<lparr>wet_adc := (if sbu1_step1_val (lq_steps s) > sbu2_step1_val (lq_steps s)
                                    then sbu1_step1_val (lq_steps s) else sbu2_step1_val (lq_steps s))\<rparr>) STATE_DRY_TO_WET
              else debounce_report_event env s STATE_DRY
      else debounce_report_event env s STATE_DRY)"

definition liquid_wet_work :: "ld_env \<Rightarrow> adc \<Rightarrow> liquid \<Rightarrow> liquid" where
  "liquid_wet_work env adc s =
     (if step1_wet s then debounce_report_event env s STATE_WET
      else let s = liquid_get_step2_adcval adc s
           in debounce_report_event env s (if step2_dry s then STATE_WET_TO_DRY else STATE_WET))"

definition liquid_select_interval :: "liquid \<Rightarrow> int \<Rightarrow> int" where
  "liquid_select_interval s state = s32 (ld_select_interval (lq_work_interval s) state)"

definition liquid_routine_work :: "ld_env \<Rightarrow> adc \<Rightarrow> liquid \<Rightarrow> int \<times> liquid" where
  "liquid_routine_work env adc s =
     (if \<not> le_running env then (RECHECK_DELAY_SEC, s)
      else let state = st_switch s;
               s = liquid_get_step1_adcval adc (liquid_clear_sbuval s 0 1499);
               s = (if state = TYPE_DRY then liquid_dry_work env adc s else liquid_wet_work env adc s)
           in (liquid_select_interval s state, s))"

definition liquid_vbus_detect :: "ld_env \<Rightarrow> liquid \<Rightarrow> liquid" where
  "liquid_vbus_detect = ld_vbus_detect"

text \<open>The stores of the thresholds.\<close>

definition threshod_store :: "nat \<Rightarrow> liquid \<Rightarrow> int option \<Rightarrow> int \<Rightarrow> int \<times> liquid" where
  "threshod_store which s parsed len =
     (case parsed of None \<Rightarrow> (- EINVAL, s) | Some v \<Rightarrow> (len, s\<lparr>lq_threshold := (lq_threshold s)[which := v]\<rparr>))"

section \<open>Set-up\<close>

record liquid_dt =
  ldt_work_interval :: "(int \<times> int \<times> int) option"
  ldt_threshold :: "(int \<times> int) option"
  ldt_gpio_reverse_ctrl :: bool
  ldt_wet_count_threshold :: "int option"

definition liquid_parse_dt :: "liquid_dt \<Rightarrow> liquid \<Rightarrow> liquid" where
  "liquid_parse_dt dt s =
     (let (d, w, v) = (case ldt_work_interval dt of None \<Rightarrow> (15, 30, 60) | Some t \<Rightarrow> t);
          (l, h) = (case ldt_threshold dt of None \<Rightarrow> (120, 1450) | Some t \<Rightarrow> t)
      in s\<lparr>lq_work_interval := [d, w, v], lq_threshold := [l, h], gpio_reverse_ctrl := ldt_gpio_reverse_ctrl dt,
           wet_count_threshold := (case ldt_wet_count_threshold dt of None \<Rightarrow> 2 | Some n \<Rightarrow> n)\<rparr>)"

text \<open>
  The pin states, in the order they are looked up, and the one whose pointer is tested after each
  lookup: the test after \<^verbatim>\<open>lddetection1_low\<close> looks at \<^verbatim>\<open>lddetection1_init\<close>. The levels of the three
  initial states come from the device tree.
\<close>

definition liquid_pin_states :: "(string \<times> string) list" where
  "liquid_pin_states = [(''ldctrl1_init'', ''ldctrl1_init''), (''ldctrl1_low'', ''ldctrl1_low''), (''ldctrl1_high'', ''ldctrl1_high''),
     (''lddetection1_init'', ''lddetection1_init''), (''lddetection1_low'', ''lddetection1_init''), (''lddetection1_high'', ''lddetection1_high''),
     (''lddetection2_init'', ''lddetection2_init''), (''lddetection2_low'', ''lddetection2_low''), (''lddetection2_high'', ''lddetection2_high'')]"

definition liquid_pinctrl_init :: "bool \<Rightarrow> (string \<Rightarrow> bool) \<Rightarrow> bool \<times> bool \<times> bool \<Rightarrow> liquid \<Rightarrow> int \<times> liquid" where
  "liquid_pinctrl_init found lookup levels s =
     (if \<not> found then (-1, s)
      else if \<exists>(_, tested)\<in>set liquid_pin_states. \<not> lookup tested then (-1, s)
      else let (sbu1, pull1, pull2) = levels in (0, s\<lparr>lq_sbu1 := sbu1, lq_pull1 := pull1, lq_pull2 := pull2\<rparr>))"

definition liquid_attrs :: "string list" where
  "liquid_attrs = [''sbu1_step1_val'', ''sbu2_step1_val'', ''sbu1_step2_val'', ''sbu2_step2_val'', ''threshod_l'', ''threshod_h'']"

text \<open>The files are created in order; a failure removes that file and all before it, last first.\<close>

fun create_attrs :: "(string \<Rightarrow> int) \<Rightarrow> string list \<Rightarrow> string list \<Rightarrow> string set \<Rightarrow> int \<times> string set" where
  "create_attrs create done [] files = (0, files)"
| "create_attrs create done (a # as) files =
     (if create a < 0 then (create a, foldr (\<lambda>x fs. fs - {x}) (done @ [a]) files)
      else create_attrs create (done @ [a]) as (insert a files))"

definition liquid_create_attr :: "(string \<Rightarrow> int) \<Rightarrow> string set \<Rightarrow> int \<times> string set" where
  "liquid_create_attr create files = create_attrs create [] liquid_attrs files"

definition liquid_delete_attr :: "string set \<Rightarrow> string set" where
  "liquid_delete_attr files = foldl (\<lambda>fs x. fs - {x}) files liquid_attrs"

definition liquid_get_id :: "id_gpio \<Rightarrow> id_gpio \<Rightarrow> u8" where
  "liquid_get_id g0 g1 =
     (let (valid0, req0, id0) = g0; (valid1, req1, id1) = g1
      in if \<not> valid0 then 0 else if req0 \<noteq> 0 then 0
         else if \<not> valid1 then 0 else if req1 \<noteq> 0 then 0
         else word_of_int (push_bit 1 id1 OR id0))"

definition liquid_check_id :: "bool \<Rightarrow> u8 option \<Rightarrow> id_gpio \<Rightarrow> id_gpio \<Rightarrow> bool" where
  "liquid_check_id ignore dts_id g0 g1 =
     (if ignore then True else case dts_id of None \<Rightarrow> False | Some i \<Rightarrow> i = liquid_get_id g0 g1)"

text \<open>What the kernel answers during probing, and what the driver holds of it.\<close>

record probe_env =
  pe_alloc :: bool
  pe_channel :: bool
  pe_tcpc :: bool
  pe_charger :: bool
  pe_pinctrl :: bool
  pe_lookup :: "string \<Rightarrow> bool"
  pe_levels :: "bool \<times> bool \<times> bool"
  pe_dt :: liquid_dt
  pe_switch :: int
  pe_attr :: "string \<Rightarrow> int"
  pe_now :: int

record liquid_held =
  h_memory :: bool
  h_channel :: bool
  h_notifier :: bool
  h_switch :: bool
  h_files :: "string set"
  h_queued :: bool
  g_liquid :: "liquid option"

definition liquid_zero :: liquid where
  "liquid_zero = \<lparr>st_switch = 0, switch_uevents = [], ld_role = None, ld_limit = None, ld_chg_psy = False, ld_bat_psy = False,
     ld_event_ts = 0, ld_metrics = [], gpio_reverse_ctrl = False, lq_work_interval = [0, 0, 0], lq_threshold = [0, 0],
     lq_steps = \<lparr>sbu1_step1_val = 0, sbu1_step2_val = 0, sbu2_step1_val = 0, sbu2_step2_val = 0\<rparr>, lq_adc_ch = False, lq_sbu1 = False,
     lq_pull1 = False, lq_pull2 = False, lq_pubadc = \<lparr>init_state = False, last_pubadc_type = PUBADC_BAT_ID, pubadc_mux = PUBADC_NONE\<rparr>,
     lq_conversions = 0, wet_count_threshold = 0, wet_count = 0, wet_adc = 0, falsepositive_ts = 0, lq_vitals = []\<rparr>"

definition liquid_probe :: "probe_env \<Rightarrow> pubadc \<Rightarrow> liquid_held \<Rightarrow> int \<times> liquid_held" where
  "liquid_probe pe pa h =
     (if \<not> pe_alloc pe then (- ENOMEM, h)
      else let h = h\<lparr>h_memory := True\<rparr>;
               free = (\<lambda>h. h\<lparr>h_memory := False\<rparr>);
               unregister = (\<lambda>h. h\<lparr>h_notifier := False, h_memory := False\<rparr>) in
      if \<not> get_pubadc_init_state pa then (- ENODEV, free h)
      else if \<not> pe_channel pe then (- EPROBE_DEFER, free h)
      else let h = h\<lparr>h_channel := True\<rparr> in
      if \<not> pe_tcpc pe then (- EPROBE_DEFER, free h)
      else if \<not> pe_charger pe then (- EPROBE_DEFER, free h)
      else let h = h\<lparr>h_notifier := True\<rparr>;
               (ret, s) = liquid_pinctrl_init (pe_pinctrl pe) (pe_lookup pe) (pe_levels pe) (liquid_zero\<lparr>lq_adc_ch := True, lq_pubadc := pa\<rparr>) in
      if ret \<noteq> 0 then (- ENODEV, unregister h)
      else let s = liquid_parse_dt (pe_dt pe) s in
      if pe_switch pe \<noteq> 0 then (pe_switch pe, unregister h)
      else let h = h\<lparr>h_switch := True\<rparr>; (ret, files) = liquid_create_attr (pe_attr pe) (h_files h); h = h\<lparr>h_files := files\<rparr> in
      if ret < 0 then (ret, unregister (h\<lparr>h_switch := False\<rparr>))
      else (0, h\<lparr>g_liquid := Some (s\<lparr>ld_event_ts := pe_now pe\<rparr>), h_queued := True\<rparr>))"

section \<open>Refinement of the abstract port\<close>

lemma lq_value_frame [simp]:
  "view (snd (liquid_get_auxadc_value adc s)) = view s" "lq_threshold (snd (liquid_get_auxadc_value adc s)) = lq_threshold s"
  "lq_pull1 (snd (liquid_get_auxadc_value adc s)) = lq_pull1 s" "lq_pull2 (snd (liquid_get_auxadc_value adc s)) = lq_pull2 s"
  "wet_count (snd (liquid_get_auxadc_value adc s)) = wet_count s" "wet_count_threshold (snd (liquid_get_auxadc_value adc s)) = wet_count_threshold s"
  "lq_adc_ch (snd (liquid_get_auxadc_value adc s)) = lq_adc_ch s" "lq_steps (snd (liquid_get_auxadc_value adc s)) = lq_steps s"
  "gpio_reverse_ctrl (snd (liquid_get_auxadc_value adc s)) = gpio_reverse_ctrl s"
  by (simp_all add: liquid_get_auxadc_value_def view_def Let_def case_prod_beta)

lemma lq_upd_view [simp]: "view (s\<lparr>lq_steps := v\<rparr>) = view s" "view (s\<lparr>wet_count := n\<rparr>) = view s" "view (s\<lparr>wet_adc := i\<rparr>) = view s"
  "view (liquid_select_detection_switch s sw) = view s" "view (liquid_en_pull_sbu s pu) = view s" "view (liquid_clear_sbuval s a b) = view s"
  "view (metrics_log_report_falsepositive env s) = view s"
  by (simp_all add: view_def liquid_select_detection_switch_def liquid_en_pull_sbu_def liquid_clear_sbuval_def
      metrics_log_report_falsepositive_def Let_def split: LD_DETECTION_SWITCH.split LD_SBU_PULL.split)

lemma lq_step_view [simp]: "view (liquid_get_step1_adcval adc s) = view s" "view (liquid_get_step2_adcval adc s) = view s"
  by (simp_all add: liquid_get_step1_adcval_def liquid_get_step2_adcval_def Let_def case_prod_beta)

lemma debounce_view:
  assumes "good_env env"
  shows "view (debounce_report_event env s STATE_DRY) = view s" "view (debounce_report_event env s STATE_WET) = view s"
    "view (debounce_report_event env s STATE_WET_TO_DRY) = (TYPE_DRY, Some ROLE_TRY_SNK, Some (-1))"
    "\<exists>w\<in>{TYPE_WET, TYPE_WET_VBUS}. view (debounce_report_event env s STATE_DRY_TO_WET)
      = (if wet_count_threshold s \<le> u32w (wet_count s + 1) then (w, Some ROLE_SNK, Some IUSB_LIMITATION_UA) else view s)"
  using go_wet_view [OF assms, of "s\<lparr>wet_count := 0\<rparr>"] go_dry_view [OF assms, of s]
  by (simp_all add: debounce_report_event_def liquid_is_wet_def liquid_is_dry_def Let_def)

lemma lq_routine_step:
  assumes "good_env env" "st_switch s \<in> {TYPE_DRY, TYPE_WET, TYPE_WET_VBUS}"
  shows "port_step (view s) (view (snd (liquid_routine_work env adc s)))"
proof (cases "le_running env")
  case True
  define s1 where "s1 = liquid_get_step1_adcval adc (liquid_clear_sbuval s 0 1499)"
  have v: "view s1 = view s" by (simp add: s1_def)
  have "port_step (view s) (view (liquid_dry_work env adc s1))" if "st_switch s = TYPE_DRY"
  proof -
    have dw: "port_step (view s) (view (debounce_report_event env s' STATE_DRY_TO_WET))" if "view s' = view s" for s'
    proof -
      obtain w where "w \<in> {TYPE_WET, TYPE_WET_VBUS}" "view (debounce_report_event env s' STATE_DRY_TO_WET)
          = (if wet_count_threshold s' \<le> u32w (wet_count s' + 1) then (w, Some ROLE_SNK, Some IUSB_LIMITATION_UA) else view s')"
        using debounce_view(4) [OF assms(1), of s'] by blast
      then show ?thesis using \<open>st_switch s = TYPE_DRY\<close> that by (auto simp: view_def port_step.idle intro: port_step.found)
    qed
    show ?thesis unfolding liquid_dry_work_def Let_def using v by (auto simp: debounce_view [OF assms(1)] port_step.idle intro!: dw)
  qed
  moreover have "port_step (view s) (view (liquid_wet_work env adc s1))" if "st_switch s \<noteq> TYPE_DRY"
    using that v by (auto simp: liquid_wet_work_def Let_def debounce_view [OF assms(1)] port_step.idle)
      (auto simp: view_def port_step.dried)
  ultimately show ?thesis using True by (simp add: liquid_routine_work_def Let_def s1_def)
qed (simp add: liquid_routine_work_def port_step.idle)

datatype lq_event = LqRoutine ld_env adc | LqVbus ld_env | LqThreshold nat "int option" int

fun liquid_work :: "lq_event \<Rightarrow> liquid \<Rightarrow> liquid" where
  "liquid_work (LqRoutine env adc) s = snd (liquid_routine_work env adc s)"
| "liquid_work (LqVbus env) s = liquid_vbus_detect env s"
| "liquid_work (LqThreshold which parsed len) s = snd (threshod_store which s parsed len)"

fun lq_good :: "lq_event \<Rightarrow> bool" where
  "lq_good (LqRoutine env adc) = good_env env"
| "lq_good (LqVbus env) = True"
| "lq_good (LqThreshold which parsed len) = True"

interpretation lq: port_detector liquid_work view lq_good "\<lambda>_. True"
proof (unfold_locales, goal_cases)
  case (1 e s)
  then have "st_switch s \<in> {TYPE_DRY, TYPE_WET, TYPE_WET_VBUS}" by (simp add: view_def)
  moreover have "view (snd (threshod_store which s parsed len)) = view s" for which parsed len
    by (simp add: threshod_store_def view_def split: option.split)
  ultimately show ?case using 1 by (cases e) (simp_all add: liquid_vbus_detect_def vbus_detect_step lq_routine_step port_step.idle)
qed simp

section \<open>Detection of liquid\<close>

text \<open>The driver is set up to convert, and the configuration the routine work keeps in a dry port.\<close>

definition lq_ready :: "liquid \<Rightarrow> bool" where
  "lq_ready s \<longleftrightarrow> lq_adc_ch s \<and> init_state (lq_pubadc s) \<and> pubadc_ok (lq_pubadc s)"

definition lq_conf :: "liquid \<Rightarrow> int list \<times> bool \<times> bool \<times> int" where
  "lq_conf s = (lq_threshold s, lq_pull1 s, lq_pull2 s, wet_count_threshold s)"

text \<open>Every conversion of a line (SBU1 for \<open>True\<close>) succeeds with a voltage in the range of liquid.\<close>

definition liquid_on :: "adc \<Rightarrow> bool \<Rightarrow> liquid \<Rightarrow> bool" where
  "liquid_on adc line s \<longleftrightarrow> (\<forall>k. case adc k (Some PUBADC_LIQUID) (line, lq_pull1 s, lq_pull2 s) of
     (ret, mv) \<Rightarrow> 0 \<le> ret \<and> s32 (lq_threshold s ! 0) \<le> mv \<and> mv \<le> ADC_MAX_MV)"

lemma lq_value:
  assumes "lq_ready s"
  shows "fst (liquid_get_auxadc_value adc s) = (case adc (lq_conversions s) (Some PUBADC_LIQUID) (lq_sbu1 s, lq_pull1 s, lq_pull2 s) of
      (ret, mv) \<Rightarrow> if ret < 0 then ret else mv)" "lq_ready (snd (liquid_get_auxadc_value adc s))"
proof -
  obtain pa where "pubadc_iio_read_channel (\<lambda>m. adc (lq_conversions s) m (lq_sbu1 s, lq_pull1 s, lq_pull2 s)) (lq_pubadc s) PUBADC_LIQUID
      = (adc (lq_conversions s) (Some PUBADC_LIQUID) (lq_sbu1 s, lq_pull1 s, lq_pull2 s), pa)" "init_state pa" "pubadc_ok pa"
    using pubadc_read [of "lq_pubadc s" PUBADC_LIQUID] assms unfolding lq_ready_def by blast
  then show "fst (liquid_get_auxadc_value adc s) = (case adc (lq_conversions s) (Some PUBADC_LIQUID) (lq_sbu1 s, lq_pull1 s, lq_pull2 s) of
      (ret, mv) \<Rightarrow> if ret < 0 then ret else mv)" "lq_ready (snd (liquid_get_auxadc_value adc s))"
    using assms by (simp_all add: liquid_get_auxadc_value_def lq_ready_def Let_def case_prod_beta)
qed

lemma lq_ready_upd [simp]: "lq_ready (s\<lparr>lq_steps := v\<rparr>) = lq_ready s" "lq_ready (s\<lparr>wet_count := n\<rparr>) = lq_ready s"
  "lq_ready (s\<lparr>wet_adc := i\<rparr>) = lq_ready s" "lq_ready (liquid_select_detection_switch s sw) = lq_ready s" "lq_ready (liquid_clear_sbuval s a b) = lq_ready s"
  by (simp_all add: lq_ready_def liquid_select_detection_switch_def liquid_clear_sbuval_def split: LD_DETECTION_SWITCH.split)

lemma lq_step1_keeps:
  "lq_conf (liquid_get_step1_adcval adc s) = lq_conf s" "wet_count (liquid_get_step1_adcval adc s) = wet_count s"
  by (simp_all add: liquid_get_step1_adcval_def lq_conf_def liquid_select_detection_switch_def Let_def case_prod_beta)

lemma lq_step1_ready: "lq_ready s \<Longrightarrow> lq_ready (liquid_get_step1_adcval adc s)"
  by (simp add: liquid_get_step1_adcval_def lq_value(2) Let_def case_prod_beta)

lemma liquid_on_conf: "lq_conf s' = lq_conf s \<Longrightarrow> liquid_on adc line s' = liquid_on adc line s"
  by (simp add: liquid_on_def lq_conf_def)

lemma lq_step1_sees:
  assumes "lq_ready s" "liquid_on adc line s"
  shows "step1_wet (liquid_get_step1_adcval adc s)"
proof -
  have r: "lq_ready (s\<lparr>lq_sbu1 := b\<rparr>)" for b using assms(1) by (simp add: lq_ready_def)
  define s1 where "s1 = snd (liquid_get_auxadc_value adc (s\<lparr>lq_sbu1 := True\<rparr>))"
  have s1: "lq_ready s1" using lq_value(2) [OF r] by (simp add: s1_def)
  have in_range: "liquid_is_in_range (case adc k (Some PUBADC_LIQUID) (line, lq_pull1 s, lq_pull2 s) of (ret, mv) \<Rightarrow> if ret < 0 then ret else mv)
      (s32 (lq_threshold s ! 0)) ADC_MAX_MV" for k
    using assms(2) by (auto simp: liquid_on_def liquid_is_in_range_def split: prod.splits dest!: spec [of _ k])
  have v: "sbu1_step1_val (lq_steps (liquid_get_step1_adcval adc s)) = fst (liquid_get_auxadc_value adc (s\<lparr>lq_sbu1 := True\<rparr>))"
    by (simp add: liquid_get_step1_adcval_def liquid_select_detection_switch_def Let_def case_prod_beta)
  have v2: "\<exists>x. sbu2_step1_val (lq_steps (liquid_get_step1_adcval adc s)) = fst (liquid_get_auxadc_value adc (s1\<lparr>lq_steps := x, lq_sbu1 := False\<rparr>))"
    by (auto simp: liquid_get_step1_adcval_def liquid_select_detection_switch_def s1_def Let_def case_prod_beta)
  have t: "lq_threshold (liquid_get_step1_adcval adc s) = lq_threshold s" using lq_step1_keeps(1) [of adc s] by (simp add: lq_conf_def)
  show ?thesis
  proof (cases line)
    case True
    then show ?thesis using v in_range [of "lq_conversions s"] lq_value(1) [OF r, of adc True] by (simp add: step1_wet_def t)
  next
    case False
    from v2 obtain x where x: "sbu2_step1_val (lq_steps (liquid_get_step1_adcval adc s)) = fst (liquid_get_auxadc_value adc (s1\<lparr>lq_steps := x, lq_sbu1 := False\<rparr>))" by blast
    have "lq_ready (s1\<lparr>lq_steps := x, lq_sbu1 := False\<rparr>)" using s1 by (simp add: lq_ready_def)
    moreover have "lq_pull1 s1 = lq_pull1 s" "lq_pull2 s1 = lq_pull2 s" by (simp_all add: s1_def)
    ultimately show ?thesis using False x in_range [of "lq_conversions s1"] lq_value(1) [of "s1\<lparr>lq_steps := x, lq_sbu1 := False\<rparr>" adc] by (simp add: step1_wet_def t)
  qed
qed

lemma clear_conf [simp]: "lq_conf (liquid_clear_sbuval s a b) = lq_conf s" "wet_count (liquid_clear_sbuval s a b) = wet_count s"
  by (simp_all add: lq_conf_def liquid_clear_sbuval_def)

text \<open>A pass in which liquid is seen.\<close>

lemma lq_routine_sees:
  assumes "lq_ready s" "liquid_on adc line s" "st_switch s = TYPE_DRY" "le_running env"
  obtains s' where "snd (liquid_routine_work env adc s) = debounce_report_event env s' STATE_DRY_TO_WET"
    "lq_ready s'" "lq_conf s' = lq_conf s" "wet_count s' = wet_count s" "view s' = view s"
proof -
  define s1 where "s1 = liquid_get_step1_adcval adc (liquid_clear_sbuval s 0 1499)"
  define s2 where "s2 = liquid_get_step1_adcval adc s1"
  have s1: "lq_ready s1" "lq_conf s1 = lq_conf s" "wet_count s1 = wet_count s" "view s1 = view s" "step1_wet s1"
    using lq_step1_ready lq_step1_keeps lq_step1_sees [of "liquid_clear_sbuval s 0 1499" adc line] liquid_on_conf [of "liquid_clear_sbuval s 0 1499" s] assms(1,2)
    by (simp_all add: s1_def)
  have s2: "lq_ready s2" "lq_conf s2 = lq_conf s" "wet_count s2 = wet_count s" "view s2 = view s" "step1_wet s2"
    using lq_step1_ready [OF s1(1)] lq_step1_keeps [of adc s1] lq_step1_sees [OF s1(1), of adc line] liquid_on_conf [OF s1(2)] s1 assms(2)
    by (simp_all add: s2_def)
  let ?s' = "s2\<lparr>wet_adc := (if sbu1_step1_val (lq_steps s2) > sbu2_step1_val (lq_steps s2) then sbu1_step1_val (lq_steps s2) else sbu2_step1_val (lq_steps s2))\<rparr>"
  have "snd (liquid_routine_work env adc s) = debounce_report_event env ?s' STATE_DRY_TO_WET"
    using assms(3,4) s1(5) s2(5) unfolding liquid_routine_work_def Let_def s1_def [symmetric] by (simp add: liquid_dry_work_def Let_def s2_def)
  moreover have "lq_conf ?s' = lq_conf s2" "wet_count ?s' = wet_count s2" by (simp_all add: lq_conf_def)
  ultimately show ?thesis using s2 that [of ?s'] by simp
qed

lemma debounce_counts:
  "u32w (wet_count s + 1) < wet_count_threshold s \<Longrightarrow>
    debounce_report_event env s STATE_DRY_TO_WET = s\<lparr>wet_count := u32w (wet_count s + 1)\<rparr>"
  by (simp add: debounce_report_event_def)

definition lq_passes :: "ld_env \<Rightarrow> adc \<Rightarrow> nat \<Rightarrow> liquid \<Rightarrow> liquid" where
  "lq_passes env adc k s = fold liquid_work (replicate k (LqRoutine env adc)) s"

lemma lq_passes_Suc: "lq_passes env adc (Suc k) s = snd (liquid_routine_work env adc (lq_passes env adc k s))"
  unfolding lq_passes_def replicate_Suc replicate_append_same [symmetric] by simp

lemma lq_conf_count: "lq_conf (s\<lparr>wet_count := n\<rparr>) = lq_conf s"
  by (simp add: lq_conf_def)

lemma lq_conf_threshold: "lq_conf r = lq_conf s \<Longrightarrow> wet_count_threshold r = wet_count_threshold s"
  by (simp add: lq_conf_def)

text \<open>The next pass, from a port that was reported dry so far.\<close>

lemma lq_pass_sees:
  assumes "lq_ready r0" "lq_conf r0 = lq_conf s" "view r0 = view s" "liquid_on adc line s" "st_switch s = TYPE_DRY" "le_running env"
  obtains r where "snd (liquid_routine_work env adc r0) = debounce_report_event env r STATE_DRY_TO_WET"
    "lq_ready r" "lq_conf r = lq_conf s" "wet_count r = wet_count r0" "view r = view s"
proof -
  have "st_switch r0 = TYPE_DRY" "liquid_on adc line r0" using assms(3-5) liquid_on_conf [OF assms(2)] by (simp_all add: view_def)
  from lq_routine_sees [OF assms(1) this(2,1) assms(6)] that assms(2,3) show ?thesis by metis
qed

lemma lq_passes_count:
  assumes "lq_ready s" "liquid_on adc line s" "st_switch s = TYPE_DRY" "wet_count s = 0" "le_running env" "wet_count_threshold s < 4294967296"
    "k < nat (wet_count_threshold s)"
  shows "lq_ready (lq_passes env adc k s) \<and> lq_conf (lq_passes env adc k s) = lq_conf s \<and> view (lq_passes env adc k s) = view s \<and>
    wet_count (lq_passes env adc k s) = int k"
  using assms(7)
proof (induction k)
  case 0
  then show ?case using assms(1,4) by (simp add: lq_passes_def)
next
  case (Suc k)
  then have ih: "lq_ready (lq_passes env adc k s)" "lq_conf (lq_passes env adc k s) = lq_conf s" "view (lq_passes env adc k s) = view s"
    "wet_count (lq_passes env adc k s) = int k" by auto
  from lq_pass_sees [OF ih(1-3) assms(2,3,5)] obtain r where r:
    "lq_passes env adc (Suc k) s = debounce_report_event env r STATE_DRY_TO_WET" "lq_ready r" "lq_conf r = lq_conf s" "wet_count r = int k" "view r = view s"
    unfolding lq_passes_Suc ih(4) by blast
  have w: "u32w (wet_count r + 1) = int (Suc k)" using r(4) Suc.prems assms(6) by (subst u32w_id) auto
  have "lq_passes env adc (Suc k) s = r\<lparr>wet_count := int (Suc k)\<rparr>"
    using debounce_counts [of r env] r(1) w lq_conf_threshold [OF r(3)] Suc.prems by simp
  then show ?case using r(2,3,5) lq_conf_count by simp
qed

text \<open>C10: liquid that stays on one of the lines is reported after exactly as many passes of the routine
  work as the device tree asks for: before that the port is reported dry, then it is reported wet and
  is protected by the sink role and the 10 mA limit.\<close>

theorem liquid_found_after_debounce:
  assumes "lq_ready s" "liquid_on adc line s" "st_switch s = TYPE_DRY" "wet_count s = 0" "good_env env" "le_running env"
    "1 \<le> wet_count_threshold s" "wet_count_threshold s < 4294967296"
  shows "(\<forall>k < nat (wet_count_threshold s). st_switch (fold liquid_work (replicate k (LqRoutine env adc)) s) = TYPE_DRY) \<and>
    (\<exists>w\<in>{TYPE_WET, TYPE_WET_VBUS}. view (fold liquid_work (replicate (nat (wet_count_threshold s)) (LqRoutine env adc)) s)
      = (w, Some ROLE_SNK, Some IUSB_LIMITATION_UA))"
proof -
  note run = lq_passes_count [OF assms(1-4,6,8)]
  define n where "n = nat (wet_count_threshold s) - 1"
  have n: "nat (wet_count_threshold s) = Suc n" "int (Suc n) = wet_count_threshold s" using assms(7) by (simp_all add: n_def)
  from run [of n] n have rn: "lq_ready (lq_passes env adc n s)" "lq_conf (lq_passes env adc n s) = lq_conf s"
    "view (lq_passes env adc n s) = view s" "wet_count (lq_passes env adc n s) = int n" by auto
  from lq_pass_sees [OF rn(1-3) assms(2,3,6)] obtain r where r:
    "lq_passes env adc (Suc n) s = debounce_report_event env r STATE_DRY_TO_WET" "lq_conf r = lq_conf s" "wet_count r = int n"
    unfolding lq_passes_Suc rn(4) by blast
  have "u32w (wet_count r + 1) = int (Suc n)" using r(3) n assms(8) by (subst u32w_id) auto
  then have "\<exists>w\<in>{TYPE_WET, TYPE_WET_VBUS}. view (lq_passes env adc (Suc n) s) = (w, Some ROLE_SNK, Some IUSB_LIMITATION_UA)"
    using debounce_view(4) [OF assms(5), of r] r(1) lq_conf_threshold [OF r(2)] n(2) by simp
  moreover have "\<forall>k < nat (wet_count_threshold s). st_switch (lq_passes env adc k s) = TYPE_DRY" using run assms(3) by (auto simp: view_def)
  ultimately show ?thesis unfolding lq_passes_def n(1) by blast
qed

definition lq_example :: liquid where
  "lq_example = liquid_parse_dt \<lparr>ldt_work_interval = None, ldt_threshold = None, ldt_gpio_reverse_ctrl = False, ldt_wet_count_threshold = Some 3\<rparr>
     (liquid_zero\<lparr>lq_adc_ch := True, lq_pubadc := \<lparr>init_state = True, last_pubadc_type = PUBADC_BAT_ID, pubadc_mux = PUBADC_BAT_ID\<rparr>\<rparr>)"

definition lq_env :: ld_env where
  "lq_env = \<lparr>le_running = True, le_now = 200, le_chg_found = True, le_bat_found = True, le_vbus = (0, 5000), le_limit_ret = 0\<rparr>"

theorem liquid_found_after_debounce_witness:
  "st_switch (fold liquid_work (replicate 2 (LqRoutine lq_env (\<lambda>k m (sbu1, _). (0, if sbu1 then 20 else 700)))) lq_example) = TYPE_DRY \<and>
   (\<exists>w\<in>{TYPE_WET, TYPE_WET_VBUS}. view (fold liquid_work (replicate 3 (LqRoutine lq_env (\<lambda>k m (sbu1, _). (0, if sbu1 then 20 else 700)))) lq_example)
      = (w, Some ROLE_SNK, Some IUSB_LIMITATION_UA))"
proof -
  let ?adc = "\<lambda>k m (sbu1, _). (0, if sbu1 then 20 else 700)"
  have t: "nat (wet_count_threshold lq_example) = 3" by (simp add: lq_example_def liquid_parse_dt_def)
  have r: "lq_ready lq_example" by (simp add: lq_ready_def lq_example_def liquid_parse_dt_def liquid_zero_def pubadc_ok_def)
  have o: "liquid_on ?adc False lq_example"
    by (simp add: liquid_on_def lq_example_def liquid_parse_dt_def liquid_zero_def ADC_MAX_MV_def s32_def)
  have "st_switch lq_example = TYPE_DRY" "wet_count lq_example = 0" "good_env lq_env" "le_running lq_env" "1 \<le> wet_count_threshold lq_example"
    "wet_count_threshold lq_example < 4294967296"
    by (simp_all add: lq_example_def liquid_parse_dt_def liquid_zero_def good_env_def lq_env_def)
  note found = liquid_found_after_debounce [OF r o this, unfolded t]
  show ?thesis using conjunct1 [OF found, rule_format, of 2] conjunct2 [OF found] by simp
qed

section \<open>A failing converter\<close>

lemma value_negative: "\<forall>k m pins. fst (adc k m pins) < 0 \<Longrightarrow> fst (liquid_get_auxadc_value adc s) < 0"
  by (auto simp: liquid_get_auxadc_value_def pubadc_iio_read_channel_def errno_defs Let_def case_prod_beta)

lemma steps_negative:
  assumes "\<forall>k m pins. fst (adc k m pins) < 0"
  shows "0 \<le> s32 (lq_threshold s ! 0) \<Longrightarrow> \<not> step1_wet (liquid_get_step1_adcval adc s)"
    "0 \<le> s32 (lq_threshold s ! 1) \<Longrightarrow> \<not> step2_dry (liquid_get_step2_adcval adc s)"
proof -
  note neg = value_negative [OF assms]
  have "sbu1_step1_val (lq_steps (liquid_get_step1_adcval adc s)) < 0" "sbu2_step1_val (lq_steps (liquid_get_step1_adcval adc s)) < 0"
    "lq_threshold (liquid_get_step1_adcval adc s) = lq_threshold s"
    by (simp_all add: liquid_get_step1_adcval_def liquid_select_detection_switch_def neg Let_def case_prod_beta)
  then show "0 \<le> s32 (lq_threshold s ! 0) \<Longrightarrow> \<not> step1_wet (liquid_get_step1_adcval adc s)" by (simp add: step1_wet_def liquid_is_in_range_def)
  have "sbu1_step2_val (lq_steps (liquid_get_step2_adcval adc s)) < 0" "lq_threshold (liquid_get_step2_adcval adc s) = lq_threshold s"
    by (simp_all add: liquid_get_step2_adcval_def liquid_select_detection_switch_def liquid_en_pull_sbu_def neg Let_def case_prod_beta)
  then show "0 \<le> s32 (lq_threshold s ! 1) \<Longrightarrow> \<not> step2_dry (liquid_get_step2_adcval adc s)" by (simp add: step2_dry_def liquid_is_in_range_def)
qed

text \<open>When every conversion fails the reported state, the role and the limit stay as they are,
  whether the port is dry or wet: a wet port is not released by a broken converter.\<close>

theorem adc_failure_keeps_port:
  assumes "\<forall>k m pins. fst (adc k m pins) < 0" "0 \<le> s32 (lq_threshold s ! 0)" "0 \<le> s32 (lq_threshold s ! 1)" "good_env env"
  shows "view (snd (liquid_routine_work env adc s)) = view s"
proof -
  define s1 where "s1 = liquid_get_step1_adcval adc (liquid_clear_sbuval s 0 1499)"
  have t: "lq_threshold (liquid_clear_sbuval s 0 1499) = lq_threshold s" by (simp add: liquid_clear_sbuval_def)
  then have "lq_threshold s1 = lq_threshold s" using lq_step1_keeps(1) [of adc "liquid_clear_sbuval s 0 1499"] by (simp add: s1_def lq_conf_def)
  then have "\<not> step1_wet s1" "\<not> step2_dry (liquid_get_step2_adcval adc s1)" "view s1 = view s"
    using steps_negative [OF assms(1)] assms(2,3) t by (simp_all add: s1_def)
  then show ?thesis unfolding liquid_routine_work_def s1_def [symmetric] Let_def
    by (simp add: liquid_dry_work_def liquid_wet_work_def debounce_view [OF assms(4)])
qed

theorem adc_failure_keeps_port_witness:
  "view (snd (liquid_routine_work lq_env (\<lambda>_ _ _. (-110, 0)) (lq_example\<lparr>st_switch := 1\<rparr>))) = view (lq_example\<lparr>st_switch := 1\<rparr>)"
  by (rule adc_failure_keeps_port)
    (simp_all add: lq_example_def liquid_parse_dt_def liquid_zero_def good_env_def lq_env_def s32_def)

section \<open>A stale report\<close>

lemma lq_wet_pass_sees:
  assumes "lq_ready s" "liquid_on adc line s" "st_switch s \<noteq> TYPE_DRY" "good_env env"
  shows "view (snd (liquid_routine_work env adc s)) = view s"
proof -
  have "step1_wet (liquid_get_step1_adcval adc (liquid_clear_sbuval s 0 1499))"
    using lq_step1_sees [of "liquid_clear_sbuval s 0 1499" adc line] liquid_on_conf [of "liquid_clear_sbuval s 0 1499" s] assms(1,2) by simp
  then show ?thesis using assms(3) by (simp add: liquid_routine_work_def liquid_wet_work_def Let_def debounce_view [OF assms(4)])
qed

lemma lq_vbus_frame: "lq_adc_ch (ld_vbus_act env st s) = lq_adc_ch s" "lq_pubadc (ld_vbus_act env st s) = lq_pubadc s"
  "lq_threshold (ld_vbus_act env st s) = lq_threshold s"
  by (simp_all add: ld_vbus_act_def ld_check_vbus_valid_def ld_report_event_def switch_set_state_def Let_def case_prod_beta)

text \<open>The VBUS work reads the reported state and reports later. When the routine work of another
  thread finds the port dry in between, the VBUS work reports the port wet with VBUS although its
  protection has been lifted; liquid that comes back is then taken for known, and the port stays
  unprotected.\<close>

theorem stale_vbus_report_unprotected:
  assumes "st_switch s = TYPE_WET" "good_env env" "st_switch (snd (liquid_routine_work env adc s)) = TYPE_DRY"
    and "le_chg_found env'" "le_vbus env' = (0, v)" "INVALID_VBUS_MV < v"
    and t: "t = ld_vbus_act env' (st_switch s) (snd (liquid_routine_work env adc s))"
    and "lq_ready t" "liquid_on adc' line t" "good_env env''"
  shows "view t = (TYPE_WET_VBUS, Some ROLE_TRY_SNK, Some (-1)) \<and> view (snd (liquid_routine_work env'' adc' t)) = view t \<and> \<not> view_ok (view t)"
proof -
  define r where "r = snd (liquid_routine_work env adc s)"
  have "port_step (view s) (view r)" using lq_routine_step [OF assms(2), of s adc] assms(1) by (simp add: r_def)
  then have lifted: "ld_role r = Some ROLE_TRY_SNK" "ld_limit r = Some (-1)" using assms(1,3) port_step_released [of "st_switch s" "ld_role s" "ld_limit s" "ld_role r" "ld_limit r"] by (simp_all add: view_def r_def)
  have "ld_check_vbus_valid env' r = (True, r\<lparr>ld_chg_psy := True\<rparr>)" using assms(4-6) by (simp add: ld_check_vbus_valid_def)
  then have "t = ld_report_event env' (r\<lparr>ld_chg_psy := True\<rparr>) TYPE_WET_VBUS"
    unfolding t r_def [symmetric] assms(1) by (simp add: ld_vbus_act_def)
  then have v: "view t = (TYPE_WET_VBUS, Some ROLE_TRY_SNK, Some (-1))" using lifted by (simp add: view_def)
  then show ?thesis using lq_wet_pass_sees [OF assms(8,9) _ assms(10)] by (simp add: view_def)
qed

text \<open>A dry port: nothing on the lines, and each follows its own pull.\<close>

definition dry_adc :: adc where
  "dry_adc = (\<lambda>k m (sbu1, p1, p2). (0, if (if sbu1 then p1 else p2) then 1460 else 0))"

definition lq_wet_example :: liquid where
  "lq_wet_example = lq_example\<lparr>st_switch := 1, ld_role := Some ROLE_SNK, ld_limit := Some 10000\<rparr>"

theorem stale_vbus_report_unprotected_witness:
  "view (ld_vbus_act lq_env (st_switch lq_wet_example) (snd (liquid_routine_work lq_env dry_adc lq_wet_example)))
    = (TYPE_WET_VBUS, Some ROLE_TRY_SNK, Some (-1))"
proof -
  let ?r = "snd (liquid_routine_work lq_env dry_adc lq_wet_example)"
  let ?t = "ld_vbus_act lq_env (st_switch lq_wet_example) ?r"
  note ev = liquid_routine_work_def lq_wet_example_def lq_env_def lq_example_def liquid_parse_dt_def liquid_zero_def liquid_clear_sbuval_def
    liquid_get_step1_adcval_def liquid_get_step2_adcval_def liquid_get_auxadc_value_def pubadc_iio_read_channel_def dry_adc_def
    liquid_select_detection_switch_def liquid_en_pull_sbu_def liquid_wet_work_def step1_wet_def step2_dry_def liquid_is_in_range_def s32_def ADC_MAX_MV_def
    debounce_report_event_def liquid_is_dry_def
  have r: "st_switch ?r = TYPE_DRY" "lq_ready ?r" "lq_threshold ?r = [120, 1450]"
    by (simp_all add: ev ld_go_dry_def ld_report_event_def switch_set_state_def tcpm_typec_change_role_def ld_limit_charging_current_def lq_ready_def pubadc_ok_def Let_def)
  have "lq_ready ?t" "liquid_on (\<lambda>_ _ _. (0, 700)) True ?t"
    using r(2,3) by (simp_all add: lq_ready_def liquid_on_def s32_def ADC_MAX_MV_def lq_vbus_frame)
  then have "view ?t = (TYPE_WET_VBUS, Some ROLE_TRY_SNK, Some (-1)) \<and> view (snd (liquid_routine_work lq_env (\<lambda>_ _ _. (0, 700)) ?t)) = view ?t \<and> \<not> view_ok (view ?t)"
    by (intro stale_vbus_report_unprotected [OF _ _ r(1) _ _ _ refl, where v = 5000])
       (simp_all add: lq_wet_example_def good_env_def lq_env_def INVALID_VBUS_MV_def)
  then show ?thesis by blast
qed

section \<open>Probing\<close>

lemma create_attrs_removes:
  "fst (create_attrs create done as files) < 0 \<Longrightarrow> set done \<inter> F = {} \<Longrightarrow> set as \<inter> F = {} \<Longrightarrow> files = F \<union> set done \<Longrightarrow>
    snd (create_attrs create done as files) = F"
proof (induction create "done" as files rule: create_attrs.induct)
  case (2 create "done" a as files)
  have rem: "foldr (\<lambda>x fs. fs - {x}) xs A = A - set xs" for xs and A :: "string set" by (induction xs) auto
  show ?case
  proof (cases "create a < 0")
    case True
    then show ?thesis using 2(3-5) by (auto simp: rem)
  next
    case False
    then show ?thesis using 2 by (auto simp: insert_commute)
  qed
qed simp

text \<open>A probe that fails gives back what it took, except the converter's channel.\<close>

lemma liquid_probe_failure:
  assumes "liquid_probe pe pa h = (ret, h')" "ret \<noteq> 0" "h = \<lparr>h_memory = False, h_channel = False, h_notifier = False, h_switch = False,
     h_files = {}, h_queued = False, g_liquid = None\<rparr>"
  shows "h' = h\<lparr>h_channel := h_channel h'\<rparr>"
proof -
  have "snd (liquid_create_attr (pe_attr pe) {}) = {}" if "fst (liquid_create_attr (pe_attr pe) {}) < 0"
    using create_attrs_removes [of "pe_attr pe" "[]" liquid_attrs "{}" "{}"] that by (simp add: liquid_create_attr_def)
  then show ?thesis using assms by (auto simp: liquid_probe_def Let_def case_prod_beta split: if_splits)
qed

end
