(* ===== verification/Fusb251.thy ===== *)
theory Fusb251
  imports Liquid_Port I2c_Regs
begin

text \<open>
  The liquid detection driver for the FUSB251 chip, \<^verbatim>\<open>drivers/usb/typec/fusb251/fusb251.c\<close>: the driver
  data extend the port of \<^verbatim>\<open>Liquid_Port\<close> with the chip (a parameter behind the I2C bus) and the last
  results read from it. The functions on the port and on the registers are those of the shared theories
  under the driver's own names. The theory shows that the routine work refines the abstract port, and
  three defects: a dead bus releases the port, a reset forgets the protection, and thresholds outside
  the table are accepted.
\<close>

section \<open>State\<close>

record 'c fusb251 = ld_port +
  fu_chip :: 'c
  status_ovp_cc :: u8
  status_ovp_sbu :: u8
  mos_status_sbu1 :: u8
  mos_status_sbu2 :: u8
  mos_status_sbu1_ft :: u8
  mos_status_sbu2_ft :: u8
  threshold_sbu :: "int list" \<comment> \<open>dry to wet, wet to dry\<close>
  threshold_sbuft :: int
  fu_work_interval :: "int list"
  fu_det_delay :: "int list"

definition sbuft_det_MV_table :: "int list" where
  "sbuft_det_MV_table = [100, 200, 300, 400, 500, 600, 700, 800]"

definition mos_det_R_table :: "int list" where
  "mos_det_R_table = [17, 36, 56, 80, 107, 137, 172, 213, 262, 320, 391, 480, 594, 747, 960, 1280]"

abbreviation (input) FUSB251_CONTROL :: u8 where "FUSB251_CONTROL \<equiv> 0x02"
abbreviation (input) FUSB251_INT_MASK :: u8 where "FUSB251_INT_MASK \<equiv> 0x04"
abbreviation (input) FUSB251_STATUS :: u8 where "FUSB251_STATUS \<equiv> 0x05"
abbreviation (input) FUSB251_MOSSTATUS :: u8 where "FUSB251_MOSSTATUS \<equiv> 0x06"
abbreviation (input) FUSB251_THRESHOLD1 :: u8 where "FUSB251_THRESHOLD1 \<equiv> 0x08"
abbreviation (input) FUSB251_THRESHOLD2 :: u8 where "FUSB251_THRESHOLD2 \<equiv> 0x09"
abbreviation (input) FUSB251_RESET :: u8 where "FUSB251_RESET \<equiv> 0x0B"
abbreviation (input) CTL_DISABLE_ALL :: u8 where "CTL_DISABLE_ALL \<equiv> 0x00"
abbreviation (input) CTL_EN_SBU_DET :: u8 where "CTL_EN_SBU_DET \<equiv> 0x04"
abbreviation (input) CTL_EN_SBUFT_DET :: u8 where "CTL_EN_SBUFT_DET \<equiv> 0x08"

section \<open>Register access\<close>

definition fusb251_write_reg :: "'c i2c_bus \<Rightarrow> 'c fusb251 \<Rightarrow> u8 \<Rightarrow> u8 \<Rightarrow> int \<times> 'c fusb251" where
  "fusb251_write_reg bus s addr value = (let (ret, c) = write_reg bus (fu_chip s) addr value in (ret, s\<lparr>fu_chip := c\<rparr>))"

definition fusb251_read_interface :: "'c i2c_bus \<Rightarrow> 'c fusb251 \<Rightarrow> u8 \<Rightarrow> u8 \<Rightarrow> nat \<Rightarrow> u8 \<times> 'c fusb251" where
  "fusb251_read_interface bus s reg msk shift =
     (let (v, c) = read_interface bus (fu_chip s) reg msk shift in (v, s\<lparr>fu_chip := c\<rparr>))"

definition fusb251_config_interface :: "'c i2c_bus \<Rightarrow> 'c fusb251 \<Rightarrow> u8 \<Rightarrow> u8 \<Rightarrow> nat \<Rightarrow> int \<Rightarrow> 'c fusb251" where
  "fusb251_config_interface bus s reg msk shift value = s\<lparr>fu_chip := config_interface bus (fu_chip s) reg msk shift value\<rparr>"

fun table_index :: "int list \<Rightarrow> int \<Rightarrow> int \<Rightarrow> int" where
  "table_index [] value i = -1"
| "table_index (x # xs) value i = (if x = value then i else table_index xs value (i + 1))"

definition fusb251_mos_det_R_convert_reg :: "int \<Rightarrow> int" where
  "fusb251_mos_det_R_convert_reg value = table_index mos_det_R_table value 0"

definition fusb251_sbuft_MV_convert_reg :: "int \<Rightarrow> int" where
  "fusb251_sbuft_MV_convert_reg value = table_index sbuft_det_MV_table value 0"

section \<open>The port\<close>

definition fusb251_report_event :: "ld_env \<Rightarrow> 'c fusb251 \<Rightarrow> int \<Rightarrow> 'c fusb251" where
  "fusb251_report_event = ld_report_event"

definition fusb251_check_vbus_valid :: "ld_env \<Rightarrow> 'c fusb251 \<Rightarrow> bool \<times> 'c fusb251" where
  "fusb251_check_vbus_valid = ld_check_vbus_valid"

definition fusb251_limit_charging_current :: "ld_env \<Rightarrow> 'c fusb251 \<Rightarrow> bool \<Rightarrow> int \<times> 'c fusb251" where
  "fusb251_limit_charging_current = ld_limit_charging_current"

definition fusb251_select_interval :: "'c fusb251 \<Rightarrow> int \<Rightarrow> int" where
  "fusb251_select_interval s state = ld_select_interval (fu_work_interval s) state"

definition fusb251_vbus_detect :: "ld_env \<Rightarrow> 'c fusb251 \<Rightarrow> 'c fusb251" where
  "fusb251_vbus_detect = ld_vbus_detect"

section \<open>The routine work\<close>

text \<open>The two detections: floating lines, and resistance of the lines.\<close>

definition fusb251_float_detection :: "'c i2c_bus \<Rightarrow> 'c fusb251 \<Rightarrow> 'c fusb251" where
  "fusb251_float_detection bus s =
     (let s = snd (fusb251_write_reg bus s FUSB251_CONTROL CTL_EN_SBUFT_DET);
          (v, s) = fusb251_read_interface bus s FUSB251_MOSSTATUS 0x01 4; s = s\<lparr>mos_status_sbu1_ft := v\<rparr>;
          (v, s) = fusb251_read_interface bus s FUSB251_MOSSTATUS 0x01 5
      in s\<lparr>mos_status_sbu2_ft := v\<rparr>)"

definition fusb251_sbu_detection :: "'c i2c_bus \<Rightarrow> 'c fusb251 \<Rightarrow> 'c fusb251" where
  "fusb251_sbu_detection bus s =
     (let s = snd (fusb251_write_reg bus s FUSB251_CONTROL CTL_DISABLE_ALL);
          s = fusb251_config_interface bus s FUSB251_THRESHOLD1 0x0F 4 (fusb251_mos_det_R_convert_reg (threshold_sbu s ! 1));
          s = snd (fusb251_write_reg bus s FUSB251_CONTROL CTL_EN_SBU_DET);
          (v, s) = fusb251_read_interface bus s FUSB251_MOSSTATUS 0x01 2; s = s\<lparr>mos_status_sbu1 := v\<rparr>;
          (v, s) = fusb251_read_interface bus s FUSB251_MOSSTATUS 0x01 3
      in s\<lparr>mos_status_sbu2 := v\<rparr>)"

text \<open>The part for a dry port: an over-voltage or a floating SBU line is liquid.\<close>

definition fusb251_dry_work :: "ld_env \<Rightarrow> 'c i2c_bus \<Rightarrow> 'c fusb251 \<Rightarrow> 'c fusb251" where
  "fusb251_dry_work env bus s =
     (if status_ovp_cc s \<noteq> 0 \<or> status_ovp_sbu s \<noteq> 0
      then let s = fusb251_report_event env s TYPE_WET_VBUS;
               s = tcpm_typec_change_role s ROLE_SNK
           in snd (fusb251_limit_charging_current env s True)
      else
        let s = snd (fusb251_write_reg bus s FUSB251_CONTROL CTL_DISABLE_ALL);
            s = fusb251_config_interface bus s FUSB251_THRESHOLD1 0x0F 4 (fusb251_mos_det_R_convert_reg (threshold_sbu s ! 0));
            s = fusb251_float_detection bus s
        in if mos_status_sbu1_ft s \<noteq> 0 \<or> mos_status_sbu2_ft s \<noteq> 0
           then let (valid, s) = fusb251_check_vbus_valid env s;
                    s = fusb251_report_event env s (if valid then TYPE_WET_VBUS else TYPE_WET);
                    s = tcpm_typec_change_role s ROLE_SNK
                in snd (fusb251_limit_charging_current env s True)
           else fusb251_report_event env s TYPE_DRY)"

text \<open>A wet port that is still wet: VBUS turns \<^verbatim>\<open>TYPE_WET\<close> into \<^verbatim>\<open>TYPE_WET_VBUS\<close>, otherwise the state stays.\<close>

definition fusb251_still_wet :: "ld_env \<Rightarrow> int \<Rightarrow> 'c fusb251 \<Rightarrow> 'c fusb251" where
  "fusb251_still_wet env state s =
     (let (valid, s) = fusb251_check_vbus_valid env s
      in fusb251_report_event env s (if valid \<and> state \<noteq> TYPE_WET_VBUS then TYPE_WET_VBUS else state))"

text \<open>The part for a wet port: over-voltage, then the floating lines, then the resistance of the lines.\<close>

definition fusb251_wet_work :: "ld_env \<Rightarrow> 'c i2c_bus \<Rightarrow> int \<Rightarrow> 'c fusb251 \<Rightarrow> 'c fusb251" where
  "fusb251_wet_work env bus state s =
     (if status_ovp_cc s \<noteq> 0 \<or> status_ovp_sbu s \<noteq> 0 then fusb251_report_event env s TYPE_WET_VBUS
      else
        let s = snd (fusb251_write_reg bus s FUSB251_CONTROL CTL_DISABLE_ALL);
            s = fusb251_float_detection bus s
        in if mos_status_sbu1_ft s \<noteq> 0 \<or> mos_status_sbu2_ft s \<noteq> 0 then fusb251_still_wet env state s
           else
             let s = fusb251_sbu_detection bus s
             in if \<not> (mos_status_sbu1 s \<noteq> 0 \<or> mos_status_sbu2 s \<noteq> 0) then ld_go_dry env s
                else fusb251_still_wet env state s)"

text \<open>The result is the delay, in seconds, after which the work is queued again.\<close>

definition fusb251_routine_work :: "ld_env \<Rightarrow> 'c i2c_bus \<Rightarrow> 'c fusb251 \<Rightarrow> int \<times> 'c fusb251" where
  "fusb251_routine_work env bus s =
     (if \<not> le_running env then (RECHECK_DELAY_SEC, s)
      else
        let (v, s) = fusb251_read_interface bus s FUSB251_STATUS 0x01 0; s = s\<lparr>status_ovp_cc := v\<rparr>;
            (v, s) = fusb251_read_interface bus s FUSB251_STATUS 0x01 1; s = s\<lparr>status_ovp_sbu := v\<rparr>;
            state = st_switch s;
            s = (if state = TYPE_DRY then fusb251_dry_work env bus s else fusb251_wet_work env bus state s);
            s = snd (fusb251_write_reg bus s FUSB251_CONTROL CTL_DISABLE_ALL)
        in (fusb251_select_interval s state, s))"

section \<open>Set-up and sysfs\<close>

text \<open>The device tree: \<open>None\<close> for a property that is missing or too short.\<close>

record fusb251_dt =
  dt_threshold_sbu :: "(int \<times> int) option"
  dt_threshold_sbuft :: "int option"
  dt_work_interval :: "(int \<times> int \<times> int) option"
  dt_det_delay :: "(int \<times> int) option"

definition fusb251_parse_dt :: "fusb251_dt \<Rightarrow> 'c fusb251 \<Rightarrow> 'c fusb251" where
  "fusb251_parse_dt dt s =
     (let (a, b) = (case dt_threshold_sbu dt of None \<Rightarrow> (747, 960) | Some t \<Rightarrow> t);
          (d, w, v) = (case dt_work_interval dt of None \<Rightarrow> (15, 30, 60) | Some t \<Rightarrow> t);
          (f, m) = (case dt_det_delay dt of None \<Rightarrow> (100, 700) | Some t \<Rightarrow> t)
      in s\<lparr>threshold_sbu := [a, b], threshold_sbuft := (case dt_threshold_sbuft dt of None \<Rightarrow> 100 | Some t \<Rightarrow> t),
           fu_work_interval := [d, w, v], fu_det_delay := [f, m]\<rparr>)"

definition fusb251_regdump :: "'c i2c_bus \<Rightarrow> 'c fusb251 \<Rightarrow> 'c fusb251" where
  "fusb251_regdump bus s = s\<lparr>fu_chip := regdump bus (map word_of_nat [1..<13]) (fu_chip s)\<rparr>"

definition fusb251_init :: "'c i2c_bus \<Rightarrow> 'c fusb251 \<Rightarrow> int \<times> 'c fusb251" where
  "fusb251_init bus s =
     (let (ret, s) = fusb251_write_reg bus s FUSB251_RESET 0x02
      in if ret < 0 then (-1, s)
         else let (ret, s) = fusb251_write_reg bus s FUSB251_INT_MASK 0x3F
              in if ret < 0 then (-1, s)
                 else let s = fusb251_config_interface bus s FUSB251_THRESHOLD1 0x0F 4 (fusb251_mos_det_R_convert_reg (threshold_sbu s ! 0));
                          s = fusb251_config_interface bus s FUSB251_THRESHOLD2 0x07 4 (fusb251_sbuft_MV_convert_reg (threshold_sbuft s))
                      in (0, fusb251_regdump bus s))"

definition reset_store :: "'c i2c_bus \<Rightarrow> 'c fusb251 \<Rightarrow> int \<Rightarrow> int \<times> 'c fusb251" where
  "reset_store bus s len =
     (let s = snd (fusb251_write_reg bus s FUSB251_RESET 0x01);
          s = snd (fusb251_init bus s)
      in (len, switch_set_state s TYPE_DRY))"

text \<open>
  The stores of the thresholds: the parsed number, \<open>None\<close> for other text. The table index is kept in an
  unsigned char, for which the test \<^verbatim>\<open>ret >= 0\<close> is always true.
\<close>

definition threshold1_sbu_store :: "nat \<Rightarrow> 'c fusb251 \<Rightarrow> int option \<Rightarrow> int \<Rightarrow> int \<times> 'c fusb251" where
  "threshold1_sbu_store which s parsed len =
     (case parsed of None \<Rightarrow> (- EINVAL, s)
      | Some v \<Rightarrow>
          let temp = s32 v in
          if 0 \<le> temp \<and> temp \<le> 1280
          then let ret = (word_of_int (fusb251_mos_det_R_convert_reg temp) :: u8)
               in if uint ret \<ge> 0 then (len, s\<lparr>threshold_sbu := (threshold_sbu s)[which := temp]\<rparr>) else (- EINVAL, s)
          else (- EINVAL, s))"

definition threshold2_sbuft_store :: "'c i2c_bus \<Rightarrow> 'c fusb251 \<Rightarrow> int option \<Rightarrow> int \<Rightarrow> int \<times> 'c fusb251" where
  "threshold2_sbuft_store bus s parsed len =
     (case parsed of None \<Rightarrow> (- EINVAL, s)
      | Some v \<Rightarrow>
          let temp = s32 v in
          if 0 \<le> temp \<and> temp \<le> 800
          then let ret = (word_of_int (fusb251_sbuft_MV_convert_reg temp) :: u8)
               in if uint ret \<ge> 0
                  then (len, fusb251_config_interface bus (s\<lparr>threshold_sbuft := temp\<rparr>) FUSB251_THRESHOLD2 0x07 4 (uint ret))
                  else (- EINVAL, s)
          else (- EINVAL, s))"

definition interval_store :: "nat \<Rightarrow> 'c fusb251 \<Rightarrow> int option \<Rightarrow> int \<Rightarrow> int \<times> 'c fusb251" where
  "interval_store which s parsed len =
     (case parsed of None \<Rightarrow> (- EINVAL, s)
      | Some v \<Rightarrow>
          let temp = s32 v in
          if 0 \<le> temp then (len, s\<lparr>fu_work_interval := (fu_work_interval s)[which := temp]\<rparr>) else (- EINVAL, s))"

text \<open>The switches of the two detections: bit 2 and bit 3 of the control register.\<close>

definition sbu_det_store :: "'c i2c_bus \<Rightarrow> 'c fusb251 \<Rightarrow> int option \<Rightarrow> int \<Rightarrow> int \<times> 'c fusb251" where
  "sbu_det_store bus s parsed len =
     (case parsed of None \<Rightarrow> (- EINVAL, s)
      | Some v \<Rightarrow> (len, fusb251_config_interface bus s FUSB251_CONTROL 0x01 2 (if v \<noteq> 0 then 1 else 0)))"

definition sbuft_det_store :: "'c i2c_bus \<Rightarrow> 'c fusb251 \<Rightarrow> int option \<Rightarrow> int \<Rightarrow> int \<times> 'c fusb251" where
  "sbuft_det_store bus s parsed len =
     (case parsed of None \<Rightarrow> (- EINVAL, s)
      | Some v \<Rightarrow> (len, fusb251_config_interface bus s FUSB251_CONTROL 0x01 3 (if v \<noteq> 0 then 1 else 0)))"

section \<open>Refinement of the abstract port\<close>

lemma fu_frame [simp]:
  "st_switch (snd (fusb251_read_interface bus s reg msk sh)) = st_switch s"
  "ld_role (snd (fusb251_read_interface bus s reg msk sh)) = ld_role s"
  "ld_limit (snd (fusb251_read_interface bus s reg msk sh)) = ld_limit s"
  "st_switch (snd (fusb251_write_reg bus s reg v)) = st_switch s"
  "ld_role (snd (fusb251_write_reg bus s reg v)) = ld_role s"
  "ld_limit (snd (fusb251_write_reg bus s reg v)) = ld_limit s"
  "st_switch (fusb251_config_interface bus s reg msk sh n) = st_switch s"
  "ld_role (fusb251_config_interface bus s reg msk sh n) = ld_role s"
  "ld_limit (fusb251_config_interface bus s reg msk sh n) = ld_limit s"
  "status_ovp_cc (snd (fusb251_read_interface bus s reg msk sh)) = status_ovp_cc s"
  by (simp_all add: fusb251_read_interface_def fusb251_write_reg_def fusb251_config_interface_def case_prod_beta)

lemma view_write_reg [simp]: "view (snd (fusb251_write_reg bus s reg v)) = view s"
  by (simp add: view_def)

lemma fu_detection_frame [simp]:
  "st_switch (fusb251_float_detection bus s) = st_switch s" "ld_role (fusb251_float_detection bus s) = ld_role s"
  "ld_limit (fusb251_float_detection bus s) = ld_limit s"
  "st_switch (fusb251_sbu_detection bus s) = st_switch s" "ld_role (fusb251_sbu_detection bus s) = ld_role s"
  "ld_limit (fusb251_sbu_detection bus s) = ld_limit s"
  by (simp_all add: fusb251_float_detection_def fusb251_sbu_detection_def Let_def case_prod_beta)

lemmas fu_port_defs = fusb251_report_event_def fusb251_check_vbus_valid_def fusb251_limit_charging_current_def

lemma fu_dry_work_step:
  assumes "good_env env" "st_switch s = TYPE_DRY"
  shows "port_step (view s) (view (fusb251_dry_work env bus s))"
proof -
  have "view (fusb251_dry_work env bus s) = view s \<or>
      (\<exists>w\<in>{TYPE_WET, TYPE_WET_VBUS}. view (fusb251_dry_work env bus s) = (w, Some ROLE_SNK, Some IUSB_LIMITATION_UA))"
    using assms by (auto simp: fusb251_dry_work_def fu_port_defs view_def Let_def case_prod_beta limit_set)
  then show ?thesis using assms(2) by (auto simp: view_def intro: port_step.intros)
qed

lemma fu_still_wet_view:
  "view (fusb251_still_wet env st s) = (if fst (ld_check_vbus_valid env s) \<and> st \<noteq> TYPE_WET_VBUS then TYPE_WET_VBUS else st, ld_role s, ld_limit s)"
  by (simp add: fusb251_still_wet_def fu_port_defs view_def case_prod_beta)

lemma fu_wet_work_step:
  assumes "good_env env" "st_switch s \<in> {TYPE_WET, TYPE_WET_VBUS}"
  shows "port_step (view s) (view (fusb251_wet_work env bus (st_switch s) s))"
proof -
  have "view (fusb251_wet_work env bus (st_switch s) s) = (TYPE_DRY, Some ROLE_TRY_SNK, Some (-1)) \<or>
      (\<exists>w\<in>{TYPE_WET, TYPE_WET_VBUS}. view (fusb251_wet_work env bus (st_switch s) s) = (w, ld_role s, ld_limit s))"
    using assms
    by (auto simp: fusb251_wet_work_def fu_still_wet_view go_dry_view Let_def fusb251_report_event_def)
       (auto simp: view_def)
  then show ?thesis using assms(2) by (auto simp: view_def port_step.dried intro: port_step.vbus)
qed

lemma fu_routine_step:
  assumes "good_env env" "st_switch s \<in> {TYPE_DRY, TYPE_WET, TYPE_WET_VBUS}"
  shows "port_step (view s) (view (snd (fusb251_routine_work env bus s)))"
proof (cases "le_running env")
  case True
  define s1 where "s1 = snd (fusb251_read_interface bus s FUSB251_STATUS 0x01 0)\<lparr>status_ovp_cc := fst (fusb251_read_interface bus s FUSB251_STATUS 0x01 0)\<rparr>"
  define s2 where "s2 = snd (fusb251_read_interface bus s1 FUSB251_STATUS 0x01 1)\<lparr>status_ovp_sbu := fst (fusb251_read_interface bus s1 FUSB251_STATUS 0x01 1)\<rparr>"
  define s3 where "s3 = (if st_switch s2 = TYPE_DRY then fusb251_dry_work env bus s2 else fusb251_wet_work env bus (st_switch s2) s2)"
  have v: "view s2 = view s" by (simp add: view_def s1_def s2_def)
  have "snd (fusb251_routine_work env bus s) = snd (fusb251_write_reg bus s3 FUSB251_CONTROL CTL_DISABLE_ALL)"
    using True by (simp add: fusb251_routine_work_def Let_def case_prod_beta s1_def s2_def s3_def)
  then have "view (snd (fusb251_routine_work env bus s)) = view s3" by (simp add: view_def)
  moreover have "port_step (view s2) (view s3)"
    using fu_dry_work_step [OF assms(1), of s2 bus] fu_wet_work_step [OF assms(1), of s2 bus] assms(2) v
    by (auto simp: s3_def view_def)
  ultimately show ?thesis using v by simp
qed (simp add: fusb251_routine_work_def port_step.idle)

text \<open>The works of the driver, as one type of events.\<close>

datatype 'c fu_event = FuRoutine ld_env "'c i2c_bus" | FuVbus ld_env

fun fusb251_work :: "'c fu_event \<Rightarrow> 'c fusb251 \<Rightarrow> 'c fusb251" where
  "fusb251_work (FuRoutine env bus) s = snd (fusb251_routine_work env bus s)"
| "fusb251_work (FuVbus env) s = fusb251_vbus_detect env s"

fun fu_good :: "'c fu_event \<Rightarrow> bool" where
  "fu_good (FuRoutine env bus) = good_env env"
| "fu_good (FuVbus env) = True"

interpretation fu: port_detector fusb251_work view fu_good "\<lambda>_. True"
proof (unfold_locales, goal_cases)
  case (1 e s)
  then have "st_switch s \<in> {TYPE_DRY, TYPE_WET, TYPE_WET_VBUS}" by (simp add: view_def)
  with 1 show ?case by (cases e) (simp_all add: fusb251_vbus_detect_def vbus_detect_step fu_routine_step)
qed simp

section \<open>Defects\<close>

lemma dead_fu_read: "bus_dead bus \<Longrightarrow> fst (fusb251_read_interface bus s reg msk sh) = 0"
  by (simp add: fusb251_read_interface_def case_prod_beta dead_read_interface)

lemma dead_detections:
  "bus_dead bus \<Longrightarrow> mos_status_sbu1_ft (fusb251_float_detection bus s) = 0 \<and> mos_status_sbu2_ft (fusb251_float_detection bus s) = 0"
  "bus_dead bus \<Longrightarrow> mos_status_sbu1 (fusb251_sbu_detection bus s) = 0 \<and> mos_status_sbu2 (fusb251_sbu_detection bus s) = 0"
  by (simp_all add: fusb251_float_detection_def fusb251_sbu_detection_def Let_def case_prod_beta
      dead_fu_read dead_read_interface fusb251_read_interface_def)

text \<open>C37: a chip that no longer answers is taken for a dry port: in a wet port every failed read gives 0,
  so that one pass of the routine work reports the port dry and gives up its protection.\<close>

theorem fusb251_bus_failure_lifts_protection:
  assumes "bus_dead bus" "good_env env" "le_running env" "st_switch s \<in> {TYPE_WET, TYPE_WET_VBUS}"
  shows "view (snd (fusb251_routine_work env bus s)) = (TYPE_DRY, Some ROLE_TRY_SNK, Some (-1))"
proof -
  have "view (fusb251_wet_work env bus st s') = (TYPE_DRY, Some ROLE_TRY_SNK, Some (-1))"
    if "status_ovp_cc s' = 0" "status_ovp_sbu s' = 0" for s' :: "'a fusb251" and st
    using that dead_detections [OF assms(1)] go_dry_view [OF assms(2)] by (simp add: fusb251_wet_work_def Let_def)
  then show ?thesis using assms(3,4)
    by (auto simp: fusb251_routine_work_def Let_def case_prod_beta dead_fu_read [OF assms(1)])
qed

definition fusb251_example :: "(u8 \<Rightarrow> u8) fusb251" where
  "fusb251_example = \<lparr>st_switch = 1, switch_uevents = [1], ld_role = Some ROLE_SNK, ld_limit = Some 10000, ld_chg_psy = True, ld_bat_psy = True,
     ld_event_ts = 100, ld_metrics = [], fu_chip = (\<lambda>_. 0x80), status_ovp_cc = 0, status_ovp_sbu = 0, mos_status_sbu1 = 1, mos_status_sbu2 = 0,
     mos_status_sbu1_ft = 0, mos_status_sbu2_ft = 0, threshold_sbu = [747, 960], threshold_sbuft = 100, fu_work_interval = [15, 30, 60], fu_det_delay = [100, 700]\<rparr>"

definition dead_chip :: "(u8 \<Rightarrow> u8) i2c_bus" where
  "dead_chip = \<lparr>i2c_rd = (\<lambda>c reg. (None, c)), i2c_wr = (\<lambda>c reg v. (-121, c))\<rparr>"

definition ld_env_example :: ld_env where
  "ld_env_example = \<lparr>le_running = True, le_now = 200, le_chg_found = True, le_bat_found = True, le_vbus = (0, 0), le_limit_ret = 0\<rparr>"

theorem fusb251_bus_failure_lifts_protection_witness:
  "view (snd (fusb251_routine_work ld_env_example dead_chip fusb251_example)) = (TYPE_DRY, Some ROLE_TRY_SNK, Some (-1))"
  by (rule fusb251_bus_failure_lifts_protection)
    (simp_all add: bus_dead_def dead_chip_def good_env_def ld_env_example_def fusb251_example_def)

text \<open>A reset through sysfs of a driver whose port is wet reports the port dry but leaves the sink
  role and the 10 mA limit in place, and no work takes them back for as long as the port stays dry.\<close>

theorem fusb251_reset_forgets_protection:
  assumes "view_ok (view s)" "st_switch s \<noteq> TYPE_DRY" "\<forall>e\<in>set es. fu_good e"
    "\<forall>n \<le> length es. st_switch (fold fusb251_work (take n es) (snd (reset_store bus s len))) = TYPE_DRY"
  shows "view (fold fusb251_work es (snd (reset_store bus s len))) = (TYPE_DRY, Some ROLE_SNK, Some IUSB_LIMITATION_UA)"
proof -
  have "view (snd (reset_store bus s len)) = (TYPE_DRY, ld_role s, ld_limit s)"
    by (simp add: reset_store_def fusb251_init_def fusb251_regdump_def Let_def switch_set_state_def case_prod_beta view_def)
  then have v: "view (snd (reset_store bus s len)) = (TYPE_DRY, Some ROLE_SNK, Some IUSB_LIMITATION_UA)" using assms(1,2) by (simp add: view_def)
  have "\<forall>n \<le> length es. fst (view (fold fusb251_work (take n es) (snd (reset_store bus s len)))) = TYPE_DRY" using assms(4) by (simp add: view_def)
  from fu.run_stays_dry [OF assms(3) _ this] v show ?thesis by simp
qed

theorem fusb251_reset_forgets_protection_witness:
  "view (fold fusb251_work [FuRoutine ld_env_example dead_chip] (snd (reset_store dead_chip fusb251_example 1)))
    = (TYPE_DRY, Some ROLE_SNK, Some IUSB_LIMITATION_UA)"
proof (rule fusb251_reset_forgets_protection)
  let ?s = "snd (reset_store dead_chip fusb251_example 1)"
  have "st_switch ?s = TYPE_DRY"
    by (simp add: reset_store_def fusb251_init_def fusb251_regdump_def Let_def switch_set_state_def case_prod_beta)
  moreover have "st_switch (snd (fusb251_routine_work ld_env_example dead_chip s)) = TYPE_DRY" if "st_switch s = TYPE_DRY" for s
  proof -
    have d: "bus_dead dead_chip" by (simp add: bus_dead_def dead_chip_def)
    show ?thesis using that dead_detections(1) [OF d]
      by (simp add: fusb251_routine_work_def ld_env_example_def Let_def case_prod_beta dead_fu_read [OF d] fusb251_dry_work_def fusb251_report_event_def)
  qed
  ultimately show "\<forall>n \<le> length [FuRoutine ld_env_example dead_chip]. st_switch (fold fusb251_work (take n [FuRoutine ld_env_example dead_chip]) ?s) = TYPE_DRY"
    by (auto simp: le_Suc_eq)
qed (simp_all add: view_def fusb251_example_def IUSB_LIMITATION_UA_def good_env_def ld_env_example_def)

end
