(* ===== verification/Max20342.thy ===== *)
theory Max20342
  imports Liquid_Port I2c_Regs
begin

text \<open>
  The liquid detection driver for the MAX20342 chip, \<^verbatim>\<open>drivers/usb/typec/max20342/max20342.c\<close>, over the
  shared port and register functions. The chip measures the resistance between the SBU lines; the port
  is dry when both measurements used the expected current and lie in a window whose lower end depends on
  the reported state. The theory shows that the works refine the abstract port, that a dead bus is taken
  for liquid, and that the default thresholds make the reported state flap.
\<close>

section \<open>State\<close>

record 'c max20342 = ld_port +
  mx_chip :: 'c
  target_ipu :: u8
  target_resister :: u8
  target_voltage_min :: u8
  target_voltage_max :: u8
  target_adcgroundvth :: u8
  ipu_result1 :: u8
  ipu_result2 :: u8
  adc_result_avg1 :: u8
  adc_result_avg2 :: u8
  ld_buffer :: "u8 list" \<comment> \<open>low and high threshold\<close>
  mx_work_interval :: "int list"
  mx_det_delay :: "int list"
  mos_is_valid :: bool
  mos_open :: "bool \<times> bool" \<comment> \<open>the two gates in front of the SBU lines\<close>

abbreviation (input) COMM_CTRL1 :: u8 where "COMM_CTRL1 \<equiv> 0x15"
abbreviation (input) COMM_CTRL3 :: u8 where "COMM_CTRL3 \<equiv> 0x19"
abbreviation (input) CC_CTRL3 :: u8 where "CC_CTRL3 \<equiv> 0x23"
abbreviation (input) BC_CTRL1 :: u8 where "BC_CTRL1 \<equiv> 0x2B"
abbreviation (input) RMoistDetVth :: u8 where "RMoistDetVth \<equiv> 0x50"
abbreviation (input) MoistDetCtrl :: u8 where "MoistDetCtrl \<equiv> 0x51"
abbreviation (input) MoistDetPUConfig :: u8 where "MoistDetPUConfig \<equiv> 0x52"
abbreviation (input) MoistDetPDConfig :: u8 where "MoistDetPDConfig \<equiv> 0x53"
abbreviation (input) ADCCtrl1 :: u8 where "ADCCtrl1 \<equiv> 0x5C"
abbreviation (input) ADCCtrl2 :: u8 where "ADCCtrl2 \<equiv> 0x5D"
abbreviation (input) ADCResultAvg :: u8 where "ADCResultAvg \<equiv> 0x60"

definition mask_int_reg :: "u8 list" where
  "mask_int_reg = [0x0C, 0x0D, 0x0E, 0x0F, 0x10, 0x11]"

text \<open>The registers of a dump: all from the revision to \<^verbatim>\<open>VB_CTRL\<close> that the chip has.\<close>

definition dump_regs :: "u8 list" where
  "dump_regs = map word_of_nat ([0x00..<0x12] @ [0x15..<0x1B] @ [0x20..<0x27] @ [0x28] @ [0x2A..<0x40] @ [0x50..<0x64])"

section \<open>Register access\<close>

definition max20342_write_reg :: "'c i2c_bus \<Rightarrow> 'c max20342 \<Rightarrow> u8 \<Rightarrow> u8 \<Rightarrow> int \<times> 'c max20342" where
  "max20342_write_reg bus s addr value = (let (ret, c) = write_reg bus (mx_chip s) addr value in (ret, s\<lparr>mx_chip := c\<rparr>))"

definition max20342_read_interface :: "'c i2c_bus \<Rightarrow> 'c max20342 \<Rightarrow> u8 \<Rightarrow> u8 \<Rightarrow> nat \<Rightarrow> u8 \<times> 'c max20342" where
  "max20342_read_interface bus s reg msk shift =
     (let (v, c) = read_interface bus (mx_chip s) reg msk shift in (v, s\<lparr>mx_chip := c\<rparr>))"

definition max20342_config_interface :: "'c i2c_bus \<Rightarrow> 'c max20342 \<Rightarrow> u8 \<Rightarrow> u8 \<Rightarrow> nat \<Rightarrow> int \<Rightarrow> 'c max20342" where
  "max20342_config_interface bus s reg msk shift value = s\<lparr>mx_chip := config_interface bus (mx_chip s) reg msk shift value\<rparr>"

section \<open>The port\<close>

definition max20342_report_event :: "ld_env \<Rightarrow> 'c max20342 \<Rightarrow> int \<Rightarrow> 'c max20342" where
  "max20342_report_event = ld_report_event"

definition max20342_check_vbus_valid :: "ld_env \<Rightarrow> 'c max20342 \<Rightarrow> bool \<times> 'c max20342" where
  "max20342_check_vbus_valid = ld_check_vbus_valid"

definition max20342_limit_charging_current :: "ld_env \<Rightarrow> 'c max20342 \<Rightarrow> bool \<Rightarrow> int \<times> 'c max20342" where
  "max20342_limit_charging_current = ld_limit_charging_current"

definition max20342_select_interval :: "'c max20342 \<Rightarrow> int \<Rightarrow> int" where
  "max20342_select_interval s state = ld_select_interval (mx_work_interval s) state"

definition max20342_vbus_detect :: "ld_env \<Rightarrow> 'c max20342 \<Rightarrow> 'c max20342" where
  "max20342_vbus_detect = ld_vbus_detect"

definition max20342_sbu_is_wet :: "ld_env \<Rightarrow> 'c max20342 \<Rightarrow> int \<Rightarrow> 'c max20342" where
  "max20342_sbu_is_wet env s cur_state =
     (if cur_state = TYPE_DRY
      then let s = tcpm_typec_change_role s ROLE_SNK;
               s = snd (max20342_limit_charging_current env s True);
               (valid, s) = max20342_check_vbus_valid env s
           in max20342_report_event env s (if valid then TYPE_WET_VBUS else TYPE_WET)
      else let (valid, s) = max20342_check_vbus_valid env s
           in if valid then (if cur_state \<noteq> TYPE_WET_VBUS then max20342_report_event env s TYPE_WET_VBUS else s)
              else (if cur_state \<noteq> TYPE_WET then max20342_report_event env s TYPE_WET else s))"

definition max20342_sbu_is_dry :: "ld_env \<Rightarrow> 'c max20342 \<Rightarrow> int \<Rightarrow> 'c max20342" where
  "max20342_sbu_is_dry env s cur_state =
     (if cur_state \<noteq> TYPE_DRY
      then let s = max20342_report_event env s TYPE_DRY;
               s = tcpm_typec_change_role s ROLE_TRY_SNK
           in snd (max20342_limit_charging_current env s False)
      else s)"

section \<open>Detection\<close>

text \<open>The measurement of one line: the pull-up and pull-down switches, the start, the two results.\<close>

definition max20342_measure :: "'c i2c_bus \<Rightarrow> int \<Rightarrow> int \<Rightarrow> 'c max20342 \<Rightarrow> u8 \<times> u8 \<times> 'c max20342" where
  "max20342_measure bus up down s =
     (let s = max20342_config_interface bus s MoistDetPUConfig 0x3F 0 up;
          s = max20342_config_interface bus s MoistDetPDConfig 0x7F 0 down;
          s = max20342_config_interface bus s MoistDetCtrl 0x01 2 1;
          (ipu, s) = max20342_read_interface bus s ADCCtrl2 0x03 6;
          (avg, s) = max20342_read_interface bus s ADCResultAvg 0xFF 0
      in (ipu, avg, s))"

definition max20342_start_detection :: "'c i2c_bus \<Rightarrow> 'c max20342 \<Rightarrow> 'c max20342" where
  "max20342_start_detection bus s =
     (let s = (if mos_is_valid s then s\<lparr>mos_open := (True, True)\<rparr> else s);
          (ipu, avg, s) = max20342_measure bus 0x04 0x08 s; s = s\<lparr>ipu_result1 := ipu, adc_result_avg1 := avg\<rparr>;
          (ipu, avg, s) = max20342_measure bus 0x08 0x04 s; s = s\<lparr>ipu_result2 := ipu, adc_result_avg2 := avg\<rparr>
      in if mos_is_valid s then s\<lparr>mos_open := (False, False)\<rparr> else s)"

definition max20342_get_detection_result :: "'c max20342 \<Rightarrow> int \<Rightarrow> bool \<times> 'c max20342" where
  "max20342_get_detection_result s state =
     (let s = s\<lparr>target_voltage_min := ld_buffer s ! (if state = TYPE_DRY then 0 else 1)\<rparr>
      in (ipu_result1 s = target_ipu s \<and> ipu_result2 s = target_ipu s \<and>
          adc_result_avg1 s \<le> target_voltage_max s \<and> target_voltage_min s \<le> adc_result_avg1 s \<and>
          adc_result_avg2 s \<le> target_voltage_max s \<and> target_voltage_min s \<le> adc_result_avg2 s, s))"

definition max20342_stop_detection :: "'c i2c_bus \<Rightarrow> 'c max20342 \<Rightarrow> 'c max20342" where
  "max20342_stop_detection bus s =
     (let s = max20342_config_interface bus s MoistDetPUConfig 0x3F 0 0
      in max20342_config_interface bus s MoistDetPDConfig 0x7F 0 0)"

definition max20342_routine_work :: "ld_env \<Rightarrow> 'c i2c_bus \<Rightarrow> 'c max20342 \<Rightarrow> int \<times> 'c max20342" where
  "max20342_routine_work env bus s =
     (if \<not> le_running env then (RECHECK_DELAY_SEC, s)
      else
        let state = st_switch s;
            s = max20342_start_detection bus s;
            (dry, s) = max20342_get_detection_result s state;
            s = (if dry then max20342_sbu_is_dry env s state else max20342_sbu_is_wet env s state);
            s = max20342_stop_detection bus s
        in (max20342_select_interval s state, s))"

section \<open>Set-up and sysfs\<close>

record max20342_dt =
  mdt_work_interval :: "(int \<times> int \<times> int) option"
  mdt_det_delay :: "(int \<times> int) option"
  mdt_target_ipu :: "u8 option"
  mdt_target_resister :: "u8 option"
  mdt_ld_buffer :: "(u8 \<times> u8) option"
  mdt_target_voltage_max :: "u8 option"
  mdt_target_adcgroundvth :: "u8 option"

text \<open>Without the property \<^verbatim>\<open>ld_buffer\<close> both defaults are stored in the entry of the low threshold.\<close>

definition max20342_parse_dt :: "max20342_dt \<Rightarrow> 'c max20342 \<Rightarrow> 'c max20342" where
  "max20342_parse_dt dt s =
     (let (d, w, v) = (case mdt_work_interval dt of None \<Rightarrow> (15, 30, 60) | Some t \<Rightarrow> t);
          (d1, d2) = (case mdt_det_delay dt of None \<Rightarrow> (300, 300) | Some t \<Rightarrow> t)
      in s\<lparr>mx_work_interval := [d, w, v], mx_det_delay := [d1, d2],
           target_ipu := (case mdt_target_ipu dt of None \<Rightarrow> 1 | Some t \<Rightarrow> t),
           target_resister := (case mdt_target_resister dt of None \<Rightarrow> 100 | Some t \<Rightarrow> t),
           ld_buffer := (case mdt_ld_buffer dt of None \<Rightarrow> (ld_buffer s)[0 := 86, 0 := 119] | Some (l, h) \<Rightarrow> [l, h]),
           target_voltage_max := (case mdt_target_voltage_max dt of None \<Rightarrow> 163 | Some t \<Rightarrow> t),
           target_adcgroundvth := (case mdt_target_adcgroundvth dt of None \<Rightarrow> 4 | Some t \<Rightarrow> t)\<rparr>)"

fun max20342_mask_ints :: "'c i2c_bus \<Rightarrow> 'c max20342 \<Rightarrow> u8 list \<Rightarrow> bool \<times> 'c max20342" where
  "max20342_mask_ints bus s [] = (True, s)"
| "max20342_mask_ints bus s (reg # regs) =
     (let (ret, s) = max20342_write_reg bus s reg 0x00 in if ret < 0 then (False, s) else max20342_mask_ints bus s regs)"

definition max20342_regdump :: "'c i2c_bus \<Rightarrow> 'c max20342 \<Rightarrow> 'c max20342" where
  "max20342_regdump bus s = s\<lparr>mx_chip := regdump bus dump_regs (mx_chip s)\<rparr>"

definition max20342_init :: "'c i2c_bus \<Rightarrow> 'c max20342 \<Rightarrow> int \<times> 'c max20342" where
  "max20342_init bus s =
     (let s = s\<lparr>ipu_result1 := 0, ipu_result2 := 0, adc_result_avg1 := 0, adc_result_avg2 := 0\<rparr>;
          s = max20342_config_interface bus s MoistDetCtrl 0x01 2 0;
          s = max20342_config_interface bus s MoistDetCtrl 0x01 4 0;
          s = max20342_config_interface bus s MoistDetCtrl 0x01 3 0;
          s = max20342_config_interface bus s MoistDetPUConfig 0x3F 0 0;
          s = max20342_config_interface bus s MoistDetPDConfig 0x7F 0 0;
          (masked, s) = max20342_mask_ints bus s mask_int_reg
      in if \<not> masked then (-1, s)
         else let s = max20342_config_interface bus s BC_CTRL1 0x01 0 0;
                  s = max20342_config_interface bus s CC_CTRL3 0x01 0 0;
                  s = max20342_config_interface bus s MoistDetCtrl 0x03 0 (uint (target_ipu s));
                  s = snd (max20342_write_reg bus s RMoistDetVth (target_voltage_min s));
                  s = max20342_config_interface bus s ADCCtrl1 0x0F 3 (uint (target_adcgroundvth s));
                  s = max20342_config_interface bus s COMM_CTRL1 0x01 2 1
              in (0, max20342_regdump bus s))"

definition max20342_reset_store :: "'c i2c_bus \<Rightarrow> 'c max20342 \<Rightarrow> int \<Rightarrow> int \<times> 'c max20342" where
  "max20342_reset_store bus s len =
     (let s = snd (max20342_write_reg bus s COMM_CTRL3 0x01);
          s = snd (max20342_init bus s)
      in (len, switch_set_state s TYPE_DRY))"

text \<open>The stores of the targets: the parsed unsigned number is cut to a byte.\<close>

definition target_ipu_store :: "'c max20342 \<Rightarrow> int option \<Rightarrow> int \<Rightarrow> int \<times> 'c max20342" where
  "target_ipu_store s parsed len = (case parsed of None \<Rightarrow> (- EINVAL, s) | Some v \<Rightarrow> (len, s\<lparr>target_ipu := word_of_int v\<rparr>))"

definition target_voltage_min_store :: "'c max20342 \<Rightarrow> int option \<Rightarrow> int \<Rightarrow> int \<times> 'c max20342" where
  "target_voltage_min_store s parsed len = (case parsed of None \<Rightarrow> (- EINVAL, s) | Some v \<Rightarrow> (len, s\<lparr>target_voltage_min := word_of_int v\<rparr>))"

definition target_voltage_max_store :: "'c max20342 \<Rightarrow> int option \<Rightarrow> int \<Rightarrow> int \<times> 'c max20342" where
  "target_voltage_max_store s parsed len = (case parsed of None \<Rightarrow> (- EINVAL, s) | Some v \<Rightarrow> (len, s\<lparr>target_voltage_max := word_of_int v\<rparr>))"

section \<open>Refinement of the abstract port\<close>

lemma mx_frame [simp]:
  "view (max20342_config_interface bus s reg msk sh n) = view s"
  "view (snd (max20342_read_interface bus s reg msk sh)) = view s"
  "view (snd (max20342_write_reg bus s reg v)) = view s"
  by (simp_all add: max20342_read_interface_def max20342_config_interface_def max20342_write_reg_def case_prod_beta view_def)

lemma view_measure [simp]: "view (snd (snd (max20342_measure bus up down s))) = view s"
  by (simp add: max20342_measure_def Let_def case_prod_beta)

lemma view_upd [simp]: "view (s\<lparr>mos_open := m\<rparr>) = view s" "view (s\<lparr>ipu_result1 := v\<rparr>) = view s" "view (s\<lparr>ipu_result2 := v\<rparr>) = view s"
  "view (s\<lparr>adc_result_avg1 := v\<rparr>) = view s" "view (s\<lparr>adc_result_avg2 := v\<rparr>) = view s" "view (s\<lparr>target_voltage_min := v\<rparr>) = view s"
  by (simp_all add: view_def)

lemma view_detection [simp]: "view (max20342_start_detection bus s) = view s" "view (max20342_stop_detection bus s) = view s"
  "view (snd (max20342_get_detection_result s st)) = view s"
  by (simp_all add: max20342_start_detection_def max20342_stop_detection_def max20342_get_detection_result_def Let_def case_prod_beta)

lemmas mx_port_defs = max20342_report_event_def max20342_check_vbus_valid_def max20342_limit_charging_current_def

lemma sbu_is_dry_view: "good_env env \<Longrightarrow> view (max20342_sbu_is_dry env s st) = (if st \<noteq> TYPE_DRY then (TYPE_DRY, Some ROLE_TRY_SNK, Some (-1)) else view s)"
  by (simp add: max20342_sbu_is_dry_def mx_port_defs view_def limit_set)

lemma sbu_is_wet_view:
  assumes "good_env env" "st = st_switch s" "st \<in> {TYPE_DRY, TYPE_WET, TYPE_WET_VBUS}"
  shows "\<exists>w\<in>{TYPE_WET, TYPE_WET_VBUS}. view (max20342_sbu_is_wet env s st)
    = (if st = TYPE_DRY then (w, Some ROLE_SNK, Some IUSB_LIMITATION_UA) else (w, ld_role s, ld_limit s))"
  using assms by (auto simp: max20342_sbu_is_wet_def mx_port_defs view_def limit_set Let_def case_prod_beta)

text \<open>What a pass of the routine work does to the port, by the result of the detection.\<close>

definition mx_result :: "'c i2c_bus \<Rightarrow> 'c max20342 \<Rightarrow> bool" where
  "mx_result bus s = fst (max20342_get_detection_result (max20342_start_detection bus s) (st_switch s))"

lemma mx_routine_view:
  assumes "good_env env" "le_running env" "st_switch s \<in> {TYPE_DRY, TYPE_WET, TYPE_WET_VBUS}"
  shows "\<exists>w\<in>{TYPE_WET, TYPE_WET_VBUS}. view (snd (max20342_routine_work env bus s)) =
    (if mx_result bus s then (if st_switch s \<noteq> TYPE_DRY then (TYPE_DRY, Some ROLE_TRY_SNK, Some (-1)) else view s)
     else if st_switch s = TYPE_DRY then (w, Some ROLE_SNK, Some IUSB_LIMITATION_UA) else (w, ld_role s, ld_limit s))"
proof -
  define s1 where "s1 = snd (max20342_get_detection_result (max20342_start_detection bus s) (st_switch s))"
  have v: "view s1 = view s" by (simp add: s1_def)
  have "view (snd (max20342_routine_work env bus s))
      = view (if mx_result bus s then max20342_sbu_is_dry env s1 (st_switch s) else max20342_sbu_is_wet env s1 (st_switch s))"
    using assms(2) by (simp add: max20342_routine_work_def mx_result_def s1_def Let_def case_prod_beta)
  then show ?thesis using sbu_is_dry_view [OF assms(1), of s1 "st_switch s"] sbu_is_wet_view [OF assms(1), of "st_switch s" s1] v assms(3)
    by (auto simp: view_def)
qed

lemma mx_routine_step:
  assumes "good_env env" "st_switch s \<in> {TYPE_DRY, TYPE_WET, TYPE_WET_VBUS}"
  shows "port_step (view s) (view (snd (max20342_routine_work env bus s)))"
proof (cases "le_running env")
  case True
  from mx_routine_view [OF assms(1) True assms(2), of bus] obtain w where w: "w \<in> {TYPE_WET, TYPE_WET_VBUS}"
    "view (snd (max20342_routine_work env bus s)) =
    (if mx_result bus s then (if st_switch s \<noteq> TYPE_DRY then (TYPE_DRY, Some ROLE_TRY_SNK, Some (-1)) else view s)
     else if st_switch s = TYPE_DRY then (w, Some ROLE_SNK, Some IUSB_LIMITATION_UA) else (w, ld_role s, ld_limit s))" by blast
  show ?thesis unfolding w(2) using w(1) assms(2)
    by (auto simp: view_def port_step.dried port_step.idle intro: port_step.found port_step.vbus)
qed (simp add: max20342_routine_work_def port_step.idle)

datatype 'c mx_event = MxRoutine ld_env "'c i2c_bus" | MxVbus ld_env

fun max20342_work :: "'c mx_event \<Rightarrow> 'c max20342 \<Rightarrow> 'c max20342" where
  "max20342_work (MxRoutine env bus) s = snd (max20342_routine_work env bus s)"
| "max20342_work (MxVbus env) s = max20342_vbus_detect env s"

fun mx_good :: "'c mx_event \<Rightarrow> bool" where
  "mx_good (MxRoutine env bus) = good_env env"
| "mx_good (MxVbus env) = True"

interpretation mx: port_detector max20342_work view mx_good "\<lambda>_. True"
proof (unfold_locales, goal_cases)
  case (1 e s)
  then have "st_switch s \<in> {TYPE_DRY, TYPE_WET, TYPE_WET_VBUS}" by (simp add: view_def)
  with 1 show ?case by (cases e) (simp_all add: max20342_vbus_detect_def vbus_detect_step mx_routine_step)
qed simp

section \<open>The result of a detection\<close>

text \<open>The configuration the detection compares with, which no work changes.\<close>

definition mx_config :: "'c max20342 \<Rightarrow> u8 \<times> u8 \<times> u8 list" where
  "mx_config s = (target_ipu s, target_voltage_max s, ld_buffer s)"

lemma config_frame [simp]:
  "mx_config (max20342_config_interface bus s reg msk sh n) = mx_config s"
  "mx_config (snd (max20342_read_interface bus s reg msk sh)) = mx_config s"
  "mx_config (s\<lparr>mos_open := m\<rparr>) = mx_config s" "mx_config (s\<lparr>ipu_result1 := v\<rparr>) = mx_config s" "mx_config (s\<lparr>ipu_result2 := v\<rparr>) = mx_config s"
  "mx_config (s\<lparr>adc_result_avg1 := v\<rparr>) = mx_config s" "mx_config (s\<lparr>adc_result_avg2 := v\<rparr>) = mx_config s"
  "mx_config (s\<lparr>target_voltage_min := v\<rparr>) = mx_config s"
  "mx_config (ld_report_event env s e) = mx_config s" "mx_config (snd (ld_check_vbus_valid env s)) = mx_config s"
  "mx_config (snd (ld_limit_charging_current env s en)) = mx_config s" "mx_config (tcpm_typec_change_role s r) = mx_config s"
  by (simp_all add: mx_config_def max20342_config_interface_def max20342_read_interface_def ld_report_event_def switch_set_state_def
      ld_check_vbus_valid_def ld_limit_charging_current_def tcpm_typec_change_role_def Let_def case_prod_beta)

lemma config_measure [simp]: "mx_config (snd (snd (max20342_measure bus up down s))) = mx_config s"
  by (simp add: max20342_measure_def Let_def case_prod_beta)

lemma config_start [simp]: "mx_config (max20342_start_detection bus s) = mx_config s"
  by (simp add: max20342_start_detection_def Let_def case_prod_beta)

lemma config_routine: "mx_config (snd (max20342_routine_work env bus s)) = mx_config s"
  by (simp add: max20342_routine_work_def max20342_get_detection_result_def max20342_sbu_is_dry_def max20342_sbu_is_wet_def
      max20342_stop_detection_def mx_port_defs Let_def case_prod_beta)

text \<open>A chip that gives the same current \<open>i\<close> and average \<open>a\<close> to every measurement.\<close>

definition mx_measures :: "'c i2c_bus \<Rightarrow> u8 \<Rightarrow> u8 \<Rightarrow> bool" where
  "mx_measures bus i a \<longleftrightarrow> (\<forall>c. fst (read_interface bus c ADCCtrl2 0x03 6) = i \<and> fst (read_interface bus c ADCResultAvg 0xFF 0) = a)"

lemma mx_measure_result:
  assumes "mx_measures bus i a"
  shows "fst (max20342_measure bus up down s) = i" "fst (snd (max20342_measure bus up down s)) = a"
  using assms by (simp_all add: mx_measures_def max20342_measure_def max20342_read_interface_def Let_def case_prod_beta)

lemma measure_frame [simp]:
  "ipu_result1 (snd (snd (max20342_measure bus up down s))) = ipu_result1 s" "adc_result_avg1 (snd (snd (max20342_measure bus up down s))) = adc_result_avg1 s"
  by (simp_all add: max20342_measure_def max20342_read_interface_def max20342_config_interface_def Let_def case_prod_beta)

lemma mx_result_steady:
  assumes "mx_measures bus i a" "mx_config s = (t, vmax, buf)"
  shows "mx_result bus s \<longleftrightarrow> i = t \<and> a \<le> vmax \<and> buf ! (if st_switch s = TYPE_DRY then 0 else 1) \<le> a"
proof -
  have "ipu_result1 (max20342_start_detection bus s) = i" "ipu_result2 (max20342_start_detection bus s) = i"
    "adc_result_avg1 (max20342_start_detection bus s) = a" "adc_result_avg2 (max20342_start_detection bus s) = a"
    by (simp_all add: max20342_start_detection_def Let_def case_prod_beta mx_measure_result [OF assms(1)])
  moreover have "mx_config (max20342_start_detection bus s) = (t, vmax, buf)" using assms(2) by simp
  ultimately show ?thesis by (auto simp: mx_result_def max20342_get_detection_result_def mx_config_def)
qed

section \<open>Properties\<close>

text \<open>C38: a chip that no longer answers is taken for liquid: one pass of the routine work leaves the port
  reported wet and protected, whatever it was before (for an expected current other than 0, such as the
  default).\<close>

theorem max20342_bus_failure_protects:
  assumes "bus_dead bus" "good_env env" "le_running env" "view_ok (view s)" "target_ipu s \<noteq> 0"
  shows "\<exists>w\<in>{TYPE_WET, TYPE_WET_VBUS}. view (snd (max20342_routine_work env bus s)) = (w, Some ROLE_SNK, Some IUSB_LIMITATION_UA)"
proof -
  have "mx_measures bus 0 0" using dead_read_interface [OF assms(1)] by (simp add: mx_measures_def)
  then have "\<not> mx_result bus s" using mx_result_steady [of bus 0 0 s "target_ipu s"] assms(5) by (simp add: mx_config_def)
  moreover have "st_switch s \<in> {TYPE_DRY, TYPE_WET, TYPE_WET_VBUS}" using assms(4) by (auto simp: view_def split: if_splits)
  ultimately show ?thesis using mx_routine_view [OF assms(2,3), of s bus] assms(4) by (auto simp: view_def split: if_splits)
qed

definition max20342_example :: "(u8 \<Rightarrow> u8) max20342" where
  "max20342_example = \<lparr>st_switch = 0, switch_uevents = [], ld_role = None, ld_limit = None, ld_chg_psy = False, ld_bat_psy = False,
     ld_event_ts = 0, ld_metrics = [], mx_chip = (\<lambda>_. 0), target_ipu = 1, target_resister = 0, target_voltage_min = 0, target_voltage_max = 0,
     target_adcgroundvth = 0, ipu_result1 = 0, ipu_result2 = 0, adc_result_avg1 = 0, adc_result_avg2 = 0, ld_buffer = [0, 0],
     mx_work_interval = [0, 0, 0], mx_det_delay = [0, 0], mos_is_valid = False, mos_open = (False, False)\<rparr>"

definition mx_env :: ld_env where
  "mx_env = \<lparr>le_running = True, le_now = 200, le_chg_found = True, le_bat_found = True, le_vbus = (0, 0), le_limit_ret = 0\<rparr>"

definition mx_dead_chip :: "(u8 \<Rightarrow> u8) i2c_bus" where
  "mx_dead_chip = \<lparr>i2c_rd = (\<lambda>c reg. (None, c)), i2c_wr = (\<lambda>c reg v. (-121, c))\<rparr>"

theorem max20342_bus_failure_protects_witness:
  "\<exists>w\<in>{TYPE_WET, TYPE_WET_VBUS}. view (snd (max20342_routine_work mx_env mx_dead_chip max20342_example)) = (w, Some ROLE_SNK, Some IUSB_LIMITATION_UA)"
  by (rule max20342_bus_failure_protects)
    (simp_all add: bus_dead_def mx_dead_chip_def good_env_def mx_env_def max20342_example_def view_def)

lemma mx_flap_step:
  assumes "mx_measures bus t a" "mx_config s = (t, vmax, [l, h])" "a \<le> vmax" "a < l" "h \<le> a" "good_env env" "le_running env"
    "st_switch s \<in> {TYPE_DRY, TYPE_WET, TYPE_WET_VBUS}"
  shows "(st_switch (snd (max20342_routine_work env bus s)) = TYPE_DRY) = (st_switch s \<noteq> TYPE_DRY)"
    "st_switch (snd (max20342_routine_work env bus s)) \<in> {TYPE_DRY, TYPE_WET, TYPE_WET_VBUS}"
  using mx_result_steady [OF assms(1,2)] mx_routine_view [OF assms(6-8), of bus] assms(3-5) by (auto simp: view_def split: if_splits)

text \<open>When the device tree gives no thresholds, the default of the high threshold overwrites the low
  one and the high one stays 0. A steady measurement below 119 at the expected current is then liquid
  for a dry port and no liquid for a wet one: the reported state changes at every pass, forever.\<close>

theorem max20342_default_thresholds_flap:
  assumes "mdt_ld_buffer dt = None" "ld_buffer s0 = [0, 0]" "s = max20342_parse_dt dt s0" "st_switch s0 = TYPE_DRY"
    "mx_measures bus (target_ipu s) a" "a < 119" "a \<le> target_voltage_max s" "good_env env" "le_running env"
  shows "st_switch (fold max20342_work (replicate n (MxRoutine env bus)) s) = TYPE_DRY \<longleftrightarrow> even n"
proof -
  have buf: "ld_buffer s = [119, 0]" "st_switch s = TYPE_DRY" using assms(1-4) by (simp_all add: max20342_parse_dt_def case_prod_beta)
  then have conf: "mx_config s = (target_ipu s, target_voltage_max s, [119, 0])" by (simp add: mx_config_def)
  define run where "run n = fold max20342_work (replicate n (MxRoutine env bus)) s" for n
  have suc: "run (Suc n) = snd (max20342_routine_work env bus (run n))" for n
    unfolding run_def replicate_Suc replicate_append_same [symmetric] by simp
  have "mx_config (run n) = mx_config s \<and> st_switch (run n) \<in> {TYPE_DRY, TYPE_WET, TYPE_WET_VBUS} \<and> (st_switch (run n) = TYPE_DRY) = even n"
  proof (induction n)
    case 0
    then show ?case using buf(2) by (simp add: run_def)
  next
    case (Suc n)
    then have c: "mx_config (run n) = (target_ipu s, target_voltage_max s, [119, 0])" "st_switch (run n) \<in> {TYPE_DRY, TYPE_WET, TYPE_WET_VBUS}"
      "(st_switch (run n) = TYPE_DRY) = even n" unfolding conf by blast+
    have "0 \<le> a" by simp
    from mx_flap_step [OF assms(5) c(1) assms(7,6) this assms(8,9) c(2)] c(1,3) conf config_routine [of env bus "run n"]
    show ?case unfolding suc by (simp only: even_Suc)
  qed
  then show ?thesis by (simp add: run_def)
qed

definition mx_steady_chip :: "(u8 \<Rightarrow> u8) i2c_bus" where
  "mx_steady_chip = \<lparr>i2c_rd = (\<lambda>c reg. (Some (if reg = ADCCtrl2 then 0x40 else 100), c)), i2c_wr = (\<lambda>c reg v. (1, c))\<rparr>"

definition mx_no_dt :: max20342_dt where
  "mx_no_dt = \<lparr>mdt_work_interval = None, mdt_det_delay = None, mdt_target_ipu = None, mdt_target_resister = None, mdt_ld_buffer = None,
     mdt_target_voltage_max = None, mdt_target_adcgroundvth = None\<rparr>"

theorem max20342_default_thresholds_flap_witness:
  "st_switch (fold max20342_work (replicate 5 (MxRoutine mx_env mx_steady_chip)) (max20342_parse_dt mx_no_dt max20342_example)) = TYPE_DRY \<longleftrightarrow> even (5 :: nat)"
proof (rule max20342_default_thresholds_flap [where dt = mx_no_dt and ?s0.0 = max20342_example])
  show "mx_measures mx_steady_chip (target_ipu (max20342_parse_dt mx_no_dt max20342_example)) 100"
  proof -
    have "i2c_rd mx_steady_chip c ADCCtrl2 = (Some 0x40, c)" "i2c_rd mx_steady_chip c ADCResultAvg = (Some 100, c)" for c
      by (simp_all add: mx_steady_chip_def)
    then show ?thesis by (simp add: mx_measures_def max20342_parse_dt_def mx_no_dt_def read_interface_value [OF read_first])
  qed
qed (simp_all add: max20342_parse_dt_def mx_no_dt_def max20342_example_def good_env_def mx_env_def)

end
