(* ===== verification/Ld_Probe.thy ===== *)
theory Ld_Probe
  imports Amzn_Ld Fusb251 Max20342
begin

text \<open>
  The life of the two liquid detection chips' drivers: \<^verbatim>\<open>fusb251_i2c_probe\<close>, \<^verbatim>\<open>max20342_i2c_probe\<close> with the sysfs
  files and pins they set up, the notification of a change of VBUS, and \<^verbatim>\<open>*_i2c_shutdown\<close>; and the same
  notification and shutdown of the driver without a chip. What a driver holds is a record with the
  pointer all its works use (\<^verbatim>\<open>g_fusb251\<close>, \<^verbatim>\<open>g_max20342\<close>). The theory shows that a failed probe gives everything back and
  a successful one starts a port the works protect, and that shutdown does not undo the probe.
\<close>

section \<open>What the kernel answers and what a driver holds\<close>

record chip_env =
  ce_i2c_func :: bool
  ce_alloc :: bool
  ce_tcpc :: bool
  ce_charger :: bool
  ce_switch :: int
  ce_attr :: "string \<Rightarrow> int"
  ce_pinctrl :: bool
  ce_lookup :: "string \<Rightarrow> bool"
  ce_gates :: "bool \<times> bool" \<comment> \<open>the gates in the first pin state of the device tree\<close>
  ce_now :: int

record 's chip_held =
  ch_memory :: bool
  ch_notifier :: bool
  ch_switch :: bool
  ch_files :: "string set"
  ch_wake :: bool
  ch_queued :: bool
  ch_global :: "'s option"

definition chip_idle :: "'s chip_held" where
  "chip_idle = \<lparr>ch_memory = False, ch_notifier = False, ch_switch = False, ch_files = {}, ch_wake = False, ch_queued = False, ch_global = None\<rparr>"

section \<open>The sysfs files\<close>

definition fusb251_attrs :: "string list" where
  "fusb251_attrs = [''reset'', ''sbu_det'', ''sbuft_det'', ''status_look4sbu'', ''mosstatus_sbu1'', ''mosstatus_sbu2'', ''mosstatus_sbu1ft'',
     ''mosstatus_sbu2ft'', ''threshold_sbu_dry2wet'', ''threshold_sbu_wet2dry'', ''threshold_sbuft'', ''interval_dry'', ''interval_wet'',
     ''interval_wet_vbus'', ''regdump'']"

text \<open>Here a file that cannot be made is not removed, only those before it.\<close>

fun fusb251_create_attrs :: "(string \<Rightarrow> int) \<Rightarrow> string list \<Rightarrow> string list \<Rightarrow> string set \<Rightarrow> int \<times> string set" where
  "fusb251_create_attrs create done [] files = (0, files)"
| "fusb251_create_attrs create done (a # as) files =
     (if create a < 0 then (create a, foldr (\<lambda>x fs. fs - {x}) done files)
      else fusb251_create_attrs create (done @ [a]) as (insert a files))"

definition fusb251_create_attr :: "(string \<Rightarrow> int) \<Rightarrow> string set \<Rightarrow> int \<times> string set" where
  "fusb251_create_attr create files = fusb251_create_attrs create [] fusb251_attrs files"

definition fusb251_delete_attr :: "string set \<Rightarrow> string set" where
  "fusb251_delete_attr files = foldr (\<lambda>x fs. fs - {x}) fusb251_attrs files"

definition max20342_attrs :: "string list" where
  "max20342_attrs = [''target_resister'', ''target_ipu'', ''target_voltage_min'', ''target_voltage_max'', ''ipu_result1'', ''ipu_result2'',
     ''adc_result_avg1'', ''adc_result_avg2'', ''regdump_liquid'', ''resetdev'']"

definition max20342_create_attr :: "(string \<Rightarrow> int) \<Rightarrow> string set \<Rightarrow> int \<times> string set" where
  "max20342_create_attr create files = create_attrs create [] max20342_attrs files"

definition max20342_delete_attr :: "string set \<Rightarrow> string set" where
  "max20342_delete_attr files = foldl (\<lambda>fs x. fs - {x}) files max20342_attrs"

section \<open>The gates of the MAX20342\<close>

definition mos_pin_states :: "string list" where
  "mos_pin_states = [''mosctrl1_init'', ''mosctrl1_low'', ''mosctrl1_high'', ''mosctrl2_init'', ''mosctrl2_low'', ''mosctrl2_high'']"

text \<open>Whether all pin states were found; only then both gates are put into their first state, \<open>init\<close>.\<close>

definition max20342_pinctrl_init :: "bool \<Rightarrow> (string \<Rightarrow> bool) \<Rightarrow> bool \<times> bool \<Rightarrow> bool \<times> bool \<Rightarrow> bool \<times> (bool \<times> bool)" where
  "max20342_pinctrl_init pinctrl lookup init gates =
     (if \<not> pinctrl then (False, gates)
      else if \<exists>st\<in>set mos_pin_states. \<not> lookup st then (False, gates)
      else (True, init))"

section \<open>Probe\<close>

definition fusb251_zero :: "'c \<Rightarrow> 'c fusb251" where
  "fusb251_zero c = \<lparr>st_switch = 0, switch_uevents = [], ld_role = None, ld_limit = None, ld_chg_psy = False, ld_bat_psy = False,
     ld_event_ts = 0, ld_metrics = [], fu_chip = c, status_ovp_cc = 0, status_ovp_sbu = 0, mos_status_sbu1 = 0, mos_status_sbu2 = 0,
     mos_status_sbu1_ft = 0, mos_status_sbu2_ft = 0, threshold_sbu = [0, 0], threshold_sbuft = 0, fu_work_interval = [0, 0, 0], fu_det_delay = [0, 0]\<rparr>"

definition max20342_zero :: "'c \<Rightarrow> bool \<times> bool \<Rightarrow> 'c max20342" where
  "max20342_zero c gates = \<lparr>st_switch = 0, switch_uevents = [], ld_role = None, ld_limit = None, ld_chg_psy = False, ld_bat_psy = False,
     ld_event_ts = 0, ld_metrics = [], mx_chip = c, target_ipu = 0, target_resister = 0, target_voltage_min = 0, target_voltage_max = 0,
     target_adcgroundvth = 0, ipu_result1 = 0, ipu_result2 = 0, adc_result_avg1 = 0, adc_result_avg2 = 0, ld_buffer = [0, 0],
     mx_work_interval = [0, 0, 0], mx_det_delay = [0, 0], mos_is_valid = False, mos_open = gates\<rparr>"

text \<open>The status, the chip and what is held afterwards.\<close>

definition fusb251_i2c_probe :: "'c i2c_bus \<Rightarrow> chip_env \<Rightarrow> fusb251_dt \<Rightarrow> 'c \<Rightarrow> 'c fusb251 chip_held \<Rightarrow> int \<times> 'c \<times> 'c fusb251 chip_held" where
  "fusb251_i2c_probe bus ce dt c h =
     (if \<not> ce_i2c_func ce then (- ENODEV, c, h)
      else if \<not> ce_alloc ce then (- ENOMEM, c, h)
      else let h = h\<lparr>ch_memory := True\<rparr>; free = (\<lambda>h. h\<lparr>ch_memory := False\<rparr>); unregister = (\<lambda>h. h\<lparr>ch_notifier := False, ch_memory := False\<rparr>);
               (_, id_val, c) = read_reg bus c 0x01 0 in
      if id_val \<noteq> 0x80 then (- ENODEV, c, free h)
      else if \<not> ce_tcpc ce then (- EPROBE_DEFER, c, free h)
      else if \<not> ce_charger ce then (- EPROBE_DEFER, c, free h)
      else let h = h\<lparr>ch_notifier := True\<rparr>;
               s = fusb251_parse_dt dt (fusb251_zero c); (ret, s) = fusb251_init bus s; c = fu_chip s in
      if ret < 0 then (ret, c, unregister h)
      else let s = s\<lparr>st_switch := TYPE_DRY\<rparr> in
      if ce_switch ce \<noteq> 0 then (ce_switch ce, c, unregister h)
      else let h = h\<lparr>ch_switch := True\<rparr>; (ret, files) = fusb251_create_attr (ce_attr ce) (ch_files h); h = h\<lparr>ch_files := files\<rparr> in
      if ret < 0 then (ret, c, unregister (h\<lparr>ch_switch := False\<rparr>))
      else (0, c, h\<lparr>ch_global := Some (s\<lparr>ld_event_ts := ce_now ce\<rparr>), ch_wake := True, ch_queued := True\<rparr>))"

definition max20342_i2c_probe :: "'c i2c_bus \<Rightarrow> chip_env \<Rightarrow> max20342_dt \<Rightarrow> 'c \<Rightarrow> bool \<times> bool \<Rightarrow> 'c max20342 chip_held
    \<Rightarrow> int \<times> 'c \<times> 'c max20342 chip_held" where
  "max20342_i2c_probe bus ce dt c gates h =
     (if \<not> ce_i2c_func ce then (- ENODEV, c, h)
      else if \<not> ce_alloc ce then (- ENOMEM, c, h)
      else let h = h\<lparr>ch_memory := True\<rparr>; free = (\<lambda>h. h\<lparr>ch_memory := False\<rparr>); unregister = (\<lambda>h. h\<lparr>ch_notifier := False, ch_memory := False\<rparr>);
               (_, id_val, c) = read_reg bus c 0x00 0 in
      if id_val \<noteq> 0x01 then (- ENODEV, c, free h)
      else if \<not> ce_tcpc ce then (- EPROBE_DEFER, c, free h)
      else if \<not> ce_charger ce then (- EPROBE_DEFER, c, free h)
      else let h = h\<lparr>ch_notifier := True\<rparr>;
               (valid, gates) = max20342_pinctrl_init (ce_pinctrl ce) (ce_lookup ce) (ce_gates ce) gates;
               s = max20342_parse_dt dt ((max20342_zero c gates)\<lparr>mos_is_valid := valid\<rparr>); (ret, s) = max20342_init bus s; c = mx_chip s in
      if ret < 0 then (ret, c, unregister h)
      else let s = s\<lparr>st_switch := TYPE_DRY\<rparr> in
      if ce_switch ce \<noteq> 0 then (ce_switch ce, c, unregister h)
      else let h = h\<lparr>ch_switch := True\<rparr>; (ret, files) = max20342_create_attr (ce_attr ce) (ch_files h); h = h\<lparr>ch_files := files\<rparr> in
      if ret < 0 then (ret, c, unregister (h\<lparr>ch_switch := False\<rparr>))
      else (0, c, h\<lparr>ch_global := Some (s\<lparr>ld_event_ts := ce_now ce\<rparr>), ch_wake := True, ch_queued := True\<rparr>))"

section \<open>Notification and shutdown\<close>

text \<open>A change of VBUS (re)starts the VBUS work, after 300 ms; the result is the delay when it does.\<close>

definition WORK_DETECT_VBUS :: int where "WORK_DETECT_VBUS = 300"
definition CHARGER_DEV_NOTIFY_VBUS_EVENT :: int where "CHARGER_DEV_NOTIFY_VBUS_EVENT = 5"

definition chip_vbus_changed :: "'s chip_held \<Rightarrow> int option" where
  "chip_vbus_changed h = (case ch_global h of None \<Rightarrow> None | Some _ \<Rightarrow> Some WORK_DETECT_VBUS)"

definition chip_dev_event :: "'s chip_held \<Rightarrow> int \<Rightarrow> int option" where
  "chip_dev_event h event = (if event = CHARGER_DEV_NOTIFY_VBUS_EVENT then chip_vbus_changed h else None)"

text \<open>
  Shutdown cancels the works, removes the files and frees the memory; it uses the global pointer, which
  must be set. The notifier, the wake source and the switch, all inside the freed memory, stay registered.
\<close>

definition fusb251_i2c_shutdown :: "'c fusb251 chip_held \<Rightarrow> 'c fusb251 chip_held option" where
  "fusb251_i2c_shutdown h =
     (case ch_global h of None \<Rightarrow> None
      | Some _ \<Rightarrow> Some (h\<lparr>ch_queued := False, ch_files := fusb251_delete_attr (ch_files h), ch_memory := False, ch_global := None\<rparr>))"

definition max20342_i2c_shutdown :: "'c max20342 chip_held \<Rightarrow> 'c max20342 chip_held option" where
  "max20342_i2c_shutdown h =
     (case ch_global h of None \<Rightarrow> None
      | Some _ \<Rightarrow> Some (h\<lparr>ch_queued := False, ch_files := max20342_delete_attr (ch_files h), ch_memory := False, ch_global := None\<rparr>))"

definition fusb251_i2c_remove :: "'s chip_held \<Rightarrow> int \<times> 's chip_held" where
  "fusb251_i2c_remove h = (0, h)"

definition liquid_vbus_changed :: "liquid_held \<Rightarrow> int option" where
  "liquid_vbus_changed h = (case g_liquid h of None \<Rightarrow> None | Some _ \<Rightarrow> Some WORK_DETECT_VBUS)"

definition liquid_dev_event :: "liquid_held \<Rightarrow> int \<Rightarrow> int option" where
  "liquid_dev_event h event = (if event = CHARGER_DEV_NOTIFY_VBUS_EVENT then liquid_vbus_changed h else None)"

definition liquid_shutdown :: "liquid_held \<Rightarrow> liquid_held option" where
  "liquid_shutdown h =
     (case g_liquid h of None \<Rightarrow> None
      | Some _ \<Rightarrow> Some (h\<lparr>h_queued := False, h_files := liquid_delete_attr (h_files h), h_memory := False, g_liquid := None\<rparr>))"

section \<open>A probe gives everything or nothing\<close>

lemma remove_all: "foldr (\<lambda>x fs. fs - {x}) xs A = A - set xs" for A :: "string set"
  by (induction xs) auto

lemma fusb251_create_attrs_files:
  "set done \<inter> F = {} \<Longrightarrow> set as \<inter> F = {} \<Longrightarrow> files = F \<union> set done \<Longrightarrow>
    snd (fusb251_create_attrs create done as files)
      = (if fst (fusb251_create_attrs create done as files) < 0 then F else F \<union> set done \<union> set as)"
proof (induction create "done" as files rule: fusb251_create_attrs.induct)
  case (2 create "done" a as files)
  show ?case
  proof (cases "create a < 0")
    case True
    then show ?thesis using 2(2-4) by (auto simp: remove_all)
  next
    case False
    have "snd (fusb251_create_attrs create (done @ [a]) as (insert a files))
        = (if fst (fusb251_create_attrs create (done @ [a]) as (insert a files)) < 0 then F else F \<union> set (done @ [a]) \<union> set as)"
      using 2(2-4) by (intro 2(1) [OF False]) auto
    then show ?thesis using False by simp
  qed
qed simp

lemma create_attrs_files: "\<not> fst (create_attrs create done as files) < 0 \<Longrightarrow> snd (create_attrs create done as files) = files \<union> set as"
  by (induction create "done" as files rule: create_attrs.induct) (auto split: if_splits)

lemma fu_probe_files:
  "fusb251_create_attr create {} = (ret, files) \<Longrightarrow> files = (if ret < 0 then {} else set fusb251_attrs)"
  using fusb251_create_attrs_files [of "[]" "{}" fusb251_attrs "{}" create] by (simp add: fusb251_create_attr_def)

lemma mx_probe_files:
  "max20342_create_attr create {} = (ret, files) \<Longrightarrow> files = (if ret < 0 then {} else set max20342_attrs)"
  using create_attrs_files [of create "[]" max20342_attrs "{}"] create_attrs_removes [of create "[]" max20342_attrs "{}" "{}"]
  by (auto simp: max20342_create_attr_def)

lemma fu_probe_view: "view (snd (fusb251_init bus s)) = view s"
  by (simp add: fusb251_init_def fusb251_regdump_def Let_def case_prod_beta view_def fusb251_write_reg_def fusb251_config_interface_def)

lemma mx_mask_view: "view (snd (max20342_mask_ints bus s regs)) = view s"
  by (induction bus s regs rule: max20342_mask_ints.induct)
     (simp_all add: Let_def case_prod_beta max20342_write_reg_def view_def)

lemma view_mx_chip: "view (s\<lparr>mx_chip := c\<rparr>) = view s"
  by (simp add: view_def)

lemma mx_probe_view: "view (snd (max20342_init bus s)) = view s"
  by (simp add: max20342_init_def max20342_regdump_def Let_def case_prod_beta view_mx_chip mx_mask_view)

lemma start_view: "view (fusb251_parse_dt dt (fusb251_zero c)) = (0, None, None)" "view (max20342_parse_dt mdt (max20342_zero c gates\<lparr>mos_is_valid := v\<rparr>)) = (0, None, None)"
  by (simp_all add: view_def fusb251_parse_dt_def max20342_parse_dt_def fusb251_zero_def max20342_zero_def Let_def case_prod_beta)

text \<open>Everything is registered and the works use a port that is dry and has neither role nor limit set.\<close>

definition chip_started :: "string list \<Rightarrow> 'm ld_port_scheme chip_held \<Rightarrow> bool" where
  "chip_started attrs h \<longleftrightarrow> ch_memory h \<and> ch_notifier h \<and> ch_switch h \<and> ch_wake h \<and> ch_queued h \<and> ch_files h = set attrs
     \<and> (\<exists>s. ch_global h = Some s \<and> view s = (TYPE_DRY, None, None))"

lemma fusb251_probe_result:
  assumes "fusb251_i2c_probe bus ce dt c chip_idle = (ret, c', h')"
  shows "if ret = 0 then chip_started fusb251_attrs h' else h' = chip_idle"
proof -
  obtain r0 id_val c1 where r: "read_reg bus c 0x01 0 = (r0, id_val, c1)" by (rule prod_cases3)
  obtain ret1 s1 where i: "fusb251_init bus (fusb251_parse_dt dt (fusb251_zero c1)) = (ret1, s1)" by (rule prod.exhaust)
  obtain ret2 files where f: "fusb251_create_attr (ce_attr ce) {} = (ret2, files)" by (rule prod.exhaust)
  have "view s1 = (0, None, None)" using fu_probe_view [of bus "fusb251_parse_dt dt (fusb251_zero c1)"] i start_view(1) by simp
  then show ?thesis
    using assms fu_probe_files [OF f] f
    by (auto simp: fusb251_i2c_probe_def chip_idle_def r i chip_started_def view_def errno_defs Let_def split: if_splits)
qed

lemma max20342_probe_result:
  assumes "max20342_i2c_probe bus ce dt c gates chip_idle = (ret, c', h')"
  shows "if ret = 0 then chip_started max20342_attrs h' else h' = chip_idle"
proof -
  obtain r0 id_val c1 where r: "read_reg bus c 0x00 0 = (r0, id_val, c1)" by (rule prod_cases3)
  obtain valid g1 where p: "max20342_pinctrl_init (ce_pinctrl ce) (ce_lookup ce) (ce_gates ce) gates = (valid, g1)" by (rule prod.exhaust)
  obtain ret1 s1 where i: "max20342_init bus (max20342_parse_dt dt (max20342_zero c1 g1\<lparr>mos_is_valid := valid\<rparr>)) = (ret1, s1)" by (rule prod.exhaust)
  obtain ret2 files where f: "max20342_create_attr (ce_attr ce) {} = (ret2, files)" by (rule prod.exhaust)
  have "view s1 = (0, None, None)"
    using mx_probe_view [of bus "max20342_parse_dt dt (max20342_zero c1 g1\<lparr>mos_is_valid := valid\<rparr>)"] i start_view(2) by simp
  then show ?thesis
    using assms mx_probe_files [OF f] f
    by (auto simp: max20342_i2c_probe_def chip_idle_def r p i chip_started_def view_def errno_defs Let_def split: if_splits)
qed


section \<open>What shutdown leaves behind\<close>

text \<open>After shutdown the notifier, the switch and the wake source of the freed memory are still registered. A change
  of VBUS is only harmless because the global pointer is cleared.\<close>

theorem shutdown_leaves_registrations:
  assumes "chip_started fusb251_attrs h"
  obtains h' where "fusb251_i2c_shutdown h = Some h'" "\<not> ch_memory h'" "ch_files h' = {}" "\<not> ch_queued h'"
    "ch_notifier h'" "ch_switch h'" "ch_wake h'" "chip_dev_event h' event = None"
proof -
  obtain s where s: "ch_global h = Some s" using assms by (auto simp: chip_started_def)
  have "fusb251_delete_attr (ch_files h) = {}" using assms by (simp add: chip_started_def fusb251_delete_attr_def remove_all)
  then show ?thesis
    using that [of "h\<lparr>ch_queued := False, ch_files := {}, ch_memory := False, ch_global := None\<rparr>"] assms s
    by (simp add: fusb251_i2c_shutdown_def chip_started_def chip_dev_event_def chip_vbus_changed_def)
qed

text \<open>A chip whose registers all read \<open>v\<close> and that takes every write.\<close>

definition steady_bus :: "u8 \<Rightarrow> unit i2c_bus" where
  "steady_bus v = \<lparr>i2c_rd = (\<lambda>c reg. (Some v, c)), i2c_wr = (\<lambda>c reg w. (1, c))\<rparr>"

definition chip_env_example :: chip_env where
  "chip_env_example = \<lparr>ce_i2c_func = True, ce_alloc = True, ce_tcpc = True, ce_charger = True, ce_switch = 0, ce_attr = (\<lambda>_. 0),
     ce_pinctrl = True, ce_lookup = (\<lambda>_. True), ce_gates = (False, False), ce_now = 30\<rparr>"

definition fu_no_dt :: fusb251_dt where
  "fu_no_dt = \<lparr>dt_threshold_sbu = None, dt_threshold_sbuft = None, dt_work_interval = None, dt_det_delay = None\<rparr>"

lemma steady_read: "read_reg (steady_bus v) c reg x = (0, v, c)"
  by (simp add: read_reg_def i2c_read_def I2C_RETRIES_def numeral_2_eq_2 steady_bus_def)

lemma steady_write: "fst (fusb251_write_reg (steady_bus v) s reg w) = 1" "fst (max20342_write_reg (steady_bus v) m reg w) = 1"
  by (simp_all add: fusb251_write_reg_def max20342_write_reg_def write_reg_def i2c_write_def steady_bus_def)

lemma steady_mask: "fst (max20342_mask_ints (steady_bus v) s regs)"
  by (induction regs arbitrary: s) (simp_all add: Let_def case_prod_beta steady_write)

lemma steady_init: "fst (fusb251_init (steady_bus v) s) = 0" "fst (max20342_init (steady_bus v) m) = 0"
  by (simp_all add: fusb251_init_def max20342_init_def Let_def case_prod_beta steady_write steady_mask)

lemma all_files: "fst (fusb251_create_attrs (\<lambda>_. 0) done as files) = 0" "fst (create_attrs (\<lambda>_. 0) done as files) = 0"
  by (induction as arbitrary: "done" files) simp_all

lemma steady_probes:
  "fst (fusb251_i2c_probe (steady_bus 0x80) chip_env_example dt () chip_idle) = 0"
  "fst (max20342_i2c_probe (steady_bus 0x01) chip_env_example mdt () gates chip_idle) = 0"
  by (simp_all add: fusb251_i2c_probe_def max20342_i2c_probe_def chip_env_example_def chip_idle_def steady_read steady_init
      fusb251_create_attr_def max20342_create_attr_def all_files max20342_pinctrl_init_def Let_def case_prod_beta)

end
