(* ===== verification/Keycombo.thy ===== *)
theory Keycombo
  imports Prelude
begin

text \<open>
  The key combination driver (\<^verbatim>\<open>drivers/input/keycombo.c\<close>). It counts the keys of a combination that
  are held, arms a delayed work when exactly the combination is held and disarms it when it is broken;
  when the work has already started, a second work calls the function for the release.

  The state carries what the kernel keeps for the driver: the armed timer with the jiffy at which it
  expires, the ordered work queue and the work that is running, and the log of the calls made to the
  two functions of the platform data, which a parameter type names. A bitmap of keys is the set of its
  bits. The step relation interleaves key events with the clock, the timer and the worker. A run of a
  work is two steps, so that events may arrive while the function runs.
\<close>

section \<open>State\<close>

definition EV_KEY :: nat where "EV_KEY = 1"
definition KEY_MAX :: nat where "KEY_MAX = 767"

datatype kc_work = KeyDownWork | KeyUpWork

datatype 'f kc_call = KcCall 'f | KcReturn 'f

record 'f keycombo_platform_data =
  kp_key_down_fn :: "'f option"
  kp_key_up_fn :: "'f option"
  kp_key_down_delay :: int
  kp_keys_up :: "int list option"
  kp_keys_down :: "int list"

record 'f keycombo_state =
  keybit :: "nat set"
  upbit :: "nat set"
  kc_key :: "nat set"
  key_down_target :: int
  key_down :: int
  key_up :: int
  kc_delay :: int
  key_up_fn :: "'f option"
  key_down_fn :: "'f option"
  key_is_down :: bool
  combo_held_wake_source :: bool
  combo_up_wake_source :: bool
  kc_now :: int
  kc_timer :: "int option"
  kc_wq :: "kc_work list"
  kc_running :: "kc_work option"
  kc_calls :: "'f kc_call list"

definition kc_zero :: "'f keycombo_state" where
  "kc_zero = \<lparr>keybit = {}, upbit = {}, kc_key = {}, key_down_target = 0, key_down = 0, key_up = 0, kc_delay = 0,
     key_up_fn = None, key_down_fn = None, key_is_down = False, combo_held_wake_source = False,
     combo_up_wake_source = False, kc_now = 0, kc_timer = None, kc_wq = [], kc_running = None, kc_calls = []\<rparr>"

section \<open>Works of the kernel\<close>

text \<open>A work is pending while its timer is armed or it waits in the queue; it is not pending while it runs.\<close>

definition down_pending :: "'f keycombo_state \<Rightarrow> bool" where
  "down_pending s \<longleftrightarrow> kc_timer s \<noteq> None \<or> KeyDownWork \<in> set (kc_wq s)"

definition queue_delayed_work :: "'f keycombo_state \<Rightarrow> 'f keycombo_state" where
  "queue_delayed_work s =
     (if down_pending s then s
      else if kc_delay s = 0 then s\<lparr>kc_wq := kc_wq s @ [KeyDownWork]\<rparr>
      else s\<lparr>kc_timer := Some (kc_now s + kc_delay s)\<rparr>)"

definition cancel_delayed_work :: "'f keycombo_state \<Rightarrow> bool \<times> 'f keycombo_state" where
  "cancel_delayed_work s = (down_pending s, s\<lparr>kc_timer := None, kc_wq := filter (\<lambda>w. w \<noteq> KeyDownWork) (kc_wq s)\<rparr>)"

definition queue_work :: "'f keycombo_state \<Rightarrow> kc_work \<Rightarrow> 'f keycombo_state" where
  "queue_work s w = (if w \<in> set (kc_wq s) then s else s\<lparr>kc_wq := kc_wq s @ [w]\<rparr>)"

section \<open>The driver\<close>

definition kc_log :: "'f option \<Rightarrow> ('f \<Rightarrow> 'f kc_call) \<Rightarrow> 'f keycombo_state \<Rightarrow> 'f keycombo_state" where
  "kc_log fn c s = (case fn of None \<Rightarrow> s | Some f \<Rightarrow> s\<lparr>kc_calls := kc_calls s @ [c f]\<rparr>)"

definition do_key_down :: "bool \<Rightarrow> 'f keycombo_state \<Rightarrow> 'f keycombo_state" where
  "do_key_down fin s = kc_log (key_down_fn s) (if fin then KcReturn else KcCall) s"

definition do_key_up :: "bool \<Rightarrow> 'f keycombo_state \<Rightarrow> 'f keycombo_state" where
  "do_key_up fin s =
     (let s = kc_log (key_up_fn s) (if fin then KcReturn else KcCall) s
      in if fin then s\<lparr>combo_up_wake_source := False\<rparr> else s)"

definition keycombo_count :: "'f keycombo_state \<Rightarrow> nat \<Rightarrow> int \<Rightarrow> 'f keycombo_state" where
  "keycombo_count s code value =
     (let s = s\<lparr>kc_key := (if code \<in> kc_key s then kc_key s - {code} else insert code (kc_key s))\<rparr>
      in if code \<in> upbit s
         then s\<lparr>key_up := s32 (if value \<noteq> 0 then key_up s + 1 else key_up s - 1)\<rparr>
         else s\<lparr>key_down := s32 (if value \<noteq> 0 then key_down s + 1 else key_down s - 1)\<rparr>)"

definition keycombo_check :: "'f keycombo_state \<Rightarrow> 'f keycombo_state" where
  "keycombo_check s =
     (if key_down s = key_down_target s \<and> key_up s = 0
      then queue_delayed_work (s\<lparr>combo_held_wake_source := True, key_is_down := True\<rparr>)
      else if key_is_down s
      then let (pending, s) = cancel_delayed_work s;
               s = (if \<not> pending then queue_work (s\<lparr>combo_up_wake_source := True\<rparr>) KeyUpWork else s)
           in s\<lparr>combo_held_wake_source := False, key_is_down := False\<rparr>
      else s)"

definition keycombo_event :: "'f keycombo_state \<Rightarrow> nat \<Rightarrow> nat \<Rightarrow> int \<Rightarrow> 'f keycombo_state" where
  "keycombo_event s ty code value =
     (if ty \<noteq> EV_KEY then s
      else if KEY_MAX \<le> code then s
      else if code \<notin> keybit s then s
      else if (code \<in> kc_key s) = (value \<noteq> 0) then s
      else keycombo_check (keycombo_count s code value))"

text \<open>
  \<^verbatim>\<open>keycombo_connect\<close> with the keys of the device, the allocation and the results of the two calls to the
  input core; it returns whether a handle is allocated and whether it is registered.
\<close>

definition keycombo_connect :: "'f keycombo_state \<Rightarrow> nat set \<Rightarrow> bool \<Rightarrow> int \<Rightarrow> int \<Rightarrow> int \<times> bool \<times> bool" where
  "keycombo_connect s dev_keybit alloc_ok register_ret open_ret =
     (if \<not> list_ex (\<lambda>i. i \<in> keybit s \<and> i \<in> dev_keybit) [0..<KEY_MAX] then (- ENODEV, False, False)
      else if \<not> alloc_ok then (- ENOMEM, False, False)
      else if register_ret \<noteq> 0 then (register_ret, False, False)
      else if open_ret \<noteq> 0 then (open_ret, False, False)
      else (0, True, True))"

definition HZ :: int where "HZ = 250"
definition MAX_JIFFY_OFFSET :: int where "MAX_JIFFY_OFFSET = 4611686018427387902"

definition msecs_to_jiffies :: "int \<Rightarrow> int" where
  "msecs_to_jiffies m = (if s32 m < 0 then MAX_JIFFY_OFFSET else (m + 1000 div HZ - 1) div (1000 div HZ))"

text \<open>
  The loops over the key lists of the platform data, which end at a 0. A list without one is read past
  its end and a negative key writes before the bitmap: both are \<open>None\<close>.
\<close>

fun mark_keys_down :: "int list \<Rightarrow> 'f keycombo_state \<Rightarrow> 'f keycombo_state option" where
  "mark_keys_down [] s = None"
| "mark_keys_down (key # ks) s =
     (if key = 0 then Some s
      else if int KEY_MAX \<le> key then mark_keys_down ks s
      else if key < 0 then None
      else mark_keys_down ks (s\<lparr>key_down_target := s32 (key_down_target s + 1), keybit := insert (nat key) (keybit s)\<rparr>))"

fun mark_keys_up :: "int list \<Rightarrow> 'f keycombo_state \<Rightarrow> 'f keycombo_state option" where
  "mark_keys_up [] s = None"
| "mark_keys_up (key # ks) s =
     (if key = 0 then Some s
      else if int KEY_MAX \<le> key then mark_keys_up ks s
      else if key < 0 then None
      else mark_keys_up ks (s\<lparr>keybit := insert (nat key) (keybit s), upbit := insert (nat key) (upbit s)\<rparr>))"

text \<open>
  \<^verbatim>\<open>keycombo_probe\<close> returns its status, the driver data it leaves on success and the memory of the state
  and the work queue that are still allocated.
\<close>

datatype kc_resource = KcStateMemory | KcWorkqueue

record kc_probe_env =
  kpe_alloc :: bool
  kpe_wq :: bool
  kpe_register :: int

definition keycombo_probe :: "kc_probe_env \<Rightarrow> 'f keycombo_platform_data option
    \<Rightarrow> (int \<times> 'f keycombo_state option \<times> kc_resource list) option" where
  "keycombo_probe env pdata =
     (case pdata of None \<Rightarrow> Some (- EINVAL, None, [])
      | Some pd \<Rightarrow>
          if \<not> kpe_alloc env then Some (- ENOMEM, None, [])
          else case mark_keys_down (kp_keys_down pd) kc_zero of None \<Rightarrow> None
          | Some s \<Rightarrow>
              (case (case kp_keys_up pd of None \<Rightarrow> Some s | Some ups \<Rightarrow> mark_keys_up ups s) of None \<Rightarrow> None
               | Some s \<Rightarrow>
                   if \<not> kpe_wq env then Some (- ENOMEM, None, [KcStateMemory])
                   else let s = s\<lparr>key_down_fn := kp_key_down_fn pd, key_up_fn := kp_key_up_fn pd,
                                  kc_delay := s32 (msecs_to_jiffies (kp_key_down_delay pd))\<rparr>
                        in if kpe_register env \<noteq> 0 then Some (kpe_register env, None, [KcWorkqueue])
                           else Some (0, Some s, [KcStateMemory, KcWorkqueue])))"

section \<open>Steps\<close>

datatype kc_action = KcEvent nat nat int | KcTime nat | KcExpire | KcStart | KcFinish

fun kc_act :: "kc_action \<Rightarrow> 'f keycombo_state \<Rightarrow> 'f keycombo_state option" where
  "kc_act (KcEvent ty code value) s = Some (keycombo_event s ty code value)"
| "kc_act (KcTime d) s = Some (s\<lparr>kc_now := kc_now s + int d\<rparr>)"
| "kc_act KcExpire s =
     (case kc_timer s of None \<Rightarrow> None
      | Some e \<Rightarrow> if e \<le> kc_now s then Some (s\<lparr>kc_timer := None, kc_wq := kc_wq s @ [KeyDownWork]\<rparr>) else None)"
| "kc_act KcStart s =
     (case (kc_running s, kc_wq s) of
        (None, w # ws) \<Rightarrow>
          let s = s\<lparr>kc_running := Some w, kc_wq := ws\<rparr>
          in Some (case w of KeyDownWork \<Rightarrow> do_key_down False s | KeyUpWork \<Rightarrow> do_key_up False s)
      | _ \<Rightarrow> None)"
| "kc_act KcFinish s =
     (case kc_running s of None \<Rightarrow> None
      | Some w \<Rightarrow>
          let s = s\<lparr>kc_running := None\<rparr>
          in Some (case w of KeyDownWork \<Rightarrow> do_key_down True s | KeyUpWork \<Rightarrow> do_key_up True s))"

inductive kc_steps :: "'f keycombo_state \<Rightarrow> kc_action list \<Rightarrow> 'f keycombo_state \<Rightarrow> bool" where
  kc_stop: "kc_steps s [] s"
| kc_step: "kc_act a s = Some s' \<Longrightarrow> kc_steps s' acts s'' \<Longrightarrow> kc_steps s (a # acts) s''"

inductive_cases kc_stepsE: "kc_steps s (a # acts) s'"
inductive_simps kc_steps_simps [simp]: "kc_steps s [] s'" "kc_steps s (a # acts) s'"

definition kc_elapsed :: "kc_action list \<Rightarrow> nat" where
  "kc_elapsed acts = sum_list (map (\<lambda>a. case a of KcTime d \<Rightarrow> d | _ \<Rightarrow> 0) acts)"

section \<open>Counting the keys\<close>

text \<open>The counters are the numbers of held keys of the two kinds.\<close>

definition kc_counts :: "'f keycombo_state \<Rightarrow> bool" where
  "kc_counts s \<longleftrightarrow> keybit s \<subseteq> {..<KEY_MAX} \<and> kc_key s \<subseteq> keybit s \<and>
     key_down s = int (card (kc_key s - upbit s)) \<and> key_up s = int (card (kc_key s \<inter> upbit s))"

definition combo_held :: "'f keycombo_state \<Rightarrow> bool" where
  "combo_held s \<longleftrightarrow> key_down s = key_down_target s \<and> key_up s = 0"

lemma card_keys_bound:
  assumes "kc_counts s"
  shows "finite (kc_key s)" "A \<subseteq> kc_key s \<Longrightarrow> card A \<le> 767"
proof -
  have sub: "kc_key s \<subseteq> {..<767}" using assms by (auto simp: kc_counts_def KEY_MAX_def)
  then show "finite (kc_key s)" by (rule finite_subset) simp
  show "card A \<le> 767" if "A \<subseteq> kc_key s" using card_mono [of "{..<767 :: nat}" A] that sub by auto
qed

lemma toggle_diff:
  "insert c K - U = (if c \<in> U then K - U else insert c (K - U))" "insert c K \<inter> U = (if c \<in> U then insert c (K \<inter> U) else K \<inter> U)"
  "K - {c} - U = (if c \<in> U then K - U else K - U - {c})" "(K - {c}) \<inter> U = (if c \<in> U then K \<inter> U - {c} else K \<inter> U)"
  by auto

lemma count_effect:
  assumes "kc_counts s" "code \<in> keybit s" "(code \<in> kc_key s) \<noteq> (value \<noteq> 0)"
  shows "kc_counts (keycombo_count s code value)" "combo_held s \<Longrightarrow> \<not> combo_held (keycombo_count s code value)"
proof -
  have f: "finite (kc_key s - upbit s)" "finite (kc_key s \<inter> upbit s)" using card_keys_bound(1) [OF assms(1)] by auto
  have b: "card (kc_key s - upbit s) \<le> 767" "card (kc_key s \<inter> upbit s) \<le> 767" using card_keys_bound(2) [OF assms(1)] by auto
  show counts: "kc_counts (keycombo_count s code value)"
  proof (cases "code \<in> kc_key s")
    case True
    then have "code \<notin> upbit s \<Longrightarrow> 0 < card (kc_key s - upbit s)" "code \<in> upbit s \<Longrightarrow> 0 < card (kc_key s \<inter> upbit s)"
      using f by (auto simp: card_gt_0_iff)
    with True assms f b show ?thesis
      by (auto simp: kc_counts_def keycombo_count_def Let_def toggle_diff card_Diff_singleton s32_id of_nat_diff)
  next
    case False
    with assms f b show ?thesis by (auto simp: kc_counts_def keycombo_count_def Let_def toggle_diff s32_id)
  qed
  show "combo_held s \<Longrightarrow> \<not> combo_held (keycombo_count s code value)"
    using assms b by (auto simp: combo_held_def kc_counts_def keycombo_count_def Let_def s32_id)
qed

lemma count_frame [simp]:
  "key_is_down (keycombo_count s c v) = key_is_down s" "kc_wq (keycombo_count s c v) = kc_wq s" "kc_timer (keycombo_count s c v) = kc_timer s"
  "kc_running (keycombo_count s c v) = kc_running s" "kc_calls (keycombo_count s c v) = kc_calls s" "kc_now (keycombo_count s c v) = kc_now s"
  "key_down_fn (keycombo_count s c v) = key_down_fn s" "key_up_fn (keycombo_count s c v) = key_up_fn s" "kc_delay (keycombo_count s c v) = kc_delay s"
  "keybit (keycombo_count s c v) = keybit s" "upbit (keycombo_count s c v) = upbit s" "key_down_target (keycombo_count s c v) = key_down_target s"
  "combo_held_wake_source (keycombo_count s c v) = combo_held_wake_source s" "combo_up_wake_source (keycombo_count s c v) = combo_up_wake_source s"
  by (simp_all add: keycombo_count_def Let_def)

section \<open>The state of the works\<close>

text \<open>
  \<open>kc_fresh\<close>: the function for the press has not been called for the combination that is held, if any.
  \<open>kc_fired\<close>: it has been called, and either the combination is still held or the work for the release waits,
  perhaps followed by the work of the next press. The phase counts the calls and returns of a cycle.
\<close>

definition kc_fresh :: "'f keycombo_state \<Rightarrow> bool" where
  "kc_fresh s \<longleftrightarrow> kc_wq s \<in> {[], [KeyDownWork]} \<and> key_is_down s = down_pending s"

definition kc_fired :: "'f keycombo_state \<Rightarrow> bool" where
  "kc_fired s \<longleftrightarrow> key_is_down s \<and> \<not> down_pending s \<and> kc_wq s = [] \<or>
     kc_wq s \<in> {[KeyUpWork], [KeyUpWork, KeyDownWork]} \<and> key_is_down s = down_pending s"

definition kc_works :: "'f keycombo_state \<Rightarrow> bool" where
  "kc_works s \<longleftrightarrow> (kc_timer s = None \<or> KeyDownWork \<notin> set (kc_wq s)) \<and>
     (case kc_running s of None \<Rightarrow> kc_fresh s \<or> kc_fired s | Some KeyDownWork \<Rightarrow> kc_fired s | Some KeyUpWork \<Rightarrow> kc_fresh s) \<and>
     combo_held_wake_source s = key_is_down s \<and>
     combo_up_wake_source s = (KeyUpWork \<in> set (kc_wq s) \<or> kc_running s = Some KeyUpWork)"

definition kc_phase :: "'f keycombo_state \<Rightarrow> nat" where
  "kc_phase s = (case kc_running s of Some KeyDownWork \<Rightarrow> 1 | Some KeyUpWork \<Rightarrow> 3 | None \<Rightarrow> if kc_fired s then 2 else 0)"

definition kc_inv :: "'f keycombo_state \<Rightarrow> bool" where
  "kc_inv s \<longleftrightarrow> kc_counts s \<and> (key_is_down s \<longrightarrow> combo_held s) \<and> kc_works s"

definition kc_cycle :: "'f \<Rightarrow> 'f \<Rightarrow> 'f kc_call list" where
  "kc_cycle d u = [KcCall d, KcReturn d, KcCall u, KcReturn u]"

lemmas kc_work_defs = kc_fresh_def kc_fired_def kc_works_def kc_phase_def down_pending_def

lemma check_press:
  assumes "kc_works s" "\<not> key_is_down s" "combo_held s"
  shows "kc_works (keycombo_check s) \<and> kc_phase (keycombo_check s) = kc_phase s"
proof -
  have n: "kc_timer s = None" "KeyDownWork \<notin> set (kc_wq s)"
    using assms(1,2) by (auto simp: kc_works_def kc_fresh_def kc_fired_def down_pending_def split: option.splits kc_work.splits)
  then have w: "kc_wq s = [] \<or> kc_wq s = [KeyUpWork]"
    using assms(1) by (auto simp: kc_works_def kc_fresh_def kc_fired_def split: option.splits kc_work.splits)
  have e: "keycombo_check s = (if kc_delay s = 0 then s\<lparr>combo_held_wake_source := True, key_is_down := True, kc_wq := kc_wq s @ [KeyDownWork]\<rparr>
      else s\<lparr>combo_held_wake_source := True, key_is_down := True, kc_timer := Some (kc_now s + kc_delay s)\<rparr>)"
    using assms(3) n by (simp add: keycombo_check_def combo_held_def queue_delayed_work_def down_pending_def)
  show ?thesis unfolding e using assms(1,2) n w
    by (auto simp: kc_work_defs split: option.splits kc_work.splits)
qed

lemma check_release:
  assumes "kc_works s" "key_is_down s" "\<not> combo_held s"
  shows "kc_works (keycombo_check s) \<and> kc_phase (keycombo_check s) = kc_phase s"
proof (cases "down_pending s")
  case True
  then have e: "keycombo_check s = s\<lparr>kc_timer := None, kc_wq := filter (\<lambda>w. w \<noteq> KeyDownWork) (kc_wq s), combo_held_wake_source := False, key_is_down := False\<rparr>"
    using assms(2,3) by (auto simp: keycombo_check_def combo_held_def cancel_delayed_work_def)
  have "kc_wq s \<in> {[], [KeyDownWork], [KeyUpWork], [KeyUpWork, KeyDownWork]}"
    using assms(1) by (auto simp: kc_works_def kc_fresh_def kc_fired_def split: option.splits kc_work.splits)
  then show ?thesis unfolding e using assms(1,2) True
    by (elim insertE emptyE) (auto simp: kc_work_defs split: option.splits kc_work.splits)
next
  case False
  then have "kc_wq s = []" "kc_timer s = None" "kc_running s \<noteq> Some KeyUpWork"
    using assms(1,2) by (auto simp: kc_works_def kc_fresh_def kc_fired_def down_pending_def split: option.splits kc_work.splits)
  moreover from this False have "keycombo_check s = s\<lparr>combo_up_wake_source := True, kc_wq := [KeyUpWork], combo_held_wake_source := False, key_is_down := False\<rparr>"
    using assms(2,3) by (auto simp: keycombo_check_def combo_held_def cancel_delayed_work_def queue_work_def)
  ultimately show ?thesis using assms(1,2) by (auto simp: kc_work_defs split: option.splits kc_work.splits)
qed

lemma check_frame [simp]:
  "kc_running (keycombo_check s) = kc_running s" "kc_calls (keycombo_check s) = kc_calls s" "kc_now (keycombo_check s) = kc_now s"
  "key_down_fn (keycombo_check s) = key_down_fn s" "key_up_fn (keycombo_check s) = key_up_fn s" "kc_delay (keycombo_check s) = kc_delay s"
  "keybit (keycombo_check s) = keybit s" "upbit (keycombo_check s) = upbit s" "key_down_target (keycombo_check s) = key_down_target s"
  "kc_key (keycombo_check s) = kc_key s" "key_down (keycombo_check s) = key_down s" "key_up (keycombo_check s) = key_up s"
  by (simp_all add: keycombo_check_def queue_delayed_work_def cancel_delayed_work_def queue_work_def)

lemma check_down: "key_is_down (keycombo_check s) \<longleftrightarrow> combo_held s"
  by (simp add: keycombo_check_def combo_held_def queue_delayed_work_def cancel_delayed_work_def queue_work_def Let_def)

lemma check_inv:
  assumes "kc_counts s" "kc_works s" "key_is_down s \<Longrightarrow> \<not> combo_held s"
  shows "kc_inv (keycombo_check s) \<and> kc_phase (keycombo_check s) = kc_phase s"
proof -
  have "keycombo_check s = s" if "\<not> key_is_down s" "\<not> combo_held s"
    using that by (auto simp: keycombo_check_def combo_held_def)
  then have "kc_works (keycombo_check s) \<and> kc_phase (keycombo_check s) = kc_phase s"
    using check_press [OF assms(2)] check_release [OF assms(2)] assms(2,3) by argo
  moreover have "kc_counts (keycombo_check s)" using assms(1) by (simp add: kc_counts_def)
  moreover have "combo_held (keycombo_check s) = combo_held s" by (simp add: combo_held_def)
  ultimately show ?thesis by (simp add: kc_inv_def check_down)
qed

lemma event_cases:
  obtains "keycombo_event s ty code value = s"
  | "code \<in> keybit s" "(code \<in> kc_key s) \<noteq> (value \<noteq> 0)" "keycombo_event s ty code value = keycombo_check (keycombo_count s code value)"
  by (cases "keycombo_event s ty code value = s") (auto simp: keycombo_event_def split: if_splits)

lemma event_inv:
  assumes "kc_inv s"
  shows "kc_inv (keycombo_event s ty code value) \<and> kc_phase (keycombo_event s ty code value) = kc_phase s"
proof (rule event_cases [of s ty code "value"])
  assume "keycombo_event s ty code value = s"
  then show ?thesis using assms by simp
next
  let ?s = "keycombo_count s code value"
  assume ev: "code \<in> keybit s" "(code \<in> kc_key s) \<noteq> (value \<noteq> 0)" "keycombo_event s ty code value = keycombo_check ?s"
  note c = count_effect [OF _ ev(1,2)]
  have "kc_works ?s" "kc_phase ?s = kc_phase s" using assms by (simp_all add: kc_inv_def kc_work_defs cong: option.case_cong kc_work.case_cong)
  moreover have "kc_counts ?s" "key_is_down ?s \<Longrightarrow> \<not> combo_held ?s" using assms c by (auto simp: kc_inv_def)
  ultimately show ?thesis unfolding ev(3) using check_inv [of ?s] by metis
qed

lemma log_frame [simp]:
  "kc_running (kc_log f c s) = kc_running s" "kc_wq (kc_log f c s) = kc_wq s" "kc_timer (kc_log f c s) = kc_timer s"
  "key_is_down (kc_log f c s) = key_is_down s" "combo_held_wake_source (kc_log f c s) = combo_held_wake_source s"
  "combo_up_wake_source (kc_log f c s) = combo_up_wake_source s" "key_down_fn (kc_log f c s) = key_down_fn s" "key_up_fn (kc_log f c s) = key_up_fn s"
  "kc_now (kc_log f c s) = kc_now s" "kc_delay (kc_log f c s) = kc_delay s" "keybit (kc_log f c s) = keybit s" "upbit (kc_log f c s) = upbit s"
  "kc_key (kc_log f c s) = kc_key s" "key_down (kc_log f c s) = key_down s" "key_up (kc_log f c s) = key_up s" "key_down_target (kc_log f c s) = key_down_target s"
  by (simp_all add: kc_log_def split: option.split)

lemma worker_frame:
  assumes "kc_act a s = Some s'" "a \<in> {KcExpire, KcStart, KcFinish}"
  shows "key_is_down s' = key_is_down s" "key_down_fn s' = key_down_fn s" "key_up_fn s' = key_up_fn s" "kc_delay s' = kc_delay s"
    "kc_now s' = kc_now s" "keybit s' = keybit s" "upbit s' = upbit s" "key_down_target s' = key_down_target s" "kc_key s' = kc_key s"
    "key_down s' = key_down s" "key_up s' = key_up s"
  using assms by (auto simp: do_key_down_def do_key_up_def Let_def split: option.splits list.splits kc_work.splits if_splits)

lemma expire_inv:
  assumes "kc_works s" "kc_act KcExpire s = Some s'"
  shows "kc_works s'" "kc_phase s' = kc_phase s" "kc_calls s' = kc_calls s"
proof -
  have t: "kc_timer s \<noteq> None" "s' = s\<lparr>kc_timer := None, kc_wq := kc_wq s @ [KeyDownWork]\<rparr>"
    using assms(2) by (auto split: option.splits if_splits)
  then have "KeyDownWork \<notin> set (kc_wq s)" "kc_wq s = [] \<or> kc_wq s = [KeyUpWork]"
    using assms(1) by (auto simp: kc_work_defs split: option.splits kc_work.splits)
  then show "kc_works s'" "kc_phase s' = kc_phase s" "kc_calls s' = kc_calls s"
    using assms(1) t by (auto simp: kc_work_defs split: option.splits kc_work.splits)
qed

lemma start_inv:
  assumes "kc_works s" "kc_act KcStart s = Some s'"
  shows "kc_works s'" "kc_phase s \<in> {0, 2}" "kc_phase s' = Suc (kc_phase s)"
    "kc_calls s' = kc_calls (kc_log (if kc_phase s = 0 then key_down_fn s else key_up_fn s) KcCall s)"
    "kc_phase s = 0 \<Longrightarrow> key_is_down s"
proof -
  obtain w ws where w: "kc_running s = None" "kc_wq s = w # ws"
    and s': "s' = (case w of KeyDownWork \<Rightarrow> do_key_down False (s\<lparr>kc_running := Some w, kc_wq := ws\<rparr>)
      | KeyUpWork \<Rightarrow> do_key_up False (s\<lparr>kc_running := Some w, kc_wq := ws\<rparr>))"
    using assms(2) by (auto simp: Let_def split: option.splits list.splits)
  have "kc_works s' \<and> kc_phase s \<in> {0, 2} \<and> kc_phase s' = Suc (kc_phase s) \<and>
    kc_calls s' = kc_calls (kc_log (if kc_phase s = 0 then key_down_fn s else key_up_fn s) KcCall s) \<and> (kc_phase s = 0 \<longrightarrow> key_is_down s)"
  proof (cases w)
    case KeyDownWork
    then have k: "ws = []" "key_is_down s" "\<not> kc_fired s" "kc_timer s = None" using assms(1) w by (auto simp: kc_work_defs)
    then have "kc_fired s'" using s' KeyDownWork by (simp add: kc_fired_def down_pending_def do_key_down_def)
    then show ?thesis using s' KeyDownWork assms(1) w k
      by (simp add: kc_works_def kc_phase_def down_pending_def do_key_down_def) (simp add: kc_log_def split: option.split)
  next
    case KeyUpWork
    then have k: "kc_fired s" "ws = [] \<or> ws = [KeyDownWork]" "key_is_down s = down_pending s" using assms(1) w by (auto simp: kc_work_defs)
    have "kc_fresh s'" using k s' w KeyUpWork by (auto simp: kc_fresh_def down_pending_def do_key_up_def Let_def)
    then show ?thesis using s' KeyUpWork assms(1) w k
      by (simp add: kc_works_def kc_phase_def do_key_up_def Let_def) (auto simp: kc_log_def split: option.split)
  qed
  then show "kc_works s'" "kc_phase s \<in> {0, 2}" "kc_phase s' = Suc (kc_phase s)"
    "kc_calls s' = kc_calls (kc_log (if kc_phase s = 0 then key_down_fn s else key_up_fn s) KcCall s)"
    "kc_phase s = 0 \<Longrightarrow> key_is_down s" by blast+
qed

lemma finish_inv:
  assumes "kc_works s" "kc_act KcFinish s = Some s'"
  shows "kc_works s'" "kc_phase s \<in> {1, 3}" "kc_phase s' = (if kc_phase s = 1 then 2 else 0)"
    "kc_calls s' = kc_calls (kc_log (if kc_phase s = 1 then key_down_fn s else key_up_fn s) KcReturn s)"
proof -
  have "kc_works s' \<and> kc_phase s \<in> {1, 3} \<and> kc_phase s' = (if kc_phase s = 1 then 2 else 0) \<and>
    kc_calls s' = kc_calls (kc_log (if kc_phase s = 1 then key_down_fn s else key_up_fn s) KcReturn s)"
  proof (cases "kc_running s = Some KeyDownWork")
    case True
    then have s': "s' = do_key_down True (s\<lparr>kc_running := None\<rparr>)" "kc_fired s" "kc_phase s = 1" using assms by (auto simp: kc_works_def kc_phase_def)
    then have "kc_fired s'" by (auto simp: kc_fired_def down_pending_def do_key_down_def)
    then show ?thesis using s' assms(1) True by (auto simp: kc_works_def kc_phase_def do_key_down_def kc_log_def split: option.split)
  next
    case False
    then have r: "kc_running s = Some KeyUpWork" using assms(2) by (auto split: option.splits kc_work.splits) (metis kc_work.exhaust)
    then have s': "s' = do_key_up True (s\<lparr>kc_running := None\<rparr>)" "kc_fresh s" "kc_phase s = 3" using assms by (auto simp: kc_works_def kc_phase_def)
    then have "kc_fresh s'" "\<not> kc_fired s'" by (auto simp: kc_fresh_def kc_fired_def down_pending_def do_key_up_def Let_def)
    then show ?thesis using s' assms(1) r by (auto simp: kc_works_def kc_phase_def do_key_up_def kc_log_def kc_fresh_def Let_def split: option.split)
  qed
  then show "kc_works s'" "kc_phase s \<in> {1, 3}" "kc_phase s' = (if kc_phase s = 1 then 2 else 0)"
    "kc_calls s' = kc_calls (kc_log (if kc_phase s = 1 then key_down_fn s else key_up_fn s) KcReturn s)" by blast+
qed

lemma worker_inv:
  assumes "kc_inv s" "kc_act a s = Some s'" "a \<in> {KcExpire, KcStart, KcFinish}"
  shows "kc_inv s'"
proof -
  have w: "kc_works s" using assms(1) by (simp add: kc_inv_def)
  have "kc_works s'" using assms(2,3) expire_inv(1) [OF w] start_inv(1) [OF w] finish_inv(1) [OF w] by blast
  moreover have "kc_counts s' = kc_counts s" "combo_held s' = combo_held s" by (simp_all add: kc_counts_def combo_held_def worker_frame [OF assms(2,3)])
  ultimately show ?thesis using assms(1) worker_frame(1) [OF assms(2,3)] by (simp add: kc_inv_def)
qed

lemma event_frame [simp]:
  "kc_running (keycombo_event s ty c v) = kc_running s" "kc_calls (keycombo_event s ty c v) = kc_calls s" "kc_now (keycombo_event s ty c v) = kc_now s"
  "key_down_fn (keycombo_event s ty c v) = key_down_fn s" "key_up_fn (keycombo_event s ty c v) = key_up_fn s" "kc_delay (keycombo_event s ty c v) = kc_delay s"
  "keybit (keycombo_event s ty c v) = keybit s" "upbit (keycombo_event s ty c v) = upbit s" "key_down_target (keycombo_event s ty c v) = key_down_target s"
  by (simp_all add: keycombo_event_def)

lemma time_frame:
  "kc_inv (s\<lparr>kc_now := t\<rparr>) = kc_inv s" "kc_phase (s\<lparr>kc_now := t\<rparr>) = kc_phase s"
  by (simp_all add: kc_inv_def kc_counts_def combo_held_def kc_work_defs cong: option.case_cong kc_work.case_cong)

text \<open>Every step keeps the invariant; with both functions present it adds nothing to the log or the next entry of the cycle.\<close>

lemma kc_act_inv:
  assumes "kc_inv s" "kc_act a s = Some s'"
  shows "kc_inv s'"
  using assms(2) event_inv [OF assms(1)] time_frame(1) [where s = s] assms(1) worker_inv [OF assms]
  by (cases a) (simp_all del: kc_act.simps(3-5), blast+)

lemma kc_act_frame:
  assumes "kc_act a s = Some s'"
  shows "key_down_fn s' = key_down_fn s" "key_up_fn s' = key_up_fn s" "kc_delay s' = kc_delay s"
    "keybit s' = keybit s" "upbit s' = upbit s" "key_down_target s' = key_down_target s"
proof -
  have "a \<in> {KcExpire, KcStart, KcFinish} \<or> (\<exists>ty c v. s' = keycombo_event s ty c v) \<or> (\<exists>t. s' = s\<lparr>kc_now := t\<rparr>)"
    using assms by (cases a) auto
  then show "key_down_fn s' = key_down_fn s" "key_up_fn s' = key_up_fn s" "kc_delay s' = kc_delay s"
    "keybit s' = keybit s" "upbit s' = upbit s" "key_down_target s' = key_down_target s"
    using worker_frame [OF assms] by auto
qed

lemma kc_act_calls:
  assumes "kc_inv s" "kc_act a s = Some s'" "key_down_fn s = Some d" "key_up_fn s = Some u"
  shows "kc_calls s' = kc_calls s \<and> kc_phase s' = kc_phase s \<or>
      kc_calls s' = kc_calls s @ [kc_cycle d u ! kc_phase s] \<and> kc_phase s' = Suc (kc_phase s) mod 4"
proof (cases a)
  case (KcEvent ty c v)
  then show ?thesis using assms(2) event_inv [OF assms(1), of ty c v] by auto
next
  case (KcTime t)
  then show ?thesis using assms(2) by (auto simp: time_frame)
next
  case KcExpire
  then show ?thesis using assms(1,2) expire_inv [of s s'] by (simp add: kc_inv_def)
next
  case KcStart
  have w: "kc_works s" using assms(1) by (simp add: kc_inv_def)
  from start_inv(2-4) [OF w assms(2) [unfolded KcStart]] assms(3,4) show ?thesis by (elim insertE emptyE) (simp_all add: kc_log_def kc_cycle_def)
next
  case KcFinish
  have w: "kc_works s" using assms(1) by (simp add: kc_inv_def)
  from finish_inv(2-4) [OF w assms(2) [unfolded KcFinish]] assms(3,4) show ?thesis by (elim insertE emptyE) (simp_all add: kc_log_def kc_cycle_def)
qed

section \<open>After probing\<close>

definition combo_keys :: "int list \<Rightarrow> nat list" where
  "combo_keys ks = map nat (filter (\<lambda>k. k < int KEY_MAX) (takeWhile (\<lambda>k. k \<noteq> 0) ks))"

definition combo_up_keys :: "'f keycombo_platform_data \<Rightarrow> nat list" where
  "combo_up_keys pd = (case kp_keys_up pd of None \<Rightarrow> [] | Some ups \<Rightarrow> combo_keys ups)"

lemma combo_keys_simps [simp]:
  "combo_keys [] = []"
  "combo_keys (key # ks) = (if key = 0 then [] else if int KEY_MAX \<le> key then combo_keys ks else nat key # combo_keys ks)"
  by (simp_all add: combo_keys_def)

lemma mark_keys_down_eq:
  "mark_keys_down ks s = Some s' \<Longrightarrow>
    s' = s\<lparr>key_down_target := (if combo_keys ks = [] then key_down_target s else s32 (key_down_target s + int (length (combo_keys ks)))),
      keybit := keybit s \<union> set (combo_keys ks)\<rparr> \<and> set (combo_keys ks) \<subseteq> {..<KEY_MAX}"
proof (induction ks s rule: mark_keys_down.induct)
  case (2 key ks s)
  show ?case
  proof (cases "key = 0 \<or> int KEY_MAX \<le> key")
    case True
    with 2 show ?thesis by (cases "key = 0") auto
  next
    case False
    then have k: "0 < key" "nat key < KEY_MAX" using 2(3) by (auto split: if_splits)
    then show ?thesis using 2(2) 2(3) False by (auto simp: s32_add_s32 s32_s32_add ac_simps)
  qed
qed simp

lemma mark_keys_up_eq:
  "mark_keys_up ks s = Some s' \<Longrightarrow>
    s' = s\<lparr>keybit := keybit s \<union> set (combo_keys ks), upbit := upbit s \<union> set (combo_keys ks)\<rparr> \<and> set (combo_keys ks) \<subseteq> {..<KEY_MAX}"
proof (induction ks s rule: mark_keys_up.induct)
  case (2 key ks s)
  show ?case
  proof (cases "key = 0 \<or> int KEY_MAX \<le> key")
    case True
    with 2 show ?thesis by (cases "key = 0") auto
  next
    case False
    then have k: "0 < key" "nat key < KEY_MAX" using 2(3) by (auto split: if_splits)
    then show ?thesis using 2(2) 2(3) False by auto
  qed
qed simp

lemma combo_keys_length: "length (combo_keys ks) \<le> length ks"
  by (simp add: combo_keys_def) (meson length_filter_le length_takeWhile_le order_trans)

lemma probe_state:
  fixes pd :: "'f keycombo_platform_data"
  assumes "keycombo_probe env (Some pd) = Some (0, Some s, rs)"
  shows "kc_inv s" "kc_phase s = 0" "kc_calls s = []" "key_down_fn s = kp_key_down_fn pd" "key_up_fn s = kp_key_up_fn pd"
    "kc_delay s = s32 (msecs_to_jiffies (kp_key_down_delay pd))"
    "keybit s = set (combo_keys (kp_keys_down pd)) \<union> set (combo_up_keys pd)" "upbit s = set (combo_up_keys pd)"
    "length (kp_keys_down pd) < 2147483648 \<Longrightarrow> key_down_target s = int (length (combo_keys (kp_keys_down pd)))"
proof -
  from assms obtain s1 :: "'f keycombo_state" where s1: "mark_keys_down (kp_keys_down pd) kc_zero = Some s1"
    by (auto simp: keycombo_probe_def split: if_splits option.splits)
  from assms s1 obtain s2 where s2: "(case kp_keys_up pd of None \<Rightarrow> Some s1 | Some ups \<Rightarrow> mark_keys_up ups s1) = Some s2"
    and s: "s = s2\<lparr>key_down_fn := kp_key_down_fn pd, key_up_fn := kp_key_up_fn pd, kc_delay := s32 (msecs_to_jiffies (kp_key_down_delay pd))\<rparr>"
    by (auto simp: keycombo_probe_def Let_def split: if_splits option.splits)
  have e2: "s2 = s1\<lparr>keybit := keybit s1 \<union> set (combo_up_keys pd), upbit := upbit s1 \<union> set (combo_up_keys pd)\<rparr>" "set (combo_up_keys pd) \<subseteq> {..<KEY_MAX}"
    using s2 by (auto simp: combo_up_keys_def dest: mark_keys_up_eq split: option.splits)
  note e = mark_keys_down_eq [OF s1]
  show "kc_inv s" "kc_phase s = 0" "kc_calls s = []" "key_down_fn s = kp_key_down_fn pd" "key_up_fn s = kp_key_up_fn pd"
    "kc_delay s = s32 (msecs_to_jiffies (kp_key_down_delay pd))"
    "keybit s = set (combo_keys (kp_keys_down pd)) \<union> set (combo_up_keys pd)" "upbit s = set (combo_up_keys pd)"
    using e e2 s by (auto simp: kc_zero_def kc_inv_def kc_counts_def kc_works_def kc_phase_def kc_fresh_def kc_fired_def down_pending_def)
  show "key_down_target s = int (length (combo_keys (kp_keys_down pd)))" if "length (kp_keys_down pd) < 2147483648"
    using e e2(1) s that combo_keys_length [of "kp_keys_down pd"] by (auto simp: kc_zero_def s32_id)
qed

lemma mark_frame:
  "mark_keys_down ks s = Some s' \<Longrightarrow> kc_running s' = kc_running s \<and> kc_wq s' = kc_wq s \<and> key_is_down s' = key_is_down s \<and> kc_key s' = kc_key s"
  "mark_keys_up ks s = Some s' \<Longrightarrow> kc_running s' = kc_running s \<and> kc_wq s' = kc_wq s \<and> key_is_down s' = key_is_down s \<and> kc_key s' = kc_key s"
  by (auto dest: mark_keys_down_eq mark_keys_up_eq)

lemma probe_idle:
  "keycombo_probe env (Some pd) = Some (0, Some s, rs) \<Longrightarrow> kc_running s = None \<and> kc_wq s = [] \<and> \<not> key_is_down s \<and> kc_key s = {}"
  by (auto simp: keycombo_probe_def kc_zero_def Let_def dest!: mark_frame split: if_splits option.splits)

lemma kc_steps_inv:
  assumes "kc_steps s acts s'" "kc_inv s"
  shows "kc_inv s'" "key_down_fn s' = key_down_fn s" "key_up_fn s' = key_up_fn s" "kc_delay s' = kc_delay s"
    "keybit s' = keybit s" "upbit s' = upbit s" "key_down_target s' = key_down_target s"
  using assms by (induction rule: kc_steps.induct) (simp_all add: kc_act_inv kc_act_frame)

section \<open>Properties\<close>

lemma cycle_grows:
  assumes "c = concat (replicate n (kc_cycle d u)) @ take k (kc_cycle d u)" "k < 4"
  shows "\<exists>n'. c @ [kc_cycle d u ! k] = concat (replicate n' (kc_cycle d u)) @ take (Suc k mod 4) (kc_cycle d u)"
proof -
  have l: "length (kc_cycle d u) = 4" by (simp add: kc_cycle_def)
  have t: "take k (kc_cycle d u) @ [kc_cycle d u ! k] = take (Suc k) (kc_cycle d u)" using assms(2) l by (simp add: take_Suc_conv_app_nth)
  show ?thesis
  proof (cases "k = 3")
    case True
    then have "c @ [kc_cycle d u ! k] = concat (replicate (Suc n) (kc_cycle d u))"
      using t l by (simp add: assms(1) replicate_append_same [symmetric])
    then show ?thesis using True by (intro exI [of _ "Suc n"]) simp
  next
    case False
    then have "Suc k mod 4 = Suc k" using assms(2) by simp
    then show ?thesis using t by (simp add: assms(1)) blast
  qed
qed

lemma steps_cycle:
  assumes "kc_steps s acts s'" "kc_inv s" "key_down_fn s = Some d" "key_up_fn s = Some u"
    "kc_calls s = concat (replicate n (kc_cycle d u)) @ take (kc_phase s) (kc_cycle d u)"
  shows "\<exists>n. kc_calls s' = concat (replicate n (kc_cycle d u)) @ take (kc_phase s') (kc_cycle d u)"
  using assms
proof (induction arbitrary: n rule: kc_steps.induct)
  case (kc_step a s s' acts s'')
  have p: "kc_phase s < 4" by (simp add: kc_phase_def split: option.split kc_work.split)
  have "\<exists>n'. kc_calls s' = concat (replicate n' (kc_cycle d u)) @ take (kc_phase s') (kc_cycle d u)"
    using kc_act_calls [OF kc_step.prems(1) kc_step.hyps(1) kc_step.prems(2,3)] cycle_grows [OF kc_step.prems(4) p] kc_step.prems(4) by auto
  then show ?case using kc_step kc_act_inv [OF kc_step.prems(1) kc_step.hyps(1)] kc_act_frame [OF kc_step.hyps(1)] by auto
qed blast

text \<open>C4: the promise of the driver's interface, for any interleaving of key events with the clock, the
  timer and the worker: when both functions are given, their calls and returns follow the cycle press
  function called, returned, release function called, returned; so the press function returns before the
  release function is called, and the release function is called once for each call of the press function.
  The wake source of the combination is active exactly while the combination counts as held, the one of
  the release exactly while its work waits or runs.\<close>

theorem combo_calls_alternate:
  assumes "keycombo_probe env (Some pd) = Some (0, Some s0, rs)" "kp_key_down_fn pd = Some d" "kp_key_up_fn pd = Some u"
    "kc_steps s0 acts s"
  shows "(\<exists>n k. k < 4 \<and> kc_calls s = concat (replicate n [KcCall d, KcReturn d, KcCall u, KcReturn u]) @
      take k [KcCall d, KcReturn d, KcCall u, KcReturn u]) \<and>
    (combo_held_wake_source s \<longleftrightarrow> key_is_down s) \<and>
    (combo_up_wake_source s \<longleftrightarrow> KeyUpWork \<in> set (kc_wq s) \<or> kc_running s = Some KeyUpWork)"
proof -
  note p = probe_state [OF assms(1)]
  have "kc_inv s" by (rule kc_steps_inv(1) [OF assms(4) p(1)])
  moreover have "\<exists>n. kc_calls s = concat (replicate n (kc_cycle d u)) @ take (kc_phase s) (kc_cycle d u)"
    using steps_cycle [OF assms(4) p(1), of d u 0] p(2-5) assms(2,3) by simp
  moreover have "kc_phase s < 4" by (simp add: kc_phase_def split: option.split kc_work.split)
  ultimately show ?thesis unfolding kc_cycle_def by (auto simp: kc_inv_def kc_works_def)
qed

lemma down_work_phase: "kc_works s \<Longrightarrow> kc_running s = None \<Longrightarrow> kc_wq s = KeyDownWork # ws \<Longrightarrow> kc_phase s = 0"
  by (simp add: kc_phase_def kc_fired_def)

text \<open>The work of the press starts only while exactly the keys of the combination are held, whatever
  happened before. In particular it never starts when the list of keys names one twice or names one that
  must not be pressed: the target counts list entries, the counters count keys.\<close>

theorem combo_needs_exact_keys:
  assumes "keycombo_probe env (Some pd) = Some (0, Some s0, rs)" "length (kp_keys_down pd) < 2147483648"
    "kc_steps s0 acts s" "kc_act KcStart s = Some s'" "hd (kc_wq s) = KeyDownWork"
  shows "kc_key s = set (combo_keys (kp_keys_down pd)) \<and> distinct (combo_keys (kp_keys_down pd)) \<and>
    set (combo_keys (kp_keys_down pd)) \<inter> set (combo_up_keys pd) = {}"
proof -
  let ?D = "combo_keys (kp_keys_down pd)" and ?U = "set (combo_up_keys pd)"
  note p = probe_state [OF assms(1)]
  note i = kc_steps_inv [OF assms(3) p(1)]
  have w: "kc_works s" and c: "kc_counts s" using i(1) by (simp_all add: kc_inv_def)
  have "kc_phase s = 0" using down_work_phase [OF w, of "tl (kc_wq s)"] assms(4,5) by (auto split: option.splits list.splits)
  then have "combo_held s" using start_inv(5) [OF w assms(4)] i(1) by (simp add: kc_inv_def)
  then have k: "card (kc_key s - ?U) = length ?D" "card (kc_key s \<inter> ?U) = 0"
    using c i(5-7) p(7-9) assms(2) by (auto simp: combo_held_def kc_counts_def)
  have "finite (kc_key s)" by (rule card_keys_bound(1) [OF c])
  then have n: "kc_key s \<inter> ?U = {}" "kc_key s - ?U = kc_key s" using k(2) by auto
  have sub: "kc_key s \<subseteq> set ?D - ?U" using c i(5) p(7) n by (auto simp: kc_counts_def)
  have "length ?D \<le> card (set ?D - ?U)" using card_mono [OF _ sub] k(1) n(2) by simp
  moreover have "card (set ?D - ?U) \<le> card (set ?D)" by (rule card_mono) auto
  ultimately have e: "card (set ?D) = length ?D" "card (set ?D - ?U) = card (set ?D)" using card_length [of ?D] by simp_all
  then have "set ?D - ?U = set ?D" by (intro card_subset_eq) auto
  moreover from this have "kc_key s = set ?D" using card_subset_eq [of "set ?D" "kc_key s"] sub k(1) n(2) e(1) by simp
  ultimately show ?thesis using card_distinct [OF e(1)] by blast
qed

text \<open>Nothing waits or runs, and no timer is armed for a jiffy before \<open>T\<close>.\<close>

definition kc_quiet :: "int \<Rightarrow> 'f keycombo_state \<Rightarrow> bool" where
  "kc_quiet T s \<longleftrightarrow> kc_running s = None \<and> kc_wq s = [] \<and> key_is_down s = (kc_timer s \<noteq> None) \<and>
     (case kc_timer s of None \<Rightarrow> True | Some e \<Rightarrow> T \<le> e) \<and> 0 < kc_delay s \<and> T \<le> kc_now s + kc_delay s"

lemma check_quiet: "kc_quiet T s \<Longrightarrow> (key_is_down s \<Longrightarrow> \<not> combo_held s) \<Longrightarrow> kc_quiet T (keycombo_check s)"
  by (cases "key_is_down s"; cases "combo_held s")
    (auto simp: kc_quiet_def keycombo_check_def combo_held_def queue_delayed_work_def cancel_delayed_work_def queue_work_def down_pending_def
      split: option.splits)

lemma event_quiet:
  assumes "kc_quiet T s" "kc_inv s"
  shows "kc_quiet T (keycombo_event s ty code value)"
proof (rule event_cases [of s ty code "value"])
  let ?s = "keycombo_count s code value"
  assume ev: "code \<in> keybit s" "(code \<in> kc_key s) \<noteq> (value \<noteq> 0)" "keycombo_event s ty code value = keycombo_check ?s"
  have "kc_quiet T ?s" using assms(1) by (simp add: kc_quiet_def)
  then show ?thesis unfolding ev(3) using check_quiet [of T ?s] count_effect(2) [OF _ ev(1,2)] assms(2) by (auto simp: kc_inv_def)
qed (simp add: assms)

lemma quiet_steps:
  assumes "kc_steps s acts s'" "kc_inv s" "kc_quiet T s" "kc_now s + int (kc_elapsed acts) < T"
  shows "kc_calls s' = kc_calls s"
  using assms
proof (induction rule: kc_steps.induct)
  case (kc_step a s s1 acts s'')
  have "kc_quiet T s1 \<and> kc_calls s1 = kc_calls s \<and> kc_now s1 + int (kc_elapsed acts) < T"
  proof (cases "\<exists>ty code v. a = KcEvent ty code v")
    case True
    then show ?thesis using kc_step.hyps(1) kc_step.prems event_quiet [OF kc_step.prems(2,1)] by (auto simp: kc_elapsed_def)
  next
    case False
    then show ?thesis using kc_step.hyps(1) kc_step.prems by (cases a) (auto simp: kc_quiet_def kc_elapsed_def split: option.splits if_splits)
  qed
  then show ?case using kc_step.IH kc_act_inv [OF kc_step.prems(1) kc_step.hyps(1)] by simp
qed simp

lemma press_completes:
  assumes "kc_inv s" "kc_running s = None" "kc_wq s = []" "\<not> key_is_down s" "0 < kc_delay s" "key_down_fn s = Some d"
    "code \<notin> kc_key s" "insert code (kc_key s) = keybit s - upbit s" "key_down_target s = int (card (keybit s - upbit s))" "kc_delay s \<le> int t"
  shows "\<exists>s'. kc_steps s [KcEvent EV_KEY code 1, KcTime t, KcExpire, KcStart] s' \<and> kc_calls s' = kc_calls s @ [KcCall d]"
proof -
  let ?s = "keycombo_count s code 1"
  have c: "code \<in> keybit s" "code < KEY_MAX" "kc_counts s" using assms(1,8) by (auto simp: kc_inv_def kc_counts_def)
  have k: "kc_key ?s = keybit s - upbit s" using assms(7,8) by (simp add: keycombo_count_def Let_def)
  have "kc_counts ?s" by (rule count_effect(1) [OF c(3,1)]) (simp add: assms(7))
  then have h: "combo_held ?s" using k assms(9) by (simp add: kc_counts_def combo_held_def) (simp add: Diff_Int_distrib2 Int_Diff)
  have n: "kc_timer s = None" using assms(1-4) by (auto simp: kc_inv_def kc_works_def kc_fresh_def kc_fired_def down_pending_def)
  have "keycombo_event s EV_KEY code 1 = keycombo_check ?s" using c assms(7) by (simp add: keycombo_event_def)
  also have "\<dots> = ?s\<lparr>combo_held_wake_source := True, key_is_down := True, kc_timer := Some (kc_now s + kc_delay s)\<rparr>"
    using h n assms(3,5) by (simp add: keycombo_check_def combo_held_def queue_delayed_work_def down_pending_def)
  finally show ?thesis using assms(2,3,6,10) by (simp add: do_key_down_def kc_log_def Let_def)
qed

text \<open>C36: the combination acts after its delay. From any state the driver can reach in which the
  combination is not held and no work waits or runs, whatever keys are pressed and released, no function is
  called before the delay has passed; and pressing the last missing key of the combination and holding it
  for the delay calls the press function as soon as the timer and the worker have had their turn.\<close>

theorem combo_fires_after_delay:
  assumes "keycombo_probe env (Some pd) = Some (0, Some s0, rs)" "length (kp_keys_down pd) < 2147483648" "kp_key_down_fn pd = Some d"
    "distinct (combo_keys (kp_keys_down pd))" "set (combo_keys (kp_keys_down pd)) \<inter> set (combo_up_keys pd) = {}"
    "kc_steps s0 past s" "kc_running s = None" "kc_wq s = []" "\<not> key_is_down s" "0 < kc_delay s"
    "kc_steps s acts s1" "int (kc_elapsed acts) < kc_delay s"
    "code \<notin> kc_key s" "insert code (kc_key s) = set (combo_keys (kp_keys_down pd))" "kc_delay s \<le> int t"
  shows "kc_calls s1 = kc_calls s \<and>
    (\<exists>s2. kc_steps s [KcEvent EV_KEY code 1, KcTime t, KcExpire, KcStart] s2 \<and> kc_calls s2 = kc_calls s @ [KcCall d])"
proof -
  note p = probe_state [OF assms(1)]
  note i = kc_steps_inv [OF assms(6) p(1)]
  have n: "kc_timer s = None" using i(1) assms(7-9) by (auto simp: kc_inv_def kc_works_def kc_fresh_def kc_fired_def down_pending_def)
  have "kc_quiet (kc_now s + kc_delay s) s" using n assms(7-10) by (simp add: kc_quiet_def)
  moreover have D: "keybit s - upbit s = set (combo_keys (kp_keys_down pd))" using i(5,6) p(7,8) assms(5) by auto
  ultimately show ?thesis
    using quiet_steps [OF assms(11) i(1)] assms(12)
      press_completes [OF i(1) assms(7-10) _ assms(13) _ _ assms(15), of d] i(2,7) p(4,9) assms(2-4,14) by (simp add: distinct_card)
qed

section \<open>Witnesses\<close>

definition kc_pdata :: "int list \<Rightarrow> nat keycombo_platform_data" where
  "kc_pdata ks = \<lparr>kp_key_down_fn = Some 0, kp_key_up_fn = Some 1, kp_key_down_delay = 4000, kp_keys_up = None, kp_keys_down = ks\<rparr>"

definition kc_env :: kc_probe_env where
  "kc_env = \<lparr>kpe_alloc = True, kpe_wq = True, kpe_register = 0\<rparr>"

definition kc_start_state :: "nat keycombo_state" where
  "kc_start_state = kc_zero\<lparr>keybit := {114, 116}, key_down_target := 2, key_down_fn := Some 0, key_up_fn := Some 1, kc_delay := 1000\<rparr>"

lemma kc_example_probe: "keycombo_probe kc_env (Some (kc_pdata [114, 116, 0])) = Some (0, Some kc_start_state, [KcStateMemory, KcWorkqueue])"
  by (simp add: keycombo_probe_def kc_env_def kc_pdata_def kc_start_state_def kc_zero_def msecs_to_jiffies_def HZ_def KEY_MAX_def s32_def insert_commute)

lemmas kc_eval = kc_start_state_def kc_zero_def keycombo_event_def keycombo_count_def keycombo_check_def queue_delayed_work_def
  cancel_delayed_work_def queue_work_def down_pending_def do_key_down_def do_key_up_def kc_log_def EV_KEY_def KEY_MAX_def s32_def

theorem combo_calls_alternate_witness:
  "\<exists>s. kc_steps kc_start_state [KcEvent 1 114 1, KcEvent 1 116 1, KcTime 1000, KcExpire, KcStart, KcFinish, KcEvent 1 116 0, KcStart] s \<and>
    kc_calls s = [KcCall 0, KcReturn 0, KcCall 1] \<and> (combo_held_wake_source s \<longleftrightarrow> key_is_down s) \<and>
    (combo_up_wake_source s \<longleftrightarrow> KeyUpWork \<in> set (kc_wq s) \<or> kc_running s = Some KeyUpWork)"
proof -
  obtain s where s: "kc_steps kc_start_state [KcEvent 1 114 1, KcEvent 1 116 1, KcTime 1000, KcExpire, KcStart, KcFinish, KcEvent 1 116 0, KcStart] s"
    "kc_calls s = [KcCall 0, KcReturn 0, KcCall 1]" by (simp add: kc_eval)
  have "kp_key_down_fn (kc_pdata [114, 116, 0]) = Some 0" "kp_key_up_fn (kc_pdata [114, 116, 0]) = Some 1" by (simp_all add: kc_pdata_def)
  from combo_calls_alternate [OF kc_example_probe this s(1)] s show ?thesis by blast
qed

theorem combo_needs_exact_keys_witness:
  "\<exists>s s'. kc_steps kc_start_state [KcEvent 1 114 1, KcEvent 1 116 1, KcTime 1000, KcExpire] s \<and> kc_act KcStart s = Some s' \<and> kc_key s = {114, 116}"
proof -
  obtain s s' where s: "kc_steps kc_start_state [KcEvent 1 114 1, KcEvent 1 116 1, KcTime 1000, KcExpire] s" "kc_act KcStart s = Some s'"
    "hd (kc_wq s) = KeyDownWork" by (simp add: kc_eval)
  have l: "length (kp_keys_down (kc_pdata [114, 116, 0])) < 2147483648" "set (combo_keys (kp_keys_down (kc_pdata [114, 116, 0]))) = {114, 116}"
    by (simp_all add: kc_pdata_def KEY_MAX_def)
  from combo_needs_exact_keys [OF kc_example_probe l(1) s] l(2) s show ?thesis by auto
qed

theorem combo_fires_after_delay_witness:
  "\<exists>s s1 s2. kc_steps kc_start_state [KcEvent 1 114 1] s \<and>
    kc_steps s [KcEvent 1 116 1, KcTime 900, KcEvent 1 116 0, KcEvent 1 116 1, KcTime 99] s1 \<and> kc_calls s1 = [] \<and>
    kc_steps s [KcEvent EV_KEY 116 1, KcTime 1000, KcExpire, KcStart] s2 \<and> kc_calls s2 = [KcCall 0]"
proof -
  define s where "s = kc_start_state\<lparr>kc_key := {114}, key_down := 1\<rparr>"
  have s: "kc_steps kc_start_state [KcEvent 1 114 1] s" by (simp add: s_def kc_eval)
  obtain s1 where s1: "kc_steps s [KcEvent 1 116 1, KcTime 900, KcEvent 1 116 0, KcEvent 1 116 1, KcTime 99] s1" by simp
  have "kc_running s = None" "kc_wq s = []" "\<not> key_is_down s" "0 < kc_delay s" "kc_calls s = []" "116 \<notin> kc_key s"
    "int (kc_elapsed [KcEvent 1 116 1, KcTime 900, KcEvent 1 116 0, KcEvent 1 116 1, KcTime 99]) < kc_delay s" "kc_delay s \<le> int 1000"
    "insert 116 (kc_key s) = set (combo_keys (kp_keys_down (kc_pdata [114, 116, 0])))" "length (kp_keys_down (kc_pdata [114, 116, 0])) < 2147483648"
    "kp_key_down_fn (kc_pdata [114, 116, 0]) = Some 0" "distinct (combo_keys (kp_keys_down (kc_pdata [114, 116, 0])))"
    "set (combo_keys (kp_keys_down (kc_pdata [114, 116, 0]))) \<inter> set (combo_up_keys (kc_pdata [114, 116, 0])) = {}"
    by (auto simp: s_def kc_start_state_def kc_zero_def kc_elapsed_def kc_pdata_def KEY_MAX_def combo_up_keys_def)
  with combo_fires_after_delay [OF kc_example_probe _ _ _ _ s _ _ _ _ s1, of 0 116 1000] s s1 show ?thesis by auto
qed

end
