(* ===== verification/Amzn_Keycombo.thy ===== *)
theory Amzn_Keycombo
  imports Keycombo Sign_Of_Life
begin

text \<open>
  Amazon's key combinations (\<^verbatim>\<open>drivers/staging/amazon/amzn_keycombo.c\<close>, in the configuration with the life
  cycle driver and the power off log): the driver reads a combination from the device tree, creates a
  device for the key combination driver of theory \<open>Keycombo\<close> and provides the functions that panic or power
  off. The device tree, the allocations, the answers of the power key and of the platform bus are
  arguments; \<open>None\<close> is a memory fault. The functions of the driver are named by \<open>combo_handler\<close>, their
  effects outside the driver by \<open>combo_event\<close>.
\<close>

section \<open>Data\<close>

datatype COMBO_FUNC = COMBO_FUNC_PANIC | COMBO_FUNC_POWER_OFF

datatype combo_handler = Do_panic | Do_power_off

record combo_function =
  cf_fn :: COMBO_FUNC
  cf_handler :: combo_handler
  cf_msg :: string

record keys_config =
  pcombo_data :: "combo_handler keycombo_platform_data option"
  combo_data_size :: nat
  pdev_keycombo :: bool
  kcfg_func :: "nat option"

datatype combo_event = NotifierCall COMBO_FUNC | KernelPanic string | Crashreport | OrderlyReboot
  | DevmKfreeWarning | DevicePut | DeviceAdded "combo_handler keycombo_platform_data"

definition COMBO_MSG_SIZE :: nat where "COMBO_MSG_SIZE = 100"

definition key_labels :: "(string \<times> int) list" where
  "key_labels = [(''KEY_VOLUMEDOWN'', 114), (''KEY_VOLUMEUP'', 115), (''KEY_POWER'', 116)]"

definition combo_funcs :: "combo_function list" where
  "combo_funcs =
     [\<lparr>cf_fn = COMBO_FUNC_PANIC, cf_handler = Do_panic, cf_msg = ''Trigger panic by press ''\<rparr>,
      \<lparr>cf_fn = COMBO_FUNC_POWER_OFF, cf_handler = Do_power_off, cf_msg = ''Trigger power off by long press ''\<rparr>]"

fun combo_func_value :: "COMBO_FUNC \<Rightarrow> int" where
  "combo_func_value COMBO_FUNC_PANIC = 0"
| "combo_func_value COMBO_FUNC_POWER_OFF = 1"

section \<open>Notifiers\<close>

text \<open>The chain of callbacks, without their priorities: a registration puts a callback last.\<close>

definition register_keycombo_notifier :: "'n list \<Rightarrow> 'n \<Rightarrow> int \<times> 'n list" where
  "register_keycombo_notifier chain nb = (0, chain @ [nb])"

definition unregister_keycombo_notifier :: "'n list \<Rightarrow> 'n \<Rightarrow> int \<times> 'n list" where
  "unregister_keycombo_notifier chain nb = (if nb \<in> set chain then (0, remove1 nb chain) else (- ENOENT, chain))"

section \<open>The functions\<close>

fun get_key_from_labels :: "(string \<times> int) list \<Rightarrow> string \<Rightarrow> int" where
  "get_key_from_labels [] name = - EINVAL"
| "get_key_from_labels ((n, v) # ls) name = (if name = n then v else get_key_from_labels ls name)"

definition get_key_from_label :: "string \<Rightarrow> int" where
  "get_key_from_label name = get_key_from_labels key_labels name"

definition do_panic :: "string \<Rightarrow> combo_event list" where
  "do_panic msg = [NotifierCall COMBO_FUNC_PANIC, KernelPanic msg]"

definition log_long_press_power_key :: "combo_event list" where
  "log_long_press_power_key = [Crashreport]"

text \<open>The two answers of \<^verbatim>\<open>check_pwrkey_status\<close> are taken before and after the six seconds of the log.\<close>

definition do_power_off :: "bool \<Rightarrow> bool \<Rightarrow> rtc_platform sol_driver \<Rightarrow> (combo_event list \<times> rtc_platform sol_driver) option" where
  "do_power_off pwrkey1 pwrkey2 d =
     (if \<not> pwrkey1 then Some ([], d)
      else if \<not> pwrkey2 then Some (log_long_press_power_key, d)
      else case mtk_rtc_mark_sw_lprst (sol_platform d) of None \<Rightarrow> None
           | Some (_, s) \<Rightarrow>
               let d = d\<lparr>sol_platform := s\<rparr>;
                   d = snd (life_cycle_set_shutdown_reason d SHUTDOWN_BY_LONG_PWR_KEY_PRESS)
               in Some (log_long_press_power_key @ [NotifierCall COMBO_FUNC_POWER_OFF, OrderlyReboot], d))"

fun get_func_from :: "combo_function list \<Rightarrow> nat \<Rightarrow> int \<Rightarrow> nat option" where
  "get_func_from [] i fn = None"
| "get_func_from (f # fs) i fn = (if combo_func_value (cf_fn f) = fn then Some i else get_func_from fs (Suc i) fn)"

definition get_func :: "combo_function list \<Rightarrow> int \<Rightarrow> nat option" where
  "get_func funcs fn = get_func_from funcs 0 fn"

section \<open>The device tree\<close>

text \<open>
  \<^verbatim>\<open>strncat\<close> bounded by the size of the array less the length of its string: the terminating NUL may
  go one byte past the array when the string reaches 100 characters.
\<close>

definition msg_cat :: "string \<Rightarrow> string \<Rightarrow> string" where
  "msg_cat msg src = msg @ take (COMBO_MSG_SIZE - length msg) src"

fun dt_keys_down :: "string option list \<Rightarrow> int list \<Rightarrow> string \<Rightarrow> bool \<times> int list \<times> string" where
  "dt_keys_down [] keys msg = (True, keys, msg)"
| "dt_keys_down (None # names) keys msg = (False, keys, msg)"
| "dt_keys_down (Some name # names) keys msg =
     (let key = get_key_from_label name
      in if key < 0 then (False, keys, msg)
         else dt_keys_down names (keys @ [key]) (msg_cat (msg_cat msg name) '' ''))"

text \<open>
  The block for the keys that must be up has \<^verbatim>\<open>up_size + 1\<close> bytes and receives integers of four bytes.
\<close>

definition int_fits :: "nat \<Rightarrow> nat \<Rightarrow> bool" where
  "int_fits bytes idx \<longleftrightarrow> 4 * idx + 4 \<le> bytes"

fun dt_keys_up :: "nat \<Rightarrow> string option list \<Rightarrow> int list \<Rightarrow> int list option" where
  "dt_keys_up bytes (Some name # names) keys =
     (let key = get_key_from_label name
      in if key < 0 then (if int_fits bytes (length keys) then Some (keys @ [0]) else None)
         else if int_fits bytes (length keys) then dt_keys_up bytes names (keys @ [key]) else None)"
| "dt_keys_up bytes _ keys = (if int_fits bytes (length keys) then Some (keys @ [0]) else None)"

record combo_dt =
  cdt_keys_down :: "string option list option"
  cdt_func :: "int option"
  cdt_delay :: "int option"
  cdt_keys_up :: "string option list option"

record combo_env =
  ce_alloc_cfg :: bool
  ce_alloc_data :: bool
  ce_alloc_up :: bool
  ce_pdev :: bool
  ce_add_data :: int
  ce_add :: int

definition free_keycombo_platdata :: "keys_config \<Rightarrow> (keys_config \<times> combo_event list) option" where
  "free_keycombo_platdata cfg =
     (case pcombo_data cfg of None \<Rightarrow> Some (cfg, [])
      | Some pd \<Rightarrow>
          if \<not> pdev_keycombo cfg then None
          else Some (cfg\<lparr>pcombo_data := None\<rparr>, (if kp_keys_up pd \<noteq> None then [DevmKfreeWarning] else []) @ [DevmKfreeWarning]))"

text \<open>Every error path of \<^verbatim>\<open>dt_to_keycombo_data\<close> returns 0 with the configuration's data still unset.\<close>

definition dt_to_keycombo_data :: "combo_env \<Rightarrow> combo_dt \<Rightarrow> combo_function list \<Rightarrow> keys_config
    \<Rightarrow> (nat \<times> keys_config \<times> combo_function list) option" where
  "dt_to_keycombo_data env dt funcs cfg =
     (case cdt_keys_down dt of None \<Rightarrow> Some (0, cfg, funcs)
      | Some names \<Rightarrow>
          if \<not> ce_alloc_data env then Some (0, cfg, funcs)
          else case cdt_func dt of None \<Rightarrow> Some (0, cfg, funcs)
          | Some fn \<Rightarrow>
              let cfg = cfg\<lparr>kcfg_func := get_func funcs fn\<rparr>
              in case kcfg_func cfg of None \<Rightarrow> Some (0, cfg, funcs)
                 | Some i \<Rightarrow>
                     let (ok, keys, msg) = dt_keys_down names [] (cf_msg (funcs ! i));
                         funcs = funcs[i := (funcs ! i)\<lparr>cf_msg := msg\<rparr>]
                     in if \<not> ok then Some (0, cfg, funcs)
                        else case cdt_delay dt of None \<Rightarrow> Some (0, cfg, funcs)
                        | Some v \<Rightarrow>
                            let sz = 40 + 4 * (length names + 1);
                                pd = \<lparr>kp_key_down_fn = Some (cf_handler (funcs ! i)), kp_key_up_fn = None,
                                      kp_key_down_delay = s32 v, kp_keys_up = None, kp_keys_down = keys @ [0]\<rparr>
                            in if cdt_keys_up dt = None \<or> cdt_keys_up dt = Some [] then Some (sz, cfg\<lparr>pcombo_data := Some pd\<rparr>, funcs)
                               else let ups = the (cdt_keys_up dt)
                                 in if \<not> ce_alloc_up env then Some (0, cfg, funcs)
                                   else (case dt_keys_up (length ups + 1) ups [] of None \<Rightarrow> None
                                         | Some ks \<Rightarrow> Some (sz, cfg\<lparr>pcombo_data := Some (pd\<lparr>kp_keys_up := Some ks\<rparr>)\<rparr>, funcs)))"

definition amzn_keycombo_probe :: "combo_env \<Rightarrow> combo_dt \<Rightarrow> combo_function list
    \<Rightarrow> (int \<times> keys_config option \<times> combo_function list \<times> combo_event list) option" where
  "amzn_keycombo_probe env dt funcs =
     (if \<not> ce_alloc_cfg env then Some (- ENOMEM, None, funcs, [])
      else case dt_to_keycombo_data env dt funcs \<lparr>pcombo_data = None, combo_data_size = 0, pdev_keycombo = False, kcfg_func = None\<rparr> of
        None \<Rightarrow> None
      | Some (sz, cfg, funcs) \<Rightarrow>
          let cfg = cfg\<lparr>combo_data_size := sz\<rparr>
          in if combo_data_size cfg = 0
             then (case free_keycombo_platdata cfg of None \<Rightarrow> None | Some (_, evs) \<Rightarrow> Some (- ENOMEM, None, funcs, evs))
             else let cfg = cfg\<lparr>pdev_keycombo := ce_pdev env\<rparr>
                  in if \<not> pdev_keycombo cfg
                     then (case free_keycombo_platdata cfg of None \<Rightarrow> None | Some (_, evs) \<Rightarrow> Some (- ENOMEM, None, funcs, evs))
                     else if ce_add_data env \<noteq> 0
                     then (case free_keycombo_platdata cfg of None \<Rightarrow> None
                           | Some (_, evs) \<Rightarrow> Some (ce_add_data env, None, funcs, evs @ [DevicePut]))
                     else Some (ce_add env, Some cfg, funcs,
                                if ce_add env = 0 then [DeviceAdded (the (pcombo_data cfg))] else []))"

definition amzn_keycombo_remove :: "keys_config \<Rightarrow> (int \<times> combo_event list) option" where
  "amzn_keycombo_remove cfg =
     (case free_keycombo_platdata cfg of None \<Rightarrow> None
      | Some (cfg, evs) \<Rightarrow> Some (0, evs @ (if pdev_keycombo cfg then [DevicePut] else [])))"

section \<open>Reading the device tree\<close>

definition valid_key_name :: "string option \<Rightarrow> bool" where
  "valid_key_name n = (case n of None \<Rightarrow> False | Some name \<Rightarrow> name \<in> fst ` set key_labels)"

lemma key_of_label: "0 \<le> get_key_from_label name \<longleftrightarrow> name \<in> fst ` set key_labels"
  by (auto simp: get_key_from_label_def key_labels_def EINVAL_def)

lemma valid_key_nameE:
  assumes "valid_key_name n"
  obtains name where "n = Some name" "\<not> get_key_from_label name < 0"
  using assms key_of_label by (auto simp: valid_key_name_def linorder_not_less split: option.splits)

lemma dt_keys_down_valid:
  "list_all valid_key_name names \<Longrightarrow> fst (dt_keys_down names keys msg) \<and>
    fst (snd (dt_keys_down names keys msg)) = keys @ map (get_key_from_label \<circ> the) names"
proof (induction names arbitrary: keys msg)
  case (Cons n names)
  then obtain name where "n = Some name" "\<not> get_key_from_label name < 0" by (auto elim: valid_key_nameE)
  with Cons show ?case by (simp add: Let_def)
qed simp

lemma dt_keys_down_invalid:
  "\<not> list_all valid_key_name names \<Longrightarrow> \<not> fst (dt_keys_down names keys msg)"
proof (induction names arbitrary: keys msg)
  case (Cons n names)
  show ?case
  proof (cases "valid_key_name n")
    case True
    then obtain name where "n = Some name" "\<not> get_key_from_label name < 0" by (auto elim: valid_key_nameE)
    with Cons True show ?thesis by (simp add: Let_def)
  next
    case False
    then show ?thesis by (cases n) (auto simp: valid_key_name_def key_of_label [symmetric] Let_def)
  qed
qed simp

lemma msg_bounded: "length msg \<le> COMBO_MSG_SIZE \<Longrightarrow> length (snd (snd (dt_keys_down names keys msg))) \<le> COMBO_MSG_SIZE"
  by (induction names keys msg rule: dt_keys_down.induct) (auto simp: msg_cat_def Let_def)

lemma dt_keys_up_overrun:
  "list_all valid_key_name ups \<Longrightarrow> bytes < 4 * (length keys + length ups) + 4 \<Longrightarrow> dt_keys_up bytes ups keys = None"
proof (induction ups arbitrary: keys)
  case (Cons n ups)
  then obtain name where "n = Some name" "\<not> get_key_from_label name < 0" by (auto elim: valid_key_nameE)
  with Cons show ?case by (simp add: Let_def)
qed (simp add: int_fits_def)

lemma get_func_combo: "fn \<in> {0, 1} \<Longrightarrow> \<exists>i < 2. get_func combo_funcs fn = Some i"
  by (auto simp: get_func_def combo_funcs_def)

text \<open>
  The block for the keys that must be up is too small for every list of valid names: four bytes per key are
  written into one byte per key.
\<close>

theorem keys_up_overrun_block:
  assumes "cdt_keys_down dt = Some downs" "list_all valid_key_name downs" "cdt_func dt = Some fn" "fn \<in> {0, 1}" "cdt_delay dt = Some v"
    "cdt_keys_up dt = Some ups" "ups \<noteq> []" "list_all valid_key_name ups" "ce_alloc_cfg env" "ce_alloc_data env" "ce_alloc_up env"
  shows "amzn_keycombo_probe env dt combo_funcs = None"
proof -
  obtain i where i: "get_func combo_funcs fn = Some i" using get_func_combo [OF assms(4)] by blast
  have "dt_keys_up (length ups + 1) ups [] = None" using dt_keys_up_overrun [OF assms(8), of "length ups + 1" "[]"] by simp
  then show ?thesis using assms dt_keys_down_valid [OF assms(2)] i
    by (simp add: amzn_keycombo_probe_def dt_to_keycombo_data_def Let_def case_prod_beta)
qed

text \<open>The data the driver hands to the key combination driver, for a device tree without keys that must be up.\<close>

lemma probe_device:
  assumes "amzn_keycombo_probe env dt combo_funcs = Some (0, cfg, funcs, evs)" "DeviceAdded pd \<in> set evs" "cdt_keys_up dt = None"
  obtains names fn i v where "cdt_keys_down dt = Some names" "list_all valid_key_name names" "cdt_func dt = Some fn" "get_func combo_funcs fn = Some i"
    "cdt_delay dt = Some v" "pd = \<lparr>kp_key_down_fn = Some (cf_handler (combo_funcs ! i)), kp_key_up_fn = None,
      kp_key_down_delay = s32 v, kp_keys_up = None, kp_keys_down = map (get_key_from_label \<circ> the) names @ [0]\<rparr>"
proof -
  from assms(1) obtain names fn i v where n: "cdt_keys_down dt = Some names" "cdt_func dt = Some fn" "get_func combo_funcs fn = Some i"
    "cdt_delay dt = Some v" "ce_alloc_cfg env" "ce_alloc_data env" "fst (dt_keys_down names [] (cf_msg (combo_funcs ! i)))"
    using dt_keys_down_invalid assms(2,3)
    by (auto simp: amzn_keycombo_probe_def dt_to_keycombo_data_def free_keycombo_platdata_def ENOMEM_def Let_def case_prod_beta split: option.splits if_splits)
  have v: "list_all valid_key_name names" using n(7) dt_keys_down_invalid by blast
  have l: "i < length combo_funcs" using n(3) by (auto simp: get_func_def combo_funcs_def split: if_splits)
  have "pd = \<lparr>kp_key_down_fn = Some (cf_handler (combo_funcs ! i)), kp_key_up_fn = None,
      kp_key_down_delay = s32 v, kp_keys_up = None, kp_keys_down = map (get_key_from_label \<circ> the) names @ [0]\<rparr>"
    using assms n dt_keys_down_valid [OF v] l
    by (auto simp: amzn_keycombo_probe_def dt_to_keycombo_data_def free_keycombo_platdata_def ENOMEM_def Let_def case_prod_beta split: option.splits if_splits)
  with n v that show thesis by blast
qed

section \<open>Powering off\<close>

lemma long_press_reason:
  "SHUTDOWN_BY_LONG_PWR_KEY_PRESS \<in> lcr_table_reasons SHUTDOWN" "lcr_index SHUTDOWN_BY_LONG_PWR_KEY_PRESS \<noteq> 0"
  "fst (lcr_data ! lcr_index SHUTDOWN_BY_LONG_PWR_KEY_PRESS) = SHUTDOWN_BY_LONG_PWR_KEY_PRESS" "lcr_index LIFE_CYCLE_NOT_AVAILABLE = 0"
  by (simp_all add: lcr_table_reasons_def rtc_table_defs lcr_index_def search_lcr_table_def lcr_data_def)

lemma do_power_off_running:
  assumes "sol_running d m"
  shows "\<exists>d'. do_power_off True True d = Some ([Crashreport, NotifierCall COMBO_FUNC_POWER_OFF, OrderlyReboot], d') \<and>
    sol_running d' (m(SHUTDOWN := SHUTDOWN_BY_LONG_PWR_KEY_PRESS))"
proof -
  have "rtc_present (sol_platform d)" using assms by (simp add: sol_running_def)
  then obtain n s where s: "mtk_rtc_mark_sw_lprst (sol_platform d) = Some (n, s)" by (simp add: mtk_rtc_mark_sw_lprst_def)
  from sol_running_set [OF sol_running_lprst [OF assms s] long_press_reason(1)] show ?thesis
    by (simp add: do_power_off_def s log_long_press_power_key_def Let_def)
qed

text \<open>A restart records its own boot reason; the shutdown reason of the long press still comes first.\<close>

lemma power_off_reported:
  assumes "sol_running d m" "m THERMAL_SHUTDOWN = LIFE_CYCLE_NOT_AVAILABLE" "m SHUTDOWN = SHUTDOWN_BY_LONG_PWR_KEY_PRESS"
    "dev_sol_init True c ch (reboot_device (life_cycle_reboot_notifier d SYS_RESTART)) = Some (n, d2)"
  shows "\<exists>ds. p_dev_sol d2 = Some ds \<and> fst (lcr_data ! life_cycle_reason_idx ds) = SHUTDOWN_BY_LONG_PWR_KEY_PRESS"
proof -
  obtain m' where m': "sol_running (life_cycle_reboot_notifier d SYS_RESTART) m'" "m' THERMAL_SHUTDOWN = LIFE_CYCLE_NOT_AVAILABLE"
    "m' SHUTDOWN = SHUTDOWN_BY_LONG_PWR_KEY_PRESS"
    using sol_running_notifier [OF assms(1), of SYS_RESTART] assms(2,3) by auto
  from sol_running_reboot [OF m'(1) assms(4)] m'(2,3) long_press_reason(2-4) show ?thesis by auto
qed

end
