(* ===== verification/Metrics_Text.thy ===== *)
theory Metrics_Text
  imports Prelude
begin

text \<open>
  The texts of the metrics log (\<^verbatim>\<open>drivers/misc/amazon_logger.c\<close>): decimal numbers and strings as the
  kernel's \<^verbatim>\<open>vsnprintf\<close> prints them, printing into an array at an offset, and the texts of the vitals
  records built from them. An array is its list of bytes, whatever it held before; a write outside it is
  \<open>None\<close>. A NULL string argument is \<open>None\<close> and prints as \<^verbatim>\<open>(null)\<close>.
\<close>

section \<open>Printing\<close>

function nat_digits :: "nat \<Rightarrow> string" where
  "nat_digits n = (if n < 10 then [char_of (48 + n)] else nat_digits (n div 10) @ [char_of (48 + n mod 10)])"
  by pat_completeness auto
termination by (relation "measure id") auto

declare nat_digits.simps [simp del]

definition fmt_d :: "int \<Rightarrow> string" where
  "fmt_d i = (if i < 0 then CHR 0x2D # nat_digits (nat (- i)) else nat_digits (nat i))"

definition fmt_s :: "string option \<Rightarrow> string" where
  "fmt_s s = (case s of None \<Rightarrow> ''(null)'' | Some x \<Rightarrow> x)"

text \<open>\<^verbatim>\<open>memcpy\<close> of bytes to an offset of an array.\<close>

definition put_bytes :: "char list \<Rightarrow> nat \<Rightarrow> char list \<Rightarrow> char list option" where
  "put_bytes d off src = (if off + length src \<le> length d then Some (take off d @ src @ drop (off + length src) d) else None)"

text \<open>
  \<^verbatim>\<open>snprintf\<close> with a \<^verbatim>\<open>size_t\<close> bound: sizes above \<^verbatim>\<open>INT_MAX\<close> (a negative difference among them) are
  refused with the result 0, otherwise the result is the length of the whole text.
\<close>

definition INT_MAX :: int where "INT_MAX = 2147483647"

definition snprintf_at :: "char list \<Rightarrow> nat \<Rightarrow> int \<Rightarrow> string \<Rightarrow> (nat \<times> char list) option" where
  "snprintf_at d off sz text =
     (let n = u64w sz
      in if INT_MAX < n then Some (0, d)
         else if n = 0 then Some (length text, d)
         else case put_bytes d off (take (nat n - 1) text @ [CHR 0x00]) of None \<Rightarrow> None
              | Some d' \<Rightarrow> Some (length text, d'))"

definition VITAL_ENTRY_MAX_PAYLOAD :: nat where "VITAL_ENTRY_MAX_PAYLOAD = 512"

section \<open>The vitals records\<close>

abbreviation (input) dq :: string where "dq \<equiv> [CHR 0x22]"

definition vitals_text :: "string \<Rightarrow> string \<Rightarrow> string option \<Rightarrow> string option \<Rightarrow> int \<Rightarrow> string option \<Rightarrow> int \<Rightarrow> string option
    \<Rightarrow> string \<Rightarrow> string" where
  "vitals_text kind unit_tag program src ty key val unit_name metadata_msg =
     fmt_s program @ '':'' @ fmt_s src @ '':type='' @ fmt_d ty @ '';DV;1'' @
     (case key of None \<Rightarrow> [] | Some k \<Rightarrow> '',key='' @ k @ '';DV;1'') @
     '','' @ kind @ ''='' @ fmt_d val @ '';'' @ unit_tag @ '';1,unit='' @ fmt_s unit_name @ '';DV;1'' @ metadata_msg @ '':HI''"

definition has_text :: "string option \<Rightarrow> bool" where
  "has_text s \<longleftrightarrow> (case s of None \<Rightarrow> False | Some x \<Rightarrow> x \<noteq> [])"

definition counter_metadata :: "string option \<Rightarrow> char list \<Rightarrow> char list option" where
  "counter_metadata metadata arr =
     (if has_text metadata
      then map_option snd (snprintf_at arr 0 (int VITAL_ENTRY_MAX_PAYLOAD) ('',metadata='' @ the metadata @ '';DV;1''))
      else put_bytes arr 0 [CHR 0x00])"

definition ids_text :: "string option \<Rightarrow> string option \<Rightarrow> string option \<Rightarrow> string" where
  "ids_text group_id schema_id dimensions =
     dq @ ''d'' @ dq @ ''#{'' @ dq @ ''groupId'' @ dq @ ''#'' @ dq @ fmt_s group_id @ dq @ ''$'' @ dq @ ''schemaId'' @ dq @ ''#'' @
     dq @ fmt_s schema_id @ dq @ (if has_text dimensions then ''$'' @ the dimensions else []) @ ''}''"

definition annotations_text :: "string option \<Rightarrow> string" where
  "annotations_text annotations =
     (if has_text annotations then ''$'' @ dq @ ''m'' @ dq @ ''#{'' @ the annotations @ ''}};DV;1'' else ''};DV;1'')"

definition counter_metadata_v2 :: "string option \<Rightarrow> string option \<Rightarrow> string option \<Rightarrow> string option \<Rightarrow> string option \<Rightarrow> char list
    \<Rightarrow> char list option" where
  "counter_metadata_v2 metadata group_id schema_id dimensions annotations arr =
     (let m = int VITAL_ENTRY_MAX_PAYLOAD
      in case snprintf_at arr 0 m (if has_text metadata then '',metadata='' @ the metadata @ ''!{'' else '',metadata=!{'') of None \<Rightarrow> None
      | Some (n1, arr) \<Rightarrow>
          (case snprintf_at arr n1 (m - int n1) (ids_text group_id schema_id dimensions) of None \<Rightarrow> None
           | Some (n2, arr) \<Rightarrow> map_option snd (snprintf_at arr (n1 + n2) (m - int (n1 + n2)) (annotations_text annotations))))"

definition timer_metadata_v2 :: "string option \<Rightarrow> string option \<Rightarrow> string option \<Rightarrow> string option \<Rightarrow> char list \<Rightarrow> char list option" where
  "timer_metadata_v2 group_id schema_id dimensions annotations arr =
     (let m = int VITAL_ENTRY_MAX_PAYLOAD
      in case snprintf_at arr 0 m ('',metadata=!{'' @ ids_text group_id schema_id dimensions) of None \<Rightarrow> None
      | Some (n1, arr) \<Rightarrow> map_option snd (snprintf_at arr n1 (m - int n1) (annotations_text annotations)))"

definition vitals_print :: "char list \<Rightarrow> string \<Rightarrow> string option" where
  "vitals_print str text = map_option (c_str \<circ> snd) (snprintf_at str 0 (int VITAL_ENTRY_MAX_PAYLOAD) text)"

section \<open>Numbers\<close>

lemma nat_digits_chars: "c \<in> set (nat_digits n) \<Longrightarrow> 48 \<le> (of_char c :: nat) \<and> (of_char c :: nat) < 58"
proof (induction n rule: nat_digits.induct)
  case (1 n)
  show ?case
  proof (cases "n < 10")
    case True
    then show ?thesis using 1(2) by (simp add: nat_digits.simps [of n])
  next
    case False
    then have "c \<in> set (nat_digits (n div 10)) \<or> c = char_of (48 + n mod 10)" using 1(2) by (auto simp: nat_digits.simps [of n])
    moreover have "48 + n mod 10 < 58" "n mod 10 < 10" by simp_all
    ultimately show ?thesis using 1(1) [OF False] by (auto simp: of_char_of)
  qed
qed

definition read_digits :: "string \<Rightarrow> nat" where
  "read_digits s = foldl (\<lambda>acc c. 10 * acc + (of_char c - 48)) 0 s"

lemma read_nat_digits: "read_digits (nat_digits n) = n"
proof (induction n rule: nat_digits.induct)
  case (1 n)
  have "48 + n mod 10 < 256" "n < 10 \<Longrightarrow> 48 + n < 256" by simp_all
  with 1 show ?case by (cases "n < 10") (simp_all add: nat_digits.simps [of n] read_digits_def)
qed

lemma NUL_not_digit: "CHR 0x00 \<notin> set (nat_digits n)" "CHR 0x00 \<notin> set (fmt_d i)"
proof -
  show n: "CHR 0x00 \<notin> set (nat_digits n)" for n using nat_digits_chars [of "CHR 0x00" n] by auto
  then show "CHR 0x00 \<notin> set (fmt_d i)" by (auto simp: fmt_d_def)
qed

section \<open>A chain of prints\<close>

text \<open>
  After printing the text \<open>t\<close> in pieces, each at the offset of the lengths so far and bounded by the rest
  of the array, the array holds as much of \<open>t\<close> as fits before a NUL.
\<close>

definition printed :: "char list \<Rightarrow> nat \<Rightarrow> string \<Rightarrow> bool" where
  "printed d n t \<longleftrightarrow> length d = 512 \<and> n < 2 ^ 40 \<and> take (length (take 511 t) + 1) d = take 511 t @ [CHR 0x00] \<and>
     (if n < 512 then n = length t else 512 \<le> length t)"

lemma put_bytes_at: "off + length src \<le> length d \<Longrightarrow> put_bytes d off src = Some (take off d @ src @ drop (off + length src) d)"
  by (simp add: put_bytes_def)

lemma snprintf_first:
  assumes "length d = 512" "length t < 2 ^ 31"
  shows "\<exists>d'. snprintf_at d 0 (int VITAL_ENTRY_MAX_PAYLOAD) t = Some (length t, d') \<and> printed d' (length t) t"
proof -
  have "put_bytes d 0 (take 511 t @ [CHR 0x00]) = Some (take 511 t @ [CHR 0x00] @ drop (length (take 511 t) + 1) d)"
    using assms(1) by (subst put_bytes_at) auto
  then have "snprintf_at d 0 (int VITAL_ENTRY_MAX_PAYLOAD) t = Some (length t, take 511 t @ [CHR 0x00] @ drop (length (take 511 t) + 1) d)"
    by (simp add: snprintf_at_def VITAL_ENTRY_MAX_PAYLOAD_def u64w_id INT_MAX_def)
  moreover have "printed (take 511 t @ [CHR 0x00] @ drop (length (take 511 t) + 1) d) (length t) t"
    using assms by (auto simp: printed_def)
  ultimately show ?thesis by blast
qed

lemma snprintf_next:
  assumes "printed d n t" "length u < 2 ^ 31"
  shows "\<exists>k d'. snprintf_at d n (int VITAL_ENTRY_MAX_PAYLOAD - int n) u = Some (k, d') \<and> printed d' (n + k) (t @ u)"
proof (cases "n < 512")
  case True
  then have n: "n = length t" "length d = 512" "take (n + 1) d = t @ [CHR 0x00]" using assms(1) by (auto simp: printed_def)
  have "take n (take (n + 1) d) = t" unfolding n(3) using n(1) by simp
  then have t: "take n d = t" by (simp add: min_def)
  let ?w = "take (511 - n) u @ [CHR 0x00]"
  have "put_bytes d n ?w = Some (take n d @ ?w @ drop (n + length ?w) d)" using n True by (intro put_bytes_at) auto
  then have e: "snprintf_at d n (int VITAL_ENTRY_MAX_PAYLOAD - int n) u = Some (length u, t @ ?w @ drop (n + length ?w) d)"
    using True t by (simp add: snprintf_at_def VITAL_ENTRY_MAX_PAYLOAD_def u64w_id INT_MAX_def nat_diff_distrib)
  have "take 511 (t @ u) = t @ take (511 - n) u" using True n by simp
  then have "printed (t @ ?w @ drop (n + length ?w) d) (n + length u) (t @ u)" using True n assms by (auto simp: printed_def)
  with e show ?thesis by blast
next
  case False
  show ?thesis
  proof (cases "n = 512")
    case True
    then have "snprintf_at d n (int VITAL_ENTRY_MAX_PAYLOAD - int n) u = Some (length u, d)"
      by (simp add: snprintf_at_def VITAL_ENTRY_MAX_PAYLOAD_def u64w_def INT_MAX_def)
    moreover have "printed d (n + length u) (t @ u)" using assms True by (auto simp: printed_def)
    ultimately show ?thesis by blast
  next
    case no: False
    with False have "512 < n" "n < 2 ^ 40" using assms(1) by (auto simp: printed_def)
    then have "u64w (512 - int n) = 2 ^ 64 + 512 - int n" by (simp add: u64w_def mod_shift_neg)
    then have "snprintf_at d n (int VITAL_ENTRY_MAX_PAYLOAD - int n) u = Some (0, d)"
      using \<open>n < 2 ^ 40\<close> by (simp add: snprintf_at_def VITAL_ENTRY_MAX_PAYLOAD_def INT_MAX_def)
    moreover have "printed d (n + 0) (t @ u)" using assms no False by (auto simp: printed_def)
    ultimately show ?thesis by blast
  qed
qed

lemma printed_c_str:
  assumes "printed d n t" "CHR 0x00 \<notin> set t"
  shows "c_str d = take 511 t" "length d = 512"
proof -
  have "d = (take 511 t @ [CHR 0x00]) @ drop (length (take 511 t) + 1) d" using assms(1) unfolding printed_def by (metis append_take_drop_id)
  moreover have "CHR 0x00 \<notin> set (take 511 t)" using assms(2) by (auto dest: in_set_takeD)
  ultimately show "c_str d = take 511 t" by (metis c_str_append_NUL append_Cons append_Nil append_assoc)
  show "length d = 512" using assms(1) by (simp add: printed_def)
qed

section \<open>The texts of the records\<close>

text \<open>Arguments a caller may pass: texts without NUL and of any length the kernel can print.\<close>

definition plain_text :: "string option \<Rightarrow> bool" where
  "plain_text s \<longleftrightarrow> (case s of None \<Rightarrow> True | Some x \<Rightarrow> CHR 0x00 \<notin> set x \<and> length x < 2 ^ 20)"

lemma plain_fmt_s: "plain_text s \<Longrightarrow> CHR 0x00 \<notin> set (fmt_s s) \<and> length (fmt_s s) < 2 ^ 20"
  by (auto simp: plain_text_def fmt_s_def split: option.splits)

lemma plain_the: "plain_text s \<Longrightarrow> has_text s \<Longrightarrow> CHR 0x00 \<notin> set (the s) \<and> length (the s) < 2 ^ 20"
  by (auto simp: plain_text_def has_text_def split: option.splits)

lemma ids_text_plain:
  assumes "plain_text g" "plain_text s" "plain_text d"
  shows "CHR 0x00 \<notin> set (ids_text g s d)" "length (ids_text g s d) < 2 ^ 31"
  using plain_fmt_s [OF assms(1)] plain_fmt_s [OF assms(2)] plain_the [OF assms(3)] by (auto simp: ids_text_def)

lemma annotations_text_plain:
  assumes "plain_text a"
  shows "CHR 0x00 \<notin> set (annotations_text a)" "length (annotations_text a) < 2 ^ 31"
  using plain_the [OF assms] by (auto simp: annotations_text_def)

definition metadata_head :: "string option \<Rightarrow> string" where
  "metadata_head metadata = (if has_text metadata then '',metadata='' @ the metadata @ ''!{'' else '',metadata=!{'')"

lemma counter_metadata_v2_text:
  assumes "length arr = 512" "plain_text metadata" "plain_text g" "plain_text s" "plain_text d" "plain_text a"
  shows "\<exists>arr'. counter_metadata_v2 metadata g s d a arr = Some arr' \<and> length arr' = 512 \<and>
    c_str arr' = take 511 (metadata_head metadata @ ids_text g s d @ annotations_text a)"
proof -
  let ?h = "metadata_head metadata"
  have h: "CHR 0x00 \<notin> set ?h" "length ?h < 2 ^ 31" using plain_the [OF assms(2)] by (auto simp: metadata_head_def)
  note i = ids_text_plain [OF assms(3-5)] and an = annotations_text_plain [OF assms(6)]
  obtain d1 where d1: "snprintf_at arr 0 (int VITAL_ENTRY_MAX_PAYLOAD) ?h = Some (length ?h, d1)" "printed d1 (length ?h) ?h"
    using snprintf_first [OF assms(1) h(2)] by blast
  from snprintf_next [OF d1(2) i(2)] obtain k2 d2 where d2:
    "snprintf_at d1 (length ?h) (int VITAL_ENTRY_MAX_PAYLOAD - int (length ?h)) (ids_text g s d) = Some (k2, d2)"
    "printed d2 (length ?h + k2) (?h @ ids_text g s d)" by blast
  from snprintf_next [OF d2(2) an(2)] obtain k3 d3 where d3:
    "snprintf_at d2 (length ?h + k2) (int VITAL_ENTRY_MAX_PAYLOAD - int (length ?h + k2)) (annotations_text a) = Some (k3, d3)"
    "printed d3 (length ?h + k2 + k3) ((?h @ ids_text g s d) @ annotations_text a)" by blast
  have "c_str d3 = take 511 (?h @ ids_text g s d @ annotations_text a)" using printed_c_str(1) [OF d3(2)] h(1) i(1) an(1) by simp
  moreover have "length d3 = 512" using d3(2) by (simp add: printed_def)
  ultimately show ?thesis using d1(1) d2(1) d3(1) by (simp add: counter_metadata_v2_def metadata_head_def [symmetric] Let_def)
qed

lemma timer_metadata_v2_text:
  assumes "length arr = 512" "plain_text g" "plain_text s" "plain_text d" "plain_text a"
  shows "\<exists>arr'. timer_metadata_v2 g s d a arr = Some arr' \<and> length arr' = 512 \<and>
    c_str arr' = take 511 ('',metadata=!{'' @ ids_text g s d @ annotations_text a)"
proof -
  let ?h = "'',metadata=!{'' @ ids_text g s d"
  note i = ids_text_plain [OF assms(2-4)] and an = annotations_text_plain [OF assms(5)]
  have h: "CHR 0x00 \<notin> set ?h" "length ?h < 2 ^ 31"
    using i plain_fmt_s [OF assms(2)] plain_fmt_s [OF assms(3)] plain_the [OF assms(4)] by (auto simp: ids_text_def)
  obtain d1 where d1: "snprintf_at arr 0 (int VITAL_ENTRY_MAX_PAYLOAD) ?h = Some (length ?h, d1)" "printed d1 (length ?h) ?h"
    using snprintf_first [OF assms(1) h(2)] by blast
  from snprintf_next [OF d1(2) an(2)] obtain k2 d2 where d2:
    "snprintf_at d1 (length ?h) (int VITAL_ENTRY_MAX_PAYLOAD - int (length ?h)) (annotations_text a) = Some (k2, d2)"
    "printed d2 (length ?h + k2) (?h @ annotations_text a)" by blast
  have "c_str d2 = take 511 (?h @ annotations_text a)" using printed_c_str(1) [OF d2(2)] h(1) an(1) by simp
  moreover have "length d2 = 512" using d2(2) by (simp add: printed_def)
  ultimately show ?thesis using d1(1) d2(1) by (simp add: timer_metadata_v2_def Let_def)
qed

lemma counter_metadata_text:
  assumes "length arr = 512" "plain_text metadata"
  shows "\<exists>arr'. counter_metadata metadata arr = Some arr' \<and> length arr' = 512 \<and>
    c_str arr' = (if has_text metadata then take 511 ('',metadata='' @ the metadata @ '';DV;1'') else [])"
proof (cases "has_text metadata")
  case True
  let ?t = "'',metadata='' @ the metadata @ '';DV;1''"
  have t: "CHR 0x00 \<notin> set ?t" "length ?t < 2 ^ 31" using plain_the [OF assms(2) True] by auto
  obtain d1 where d1: "snprintf_at arr 0 (int VITAL_ENTRY_MAX_PAYLOAD) ?t = Some (length ?t, d1)" "printed d1 (length ?t) ?t"
    using snprintf_first [OF assms(1) t(2)] by blast
  from printed_c_str [OF d1(2) t(1)] d1(1) True show ?thesis by (simp add: counter_metadata_def)
next
  case False
  then show ?thesis using assms(1) by (simp add: counter_metadata_def put_bytes_at c_str_def)
qed

lemma vitals_print_text:
  assumes "length str = 512" "CHR 0x00 \<notin> set t" "length t < 2 ^ 31"
  shows "vitals_print str t = Some (take 511 t)"
proof -
  obtain d1 where d1: "snprintf_at str 0 (int VITAL_ENTRY_MAX_PAYLOAD) t = Some (length t, d1)" "printed d1 (length t) t"
    using snprintf_first [OF assms(1,3)] by blast
  from printed_c_str(1) [OF d1(2) assms(2)] d1(1) show ?thesis by (simp add: vitals_print_def)
qed

lemma nat_digits_length: "n < 10 ^ Suc k \<Longrightarrow> length (nat_digits n) \<le> Suc k"
proof (induction k arbitrary: n)
  case 0
  then show ?case by (simp add: nat_digits.simps [of n])
next
  case (Suc k)
  then have "n div 10 < 10 ^ Suc k" by (simp add: less_mult_imp_div_less)
  with Suc.IH [of "n div 10"] show ?case by (simp add: nat_digits.simps [of n])
qed

definition s64_value :: "int \<Rightarrow> bool" where
  "s64_value i \<longleftrightarrow> - 9223372036854775808 \<le> i \<and> i < 9223372036854775808"

lemma fmt_d_length: "s64_value i \<Longrightarrow> length (fmt_d i) < 32"
proof -
  assume "s64_value i"
  then have "nat (- i) < 10 ^ Suc 20" "nat i < 10 ^ Suc 20" by (auto simp: s64_value_def)
  from nat_digits_length [OF this(1)] nat_digits_length [OF this(2)] show ?thesis by (simp add: fmt_d_def)
qed

lemma vitals_text_plain:
  assumes "plain_text program" "plain_text src" "plain_text key" "plain_text unit_name" "s64_value ty" "s64_value val"
    "CHR 0x00 \<notin> set m" "length m < 512" "CHR 0x00 \<notin> set kind" "length kind < 512" "CHR 0x00 \<notin> set tag" "length tag < 512"
  shows "CHR 0x00 \<notin> set (vitals_text kind tag program src ty key val unit_name m)"
    "length (vitals_text kind tag program src ty key val unit_name m) < 2 ^ 31"
proof -
  note f = plain_fmt_s [OF assms(1)] plain_fmt_s [OF assms(2)] plain_fmt_s [OF assms(4)]
  have k: "key = Some x \<Longrightarrow> CHR 0x00 \<notin> set x \<and> length x < 2 ^ 20" for x using assms(3) by (simp add: plain_text_def)
  show "CHR 0x00 \<notin> set (vitals_text kind tag program src ty key val unit_name m)"
    using f k assms NUL_not_digit by (auto simp: vitals_text_def split: option.splits)
  show "length (vitals_text kind tag program src ty key val unit_name m) < 2 ^ 31"
    using f k assms(8,10,12) fmt_d_length [OF assms(5)] fmt_d_length [OF assms(6)]
    by (cases key) (simp_all add: vitals_text_def)
qed

end
