(* ===== verification/Amazon_Logger.thy ===== *)
theory Amazon_Logger
  imports Metrics_Text
begin

text \<open>
  The Amazon logger (\<^verbatim>\<open>drivers/misc/amazon_logger.c\<close>): the metrics and vitals logs on the kernel's trace
  ring buffer. The ring buffer is known by its interface: for each CPU a queue of events, oldest first; a
  reservation on the CPU of the writer gives an event with some bytes in it, or nothing, and may have
  overwritten the oldest events of that CPU. The logs live in a heap of logger structures, so that a
  freed one that is still on the list is a fault (\<open>None\<close>).
\<close>

section \<open>Writing a record\<close>

type_synonym log_buffer = "nat \<Rightarrow> char list list"

record log_env =
  le_cpu :: nat
  le_reserve :: "nat \<Rightarrow> char list option"
  le_drop :: nat
  le_tgid :: int
  le_pid :: int
  le_sec :: int
  le_nsec :: int

definition LOGGER_ENTRY_MAX_PAYLOAD :: nat where "LOGGER_ENTRY_MAX_PAYLOAD = 4076"
definition LOGGER_ENTRY_SIZE :: nat where "LOGGER_ENTRY_SIZE = 20"

fun le_bytes :: "nat \<Rightarrow> int \<Rightarrow> char list" where
  "le_bytes 0 v = []"
| "le_bytes (Suc k) v = char_of (nat (v mod 256)) # le_bytes k (v div 256)"

definition logger_entry :: "nat \<Rightarrow> log_env \<Rightarrow> char list" where
  "logger_entry len env = le_bytes 2 (int len) @ le_bytes 2 0 @ le_bytes 4 (le_tgid env) @ le_bytes 4 (le_pid env) @
     le_bytes 4 (le_sec env) @ le_bytes 4 (le_nsec env)"

fun copy_iovs :: "char list list \<Rightarrow> nat \<Rightarrow> nat \<Rightarrow> char list \<Rightarrow> char list option" where
  "copy_iovs [] hlen tot d = Some d"
| "copy_iovs (iov # iovs) hlen tot d =
     (let len = min (length iov) (hlen - tot)
      in case put_bytes d (LOGGER_ENTRY_SIZE + tot) (take len iov) of None \<Rightarrow> None
         | Some d \<Rightarrow> copy_iovs iovs hlen (tot + len) d)"

definition commit_event :: "log_env \<Rightarrow> char list \<Rightarrow> log_buffer \<Rightarrow> log_buffer" where
  "commit_event env ev b = b(le_cpu env := drop (le_drop env) (b (le_cpu env)) @ [ev])"

definition logger_kernel_write :: "log_env \<Rightarrow> char list list \<Rightarrow> log_buffer \<Rightarrow> (int \<times> log_buffer) option" where
  "logger_kernel_write env iov b =
     (let total_len = sum_list (map length iov);
          hlen = min total_len LOGGER_ENTRY_MAX_PAYLOAD
      in case le_reserve env (LOGGER_ENTRY_SIZE + hlen) of None \<Rightarrow> Some (- ENOMEM, b)
         | Some ev \<Rightarrow>
             if length ev < LOGGER_ENTRY_SIZE + hlen then Some (- ENOMEM, commit_event env ev b)
             else case put_bytes ev 0 (logger_entry hlen env) of None \<Rightarrow> None
             | Some ev \<Rightarrow> (case copy_iovs iov hlen 0 ev of None \<Rightarrow> None | Some ev \<Rightarrow> Some (0, commit_event env ev b)))"

section \<open>The logs\<close>

record amazon_logger =
  al_buf :: log_buffer
  al_minor :: int
  al_name :: string

record amazon_log_sys =
  metrics_init :: bool
  loggers :: "nat \<Rightarrow> amazon_logger option"
  log_list :: "nat list"
  logger_next :: nat
  metrics_logger :: "nat option"
  vitals_logger :: "nat option"
  logger_ops :: bool

definition write_log :: "nat option \<Rightarrow> log_env \<Rightarrow> char list list \<Rightarrow> amazon_log_sys \<Rightarrow> (int \<times> amazon_log_sys) option" where
  "write_log p env iov sys =
     (case p of None \<Rightarrow> None
      | Some i \<Rightarrow>
          (case loggers sys i of None \<Rightarrow> None
           | Some l \<Rightarrow>
               (case logger_kernel_write env iov (al_buf l) of None \<Rightarrow> None
                | Some (ret, b) \<Rightarrow> Some (ret, sys\<lparr>loggers := (loggers sys)(i \<mapsto> l\<lparr>al_buf := b\<rparr>)\<rparr>))))"

definition record_iov :: "int \<Rightarrow> string \<Rightarrow> string \<Rightarrow> char list list" where
  "record_iov priority domain msg = [[char_of (nat (priority mod 256))], domain @ [CHR 0x00], msg @ [CHR 0x00]]"

definition log_domain :: "string option \<Rightarrow> string" where
  "log_domain domain = (case domain of None \<Rightarrow> ''kernel'' | Some d \<Rightarrow> d)"

definition underscore :: "char \<Rightarrow> char" where
  "underscore c = (if c = CHR '' '' then CHR ''_'' else c)"

definition log_to_metrics :: "log_env \<Rightarrow> int \<Rightarrow> string option \<Rightarrow> string option \<Rightarrow> amazon_log_sys
    \<Rightarrow> (int \<times> string option \<times> amazon_log_sys) option" where
  "log_to_metrics env priority domain log_msg sys =
     (case log_msg of None \<Rightarrow> Some (- EINVAL, log_msg, sys)
      | Some msg \<Rightarrow>
          if \<not> metrics_init sys then Some (- EINVAL, log_msg, sys)
          else let msg = map underscore msg
               in case write_log (metrics_logger sys) env (record_iov priority (log_domain domain) msg) sys of None \<Rightarrow> None
                  | Some (ret, sys) \<Rightarrow> Some (ret, Some msg, sys))"

definition MINERVA_LOG_MAX_SIZE :: int where "MINERVA_LOG_MAX_SIZE = 4096"
definition ANDROID_LOG_INFO :: int where "ANDROID_LOG_INFO = 4"

text \<open>
  \<^verbatim>\<open>minerva_metrics_log\<close> clears the caller's buffer and prints into it; \<open>text\<close> is what the format and its
  arguments print. A negative size clears memory without bound.
\<close>

definition minerva_metrics_log :: "log_env \<Rightarrow> char list option \<Rightarrow> int \<Rightarrow> string \<Rightarrow> amazon_log_sys
    \<Rightarrow> (int \<times> char list option \<times> amazon_log_sys) option" where
  "minerva_metrics_log env buf max_size text sys =
     (if MINERVA_LOG_MAX_SIZE < max_size then Some (- EINVAL, buf, sys)
      else if \<not> metrics_init sys then Some (- EINVAL, buf, sys)
      else case buf of None \<Rightarrow> Some (- EINVAL, buf, sys)
      | Some d \<Rightarrow>
          if max_size < 0 then None
          else (case put_bytes d 0 (replicate (nat max_size) (CHR 0x00)) of None \<Rightarrow> None
          | Some d \<Rightarrow>
              (case snprintf_at d 0 max_size text of None \<Rightarrow> None
               | Some (ret, d) \<Rightarrow>
                   if max_size \<le> int ret then Some (- EINVAL, Some d, sys)
                   else let msg = map underscore (c_str d);
                            d = msg @ drop (length msg) d
                        in case write_log (metrics_logger sys) env (record_iov ANDROID_LOG_INFO ''Minerva_Metrics_Log'' msg) sys of None \<Rightarrow> None
                           | Some (ret, sys) \<Rightarrow> Some (ret, Some d, sys))))"

definition log_to_vitals :: "log_env \<Rightarrow> int \<Rightarrow> string option \<Rightarrow> string option \<Rightarrow> amazon_log_sys \<Rightarrow> (int \<times> amazon_log_sys) option" where
  "log_to_vitals env priority domain log_msg sys =
     (case log_msg of None \<Rightarrow> Some (- EINVAL, sys)
      | Some msg \<Rightarrow>
          if \<not> metrics_init sys then Some (- EINVAL, sys)
          else write_log (vitals_logger sys) env (record_iov priority (log_domain domain) msg) sys)"

text \<open>The vitals functions; \<open>str\<close> and \<open>meta\<close> are what their arrays on the stack hold before.\<close>

definition log_counter_to_vitals :: "char list \<Rightarrow> char list \<Rightarrow> log_env \<Rightarrow> int \<Rightarrow> string option \<Rightarrow> string option \<Rightarrow> string option
    \<Rightarrow> string option \<Rightarrow> int \<Rightarrow> string option \<Rightarrow> string option \<Rightarrow> int \<Rightarrow> amazon_log_sys \<Rightarrow> (int \<times> amazon_log_sys) option" where
  "log_counter_to_vitals str meta env priority domain program source key counter_value unit_name metadata ty sys =
     (case counter_metadata metadata meta of None \<Rightarrow> None
      | Some m \<Rightarrow>
          (case vitals_print str (vitals_text ''counter'' ''CT'' program source ty key counter_value unit_name (c_str m)) of None \<Rightarrow> None
           | Some text \<Rightarrow> log_to_vitals env priority domain (Some text) sys))"

definition log_timer_to_vitals :: "char list \<Rightarrow> log_env \<Rightarrow> int \<Rightarrow> string option \<Rightarrow> string option \<Rightarrow> string option
    \<Rightarrow> string option \<Rightarrow> int \<Rightarrow> string option \<Rightarrow> int \<Rightarrow> amazon_log_sys \<Rightarrow> (int \<times> amazon_log_sys) option" where
  "log_timer_to_vitals str env priority domain program source key timer_value unit_name ty sys =
     (case vitals_print str (vitals_text ''timer'' ''TI'' program source ty key timer_value unit_name []) of None \<Rightarrow> None
      | Some text \<Rightarrow> log_to_vitals env priority domain (Some text) sys)"

definition log_counter_to_vitals_v2 :: "char list \<Rightarrow> char list \<Rightarrow> log_env \<Rightarrow> int \<Rightarrow> string option \<Rightarrow> string option \<Rightarrow> string option
    \<Rightarrow> string option \<Rightarrow> string option \<Rightarrow> string option \<Rightarrow> int \<Rightarrow> string option \<Rightarrow> string option \<Rightarrow> int \<Rightarrow> string option \<Rightarrow> string option
    \<Rightarrow> amazon_log_sys \<Rightarrow> (int \<times> amazon_log_sys) option" where
  "log_counter_to_vitals_v2 str meta env priority group_id schema_id domain program source key counter_value unit_name metadata ty
       dimensions annotations sys =
     (case counter_metadata_v2 metadata group_id schema_id dimensions annotations meta of None \<Rightarrow> None
      | Some m \<Rightarrow>
          (case vitals_print str (vitals_text ''counter'' ''CT'' program source ty key counter_value unit_name (c_str m)) of None \<Rightarrow> None
           | Some text \<Rightarrow> log_to_vitals env priority domain (Some text) sys))"

definition log_timer_to_vitals_v2 :: "char list \<Rightarrow> char list \<Rightarrow> log_env \<Rightarrow> int \<Rightarrow> string option \<Rightarrow> string option \<Rightarrow> string option
    \<Rightarrow> string option \<Rightarrow> string option \<Rightarrow> string option \<Rightarrow> int \<Rightarrow> string option \<Rightarrow> int \<Rightarrow> string option \<Rightarrow> string option
    \<Rightarrow> amazon_log_sys \<Rightarrow> (int \<times> amazon_log_sys) option" where
  "log_timer_to_vitals_v2 str meta env priority group_id schema_id domain program source key timer_value unit_name ty
       dimensions annotations sys =
     (case timer_metadata_v2 group_id schema_id dimensions annotations meta of None \<Rightarrow> None
      | Some m \<Rightarrow>
          (case vitals_print str (vitals_text ''timer'' ''TI'' program source ty key timer_value unit_name (c_str m)) of None \<Rightarrow> None
           | Some text \<Rightarrow> log_to_vitals env priority domain (Some text) sys))"

section \<open>Reading\<close>

definition ring_buffer_find_cpu :: "nat \<Rightarrow> log_buffer \<Rightarrow> nat option" where
  "ring_buffer_find_cpu ncpu b = find (\<lambda>cpu. b cpu \<noteq> []) [0..<ncpu]"

definition entry_len :: "char list \<Rightarrow> nat" where
  "entry_len ev = of_char (ev ! 0) + 256 * of_char (ev ! 1)"

datatype read_outcome = ReadAgain | ReadFault | ReadBlocked | ReadDone int "char list" log_buffer

text \<open>The part under the mutex, on the buffer as it is then; an event of fewer than two bytes has no length.\<close>

definition logger_read_locked :: "nat \<Rightarrow> nat \<Rightarrow> bool \<Rightarrow> log_buffer \<Rightarrow> read_outcome" where
  "logger_read_locked ncpu cnt copy_ok b =
     (case ring_buffer_find_cpu ncpu b of None \<Rightarrow> ReadAgain
      | Some cpu \<Rightarrow>
          let ev = hd (b cpu); b = b(cpu := tl (b cpu))
          in if length ev < 2 then ReadFault
             else let len = min (length ev) (LOGGER_ENTRY_SIZE + entry_len ev)
                  in if cnt < len then ReadDone (- EINVAL) [] b
                     else if \<not> copy_ok then ReadDone (- EFAULT) [] b
                     else ReadDone (int len) (take len ev) b)"

text \<open>
  One turn of the loops of \<^verbatim>\<open>amazon_logger_read\<close>: the buffer when it is tested, the result of the wait and
  whether a signal came, and the buffer when the mutex is held. Without another turn the reader waits.
\<close>

record read_turn =
  rt_seen :: log_buffer
  rt_wait :: int
  rt_signal :: bool
  rt_locked :: log_buffer

definition EAGAIN :: int where "EAGAIN = 11"
definition EINTR :: int where "EINTR = 4"

fun logger_read_turns :: "nat \<Rightarrow> bool \<Rightarrow> nat \<Rightarrow> bool \<Rightarrow> read_turn list \<Rightarrow> read_outcome" where
  "logger_read_turns ncpu nonblock cnt copy_ok [] = ReadBlocked"
| "logger_read_turns ncpu nonblock cnt copy_ok (t # ts) =
     (if ring_buffer_find_cpu ncpu (rt_seen t) \<noteq> None
      then (case logger_read_locked ncpu cnt copy_ok (rt_locked t) of
              ReadAgain \<Rightarrow> logger_read_turns ncpu nonblock cnt copy_ok ts | r \<Rightarrow> r)
      else if nonblock then ReadDone (- EAGAIN) [] (rt_seen t)
      else if rt_wait t \<noteq> 0 then ReadDone (rt_wait t) [] (rt_seen t)
      else if rt_signal t then ReadDone (- EINTR) [] (rt_seen t)
      else logger_read_turns ncpu nonblock cnt copy_ok ts)"

definition amazon_logger_read :: "nat \<Rightarrow> nat option \<Rightarrow> bool \<Rightarrow> nat \<Rightarrow> bool \<Rightarrow> read_turn list \<Rightarrow> read_outcome" where
  "amazon_logger_read ncpu private_data nonblock cnt copy_ok ts =
     (case private_data of None \<Rightarrow> ReadDone (- ENODEV) [] (\<lambda>_. []) | Some _ \<Rightarrow> logger_read_turns ncpu nonblock cnt copy_ok ts)"

section \<open>Creating and opening the logs\<close>

fun find_minor :: "(nat \<Rightarrow> amazon_logger option) \<Rightarrow> nat list \<Rightarrow> int \<Rightarrow> nat option option" where
  "find_minor mem [] minor = Some None"
| "find_minor mem (i # is) minor =
     (case mem i of None \<Rightarrow> None | Some l \<Rightarrow> if al_minor l = minor then Some (Some i) else find_minor mem is minor)"

definition get_log_from_minor :: "amazon_log_sys \<Rightarrow> int \<Rightarrow> nat option option" where
  "get_log_from_minor sys minor = find_minor (loggers sys) (log_list sys) minor"

definition amazon_logger_open :: "int \<Rightarrow> amazon_log_sys \<Rightarrow> (int \<times> nat option \<times> amazon_log_sys) option" where
  "amazon_logger_open minor sys =
     (case get_log_from_minor sys minor of None \<Rightarrow> None
      | Some None \<Rightarrow> Some (- ENODEV, None, sys)
      | Some (Some i) \<Rightarrow> Some (0, Some i, sys\<lparr>logger_ops := True\<rparr>))"

record create_env =
  cr_log :: bool
  cr_name :: bool
  cr_buf :: bool
  cr_minor :: int
  cr_register :: int

text \<open>A failed registration frees the logger it has already put on the list.\<close>

definition create_log :: "create_env \<Rightarrow> string \<Rightarrow> amazon_log_sys \<Rightarrow> nat option \<times> amazon_log_sys" where
  "create_log env log_name sys =
     (if \<not> cr_log env \<or> \<not> cr_name env \<or> \<not> cr_buf env then (None, sys)
      else let i = logger_next sys;
               sys = sys\<lparr>logger_next := Suc i, log_list := log_list sys @ [i]\<rparr>
           in if cr_register env \<noteq> 0 then (None, sys)
              else (Some i, sys\<lparr>loggers := (loggers sys)(i \<mapsto> \<lparr>al_buf = (\<lambda>_. []), al_minor = cr_minor env, al_name = log_name\<rparr>)\<rparr>))"

definition amazon_logger_init :: "create_env \<Rightarrow> create_env \<Rightarrow> amazon_log_sys \<Rightarrow> int \<times> amazon_log_sys" where
  "amazon_logger_init env1 env2 sys =
     (let (l1, sys) = create_log env1 ''metrics'' sys; sys = sys\<lparr>metrics_logger := l1\<rparr>
      in if l1 = None then (- 1, sys)
         else let (l2, sys) = create_log env2 ''vitals'' sys; sys = sys\<lparr>vitals_logger := l2\<rparr>
              in if l2 = None then (- 1, sys) else (0, sys\<lparr>metrics_init := True\<rparr>))"

fun free_logs :: "(nat \<Rightarrow> amazon_logger option) \<Rightarrow> nat list \<Rightarrow> (nat \<Rightarrow> amazon_logger option) option" where
  "free_logs mem [] = Some mem"
| "free_logs mem (i # is) = (case mem i of None \<Rightarrow> None | Some _ \<Rightarrow> free_logs (mem(i := None)) is)"

definition amazon_logger_exit :: "amazon_log_sys \<Rightarrow> amazon_log_sys option" where
  "amazon_logger_exit sys =
     (case free_logs (loggers sys) (log_list sys) of None \<Rightarrow> None | Some mem \<Rightarrow> Some (sys\<lparr>loggers := mem, log_list := []\<rparr>))"

section \<open>What is written\<close>

definition payload_len :: "char list list \<Rightarrow> nat" where
  "payload_len iov = min (sum_list (map length iov)) LOGGER_ENTRY_MAX_PAYLOAD"

text \<open>The record of a write: the header and as much of the pieces as fits the largest payload.\<close>

definition log_record :: "log_env \<Rightarrow> char list list \<Rightarrow> char list" where
  "log_record env iov = logger_entry (payload_len iov) env @ take LOGGER_ENTRY_MAX_PAYLOAD (concat iov)"

definition event_record :: "char list \<Rightarrow> char list" where
  "event_record ev = take (min (length ev) (LOGGER_ENTRY_SIZE + entry_len ev)) ev"

lemma length_le_bytes [simp]: "length (le_bytes k v) = k"
  by (induction k arbitrary: v) auto

lemma length_logger_entry [simp]: "length (logger_entry n env) = 20"
  by (simp add: logger_entry_def)

lemma entry_len_header: "n < 65536 \<Longrightarrow> entry_len (logger_entry n env @ xs) = n"
proof -
  assume "n < 65536"
  then have "n div 256 < 256" "nat (int n mod 256) = n mod 256" "nat (int n div 256) = n div 256"
    by (simp_all add: nat_mod_distrib nat_div_distrib)
  then show ?thesis by (simp add: entry_len_def logger_entry_def numeral_2_eq_2 nat_mod_distrib)
qed

lemma sum_length_concat: "sum_list (map length xss) = length (concat xss)"
  by (simp add: length_concat)

lemma length_log_record: "length (log_record env iov) = LOGGER_ENTRY_SIZE + payload_len iov"
  by (simp add: log_record_def payload_len_def LOGGER_ENTRY_SIZE_def sum_length_concat)

lemma payload_len_bound: "payload_len iov \<le> 4076"
  by (simp add: payload_len_def LOGGER_ENTRY_MAX_PAYLOAD_def)

lemma copy_iovs_eq:
  "tot \<le> hlen \<Longrightarrow> 20 + hlen \<le> length d \<Longrightarrow> hlen - tot \<le> length (concat iovs) \<Longrightarrow>
    \<exists>d'. copy_iovs iovs hlen tot d = Some d' \<and> length d' = length d \<and>
      take (20 + hlen) d' = take (20 + tot) d @ take (hlen - tot) (concat iovs)"
proof (induction iovs arbitrary: tot d)
  case (Cons iov iovs)
  let ?len = "min (length iov) (hlen - tot)"
  let ?d = "take (20 + tot) d @ take ?len iov @ drop (20 + tot + ?len) d"
  have p: "put_bytes d (LOGGER_ENTRY_SIZE + tot) (take ?len iov) = Some ?d"
    using Cons.prems by (subst put_bytes_at) (auto simp: LOGGER_ENTRY_SIZE_def)
  have len: "length ?d = length d" using Cons.prems by simp
  have "tot + ?len \<le> hlen" "hlen - (tot + ?len) \<le> length (concat iovs)" using Cons.prems by auto
  from Cons.IH [OF this(1) _ this(2), of ?d] len Cons.prems(2) obtain d' where d':
    "copy_iovs iovs hlen (tot + ?len) ?d = Some d'" "length d' = length d"
    "take (20 + hlen) d' = take (20 + (tot + ?len)) ?d @ take (hlen - (tot + ?len)) (concat iovs)" by auto
  have "length (take (20 + tot) d @ take ?len iov) = 20 + (tot + ?len)" using Cons.prems by simp
  then have "take (20 + (tot + ?len)) ?d = take (20 + tot) d @ take ?len iov" by (metis append_assoc append_eq_conv_conj)
  moreover have "take ?len iov @ take (hlen - (tot + ?len)) (concat iovs) = take (hlen - tot) (concat (iov # iovs))"
    by (cases "length iov \<le> hlen - tot") (simp_all add: min_def)
  ultimately have "take (20 + hlen) d' = take (20 + tot) d @ take (hlen - tot) (concat (iov # iovs))" using d'(3) by (simp only: append_assoc)
  moreover have "copy_iovs (iov # iovs) hlen tot d = Some d'" using p d'(1) by (simp only: copy_iovs.simps Let_def option.case)
  ultimately show ?case using d'(2) by blast
qed simp

lemma write_record:
  assumes "le_reserve env (LOGGER_ENTRY_SIZE + payload_len iov) = Some ev" "LOGGER_ENTRY_SIZE + payload_len iov \<le> length ev"
  shows "\<exists>ev'. logger_kernel_write env iov b = Some (0, commit_event env ev' b) \<and> length ev' = length ev \<and>
    take (LOGGER_ENTRY_SIZE + payload_len iov) ev' = log_record env iov"
proof -
  let ?h = "payload_len iov"
  let ?e = "take 0 ev @ logger_entry ?h env @ drop (0 + length (logger_entry ?h env)) ev"
  have l: "20 + ?h \<le> length ev" using assms(2) by (simp add: LOGGER_ENTRY_SIZE_def)
  then have p: "put_bytes ev 0 (logger_entry ?h env) = Some ?e" by (subst put_bytes_at) simp_all
  have h: "?h - 0 \<le> length (concat iov)" by (simp add: payload_len_def sum_length_concat)
  from copy_iovs_eq [of 0 ?h ?e iov] l h obtain d' where d': "copy_iovs iov ?h 0 ?e = Some d'" "length d' = length ev"
    "take (20 + ?h) d' = logger_entry ?h env @ take ?h (concat iov)" by auto
  have "take ?h (concat iov) = take LOGGER_ENTRY_MAX_PAYLOAD (concat iov)" by (simp add: payload_len_def sum_length_concat min_def)
  then have "take (LOGGER_ENTRY_SIZE + ?h) d' = log_record env iov" using d'(3) by (simp add: log_record_def LOGGER_ENTRY_SIZE_def)
  moreover have "logger_kernel_write env iov b = Some (0, commit_event env d' b)"
    using assms p d'(1) by (simp add: logger_kernel_write_def payload_len_def [symmetric] Let_def)
  ultimately show ?thesis using d'(2) by blast
qed

lemma event_record_of:
  assumes "take (LOGGER_ENTRY_SIZE + payload_len iov) ev = log_record env iov"
  shows "event_record ev = log_record env iov" "20 \<le> length ev"
proof -
  let ?n = "LOGGER_ENTRY_SIZE + payload_len iov"
  have l: "?n \<le> length ev" using arg_cong [OF assms, of length] length_log_record [of env iov] by simp
  then show "20 \<le> length ev" by (simp add: LOGGER_ENTRY_SIZE_def)
  have e: "ev = log_record env iov @ drop ?n ev" using assms by (metis append_take_drop_id)
  have "payload_len iov < 65536" using payload_len_bound [of iov] by simp
  from entry_len_header [OF this, of env] have "entry_len (log_record env iov @ xs) = payload_len iov" for xs by (simp add: log_record_def)
  then have "entry_len ev = payload_len iov" using e by metis
  then show "event_record ev = log_record env iov" using l assms by (simp add: event_record_def)
qed

section \<open>Queues per CPU\<close>

fun drain_with :: "('b \<Rightarrow> ('r \<times> 'b) option) \<Rightarrow> nat \<Rightarrow> 'b \<Rightarrow> 'r list" where
  "drain_with t 0 b = []"
| "drain_with t (Suc k) b = (case t b of None \<Rightarrow> [] | Some (r, b') \<Rightarrow> r # drain_with t k b')"

text \<open>The queue of one CPU after a sequence of writes, each of which may first lose the oldest entries.\<close>

definition queue_after :: "('w \<Rightarrow> nat) \<Rightarrow> ('w \<Rightarrow> nat) \<Rightarrow> ('w \<Rightarrow> 'r) \<Rightarrow> 'w list \<Rightarrow> nat \<Rightarrow> 'r list" where
  "queue_after cpu lost rcd ws c = fold (\<lambda>w q. if cpu w = c then drop (lost w) q @ [rcd w] else q) ws []"

lemma first_cell:
  assumes "c < n" "\<forall>k<c. q k = []" "q c = r # rs"
  shows "concat (map q [0..<n]) = r # concat (map (q(c := rs)) [0..<n])"
proof -
  have split: "[0..<n] = [0..<c] @ c # [Suc c..<n]" using assms(1) upt_add_eq_append [of 0 c "n - c"] upt_conv_Cons [of c n] by simp
  have z: "concat (map q [0..<c]) = []" "map (q(c := rs)) [0..<c] = map q [0..<c]" using assms(2) by simp_all
  have "map (q(c := rs)) [Suc c..<n] = map q [Suc c..<n]" by simp
  then show ?thesis using assms(3) unfolding split map_append concat_append z by (simp del: upt_Suc)
qed

locale cpu_queues =
  fixes cells :: "'b \<Rightarrow> nat \<Rightarrow> 'r list"
    and ok :: "'b \<Rightarrow> bool"
    and take1 :: "nat \<Rightarrow> 'b \<Rightarrow> ('r \<times> 'b) option"
    and put1 :: "'w \<Rightarrow> 'b \<Rightarrow> 'b"
    and admissible :: "'w \<Rightarrow> bool"
    and cpu :: "'w \<Rightarrow> nat"
    and lost :: "'w \<Rightarrow> nat"
    and rcd :: "'w \<Rightarrow> 'r"
  assumes take_none: "ok b \<Longrightarrow> \<forall>c<n. cells b c = [] \<Longrightarrow> take1 n b = None"
    and take_some: "ok b \<Longrightarrow> c < n \<Longrightarrow> \<forall>k<c. cells b k = [] \<Longrightarrow> cells b c = r # rs \<Longrightarrow>
      \<exists>b'. take1 n b = Some (r, b') \<and> ok b' \<and> cells b' = (cells b)(c := rs)"
    and put_cells: "ok b \<Longrightarrow> admissible w \<Longrightarrow> ok (put1 w b) \<and>
      cells (put1 w b) = (cells b)(cpu w := drop (lost w) (cells b (cpu w)) @ [rcd w])"
begin

lemma drain_all: "ok b \<Longrightarrow> length (concat (map (cells b) [0..<n])) \<le> k \<Longrightarrow> drain_with (take1 n) k b = concat (map (cells b) [0..<n])"
proof (induction k arbitrary: b)
  case (Suc k)
  show ?case
  proof (cases "\<forall>c<n. cells b c = []")
    case True
    then show ?thesis using take_none [OF Suc.prems(1)] by simp
  next
    case False
    define c where "c = (LEAST c. c < n \<and> cells b c \<noteq> [])"
    have c: "c < n" "cells b c \<noteq> []" using LeastI_ex [of "\<lambda>c. c < n \<and> cells b c \<noteq> []"] False unfolding c_def by blast+
    have first: "\<forall>k<c. cells b k = []"
    proof (intro allI impI)
      fix k assume k: "k < c"
      then have "\<not> (k < n \<and> cells b k \<noteq> [])" unfolding c_def by (rule not_less_Least)
      then show "cells b k = []" using k c(1) by simp
    qed
    obtain r rs where r: "cells b c = r # rs" using c(2) by (cases "cells b c") auto
    obtain b' where b': "take1 n b = Some (r, b')" "ok b'" "cells b' = (cells b)(c := rs)" using take_some [OF Suc.prems(1) c(1) first r] by blast
    have "concat (map (cells b) [0..<n]) = r # concat (map (cells b') [0..<n])" unfolding b'(3) by (rule first_cell [OF c(1) first r])
    then show ?thesis using Suc.IH [OF b'(2)] Suc.prems(2) b'(1) by simp
  qed
qed simp

lemma puts_cells: "ok b \<Longrightarrow> \<forall>w\<in>set ws. admissible w \<Longrightarrow>
    ok (fold put1 ws b) \<and> cells (fold put1 ws b) c = fold (\<lambda>w q. if cpu w = c then drop (lost w) q @ [rcd w] else q) ws (cells b c)"
proof (induction ws arbitrary: b)
  case (Cons w ws)
  have "ok (put1 w b)" "cells (put1 w b) c = (if cpu w = c then drop (lost w) (cells b c) @ [rcd w] else cells b c)"
    using put_cells [OF Cons.prems(1), of w] Cons.prems(2) by auto
  then show ?case using Cons.IH [of "put1 w b"] Cons.prems(2) by simp
qed simp

theorem written_then_drained:
  assumes "ok b" "cells b = (\<lambda>_. [])" "\<forall>w\<in>set ws. admissible w" "length (concat (map (queue_after cpu lost rcd ws) [0..<n])) \<le> k"
  shows "drain_with (take1 n) k (fold put1 ws b) = concat (map (queue_after cpu lost rcd ws) [0..<n])"
proof -
  have "ok (fold put1 ws b)" "cells (fold put1 ws b) = queue_after cpu lost rcd ws"
    using puts_cells [OF assms(1,3)] assms(2) by (auto simp: queue_after_def fun_eq_iff)
  then show ?thesis using drain_all [of "fold put1 ws b" n k] assms(4) by simp
qed

end

section \<open>The logger provides them\<close>

type_synonym log_write = "log_env \<times> char list list"

definition good_write :: "log_write \<Rightarrow> bool" where
  "good_write w \<longleftrightarrow> (case le_reserve (fst w) (LOGGER_ENTRY_SIZE + payload_len (snd w)) of None \<Rightarrow> False
     | Some ev \<Rightarrow> LOGGER_ENTRY_SIZE + payload_len (snd w) \<le> length ev)"

definition log_put :: "log_write \<Rightarrow> log_buffer \<Rightarrow> log_buffer" where
  "log_put w b = (case logger_kernel_write (fst w) (snd w) b of Some (ret, b') \<Rightarrow> if ret = 0 then b' else b | None \<Rightarrow> b)"

definition log_take :: "nat \<Rightarrow> log_buffer \<Rightarrow> ((int \<times> char list) \<times> log_buffer) option" where
  "log_take ncpu b = (case logger_read_locked ncpu 4096 True b of ReadDone ret d b' \<Rightarrow> Some ((ret, d), b') | _ \<Rightarrow> None)"

definition read_result :: "char list \<Rightarrow> int \<times> char list" where
  "read_result r = (int (length r), r)"

definition log_cells :: "log_buffer \<Rightarrow> nat \<Rightarrow> (int \<times> char list) list" where
  "log_cells b c = map (read_result \<circ> event_record) (b c)"

definition log_ok :: "log_buffer \<Rightarrow> bool" where
  "log_ok b \<longleftrightarrow> (\<forall>c. \<forall>ev\<in>set (b c). 20 \<le> length ev \<and> length (event_record ev) \<le> 4096)"

lemma good_write_event:
  assumes "good_write w"
  shows "\<exists>ev. log_put w b = commit_event (fst w) ev b \<and> event_record ev = log_record (fst w) (snd w) \<and> 20 \<le> length ev"
proof -
  obtain ev where ev: "le_reserve (fst w) (LOGGER_ENTRY_SIZE + payload_len (snd w)) = Some ev" "LOGGER_ENTRY_SIZE + payload_len (snd w) \<le> length ev"
    using assms by (auto simp: good_write_def split: option.splits)
  from write_record [OF ev, of b] obtain ev' where w: "logger_kernel_write (fst w) (snd w) b = Some (0, commit_event (fst w) ev' b)"
    "take (LOGGER_ENTRY_SIZE + payload_len (snd w)) ev' = log_record (fst w) (snd w)" by blast
  from event_record_of [OF w(2)] w(1) show ?thesis by (auto simp: log_put_def)
qed

lemma find_cpu_first:
  "c < n \<Longrightarrow> \<forall>k<c. b k = [] \<Longrightarrow> b c \<noteq> [] \<Longrightarrow> ring_buffer_find_cpu n b = Some c"
  "\<forall>c<n. b c = [] \<Longrightarrow> ring_buffer_find_cpu n b = None"
  by (auto simp: ring_buffer_find_cpu_def find_Some_iff find_None_iff intro!: exI [of _ c])

interpretation lg: cpu_queues log_cells log_ok log_take log_put good_write "\<lambda>w. le_cpu (fst w)" "\<lambda>w. le_drop (fst w)"
  "\<lambda>w. read_result (log_record (fst w) (snd w))"
proof (unfold_locales, goal_cases)
  case (1 b n)
  then show ?case by (simp add: log_take_def logger_read_locked_def find_cpu_first log_cells_def)
next
  case (2 b c n r rs)
  then obtain ev evs where e: "b c = ev # evs" "r = read_result (event_record ev)" "rs = map (read_result \<circ> event_record) evs"
    by (auto simp: log_cells_def)
  have f: "ring_buffer_find_cpu n b = Some c" using 2(2,3) e(1) by (intro find_cpu_first) (auto simp: log_cells_def)
  have "ev \<in> set (b c)" using e(1) by simp
  then have l: "20 \<le> length ev" "length (event_record ev) \<le> 4096" using 2(1) by (auto simp: log_ok_def)
  then have "\<not> 4096 < min (length ev) (LOGGER_ENTRY_SIZE + entry_len ev)" unfolding event_record_def length_take by linarith
  then have "log_take n b = Some (r, b(c := evs))" using f e l
    by (simp add: log_take_def logger_read_locked_def event_record_def read_result_def Let_def del: min_less_iff_conj)
  moreover have "set evs \<subseteq> set (b c)" using e(1) by auto
  then have "log_ok (b(c := evs))" using 2(1) by (auto simp: log_ok_def)
  moreover have "log_cells (b(c := evs)) = (log_cells b)(c := rs)" using e(3) by (auto simp: log_cells_def fun_eq_iff)
  ultimately show ?case by blast
next
  case (3 b w)
  from good_write_event [OF 3(2), of b] obtain ev where e: "log_put w b = commit_event (fst w) ev b"
    "event_record ev = log_record (fst w) (snd w)" "20 \<le> length ev" by blast
  have "length (event_record ev) \<le> 4096" using payload_len_bound [of "snd w"] by (simp add: e(2) length_log_record LOGGER_ENTRY_SIZE_def)
  then show ?case using 3(1) e by (auto simp: log_ok_def commit_event_def log_cells_def fun_eq_iff drop_map dest: in_set_dropD)
qed

section \<open>Properties\<close>

text \<open>Writes that must all succeed.\<close>

fun log_writes :: "log_write list \<Rightarrow> log_buffer \<Rightarrow> log_buffer option" where
  "log_writes [] b = Some b"
| "log_writes (w # ws) b = (case logger_kernel_write (fst w) (snd w) b of Some (ret, b') \<Rightarrow> if ret = 0 then log_writes ws b' else None | None \<Rightarrow> None)"

lemma log_writes_fold: "\<forall>w\<in>set ws. good_write w \<Longrightarrow> log_writes ws b = Some (fold log_put ws b)"
proof (induction ws arbitrary: b)
  case (Cons w ws)
  obtain ev where ev: "le_reserve (fst w) (LOGGER_ENTRY_SIZE + payload_len (snd w)) = Some ev" "LOGGER_ENTRY_SIZE + payload_len (snd w) \<le> length ev"
    using Cons.prems by (auto simp: good_write_def split: option.splits)
  from write_record [OF ev, of b] Cons show ?case by (auto simp: log_put_def)
qed simp


text \<open>A reader whose buffer is too small for the next record gets \<^verbatim>\<open>-EINVAL\<close>, and the record is gone: a
  second read, with any buffer, continues behind it.\<close>

theorem small_read_loses_record:
  assumes "log_ok b" "c < ncpu" "\<forall>k<c. b k = []" "b c = ev # evs" "cnt < length (event_record ev)"
  shows "logger_read_locked ncpu cnt copy_ok b = ReadDone (- EINVAL) [] (b(c := evs))"
proof -
  have "ev \<in> set (b c)" using assms(4) by simp
  then have "20 \<le> length ev" using assms(1) by (auto simp: log_ok_def)
  then show ?thesis using find_cpu_first(1) [OF assms(2,3)] assms(4,5)
    by (simp add: logger_read_locked_def event_record_def Let_def)
qed

definition log_env_example :: "nat \<Rightarrow> log_env" where
  "log_env_example c = \<lparr>le_cpu = c, le_reserve = (\<lambda>n. Some (replicate (n + 3) (CHR ''x''))), le_drop = 0, le_tgid = 7, le_pid = 8, le_sec = 1000, le_nsec = 5\<rparr>"

definition log_iov_example :: "string \<Rightarrow> char list list" where
  "log_iov_example msg = record_iov 4 ''kernel'' msg"

lemma good_example: "good_write (log_env_example c, iov)"
  by (simp add: good_write_def log_env_example_def)


definition log_buffer_example :: log_buffer where
  "log_buffer_example = (\<lambda>c. if c = 0 then [log_record (log_env_example 0) (log_iov_example ''one'')] else [])"

theorem small_read_loses_record_witness:
  "logger_read_locked 2 10 True log_buffer_example = ReadDone (- EINVAL) [] (\<lambda>_. [])"
proof -
  let ?r = "log_record (log_env_example 0) (log_iov_example ''one'')"
  have e: "event_record ?r = ?r" "20 \<le> length ?r"
    using event_record_of [of "log_iov_example ''one''" ?r "log_env_example 0"] by (simp_all add: length_log_record)
  have l: "length ?r \<le> 4096" "10 < length (event_record ?r)"
    using payload_len_bound [of "log_iov_example ''one''"] e by (simp_all add: length_log_record LOGGER_ENTRY_SIZE_def)
  have ok: "log_ok log_buffer_example" using e l by (auto simp: log_ok_def log_buffer_example_def)
  have b: "log_buffer_example 0 = [?r]" "\<forall>k<0. log_buffer_example k = []" "(0::nat) < 2" by (simp_all add: log_buffer_example_def)
  have "log_buffer_example(0 := []) = (\<lambda>_. [])" by (auto simp: log_buffer_example_def)
  then show ?thesis using small_read_loses_record [OF ok b(3,2,1) l(2), of True] by simp
qed

section \<open>The vitals functions\<close>

lemma log_to_vitals_written:
  assumes "metrics_init sys" "vitals_logger sys = Some i" "loggers sys i = Some l" "\<forall>iov. good_write (env, iov)"
  shows "\<exists>ev. log_to_vitals env priority domain (Some text) sys
      = Some (0, sys\<lparr>loggers := (loggers sys)(i \<mapsto> l\<lparr>al_buf := commit_event env ev (al_buf l)\<rparr>)\<rparr>) \<and>
    event_record ev = log_record env (record_iov priority (log_domain domain) text)"
proof -
  let ?iov = "record_iov priority (log_domain domain) text"
  obtain e where e: "le_reserve env (LOGGER_ENTRY_SIZE + payload_len ?iov) = Some e" "LOGGER_ENTRY_SIZE + payload_len ?iov \<le> length e"
    using assms(4) by (auto simp: good_write_def split: option.splits dest: spec [of _ ?iov])
  from write_record [OF e, of "al_buf l"] obtain ev where "logger_kernel_write env ?iov (al_buf l) = Some (0, commit_event env ev (al_buf l))"
    "event_record ev = log_record env ?iov" using event_record_of by blast
  then show ?thesis using assms(1-3) by (auto simp: log_to_vitals_def write_log_def)
qed


definition log_sys_example :: amazon_log_sys where
  "log_sys_example = \<lparr>metrics_init = True, loggers = (\<lambda>_. None)(0 \<mapsto> \<lparr>al_buf = (\<lambda>_. []), al_minor = 60, al_name = ''metrics''\<rparr>,
     1 \<mapsto> \<lparr>al_buf = (\<lambda>_. []), al_minor = 61, al_name = ''vitals''\<rparr>), log_list = [0, 1], logger_next = 2, metrics_logger = Some 0,
     vitals_logger = Some 1, logger_ops = False\<rparr>"


section \<open>Loading and unloading\<close>

text \<open>After a successful start both logs can be opened by their minor numbers, and unloading frees both:
  no logger is left and none is freed twice.\<close>

theorem logger_lifecycle:
  assumes "loggers sys = (\<lambda>_. None)" "log_list sys = []" "amazon_logger_init e1 e2 sys = (0, sys1)" "cr_minor e1 \<noteq> cr_minor e2"
  shows "\<exists>l1 l2 sys2. metrics_logger sys1 = Some l1 \<and> vitals_logger sys1 = Some l2 \<and>
    amazon_logger_open (cr_minor e1) sys1 = Some (0, Some l1, sys1\<lparr>logger_ops := True\<rparr>) \<and>
    amazon_logger_open (cr_minor e2) sys1 = Some (0, Some l2, sys1\<lparr>logger_ops := True\<rparr>) \<and>
    amazon_logger_exit sys1 = Some sys2 \<and> loggers sys2 = (\<lambda>_. None) \<and> log_list sys2 = []"
  using assms
  by (auto simp: amazon_logger_init_def create_log_def amazon_logger_open_def get_log_from_minor_def amazon_logger_exit_def Let_def fun_eq_iff
      split: if_splits)

text \<open>
  When the registration of the second log fails, the freed logger stays on the list: opening a device with
  another minor number than the first log's follows it, and so does unloading.
\<close>

theorem failed_registration_dangles:
  assumes "loggers sys = (\<lambda>_. None)" "log_list sys = []" "cr_log e1" "cr_name e1" "cr_buf e1" "cr_register e1 = 0"
    "cr_log e2" "cr_name e2" "cr_buf e2" "cr_register e2 \<noteq> 0" "minor \<noteq> cr_minor e1"
  shows "fst (amazon_logger_init e1 e2 sys) = - 1 \<and> amazon_logger_open minor (snd (amazon_logger_init e1 e2 sys)) = None \<and>
    amazon_logger_exit (snd (amazon_logger_init e1 e2 sys)) = None"
  using assms
  by (simp add: amazon_logger_init_def create_log_def amazon_logger_open_def get_log_from_minor_def amazon_logger_exit_def Let_def)

definition create_env_example :: "int \<Rightarrow> create_env" where
  "create_env_example m = \<lparr>cr_log = True, cr_name = True, cr_buf = True, cr_minor = m, cr_register = 0\<rparr>"

definition no_logs :: amazon_log_sys where
  "no_logs = \<lparr>metrics_init = False, loggers = (\<lambda>_. None), log_list = [], logger_next = 0, metrics_logger = None, vitals_logger = None, logger_ops = False\<rparr>"

theorem logger_lifecycle_witness:
  "\<exists>sys1 sys2. amazon_logger_init (create_env_example 60) (create_env_example 61) no_logs = (0, sys1) \<and>
     amazon_logger_exit sys1 = Some sys2 \<and> loggers sys2 = (\<lambda>_. None)"
proof -
  obtain sys1 where i: "amazon_logger_init (create_env_example 60) (create_env_example 61) no_logs = (0, sys1)"
    by (simp add: amazon_logger_init_def create_log_def create_env_example_def no_logs_def Let_def)
  have "loggers no_logs = (\<lambda>_. None)" "log_list no_logs = []" "cr_minor (create_env_example 60) \<noteq> cr_minor (create_env_example 61)"
    by (simp_all add: no_logs_def create_env_example_def)
  from logger_lifecycle [OF this(1,2) i this(3)] i show ?thesis by blast
qed

end
