(* ===== verification/Hall_Sensor.thy ===== *)
theory Hall_Sensor
  imports Prelude
begin

text \<open>
  The hall sensor driver (\<^verbatim>\<open>drivers/input/misc/hall/bu520.c\<close>) that reports the cover of the tablet. The first
  part models its functions over the driver data; what the GPIO reads, the outcome of kernel calls and the
  device tree are arguments. The second part puts one sensor in its world: the level of the line changes,
  an edge of the kind the interrupt is set to latches the interrupt, the handler and the work run when
  they can, and the input core keeps the last reported value of the switch.
\<close>

section \<open>Data\<close>

datatype cover_status = COVER_CLOSED | COVER_OPENED

datatype edge = Edge_falling | Edge_rising

record hall_sensor_data =
  hs_gpio_pin :: int
  hs_irq :: int
  hs_name :: string
  hs_gpio_state :: int

record hall_priv =
  hp_cover :: cover_status
  hp_input :: bool
  hp_sensors :: "hall_sensor_data list"

datatype hall_event = SetIrqType int edge | PmWakeup int | QueueWork | Metrics cover_status | ReportSwitch int | InputSync
  | EnableIrqWake int | RequestIrq int

definition cover_of :: "int \<Rightarrow> cover_status" where
  "cover_of state = (if state \<noteq> 0 then COVER_OPENED else COVER_CLOSED)"

definition next_edge :: "int \<Rightarrow> edge" where
  "next_edge state = (if state \<noteq> 0 then Edge_falling else Edge_rising)"

section \<open>The functions\<close>

text \<open>The byte of \<^verbatim>\<open>hall_show\<close>: the states of the sensors, shifted and truncated to eight bits.\<close>

fun hall_bits :: "hall_sensor_data list \<Rightarrow> nat \<Rightarrow> u8 \<Rightarrow> u8" where
  "hall_bits [] i reg_val = reg_val"
| "hall_bits (s # ss) i reg_val = hall_bits ss (Suc i) (reg_val OR word_of_int (push_bit i (hs_gpio_state s)))"

definition hall_show :: "hall_priv \<Rightarrow> u8" where
  "hall_show priv = hall_bits (hp_sensors priv) 0 0"

text \<open>The work reports the first sensor; with no sensor it reads before its array. \<open>gpio\<close> is the line's value.\<close>

definition hall_work_func :: "(int \<Rightarrow> int) \<Rightarrow> hall_priv \<Rightarrow> (hall_event list \<times> hall_priv) option" where
  "hall_work_func gpio priv =
     (case hp_sensors priv of [] \<Rightarrow> None
      | s # ss \<Rightarrow>
          if \<not> hp_input priv then Some ([], priv)
          else let v = gpio (hs_gpio_pin s);
                   priv = priv\<lparr>hp_sensors := s\<lparr>hs_gpio_state := v\<rparr> # ss, hp_cover := cover_of v\<rparr>
               in Some ([Metrics (hp_cover priv), ReportSwitch (if v \<noteq> 0 then 0 else 1), InputSync], priv))"

fun isr_scan :: "(int \<Rightarrow> int) \<Rightarrow> int \<Rightarrow> hall_sensor_data list \<Rightarrow> hall_event list \<times> hall_sensor_data list" where
  "isr_scan gpio irq [] = ([], [])"
| "isr_scan gpio irq (s # ss) =
     (if irq = hs_irq s
      then let v = gpio (hs_gpio_pin s)
           in ([SetIrqType irq (next_edge v), PmWakeup 100, QueueWork], s\<lparr>hs_gpio_state := v\<rparr> # ss)
      else let (evs, ss) = isr_scan gpio irq ss in (evs, s # ss))"

definition hall_sensor_isr :: "(int \<Rightarrow> int) \<Rightarrow> int \<Rightarrow> hall_priv \<Rightarrow> hall_event list \<times> hall_priv" where
  "hall_sensor_isr gpio irq priv = (let (evs, ss) = isr_scan gpio irq (hp_sensors priv) in (evs, priv\<lparr>hp_sensors := ss\<rparr>))"

text \<open>The loop stops at the first interrupt that cannot be requested; the sensors before it keep theirs.\<close>

fun configure_loop :: "(int \<Rightarrow> int) \<Rightarrow> (int \<Rightarrow> int) \<Rightarrow> hall_sensor_data list \<Rightarrow> cover_status
    \<Rightarrow> int \<times> hall_event list \<times> hall_sensor_data list \<times> cover_status" where
  "configure_loop gpio req [] cover = (0, [], [], cover)"
| "configure_loop gpio req (s # ss) cover =
     (let v = gpio (hs_gpio_pin s); s = s\<lparr>hs_gpio_state := v\<rparr>; cover = cover_of v; irq = hs_irq s
      in if req irq < 0 then (req irq, [EnableIrqWake irq], s # ss, cover)
         else let (ret, evs, ts, cover) = configure_loop gpio req ss cover
              in (if ss = [] then req irq else ret, [EnableIrqWake irq, RequestIrq irq, SetIrqType irq (next_edge v)] @ evs, s # ts, cover))"

definition configure_irqs :: "(int \<Rightarrow> int) \<Rightarrow> (int \<Rightarrow> int) \<Rightarrow> hall_priv \<Rightarrow> int \<times> hall_event list \<times> hall_priv" where
  "configure_irqs gpio req priv =
     (let (ret, evs, ss, cover) = configure_loop gpio req (hp_sensors priv) (hp_cover priv)
      in (ret, evs, priv\<lparr>hp_sensors := ss, hp_cover := cover\<rparr>))"

definition hall_input_device_create :: "bool \<Rightarrow> int \<Rightarrow> bool" where
  "hall_input_device_create alloc_ok register_ret = (alloc_ok \<and> register_ret = 0)"

section \<open>Probe and remove\<close>

datatype hall_resource = HallData | HallPriv | HallInput | HallQueue | HallWake | HallIrq int | HallProc

record hall_env =
  he_num :: "int + int"
  he_alloc :: bool
  he_gpio_pin :: int
  he_gpio_valid :: bool
  he_name :: "nat \<Rightarrow> int + string"
  he_irq :: "nat \<Rightarrow> int"
  he_priv :: bool
  he_input :: bool
  he_queue :: bool
  he_request :: "int \<Rightarrow> int"
  he_gpio :: "int \<Rightarrow> int"

text \<open>An invalid pin returns the error the caller has at hand, which is 0.\<close>

fun parse_sensors :: "hall_env \<Rightarrow> nat \<Rightarrow> nat \<Rightarrow> int \<Rightarrow> int \<times> hall_sensor_data list option" where
  "parse_sensors env i 0 error = (error, Some [])"
| "parse_sensors env i (Suc n) error =
     (if \<not> he_gpio_valid env then (error, None)
      else case he_name env i of Inl e \<Rightarrow> (e, None)
      | Inr nm \<Rightarrow>
          if he_irq env i \<le> 0 then (- EINVAL, None)
          else let s = \<lparr>hs_gpio_pin = he_gpio_pin env, hs_irq = he_irq env i, hs_name = nm, hs_gpio_state = - 1\<rparr>
               in case parse_sensors env (Suc i) n 0 of (e, None) \<Rightarrow> (e, None) | (e, Some ss) \<Rightarrow> (e, Some (s # ss)))"

definition irqs_of :: "hall_event list \<Rightarrow> hall_resource list" where
  "irqs_of evs = map HallIrq (concat (map (\<lambda>e. case e of RequestIrq i \<Rightarrow> [i] | _ \<Rightarrow> []) evs))"

text \<open>
  \<^verbatim>\<open>hall_probe\<close> returns its status, the driver data it leaves to the device and everything it still holds.
\<close>

definition hall_probe :: "hall_env \<Rightarrow> int \<times> hall_priv option \<times> hall_resource list" where
  "hall_probe env =
     (case he_num env of Inl e \<Rightarrow> (e, None, [])
      | Inr num \<Rightarrow>
          if \<not> he_alloc env then (- ENOMEM, None, [])
          else case parse_sensors env 0 (nat num) 0 of
            (error, None) \<Rightarrow> (error, None, [])
          | (_, Some ss) \<Rightarrow>
              if \<not> he_priv env then (- ENOMEM, None, [])
              else if \<not> he_input env then (- ENOMEM, None, [])
              else let priv = \<lparr>hp_cover = COVER_CLOSED, hp_input = True, hp_sensors = ss\<rparr>
                   in if \<not> he_queue env then (0, None, [])
                      else let (error, evs, priv) = configure_irqs (he_gpio env) (he_request env) priv
                           in if error \<noteq> 0 then (error, Some priv, HallWake # irqs_of evs)
                              else (0, Some priv, [HallData, HallPriv, HallInput, HallQueue, HallWake, HallProc] @ irqs_of evs))"

text \<open>Removal releases the list it is given; without driver data it follows a NULL pointer.\<close>

definition hall_remove :: "hall_priv option \<Rightarrow> hall_resource list \<Rightarrow> hall_resource list option" where
  "hall_remove drvdata held =
     (case drvdata of None \<Rightarrow> None
      | Some priv \<Rightarrow>
          Some (filter (\<lambda>r. r \<notin> set (map (HallIrq \<circ> hs_irq) (hp_sensors priv) @ [HallQueue, HallInput, HallWake, HallData, HallPriv, HallProc])) held))"

section \<open>One sensor in its world\<close>

record hall_world =
  hw_priv :: hall_priv
  hw_level :: bool
  hw_edge :: edge
  hw_latched :: bool
  hw_isr :: "hall_event list option"
  hw_work :: bool
  hw_running :: bool
  hw_switch :: int

fun hall_effect :: "hall_event \<Rightarrow> hall_world \<Rightarrow> hall_world" where
  "hall_effect (SetIrqType _ e) w = w\<lparr>hw_edge := e\<rparr>"
| "hall_effect QueueWork w = w\<lparr>hw_work := True\<rparr>"
| "hall_effect (ReportSwitch v) w = w\<lparr>hw_switch := v\<rparr>"
| "hall_effect _ w = w"

definition line :: "hall_world \<Rightarrow> int \<Rightarrow> int" where
  "line w pin = (if hw_level w then 1 else 0)"

definition edge_to :: "bool \<Rightarrow> edge" where
  "edge_to v = (if v then Edge_rising else Edge_falling)"

text \<open>
  \<open>HIsr\<close> runs the handler at once; \<open>HIsrRead\<close> and \<open>HIsrSet\<close> are the handler cut between the reading of the
  line and its effects.
\<close>

datatype hall_action = HLevel bool | HIsr | HIsrRead | HIsrSet | HWorkStart | HWorkRun

definition isr_read :: "hall_world \<Rightarrow> hall_world" where
  "isr_read w = (let (evs, p) = hall_sensor_isr (line w) (hs_irq (hd (hp_sensors (hw_priv w)))) (hw_priv w)
     in w\<lparr>hw_priv := p, hw_latched := False, hw_isr := Some evs\<rparr>)"

definition isr_set :: "hall_event list \<Rightarrow> hall_world \<Rightarrow> hall_world" where
  "isr_set evs w = fold hall_effect evs (w\<lparr>hw_isr := None\<rparr>)"

fun hall_act :: "hall_action \<Rightarrow> hall_world \<Rightarrow> hall_world option" where
  "hall_act (HLevel v) w = Some (w\<lparr>hw_level := v, hw_latched := (hw_latched w \<or> hw_level w \<noteq> v \<and> hw_edge w = edge_to v)\<rparr>)"
| "hall_act HIsr w = (if hw_latched w \<and> hw_isr w = None then Some (let w = isr_read w in isr_set (the (hw_isr w)) w) else None)"
| "hall_act HIsrRead w = (if hw_latched w \<and> hw_isr w = None then Some (isr_read w) else None)"
| "hall_act HIsrSet w = (case hw_isr w of None \<Rightarrow> None | Some evs \<Rightarrow> Some (isr_set evs w))"
| "hall_act HWorkStart w = (if hw_work w \<and> \<not> hw_running w then Some (w\<lparr>hw_work := False, hw_running := True\<rparr>) else None)"
| "hall_act HWorkRun w =
     (if \<not> hw_running w then None
      else case hall_work_func (line w) (hw_priv w) of None \<Rightarrow> None
           | Some (evs, p) \<Rightarrow> Some (fold hall_effect evs (w\<lparr>hw_priv := p, hw_running := False\<rparr>)))"

inductive hall_steps :: "hall_world \<Rightarrow> hall_action list \<Rightarrow> hall_world \<Rightarrow> bool" where
  hall_stop: "hall_steps w [] w"
| hall_step: "hall_act a w = Some w' \<Longrightarrow> hall_steps w' acts w'' \<Longrightarrow> hall_steps w (a # acts) w''"

inductive_simps hall_steps_simps [simp]: "hall_steps w [] w'" "hall_steps w (a # acts) w'"

lemma hall_steps_append: "hall_steps w as w1 \<Longrightarrow> hall_steps w1 bs w2 \<Longrightarrow> hall_steps w (as @ bs) w2"
  by (induction rule: hall_steps.induct) auto

text \<open>The world after the interrupt of the only sensor has been set up; the input core starts with the lid open.\<close>

definition hall_start :: "hall_priv \<Rightarrow> bool \<Rightarrow> hall_world" where
  "hall_start priv v = (let w = \<lparr>hw_priv = priv, hw_level = v, hw_edge = Edge_rising, hw_latched = False, hw_isr = None,
       hw_work = False, hw_running = False, hw_switch = 0\<rparr>;
     (ret, evs, p) = configure_irqs (line w) (\<lambda>_. 0) priv in fold hall_effect evs (w\<lparr>hw_priv := p\<rparr>))"

definition lid :: "bool \<Rightarrow> int" where
  "lid level = (if level then 0 else 1)"

definition hall_idle :: "hall_world \<Rightarrow> bool" where
  "hall_idle w \<longleftrightarrow> \<not> hw_latched w \<and> hw_isr w = None \<and> \<not> hw_work w \<and> \<not> hw_running w"

definition one_sensor :: "hall_priv \<Rightarrow> bool" where
  "one_sensor priv \<longleftrightarrow> hp_input priv \<and> length (hp_sensors priv) = 1"

text \<open>The handler sets the edge that leaves the level it has read, and queues the work.\<close>

lemma isr_atomic:
  assumes "one_sensor (hw_priv w)"
  shows "\<exists>p. one_sensor p \<and> isr_set (the (hw_isr (isr_read w))) (isr_read w) =
    w\<lparr>hw_priv := p, hw_latched := False, hw_isr := None, hw_edge := edge_to (\<not> hw_level w), hw_work := True\<rparr>"
proof -
  obtain s where s: "hp_sensors (hw_priv w) = [s]" using assms by (auto simp: one_sensor_def length_Suc_conv)
  let ?p = "(hw_priv w)\<lparr>hp_sensors := [s\<lparr>hs_gpio_state := line w (hs_gpio_pin s)\<rparr>]\<rparr>"
  have "one_sensor ?p" using assms by (simp add: one_sensor_def)
  moreover have "isr_set (the (hw_isr (isr_read w))) (isr_read w) =
    w\<lparr>hw_priv := ?p, hw_latched := False, hw_isr := None, hw_edge := edge_to (\<not> hw_level w), hw_work := True\<rparr>"
    using s by (simp add: isr_read_def isr_set_def hall_sensor_isr_def next_edge_def edge_to_def line_def Let_def)
  ultimately show ?thesis by blast
qed

lemma work_effect:
  assumes "one_sensor (hw_priv w)" "hw_running w"
  shows "\<exists>p. one_sensor p \<and> hall_act HWorkRun w = Some (w\<lparr>hw_priv := p, hw_running := False, hw_switch := lid (hw_level w)\<rparr>)"
proof -
  obtain s where s: "hp_sensors (hw_priv w) = [s]" "hp_input (hw_priv w)" using assms(1) by (auto simp: one_sensor_def length_Suc_conv)
  then show ?thesis using assms(2)
    by (auto simp: hall_work_func_def line_def lid_def one_sensor_def Let_def intro!: exI [of _ "(hw_priv w)\<lparr>hp_sensors := _, hp_cover := _\<rparr>"])
qed

text \<open>With an uninterrupted handler an edge that is not latched is the one the interrupt waits for.\<close>

definition hall_inv :: "bool \<Rightarrow> bool \<Rightarrow> hall_world \<Rightarrow> bool" where
  "hall_inv v0 seen w \<longleftrightarrow> one_sensor (hw_priv w) \<and> hw_isr w = None \<and> (hw_latched w \<or> hw_edge w = edge_to (\<not> hw_level w)) \<and>
     (hw_latched w \<or> hw_work w \<or> hw_running w \<or> hw_switch w = lid (hw_level w) \<or> \<not> seen \<and> hw_level w = v0 \<and> hw_switch w = 0)"

lemma hall_start_inv: "one_sensor priv \<Longrightarrow> hall_inv v False (hall_start priv v)"
  by (auto simp: hall_start_def configure_irqs_def hall_inv_def one_sensor_def length_Suc_conv next_edge_def edge_to_def line_def Let_def)

lemma hall_act_inv:
  assumes "hall_inv v0 seen w" "hall_act a w = Some w'" "a \<noteq> HIsrRead"
  shows "hall_inv v0 (seen \<or> a = HIsr) w'"
proof (cases a)
  case (HLevel v)
  then show ?thesis using assms(1,2) by (auto simp: hall_inv_def edge_to_def split: if_splits)
next
  case HIsr
  have "one_sensor (hw_priv w)" using assms(1) by (simp add: hall_inv_def)
  then obtain p where p: "one_sensor p" "isr_set (the (hw_isr (isr_read w))) (isr_read w) =
      w\<lparr>hw_priv := p, hw_latched := False, hw_isr := None, hw_edge := edge_to (\<not> hw_level w), hw_work := True\<rparr>"
    using isr_atomic by blast
  have "w' = isr_set (the (hw_isr (isr_read w))) (isr_read w)" using HIsr assms(2) by (simp add: Let_def split: if_splits)
  then show ?thesis using p HIsr by (simp add: hall_inv_def)
next
  case HWorkStart
  then show ?thesis using assms(1,2) by (auto simp: hall_inv_def split: if_splits)
next
  case HWorkRun
  then have "hw_running w" "one_sensor (hw_priv w)" using assms(1,2) by (auto simp: hall_inv_def split: if_splits)
  from work_effect [OF this(2,1)] HWorkRun assms(1,2) show ?thesis by (auto simp: hall_inv_def)
qed (use assms in \<open>auto simp: hall_inv_def split: option.splits\<close>)

lemma hall_steps_inv:
  "hall_steps w acts w' \<Longrightarrow> hall_inv v0 seen w \<Longrightarrow> HIsrRead \<notin> set acts \<Longrightarrow> hall_inv v0 (seen \<or> HIsr \<in> set acts) w'"
proof (induction arbitrary: seen rule: hall_steps.induct)
  case (hall_step a w w' acts w'')
  have "hall_inv v0 (seen \<or> a = HIsr) w'" using hall_act_inv [OF hall_step.prems(1) hall_step.hyps(1)] hall_step.prems(2) by auto
  from hall_step.IH [OF this] hall_step.prems(2) show ?case by (simp add: disj_assoc eq_commute)
qed simp

lemma hall_settles:
  assumes "hall_inv v0 seen w"
  shows "\<exists>acts w'. length acts \<le> 4 \<and> set acts \<subseteq> {HIsr, HWorkStart, HWorkRun} \<and> hall_steps w acts w' \<and> hall_idle w' \<and> hw_level w' = hw_level w"
proof -
  have one: "one_sensor (hw_priv w)" "hw_isr w = None" using assms by (simp_all add: hall_inv_def)
  have run: "\<exists>w'. hall_act HWorkRun u = Some w' \<and> one_sensor (hw_priv w') \<and> \<not> hw_running w' \<and> hw_latched w' = hw_latched u \<and> hw_isr w' = hw_isr u \<and>
      hw_work w' = hw_work u \<and> hw_level w' = hw_level u" if "one_sensor (hw_priv u)" "hw_running u" for u
    using work_effect [OF that] by (auto simp del: hall_act.simps)
  obtain a1 w1 where w1: "length a1 \<le> 1" "set a1 \<subseteq> {HIsr}" "hall_steps w a1 w1" "\<not> hw_latched w1" "hw_isr w1 = None" "one_sensor (hw_priv w1)" "hw_level w1 = hw_level w"
  proof (cases "hw_latched w")
    case True
    obtain p where p: "one_sensor p" "isr_set (the (hw_isr (isr_read w))) (isr_read w) =
        w\<lparr>hw_priv := p, hw_latched := False, hw_isr := None, hw_edge := edge_to (\<not> hw_level w), hw_work := True\<rparr>"
      using isr_atomic [OF one(1)] by blast
    show thesis by (rule that [of "[HIsr]" "isr_set (the (hw_isr (isr_read w))) (isr_read w)"]) (use True one p in \<open>auto simp: Let_def\<close>)
  next
    case False
    show thesis by (rule that [of "[]" w]) (use False one in auto)
  qed
  obtain a2 w2 where w2: "length a2 \<le> 1" "set a2 \<subseteq> {HWorkRun}" "hall_steps w1 a2 w2" "\<not> hw_latched w2" "hw_isr w2 = None" "one_sensor (hw_priv w2)"
    "\<not> hw_running w2" "hw_level w2 = hw_level w"
  proof (cases "hw_running w1")
    case True
    from run [OF w1(6) this] obtain w2 where "hall_act HWorkRun w1 = Some w2" "one_sensor (hw_priv w2)" "\<not> hw_running w2" "hw_latched w2 = hw_latched w1"
      "hw_isr w2 = hw_isr w1" "hw_level w2 = hw_level w1" by blast
    then show thesis using w1 by (intro that [of "[HWorkRun]" w2]) auto
  next
    case False
    show thesis by (rule that [of "[]" w1]) (use False w1 in auto)
  qed
  obtain a3 w3 where w3: "length a3 \<le> 2" "set a3 \<subseteq> {HWorkStart, HWorkRun}" "hall_steps w2 a3 w3" "hall_idle w3" "hw_level w3 = hw_level w"
  proof (cases "hw_work w2")
    case True
    let ?u = "w2\<lparr>hw_work := False, hw_running := True\<rparr>"
    obtain w3 where "hall_act HWorkRun ?u = Some w3" "\<not> hw_running w3" "hw_latched w3 = hw_latched ?u" "hw_isr w3 = hw_isr ?u" "hw_work w3 = hw_work ?u"
      "hw_level w3 = hw_level ?u" using run [of ?u] w2(6) by auto
    then show thesis using w2 True by (intro that [of "[HWorkStart, HWorkRun]" w3]) (auto simp: hall_idle_def)
  next
    case False
    show thesis by (rule that [of "[]" w2]) (use False w2 in \<open>auto simp: hall_idle_def\<close>)
  qed
  have "hall_steps w (a1 @ a2 @ a3) w3" using w1(3) w2(3) w3(3) by (metis hall_steps_append)
  then show ?thesis using w1(1,2) w2(1,2) w3 by (intro exI [of _ "a1 @ a2 @ a3"] exI [of _ w3]) auto
qed

section \<open>Properties\<close>


text \<open>A change of the line between the reading of the line and the setting of the edge is lost: the
  driver comes to rest waiting for the wrong edge, and closing the cover then goes unnoticed.\<close>

theorem overtaken_handler_misses_edge:
  assumes "one_sensor priv"
  shows "\<exists>w. hall_steps (hall_start priv True) [HLevel False, HIsrRead, HLevel True, HIsrSet, HWorkStart, HWorkRun, HLevel False] w \<and>
    hall_idle w \<and> hw_switch w = lid True \<and> \<not> hw_level w"
proof -
  obtain s where s: "hp_sensors priv = [s]" "hp_input priv" using assms by (auto simp: one_sensor_def length_Suc_conv)
  then show ?thesis
    by (simp add: hall_start_def configure_irqs_def hall_sensor_isr_def isr_read_def isr_set_def hall_work_func_def line_def edge_to_def
        next_edge_def hall_idle_def lid_def Let_def)
qed

text \<open>The byte of the proc file holds one bit per sensor.\<close>

lemma bit_hall_bits:
  "\<forall>s\<in>set ss. hs_gpio_state s \<in> {0, 1} \<Longrightarrow> i + length ss \<le> 8 \<Longrightarrow> k < 8 \<Longrightarrow>
    bit (hall_bits ss i r) k \<longleftrightarrow> bit r k \<or> (i \<le> k \<and> k < i + length ss \<and> hs_gpio_state (ss ! (k - i)) = 1)"
proof (induction ss arbitrary: i r)
  case (Cons s ss)
  have "bit (word_of_int (push_bit i (hs_gpio_state s)) :: u8) k \<longleftrightarrow> k = i \<and> hs_gpio_state s = 1"
    using Cons.prems by (auto simp: bit_simps)
  then show ?case using Cons.IH [of "Suc i" "r OR word_of_int (push_bit i (hs_gpio_state s))"] Cons.prems
    by (auto simp: bit_or_iff nth_Cons' Suc_le_eq not_less_eq_eq dest: le_neq_implies_less)
qed (auto simp: bit_or_iff)

lemma parse_keeps_error: "parse_sensors env i n 0 = (e, r) \<Longrightarrow> r = None \<or> e = 0"
  by (induction n arbitrary: i e r) (auto split: if_splits sum.splits prod.splits option.splits)

text \<open>
  Two failures of probing are reported as success with nothing behind it: an invalid pin and a work queue
  that cannot be created. Removing the device then follows a NULL pointer.
\<close>

theorem probe_failures_reported_as_success:
  assumes "he_num env = Inr n" "0 < n" "he_alloc env"
    "\<not> he_gpio_valid env \<or> (\<exists>e ss. parse_sensors env 0 (nat n) 0 = (e, Some ss)) \<and> he_priv env \<and> he_input env \<and> \<not> he_queue env"
  shows "fst (hall_probe env) = 0 \<and> hall_remove (fst (snd (hall_probe env))) held = None"
proof (cases "he_gpio_valid env")
  case True
  then obtain e ss where "parse_sensors env 0 (nat n) 0 = (e, Some ss)" using assms(4) by blast
  then show ?thesis using assms True by (auto simp: hall_probe_def hall_remove_def)
next
  case False
  obtain k where "nat n = Suc k" using assms(2) by (cases "nat n") auto
  then show ?thesis using assms False by (simp add: hall_probe_def hall_remove_def)
qed

lemma configure_loop_irqs:
  "configure_loop gpio req ss c = (0, evs, ss', c') \<Longrightarrow> irqs_of evs = map (HallIrq \<circ> hs_irq) ss \<and> map hs_irq ss' = map hs_irq ss"
proof (induction ss arbitrary: c evs ss' c')
  case (Cons s ss)
  show ?case
  proof (cases "req (hs_irq s) < 0")
    case True
    then show ?thesis using Cons.prems by (auto simp: Let_def)
  next
    case False
    obtain r e t k where l: "configure_loop gpio req ss (cover_of (gpio (hs_gpio_pin s))) = (r, e, t, k)" by (metis prod_cases4)
    show ?thesis
    proof (cases "ss = []")
      case True
      then show ?thesis using Cons.prems False l by (auto simp: Let_def irqs_of_def)
    next
      case ne: False
      then have "r = 0" using Cons.prems False l by (auto simp: Let_def)
      with Cons.IH [OF l [unfolded this]] Cons.prems False l ne show ?thesis by (auto simp: Let_def irqs_of_def)
    qed
  qed
qed (simp add: irqs_of_def)

text \<open>A probe that succeeds with driver data holds the data of the sensors, the input device, the work
  queue, the wake source, the proc file and one interrupt per sensor, and removal gives all of it back.\<close>

theorem hall_remove_releases_all:
  assumes "hall_probe env = (0, Some priv, held)"
  shows "map HallIrq (map hs_irq (hp_sensors priv)) = drop 6 held \<and> hall_remove (Some priv) held = Some []"
proof -
  obtain n e ss where h: "he_num env = Inr n" "parse_sensors env 0 (nat n) 0 = (e, Some ss)"
    using assms by (auto simp: hall_probe_def split: sum.splits if_splits prod.splits option.splits)
  obtain evs p where c: "configure_irqs (he_gpio env) (he_request env) \<lparr>hp_cover = COVER_CLOSED, hp_input = True, hp_sensors = ss\<rparr> = (0, evs, p)"
    "priv = p" "held = [HallData, HallPriv, HallInput, HallQueue, HallWake, HallProc] @ irqs_of evs"
    using assms h by (auto simp: hall_probe_def Let_def ENOMEM_def split: if_splits prod.splits)
  obtain ss' cv where l: "configure_loop (he_gpio env) (he_request env) ss COVER_CLOSED = (0, evs, ss', cv)" "hp_sensors p = ss'"
    using c(1) by (auto simp: configure_irqs_def split: prod.splits)
  from configure_loop_irqs [OF l(1)] have i: "irqs_of evs = map HallIrq (map hs_irq ss')" by simp
  then show ?thesis using c(2,3) l(2) by (auto simp: hall_remove_def filter_empty_conv)
qed

section \<open>Witnesses\<close>

definition hall_priv_example :: hall_priv where
  "hall_priv_example = \<lparr>hp_cover = COVER_CLOSED, hp_input = True, hp_sensors = [\<lparr>hs_gpio_pin = 4, hs_irq = 77, hs_name = ''hall'', hs_gpio_state = - 1\<rparr>]\<rparr>"

lemma one_sensor_example: "one_sensor hall_priv_example"
  by (simp add: one_sensor_def hall_priv_example_def)


theorem overtaken_handler_misses_edge_witness:
  "\<exists>w. hall_steps (hall_start hall_priv_example True) [HLevel False, HIsrRead, HLevel True, HIsrSet, HWorkStart, HWorkRun, HLevel False] w \<and>
    hall_idle w \<and> hw_switch w = 0 \<and> \<not> hw_level w"
  using overtaken_handler_misses_edge [OF one_sensor_example] by (simp add: lid_def)

definition hall_env_example :: hall_env where
  "hall_env_example = \<lparr>he_num = Inr 1, he_alloc = True, he_gpio_pin = 4, he_gpio_valid = True, he_name = (\<lambda>_. Inr ''hall''), he_irq = (\<lambda>_. 77), he_priv = True,
     he_input = True, he_queue = True, he_request = (\<lambda>_. 0), he_gpio = (\<lambda>_. 1)\<rparr>"

theorem hall_remove_releases_all_witness:
  "\<exists>priv held. hall_probe hall_env_example = (0, Some priv, held) \<and> hall_remove (Some priv) held = Some [] \<and> drop 6 held = [HallIrq 77]"
proof -
  obtain priv held where p: "hall_probe hall_env_example = (0, Some priv, held)" "map hs_irq (hp_sensors priv) = [77]"
    by (simp add: hall_probe_def hall_env_example_def configure_irqs_def Let_def)
  from hall_remove_releases_all [OF p(1)] p show ?thesis by auto
qed

end
