(* ===== verification/Kstrtox.thy ===== *)
theory Kstrtox
  imports Prelude
begin

text \<open>
  The kernel's number parser as the drivers use it (\<^verbatim>\<open>lib/kstrtox.c\<close>): \<^verbatim>\<open>_parse_integer_fixup_radix\<close>,
  \<^verbatim>\<open>_parse_integer\<close>, \<^verbatim>\<open>_kstrtoull\<close>, \<^verbatim>\<open>kstrtoull\<close> and \<^verbatim>\<open>kstrtouint\<close>, with \<^verbatim>\<open>strlcpy\<close> of \<^verbatim>\<open>lib/string.c\<close>. Memory that a
  pointer can reach is a list of bytes; a C string is the bytes before the first zero, and a string that
  does not end in the memory it lies in is \<open>None\<close>. A parser's argument is the C string without its zero: reading
  at the end of the list reads that zero. Results are 64-bit words with the overflow bit of the counter as
  the code keeps them; \<open>parse_number\<close> is the same conversion on unbounded numbers.
\<close>

type_synonym byte = "8 word"
type_synonym u64 = "64 word"

definition ERANGE :: int where "ERANGE = 34"

section \<open>C strings\<close>

definition c_string :: "byte list \<Rightarrow> byte list option" where
  "c_string m = (if 0 \<in> set m then Some (takeWhile (\<lambda>b. b \<noteq> 0) m) else None)"

text \<open>The copy into a buffer of \<open>length dest\<close> bytes: a write past its end is \<open>None\<close>.\<close>

definition strlcpy :: "byte list \<Rightarrow> byte list \<Rightarrow> nat \<Rightarrow> (nat \<times> byte list) option" where
  "strlcpy dest src n =
     (case c_string src of None \<Rightarrow> None
      | Some s \<Rightarrow>
          let ret = length s
          in if n = 0 then Some (ret, dest)
             else let len = (if n \<le> ret then n - 1 else ret)
                  in if length dest \<le> len then None
                     else Some (ret, take len s @ [0] @ drop (Suc len) dest))"

lemma c_string_zero: "0 \<notin> set s \<Longrightarrow> c_string (s @ 0 # m) = Some s"
  by (auto simp: c_string_def takeWhile_append)

lemma c_string_no_zero: "c_string m = Some s \<Longrightarrow> 0 \<notin> set s"
  by (auto simp: c_string_def split: if_splits dest: set_takeWhileD)

lemma strlcpy_string:
  assumes "c_string src = Some s" "0 < n" "n \<le> length dest" "strlcpy dest src n = Some (r, d)"
  shows "c_string d = Some (take (n - 1) s)" and "length d = length dest"
proof -
  have len: "(if n \<le> length s then n - 1 else length s) = min (n - 1) (length s)" using assms(2) by simp
  have d: "d = take (min (n - 1) (length s)) s @ 0 # drop (Suc (min (n - 1) (length s))) dest"
    using assms by (auto simp: strlcpy_def Let_def len split: if_splits)
  have "take (min (n - 1) (length s)) s = take (n - 1) s" by (simp add: min_def)
  moreover have "0 \<notin> set (take (n - 1) s)" using c_string_no_zero [OF assms(1)] by (meson in_set_takeD)
  ultimately show "c_string d = Some (take (n - 1) s)" using d by (simp add: c_string_zero)
  show "length d = length dest" using d assms(2,3) by simp
qed

lemma strlcpy_fits:
  "c_string src = Some s \<Longrightarrow> n \<le> length dest \<Longrightarrow> strlcpy dest src n \<noteq> None"
  by (auto simp: strlcpy_def Let_def)

section \<open>The parser\<close>

text \<open>The letters and digits by their codes: 48 is \<^verbatim>\<open>'0'\<close>, 97 is \<^verbatim>\<open>'a'\<close>, 102 is \<^verbatim>\<open>'f'\<close>, 120 is \<^verbatim>\<open>'x'\<close>, 43 is \<^verbatim>\<open>'+'\<close>, 10 ends a line.\<close>

definition c_at :: "byte list \<Rightarrow> nat \<Rightarrow> byte" where
  "c_at s i = (if i < length s then s ! i else 0)"

definition c_tolower :: "byte \<Rightarrow> byte" where
  "c_tolower c = c OR 0x20"

definition digit_val :: "byte \<Rightarrow> nat option" where
  "digit_val c =
     (let lc = c_tolower c
      in if 48 \<le> c \<and> c \<le> 57 then Some (unat c - 48)
         else if 97 \<le> lc \<and> lc \<le> 102 then Some (unat lc - 97 + 10)
         else None)"

definition parse_integer_fixup_radix :: "byte list \<Rightarrow> nat \<Rightarrow> byte list \<times> nat" where
  "parse_integer_fixup_radix s base =
     (let base = (if base = 0
                  then if c_at s 0 = 48
                       then if c_tolower (c_at s 1) = 120 \<and> digit_val (c_at s 2) \<noteq> None then 16 else 8
                       else 10
                  else base)
      in if base = 16 \<and> c_at s 0 = 48 \<and> c_tolower (c_at s 1) = 120 then (drop 2 s, base) else (s, base))"

definition KSTRTOX_OVERFLOW :: u32 where "KSTRTOX_OVERFLOW = push_bit 31 1"

fun parse_integer_loop :: "byte list \<Rightarrow> nat \<Rightarrow> u64 \<Rightarrow> u32 \<Rightarrow> u32 \<times> u64" where
  "parse_integer_loop [] base res rv = (rv, res)"
| "parse_integer_loop (c # s) base res rv =
     (case digit_val c of None \<Rightarrow> (rv, res)
      | Some val \<Rightarrow>
          if base \<le> val then (rv, res)
          else let rv = (if res AND push_bit 60 (NOT 0) \<noteq> 0 \<and> (NOT 0 - of_nat val) div of_nat base < res
                         then rv OR KSTRTOX_OVERFLOW else rv)
               in parse_integer_loop s base (res * of_nat base + of_nat val) (rv + 1))"

definition parse_integer :: "byte list \<Rightarrow> nat \<Rightarrow> u32 \<times> u64" where
  "parse_integer s base = parse_integer_loop s base 0 0"

definition kstrtoull_raw :: "byte list \<Rightarrow> nat \<Rightarrow> int + u64" where
  "kstrtoull_raw s base =
     (let (s, base) = parse_integer_fixup_radix s base; (rv, res) = parse_integer s base
      in if rv AND KSTRTOX_OVERFLOW \<noteq> 0 then Inl (- ERANGE)
         else if rv = 0 then Inl (- EINVAL)
         else let s = drop (unat rv) s;
                  s = (if c_at s 0 = 10 then drop 1 s else s)
              in if c_at s 0 \<noteq> 0 then Inl (- EINVAL) else Inr res)"

definition kstrtoull :: "byte list \<Rightarrow> nat \<Rightarrow> int + u64" where
  "kstrtoull s base = kstrtoull_raw (if c_at s 0 = 43 then drop 1 s else s) base"

definition kstrtouint :: "byte list \<Rightarrow> nat \<Rightarrow> int + u32" where
  "kstrtouint s base =
     (case kstrtoull s base of Inl e \<Rightarrow> Inl e
      | Inr tmp \<Rightarrow> if tmp \<noteq> ucast (ucast tmp :: u32) then Inl (- ERANGE) else Inr (ucast tmp))"

section \<open>The conversion on unbounded numbers\<close>

definition is_digit :: "nat \<Rightarrow> byte \<Rightarrow> bool" where
  "is_digit base c = (case digit_val c of None \<Rightarrow> False | Some v \<Rightarrow> v < base)"

definition digits_value :: "nat \<Rightarrow> byte list \<Rightarrow> nat" where
  "digits_value base ds = foldl (\<lambda>a c. a * base + the (digit_val c)) 0 ds"

definition strip_prefix :: "byte list \<Rightarrow> byte list" where
  "strip_prefix s = (case s of c # x # t \<Rightarrow> if c = 48 \<and> c_tolower x = 120 then t else s | _ \<Rightarrow> s)"

definition strip_plus :: "byte list \<Rightarrow> byte list" where
  "strip_plus s = (case s of c # t \<Rightarrow> if c = 43 then t else s | [] \<Rightarrow> s)"

definition parse_number :: "byte list \<Rightarrow> int + nat" where
  "parse_number s =
     (let s = strip_prefix (strip_plus s); ds = takeWhile (is_digit 16) s; rest = dropWhile (is_digit 16) s
      in if 2 ^ 64 \<le> digits_value 16 ds then Inl (- ERANGE)
         else if ds = [] then Inl (- EINVAL)
         else if rest = [] \<or> rest = [10] then Inr (digits_value 16 ds)
         else Inl (- EINVAL))"

lemma overflow_bit: "rv AND KSTRTOX_OVERFLOW \<noteq> 0 \<longleftrightarrow> 2 ^ 31 \<le> unat rv"
proof -
  have "rv AND KSTRTOX_OVERFLOW \<noteq> 0 \<longleftrightarrow> bit rv 31"
    by (simp add: KSTRTOX_OVERFLOW_def push_bit_eq_mult bit_iff_and_push_bit_not_eq_0)
  also have "\<dots> \<longleftrightarrow> odd (unat rv div 2 ^ 31)"
  proof -
    have "bit rv 31 = bit (unat rv) 31" by (simp add: bit_unsigned_iff)
    then show ?thesis by (simp only: bit_iff_odd)
  qed
  also have "\<dots> \<longleftrightarrow> 2 ^ 31 \<le> unat rv"
  proof -
    have "unat rv < 2 ^ 32" using unsigned_less [of rv, where 'a = nat] by simp
    then have "unat rv div 2 ^ 31 < 2" by simp
    then show ?thesis by (cases "unat rv div 2 ^ 31") (auto simp: div_eq_0_iff less_Suc_eq)
  qed
  finally show ?thesis .
qed

lemma high_bits: "(w::u64) AND push_bit 60 (NOT 0) \<noteq> 0 \<longleftrightarrow> 2 ^ 60 \<le> unat w"
proof -
  have "w AND push_bit 60 (NOT 0) = 0 \<longleftrightarrow> take_bit 60 w = w"
  proof
    assume a: "w AND push_bit 60 (NOT 0) = 0"
    have "w = w AND (mask 60 OR NOT (mask 60))" by simp
    also have "\<dots> = w AND mask 60" using a by (simp only: bit.conj_disj_distrib push_bit_minus_one_eq_not_mask bit.compl_zero or.right_neutral)
    finally show "take_bit 60 w = w" by (simp add: take_bit_eq_mask)
  next
    assume "take_bit 60 w = w"
    then have "w AND NOT (mask 60) = take_bit 60 w AND NOT (mask 60)" by simp
    also have "\<dots> = 0" by (simp only: take_bit_eq_mask and.assoc bit.conj_cancel_right bit.conj_zero_right)
    finally show "w AND push_bit 60 (NOT 0) = 0" by (simp only: push_bit_minus_one_eq_not_mask bit.compl_zero)
  qed
  also have "\<dots> \<longleftrightarrow> unat w < 2 ^ 60"
    by (simp only: word_unat_eq_iff unsigned_take_bit_eq take_bit_nat_eq_self_iff)
  finally show ?thesis by (simp only: not_le [symmetric] not_not)
qed

lemma overflow_test:
  assumes "V < 2 ^ 64" "v < 16"
  shows "of_nat V AND push_bit 60 (NOT 0) \<noteq> (0::u64) \<and> (NOT 0 - of_nat v) div of_nat 16 < (of_nat V :: u64)
         \<longleftrightarrow> 2 ^ 64 \<le> V * 16 + v"
proof -
  have u: "unat (of_nat V :: u64) = V" using assms by (simp add: unat_of_nat)
  have m: "unat (NOT 0 - of_nat v :: u64) = 2 ^ 64 - 1 - v" using assms by (simp add: unat_sub_if' unat_of_nat unsigned_minus_1_eq_mask mask_eq_exp_minus_1)
  have "(NOT 0 - of_nat v) div of_nat 16 < (of_nat V :: u64) \<longleftrightarrow> (2 ^ 64 - 1 - v) div 16 < V"
    unfolding word_less_nat_alt unat_div u m by simp
  then show ?thesis unfolding high_bits u using assms by auto
qed


lemma digits_value_Nil [simp]: "digits_value b [] = 0"
  by (simp add: digits_value_def)

abbreviation (input) digits_from :: "nat \<Rightarrow> byte list \<Rightarrow> nat" where
  "digits_from V ds \<equiv> foldl (\<lambda>a c. a * 16 + the (digit_val c)) V ds"

lemma digits_grow: "V \<le> digits_from V ds"
proof (induction ds arbitrary: V)
  case (Cons d ds)
  have "V \<le> V * 16 + the (digit_val d)" by simp
  also have "\<dots> \<le> digits_from (V * 16 + the (digit_val d)) ds" by (rule Cons.IH)
  finally show ?case by simp
qed simp

lemma digit_val_less: "digit_val c = Some v \<Longrightarrow> v < 16"
proof -
  assume a: "digit_val c = Some v"
  show "v < 16"
  proof (cases "48 \<le> c \<and> c \<le> 57")
    case True
    then show ?thesis using a by (auto simp: digit_val_def Let_def word_le_nat_alt)
  next
    case False
    then show ?thesis using a by (auto simp: digit_val_def Let_def word_le_nat_alt split: if_splits)
  qed
qed

lemma loop_step:
  assumes "digit_val c = Some v" "V < 2 ^ 64"
  shows "parse_integer_loop (c # s) 16 (of_nat V) rv =
     parse_integer_loop s 16 (of_nat (V * 16 + v)) ((if 2 ^ 64 \<le> V * 16 + v then rv OR KSTRTOX_OVERFLOW else rv) + 1)"
  using overflow_test [OF assms(2) digit_val_less [OF assms(1)]] digit_val_less [OF assms(1)] assms(1)
  by (simp only: parse_integer_loop.simps option.case Let_def not_le [symmetric]) simp

lemma loop_exact:
  "digits_from V (takeWhile (is_digit 16) s) < 2 ^ 64 \<Longrightarrow>
   parse_integer_loop s 16 (of_nat V) rv =
     (rv + of_nat (length (takeWhile (is_digit 16) s)), of_nat (digits_from V (takeWhile (is_digit 16) s)))"
proof (induction s arbitrary: V rv)
  case (Cons c s)
  show ?case
  proof (cases "digit_val c")
    case (Some v)
    then have d: "is_digit 16 c" by (simp add: is_digit_def digit_val_less)
    have le: "V * 16 + v < 2 ^ 64" using Cons.prems d Some digits_grow [of "V * 16 + v" "takeWhile (is_digit 16) s"] by simp
    then show ?thesis
      using loop_step [OF Some, of V s rv] Cons.IH [of "V * 16 + v" "rv + 1"] Cons.prems d Some by (simp add: add.assoc)
  qed (simp add: is_digit_def)
qed simp

lemma unat_succ: "unat rv + n < 2 ^ 32 \<Longrightarrow> 0 < n \<Longrightarrow> unat ((rv::u32) + 1) = unat rv + 1"
  by (simp add: unat_add_lem [THEN iffD1])

lemma overflow_absorbed: "2 ^ 31 \<le> unat rv \<Longrightarrow> rv OR KSTRTOX_OVERFLOW = rv"
proof (rule bit_word_eqI)
  fix n assume n: "n < LENGTH(32)" and "2 ^ 31 \<le> unat rv"
  then have "bit rv 31"
    using overflow_bit [of rv] by (simp add: KSTRTOX_OVERFLOW_def bit_iff_and_push_bit_not_eq_0)
  moreover have "bit KSTRTOX_OVERFLOW n \<longleftrightarrow> n = 31"
    unfolding KSTRTOX_OVERFLOW_def bit_push_bit_iff bit_1_iff using n by auto
  ultimately show "bit (rv OR KSTRTOX_OVERFLOW) n = bit rv n" by (auto simp: bit_or_iff)
qed

lemma overflow_set: "unat rv < 2 ^ 31 \<Longrightarrow> unat (rv OR KSTRTOX_OVERFLOW) = unat rv + 2 ^ 31"
proof -
  assume lt: "unat rv < 2 ^ 31"
  then have "rv AND KSTRTOX_OVERFLOW = 0" using overflow_bit [of rv] by auto
  then have "rv OR KSTRTOX_OVERFLOW = rv + KSTRTOX_OVERFLOW" using word_plus_and_or [of rv KSTRTOX_OVERFLOW] by simp
  then show ?thesis using lt by (simp add: KSTRTOX_OVERFLOW_def unat_add_lem [THEN iffD1])
qed

lemma loop_sticky: "2 ^ 31 \<le> unat rv \<Longrightarrow> unat rv + length s < 2 ^ 32 \<Longrightarrow> 2 ^ 31 \<le> unat (fst (parse_integer_loop s b res rv))"
proof (induction s arbitrary: res rv)
  case (Cons c s)
  have inc: "unat (rv + 1) = unat rv + 1" using Cons.prems(2) by (intro unat_succ [of _ "length (c # s)"]) auto
  show ?case using Cons.IH [of "rv + 1"] Cons.prems overflow_absorbed [OF Cons.prems(1)] inc
    by (auto simp: Let_def split: option.split)
qed simp

lemma loop_overflow:
  "V < 2 ^ 64 \<Longrightarrow> 2 ^ 64 \<le> digits_from V (takeWhile (is_digit 16) s) \<Longrightarrow> unat rv + length s < 2 ^ 31 \<Longrightarrow>
   2 ^ 31 \<le> unat (fst (parse_integer_loop s 16 (of_nat V) rv))"
proof (induction s arbitrary: V rv)
  case (Cons c s)
  then obtain v where v: "digit_val c = Some v" by (cases "digit_val c") (auto simp: is_digit_def)
  then have d: "is_digit 16 c" by (simp add: is_digit_def digit_val_less)
  note step = loop_step [OF v Cons.prems(1), of s rv]
  show ?case
  proof (cases "2 ^ 64 \<le> V * 16 + v")
    case True
    let ?rv = "rv OR KSTRTOX_OVERFLOW"
    have ov: "unat ?rv = unat rv + 2 ^ 31" using Cons.prems(3) by (intro overflow_set) simp
    then have "unat (?rv + 1) = unat ?rv + 1" using Cons.prems(3) by (intro unat_succ [of _ "length (c # s)"]) auto
    then show ?thesis using step True ov loop_sticky [of "?rv + 1" s 16] Cons.prems(3) by simp
  next
    case False
    have inc: "unat (rv + 1) = unat rv + 1" using Cons.prems(3) by (intro unat_succ [of _ "length (c # s)"]) auto
    show ?thesis using step False Cons.IH [of "V * 16 + v" "rv + 1"] Cons.prems d v inc by simp
  qed
qed simp


lemmas parse_defs = parse_number_def strip_plus_def strip_prefix_def is_digit_def digit_val_def c_tolower_def digits_value_def Let_def

section \<open>The parser is the conversion\<close>

lemma fixup_16: "parse_integer_fixup_radix s 16 = (strip_prefix s, 16)"
  by (cases s; cases "tl s") (auto simp: parse_integer_fixup_radix_def strip_prefix_def c_at_def c_tolower_def)

lemma rest_is_end: "0 \<notin> set r \<Longrightarrow> (c_at (if c_at r 0 = 10 then drop 1 r else r) 0 \<noteq> 0) \<longleftrightarrow> \<not> (r = [] \<or> r = [10])"
  by (cases r; cases "tl r") (auto simp: c_at_def)

lemma kstrtoull_raw_exact:
  assumes z: "0 \<notin> set s" and len: "length s < 2 ^ 31"
  shows "kstrtoull_raw s 16 =
     (let s = strip_prefix s; ds = takeWhile (is_digit 16) s; rest = dropWhile (is_digit 16) s
      in if 2 ^ 64 \<le> digits_value 16 ds then Inl (- ERANGE)
         else if ds = [] then Inl (- EINVAL)
         else if rest = [] \<or> rest = [10] then Inr (of_nat (digits_value 16 ds))
         else Inl (- EINVAL))"
proof -
  let ?t = "strip_prefix s" let ?ds = "takeWhile (is_digit 16) ?t" let ?r = "dropWhile (is_digit 16) ?t"
  have t: "length ?t \<le> length s" "0 \<notin> set ?t"
    using z by (auto simp: strip_prefix_def split: list.splits)
  show ?thesis
  proof (cases "2 ^ 64 \<le> digits_value 16 ?ds")
    case True
    then have "2 ^ 31 \<le> unat (fst (parse_integer ?t 16))"
      using loop_overflow [of 0 ?t 0] t len by (simp add: parse_integer_def digits_value_def)
    then show ?thesis using True by (simp add: kstrtoull_raw_def fixup_16 case_prod_beta overflow_bit Let_def)
  next
    case False
    then have p: "parse_integer ?t 16 = (of_nat (length ?ds), of_nat (digits_value 16 ?ds))"
      using loop_exact [of 0 ?t 0] by (simp add: parse_integer_def digits_value_def)
    have l: "length ?ds < 2 ^ 31" using t len length_takeWhile_le [of "is_digit 16" ?t] by linarith
    then have u: "unat (of_nat (length ?ds) :: u32) = length ?ds" by (simp add: unat_of_nat)
    have no: "\<not> (of_nat (length ?ds) :: u32) AND KSTRTOX_OVERFLOW \<noteq> 0" using l unfolding overflow_bit u by simp
    have zero: "(of_nat (length ?ds) :: u32) = 0 \<longleftrightarrow> ?ds = []" using u by (metis length_0_conv unat_eq_zero of_nat_0)
    have rest: "drop (length ?ds) ?t = ?r" by (simp add: dropWhile_eq_drop)
    have "0 \<notin> set ?r" using t(2) by (meson set_dropWhileD)
    note fin = rest_is_end [OF this]
    show ?thesis
      unfolding kstrtoull_raw_def fixup_16 Let_def prod.case p u rest zero fin if_not_P [OF no] if_not_P [OF False]
      by (cases "?ds = []"; simp only: if_True if_False simp_thms not_not split: if_split; blast)
  qed
qed

lemma kstrtoull_conv:
  "0 \<notin> set s \<Longrightarrow> length s < 2 ^ 31 \<Longrightarrow> kstrtoull s 16 = map_sum id of_nat (parse_number s)"
proof -
  assume z: "0 \<notin> set s" and len: "length s < 2 ^ 31"
  have plus: "(if c_at s 0 = 43 then drop 1 s else s) = strip_plus s"
    by (cases s) (auto simp: c_at_def strip_plus_def)
  have "0 \<notin> set (strip_plus s)" "length (strip_plus s) < 2 ^ 31"
    using z len by (auto simp: strip_plus_def split: list.splits)
  then show ?thesis unfolding kstrtoull_def plus by (simp add: kstrtoull_raw_exact parse_number_def Let_def)
qed



end
