(* ===== verification/Idme.thy ===== *)
theory Idme
  imports Kstrtox
begin

text \<open>
  The driver for the manufacturing data of the board (\<^verbatim>\<open>drivers/misc/idme.c\<close>). The boot loader puts one node
  per field below \<^verbatim>\<open>/idme\<close> of the device tree, with the field's bytes in the property \<^verbatim>\<open>value\<close> and a file
  mode in \<^verbatim>\<open>permission\<close>; the driver makes them files of \<^verbatim>\<open>/proc/idme\<close> and decodes some for other drivers. A
  node is its name and the bytes of the two properties. Reads of a missing property (a NULL pointer) and
  past the bytes of a value, and writes past a buffer, are \<open>None\<close>. \<open>gbuffer\<close> is the static buffer of the
  driver, passed and returned.
\<close>

section \<open>The device tree and the proc files\<close>

record dt_node =
  dn_name :: string
  dn_value :: "byte list option"
  dn_permission :: "byte list option"

record proc_entry =
  pe_name :: string
  pe_mode :: u16
  pe_uid :: nat
  pe_data :: "byte list"

text \<open>\<open>of_find_node_by_path\<close> below \<^verbatim>\<open>/idme\<close>; \<open>None\<close> also when that node itself is missing.\<close>

definition find_node :: "dt_node list option \<Rightarrow> string \<Rightarrow> dt_node option" where
  "find_node root nm = (case root of None \<Rightarrow> None | Some children \<Rightarrow> find (\<lambda>n. dn_name n = nm) children)"

definition of_property_read_u32 :: "byte list option \<Rightarrow> u32 option" where
  "of_property_read_u32 p =
     (case p of Some (a # b # c # d # _) \<Rightarrow>
        Some (push_bit 24 (ucast a) OR push_bit 16 (ucast b) OR push_bit 8 (ucast c) OR ucast d)
      | _ \<Rightarrow> None)"

abbreviation (input) S_IFMT :: u16 where "S_IFMT \<equiv> 0xF000"
abbreviation (input) S_IFREG :: u16 where "S_IFREG \<equiv> 0x8000"
abbreviation (input) S_IALLUGO :: u16 where "S_IALLUGO \<equiv> 0xFFF"
abbreviation (input) S_IRUGO :: u16 where "S_IRUGO \<equiv> 0x124"
abbreviation (input) S_IWUGO :: u32 where "S_IWUGO \<equiv> 0x92"

text \<open>
  \<^verbatim>\<open>proc_create_data\<close> (\<^verbatim>\<open>fs/proc/generic.c\<close>) on the entries of the directory: the mode given is
  cut to 16 bits; without a file type it gets the regular one, without permission bits those of
  reading. \<open>alloc\<close> says whether memory and an inode number can be had for a name.
\<close>

definition proc_create_reg :: "u16 \<Rightarrow> u16 option" where
  "proc_create_reg mode =
     (let mode = (if mode AND S_IFMT = 0 then mode OR S_IFREG else mode);
          mode = (if mode AND S_IALLUGO = 0 then mode OR S_IRUGO else mode)
      in if mode AND S_IFMT \<noteq> S_IFREG then None else Some mode)"

definition proc_create_data :: "(string \<Rightarrow> bool) \<Rightarrow> string \<Rightarrow> u16 \<Rightarrow> byte list \<Rightarrow> proc_entry list \<Rightarrow> bool \<times> proc_entry list" where
  "proc_create_data alloc nm mode data dir =
     (case proc_create_reg mode of None \<Rightarrow> (False, dir)
      | Some mode \<Rightarrow>
          if nm = [] \<or> 256 \<le> length nm \<or> nm = ''.'' \<or> nm = ''..'' \<or> \<not> alloc nm then (False, dir)
          else if nm \<in> set (map pe_name dir) then (False, dir)
          else (True, dir @ [\<lparr>pe_name = nm, pe_mode = mode, pe_uid = 0, pe_data = data\<rparr>]))"

definition proc_set_user :: "string \<Rightarrow> nat \<Rightarrow> proc_entry list \<Rightarrow> proc_entry list" where
  "proc_set_user nm uid dir = map (\<lambda>e. if pe_name e = nm then e\<lparr>pe_uid := uid\<rparr> else e) dir"

definition MAC_SEC_KEY :: string where "MAC_SEC_KEY = ''mac_sec''"
definition MAC_SEC_OWNER :: nat where "MAC_SEC_OWNER = 1000"

text \<open>One child of \<^verbatim>\<open>/idme\<close>.\<close>

definition idme_child :: "(string \<Rightarrow> bool) \<Rightarrow> dt_node \<Rightarrow> proc_entry list \<Rightarrow> proc_entry list" where
  "idme_child alloc child dir =
     (let access_restrict = (dn_name child = MAC_SEC_KEY)
      in case dn_value child of None \<Rightarrow> dir
         | Some v \<Rightarrow>
             (case of_property_read_u32 (dn_permission child) of None \<Rightarrow> dir
              | Some perm \<Rightarrow>
                  let perm = perm AND NOT S_IWUGO;
                      perm = (if access_restrict then 0x100 else perm);
                      (ok, dir) = proc_create_data alloc (dn_name child) (ucast perm) v dir
                  in if ok \<and> access_restrict then proc_set_user (dn_name child) MAC_SEC_OWNER dir else dir))"

record idme_proc =
  ip_idme :: "proc_entry list"
  ip_features :: "proc_entry list"

text \<open>
  \<open>mkdir\<close> says whether a directory of \<^verbatim>\<open>/proc\<close> can be made, \<open>hdmi\<close> whether \<^verbatim>\<open>CONFIG_MTK_HDMI_SUPPORT\<close> is set.
  The data of the feature file are the bytes its \<^verbatim>\<open>show\<close> prints.
\<close>

definition idme_init :: "(string \<Rightarrow> bool) \<Rightarrow> (string \<Rightarrow> bool) \<Rightarrow> bool \<Rightarrow> dt_node list option \<Rightarrow> int \<times> idme_proc" where
  "idme_init mkdir alloc hdmi root =
     (case root of None \<Rightarrow> (- EINVAL, \<lparr>ip_idme = [], ip_features = []\<rparr>)
      | Some children \<Rightarrow>
          if \<not> mkdir ''idme'' then (- ENOMEM, \<lparr>ip_idme = [], ip_features = []\<rparr>)
          else let dir = fold (idme_child alloc) children [];
                   features = (if mkdir ''product_features'' \<and> hdmi
                               then snd (proc_create_data alloc ''hdmi'' S_IRUGO [32] []) else [])
               in (0, \<lparr>ip_idme = dir, ip_features = features\<rparr>))"

definition idme_proc_show :: "proc_entry \<Rightarrow> byte list" where
  "idme_proc_show pp = pe_data pp"

section \<open>Fields read as numbers\<close>

text \<open>The common part: copy at most \<open>n - 1\<close> characters of \<open>src\<close> into a zeroed buffer of \<open>b\<close> bytes and parse them.\<close>

definition read_hex :: "nat \<Rightarrow> byte list \<Rightarrow> nat \<Rightarrow> u32 option" where
  "read_hex b src n =
     (case strlcpy (replicate b 0) src n of None \<Rightarrow> None
      | Some (_, buf) \<Rightarrow>
          (case c_string buf of None \<Rightarrow> None
           | Some s \<Rightarrow> Some (case kstrtouint s 16 of Inl e \<Rightarrow> 0 | Inr rs \<Rightarrow> rs)))"

definition field :: "dt_node list option \<Rightarrow> string \<Rightarrow> byte list option" where
  "field root nm = (case find_node root nm of None \<Rightarrow> None | Some ap \<Rightarrow> dn_value ap)"

definition idme_get_board_type :: "dt_node list option \<Rightarrow> u32 option" where
  "idme_get_board_type root =
     (case field root ''board_id'' of None \<Rightarrow> None | Some board_id \<Rightarrow> read_hex 5 board_id 5)"

definition idme_get_board_rev :: "dt_node list option \<Rightarrow> u32 option" where
  "idme_get_board_rev root =
     (case field root ''board_id'' of None \<Rightarrow> None | Some board_id \<Rightarrow> read_hex 3 (drop 7 board_id) 3)"

text \<open>The pointer \<^verbatim>\<open>product_id2 + 31 - index\<close> must stay inside the value; the size \<^verbatim>\<open>length+1\<close> is a \<^verbatim>\<open>size_t\<close>.\<close>

definition idme_get_battery_info :: "dt_node list option \<Rightarrow> int \<Rightarrow> nat \<Rightarrow> u32 option" where
  "idme_get_battery_info root index len =
     (case field root ''productid2'' of None \<Rightarrow> None
      | Some product_id2 \<Rightarrow>
          if 31 < index \<or> int (length product_id2) < 31 - index then None
          else read_hex 32 (drop (nat (31 - index)) product_id2) ((len + 1) mod 2 ^ 64))"

definition idme_get_lcmid_info :: "dt_node list option \<Rightarrow> u32 option" where
  "idme_get_lcmid_info root =
     (case find_node root ''lcm_id'' of None \<Rightarrow> Some 0
      | Some ap \<Rightarrow> (case dn_value ap of None \<Rightarrow> None | Some idme_lcm_id \<Rightarrow> read_hex 4 idme_lcm_id 4))"

definition idme_get_tp_cg_color :: "dt_node list option \<Rightarrow> u32 option" where
  "idme_get_tp_cg_color root =
     (case find_node root ''tp_cg_color'' of None \<Rightarrow> Some 0
      | Some ap \<Rightarrow>
          (case dn_value ap of None \<Rightarrow> None
           | Some tp_cg \<Rightarrow>
               (case c_string tp_cg of None \<Rightarrow> None
                | Some s \<Rightarrow> if length s = 0 then Some 0 else read_hex 8 tp_cg 8)))"

definition idme_get_dev_flags_value :: "dt_node list option \<Rightarrow> u64 option" where
  "idme_get_dev_flags_value root =
     (case field root ''dev_flags'' of None \<Rightarrow> None
      | Some devflags \<Rightarrow>
          (case c_string devflags of None \<Rightarrow> None
           | Some s \<Rightarrow> Some (case kstrtoull s 16 of Inl e \<Rightarrow> 0 | Inr ret \<Rightarrow> ret)))"

section \<open>Fields read by character\<close>

text \<open>\<open>len0\<close> is what the uninitialised \<^verbatim>\<open>len\<close> holds; a missing property does not set it.\<close>

definition idme_get_bootmode :: "int \<Rightarrow> dt_node list option \<Rightarrow> u32 option" where
  "idme_get_bootmode len0 root =
     (case find_node root ''bootmode'' of None \<Rightarrow> Some 0
      | Some n \<Rightarrow>
          (case dn_value n of None \<Rightarrow> if len0 > 0 then None else Some 0
           | Some [] \<Rightarrow> Some 0
           | Some (c # _) \<Rightarrow> Some (ucast c - 48)))"

definition board_has_wan :: "int \<Rightarrow> dt_node list option \<Rightarrow> bool option" where
  "board_has_wan len0 root =
     (case find_node root ''board_id'' of None \<Rightarrow> Some False
      | Some ap \<Rightarrow>
          (case dn_value ap of None \<Rightarrow> if len0 \<ge> 2 then None else Some False
           | Some boardid \<Rightarrow>
               if length boardid < 2 then Some False
               else if boardid ! 0 \<noteq> 48 then Some False
               else if length boardid \<le> 5 then None
               else Some (boardid ! 5 = 49)))"

section \<open>Fields read as bytes in hexadecimal\<close>

definition SENSOR_CAL_SIZE :: nat where "SENSOR_CAL_SIZE = 96"

definition castChar :: "byte \<Rightarrow> byte" where
  "castChar c =
     (if 48 \<le> c \<and> c \<le> 57 then c - 48
      else if 97 \<le> c \<and> c \<le> 102 then c - 97 + 10
      else if 65 \<le> c \<and> c \<le> 70 then c - 65 + 10
      else 255)"

fun hex_pairs :: "byte list \<Rightarrow> byte list" where
  "hex_pairs (h # l # p) = (push_bit 4 (castChar h) OR castChar l) # hex_pairs p"
| "hex_pairs p = []"

text \<open>The decoded bytes and a zero go to the start of \<open>gbuffer\<close>; what lies behind stays.\<close>

definition hexToBytes :: "byte list \<Rightarrow> byte list \<Rightarrow> byte list option" where
  "hexToBytes gbuffer inhex =
     (case c_string inhex of None \<Rightarrow> None
      | Some s \<Rightarrow>
          let len = length s div 2
          in if length gbuffer \<le> len then None
             else Some (hex_pairs s @ [0] @ drop (Suc len) gbuffer))"

fun sensorcal_loop :: "byte list \<Rightarrow> nat \<Rightarrow> nat \<Rightarrow> u16 list \<Rightarrow> u16 list option" where
  "sensorcal_loop retdata i 0 data = Some data"
| "sensorcal_loop retdata i (Suc n) data =
     (if length data \<le> i \<or> length retdata \<le> i * 2 + 1 then None
      else sensorcal_loop retdata (Suc i) n
             (data[i := (ucast (retdata ! (i * 2)) AND 0xFF) OR push_bit 8 (scast (retdata ! (i * 2 + 1)))]))"

text \<open>The status, the caller's array and the buffer. A node without the property is handled like no node.\<close>

definition idme_get_sensorcal :: "dt_node list option \<Rightarrow> byte list \<Rightarrow> u16 list \<Rightarrow> u8 \<Rightarrow> (u32 \<times> u16 list \<times> byte list) option" where
  "idme_get_sensorcal root gbuffer data n =
     (case field root ''sensorcal'' of None \<Rightarrow> Some (- 1, data, gbuffer)
      | Some sensorcal \<Rightarrow>
          (case hexToBytes gbuffer sensorcal of None \<Rightarrow> None
           | Some retdata \<Rightarrow>
               (case sensorcal_loop retdata 0 (if n > 6 then 6 else unat n) data of None \<Rightarrow> None
                | Some data \<Rightarrow> Some (0, data, retdata))))"

definition idme_get_alscal_value :: "dt_node list option \<Rightarrow> byte list \<Rightarrow> (u32 \<times> byte list) option" where
  "idme_get_alscal_value root gbuffer =
     (case field root ''alscal'' of None \<Rightarrow> None
      | Some alscal \<Rightarrow>
          (case hexToBytes gbuffer alscal of None \<Rightarrow> None
           | Some retdata \<Rightarrow>
               if length retdata < 4 then None
               else Some ((scast (retdata ! 0) AND 0xFF) OR push_bit 8 (scast (retdata ! 1) AND 0xFF)
                          OR push_bit 16 (scast (retdata ! 2) AND 0xFF) OR push_bit 24 (scast (retdata ! 3) AND 0xFF), retdata)))"

section \<open>Bytes in hexadecimal\<close>

definition hex_digit :: "nat \<Rightarrow> byte" where
  "hex_digit n = (if n < 10 then 48 + of_nat n else 87 + of_nat n)"

definition hex_encode :: "byte list \<Rightarrow> byte list" where
  "hex_encode bs = concat (map (\<lambda>b. [hex_digit (unat b div 16), hex_digit (unat b mod 16)]) bs)"

definition le16 :: "u16 \<Rightarrow> byte list" where
  "le16 w = [ucast w, ucast (drop_bit 8 w)]"

definition le32 :: "u32 \<Rightarrow> byte list" where
  "le32 w = [ucast w, ucast (drop_bit 8 w), ucast (drop_bit 16 w), ucast (drop_bit 24 w)]"

lemma hex_digit_facts:
  "\<forall>n \<in> set [0..<16]. castChar (hex_digit n) = of_nat n \<and> hex_digit n \<noteq> 0"
proof -
  have "[0..<16] = [0, 1, 2, 3, 4, 5, 6, 7, 8, 9, 10, 11, 12, 13, 14, 15]" by code_simp
  then show ?thesis by (simp add: hex_digit_def castChar_def del: set_upt)
qed

lemma castChar_hex_digit [simp]: "n < 16 \<Longrightarrow> castChar (hex_digit n) = of_nat n"
  using hex_digit_facts by auto

lemma unat_byte: "unat (b::byte) < 256"
  using unsigned_less [of b, where 'a = nat] by simp

lemma nibbles: "push_bit 4 (of_nat (unat b div 16)) OR of_nat (unat b mod 16) = (b::byte)"
proof -
  have h: "of_nat (unat b div 16) = drop_bit 4 b"
    by (rule word_unat_eq_iff [THEN iffD2]) (simp only: unsigned_drop_bit_eq drop_bit_eq_div [where 'a = nat] unat_of_nat, use unat_byte [of b] in \<open>simp add: take_bit_eq_mod\<close>)
  have l: "of_nat (unat b mod 16) = take_bit 4 b"
    by (rule word_unat_eq_iff [THEN iffD2]) (simp only: unsigned_take_bit_eq take_bit_eq_mod [where 'a = nat] unat_of_nat, use unat_byte [of b] in simp)
  show ?thesis unfolding h l by (rule bit_word_eqI) (auto simp: bit_or_iff bit_push_bit_iff bit_drop_bit_eq bit_take_bit_iff)
qed

lemma hex_encode_simps [simp]:
  "hex_encode [] = []"
  "hex_encode (b # bs) = hex_digit (unat b div 16) # hex_digit (unat b mod 16) # hex_encode bs"
  by (simp_all add: hex_encode_def)

lemma hex_pairs_encode [simp]: "hex_pairs (hex_encode bs) = bs"
proof (induction bs)
  case (Cons b bs)
  have "unat b div 16 < 16" using unat_byte [of b] by simp
  then show ?case using Cons by (simp add: nibbles)
qed simp

lemma length_hex_encode [simp]: "length (hex_encode bs) = 2 * length bs"
  by (induction bs) simp_all

lemma hex_encode_nonzero: "0 \<notin> set (hex_encode bs)"
proof (induction bs)
  case (Cons b bs)
  have "unat b div 16 < 16" using unat_byte [of b] by simp
  then show ?case using Cons hex_digit_facts by (auto simp: eq_commute [of 0])
qed simp

lemma hexToBytes_decodes:
  "c_string v = Some (hex_encode bs) \<Longrightarrow> length bs < length gb \<Longrightarrow>
   hexToBytes gb v = Some (bs @ 0 # drop (Suc (length bs)) gb)"
  by (simp add: hexToBytes_def)

lemma byte_mask: "(0xFF :: u16) = mask 8" "(0xFF :: u32) = mask 8"
  by (simp_all add: mask_eq_exp_minus_1)

lemma word16_of_bytes:
  "((ucast (ucast w :: byte) AND 0xFF) OR push_bit 8 (scast (ucast (drop_bit 8 w) :: byte)) :: u16) = w"
proof (rule bit_word_eqI)
  fix n assume n: "n < LENGTH(16)"
  then consider "n < 8" | k where "n = 8 + k" "k < 7" | "n = 15"
    using le_Suc_ex [of 8 n] by fastforce
  then show "bit ((ucast (ucast w :: byte) AND 0xFF) OR push_bit 8 (scast (ucast (drop_bit 8 w) :: byte)) :: u16) n = bit w n"
    by cases (auto simp: byte_mask bit_or_iff bit_and_iff bit_push_bit_iff bit_ucast_iff bit_signed_iff bit_drop_bit_eq bit_mask_iff min_def)
qed

lemma byte_of_u32: "scast (b::byte) AND 0xFF = (ucast b :: u32)"
proof (rule bit_word_eqI)
  fix n assume "n < LENGTH(32)"
  consider "n < 7" | "n = 7" | "8 \<le> n" by linarith
  then show "bit (scast b AND 0xFF :: u32) n = bit (ucast b :: u32) n"
  proof cases
    case 3
    then have "\<not> bit b n" using bit_imp_le_length [of b n] by auto
    with 3 show ?thesis unfolding byte_mask by (simp add: bit_and_iff bit_ucast_iff bit_mask_iff)
  qed (simp_all add: byte_mask bit_and_iff bit_ucast_iff bit_signed_iff bit_mask_iff)
qed

lemma word32_of_bytes:
  "(ucast (ucast w :: byte) OR push_bit 8 (ucast (ucast (drop_bit 8 w) :: byte)) OR push_bit 16 (ucast (ucast (drop_bit 16 w) :: byte))
     OR push_bit 24 (ucast (ucast (drop_bit 24 w) :: byte)) :: u32) = w"
proof (rule bit_word_eqI)
  fix n assume "n < LENGTH(32)"
  then consider "n < 8" | k where "n = 8 + k" "k < 8" | k where "n = 16 + k" "k < 8" | k where "n = 24 + k" "k < 8"
    using le_Suc_ex [of 8 n] le_Suc_ex [of 16 n] le_Suc_ex [of 24 n] by fastforce
  then show "bit (ucast (ucast w :: byte) OR push_bit 8 (ucast (ucast (drop_bit 8 w) :: byte)) OR push_bit 16 (ucast (ucast (drop_bit 16 w) :: byte))
     OR push_bit 24 (ucast (ucast (drop_bit 24 w) :: byte)) :: u32) n = bit w n"
    by cases (auto simp: bit_or_iff bit_push_bit_iff bit_ucast_iff bit_drop_bit_eq)
qed

lemma length_le16 [simp]: "length (concat (map le16 vs)) = 2 * length vs"
  by (induction vs) (simp_all add: le16_def)

lemma nth_le16:
  "i < length vs \<Longrightarrow> (concat (map le16 vs) @ r) ! (i * 2) = ucast (vs ! i)
     \<and> (concat (map le16 vs) @ r) ! (i * 2 + 1) = ucast (drop_bit 8 (vs ! i))"
proof (induction vs arbitrary: i)
  case (Cons v vs)
  then show ?case by (cases i) (auto simp: le16_def)
qed simp

lemma sensorcal_loop_decodes:
  "i + n \<le> length vs \<Longrightarrow> i + n \<le> length data \<Longrightarrow>
   sensorcal_loop (concat (map le16 vs) @ r) i n data = Some (take i data @ take n (drop i vs) @ drop (i + n) data)"
proof (induction n arbitrary: i data)
  case (Suc n)
  have i: "i < length vs" "i < length data" using Suc.prems by auto
  note IH = Suc.IH [of "Suc i" "data[i := vs ! i]"]
  have "take (Suc i) (data[i := vs ! i]) = take i data @ [vs ! i]" using i by (simp add: take_Suc_conv_app_nth)
  moreover have "take (Suc n) (drop i vs) = vs ! i # take n (drop (Suc i) vs)" using i by (simp add: Cons_nth_drop_Suc [symmetric])
  moreover have "drop (Suc i + n) (data[i := vs ! i]) = drop (i + Suc n) data" by simp
  ultimately show ?case
    using IH Suc.prems i nth_le16 [OF i(1), of r] by (simp add: word16_of_bytes)
qed simp

text \<open>C19: the calibration values a factory stored as hexadecimal text, least significant byte first, are the values
  the readers return: the first \<^verbatim>\<open>size\<close> (at most six) for the accelerometer, with the rest of its array
  untouched, and the 32-bit value for the light sensor.\<close>

theorem calibration_roundtrip:
  "(field root ''sensorcal'' = Some cal \<and> c_string cal = Some (hex_encode (concat (map le16 vs)))
    \<and> 2 * length vs < SENSOR_CAL_SIZE \<and> length gb = SENSOR_CAL_SIZE \<and> unat n \<le> min 6 (min (length vs) (length data))
    \<longrightarrow> (\<exists>gb'. idme_get_sensorcal root gb data n = Some (0, take (unat n) vs @ drop (unat n) data, gb') \<and> length gb' = SENSOR_CAL_SIZE))
   \<and> (field root ''alscal'' = Some als \<and> c_string als = Some (hex_encode (le32 w)) \<and> length gb = SENSOR_CAL_SIZE
    \<longrightarrow> (\<exists>gb'. idme_get_alscal_value root gb = Some (w, gb') \<and> length gb' = SENSOR_CAL_SIZE))"
proof (intro conjI impI; elim conjE)
  assume f: "field root ''sensorcal'' = Some cal" and c: "c_string cal = Some (hex_encode (concat (map le16 vs)))"
    and l: "2 * length vs < SENSOR_CAL_SIZE" "length gb = SENSOR_CAL_SIZE" and n: "unat n \<le> min 6 (min (length vs) (length data))"
  have "(if n > 6 then 6 else unat n) = unat n" using n by (simp add: word_less_nat_alt)
  moreover note hexToBytes_decodes [OF c, of gb]
  ultimately show "\<exists>gb'. idme_get_sensorcal root gb data n = Some (0, take (unat n) vs @ drop (unat n) data, gb') \<and> length gb' = SENSOR_CAL_SIZE"
    using f l n sensorcal_loop_decodes [of 0 "unat n" vs data] by (simp add: idme_get_sensorcal_def)
next
  assume f: "field root ''alscal'' = Some als" and c: "c_string als = Some (hex_encode (le32 w))" and "length gb = SENSOR_CAL_SIZE"
  then have l: "4 < length gb" "length gb = SENSOR_CAL_SIZE" by (simp_all add: SENSOR_CAL_SIZE_def)
  have "hexToBytes gb als = Some (le32 w @ 0 # drop 5 gb)" using hexToBytes_decodes [OF c, of gb] l by (simp add: le32_def eval_nat_numeral)
  then show "\<exists>gb'. idme_get_alscal_value root gb = Some (w, gb') \<and> length gb' = SENSOR_CAL_SIZE"
    using f l by (simp add: idme_get_alscal_value_def le32_def byte_of_u32 word32_of_bytes)
qed


definition idme_example :: "dt_node list" where
  "idme_example =
     [\<lparr>dn_name = ''sensorcal'', dn_value = Some (hex_encode [0x34, 0x12, 0xFE, 0xFF] @ [0]), dn_permission = Some [0, 0, 1, 0x24]\<rparr>,
      \<lparr>dn_name = ''alscal'', dn_value = Some (hex_encode [0x78, 0x56, 0x34, 0x12] @ [0]), dn_permission = Some [0, 0, 1, 0x24]\<rparr>,
      \<lparr>dn_name = ''mac_sec'', dn_value = Some [49, 50, 51], dn_permission = Some [0, 0, 1, 0xB6]\<rparr>,
      \<lparr>dn_name = ''board_id'', dn_value = Some [48, 48, 50, 101, 48, 48, 48, 49, 50, 0], dn_permission = Some [0, 0, 0, 0x92]\<rparr>]"

theorem calibration_roundtrip_witness:
  "(\<exists>gb. idme_get_sensorcal (Some idme_example) (replicate 96 7) [9, 9, 9] 2 = Some (0, [0x1234, - 2, 9], gb))
   \<and> (\<exists>gb. idme_get_alscal_value (Some idme_example) (replicate 96 7) = Some (0x12345678, gb))"
proof -
  have f: "field (Some idme_example) ''sensorcal'' = Some (hex_encode (concat (map le16 [0x1234, - 2])) @ [0])"
    "field (Some idme_example) ''alscal'' = Some (hex_encode (le32 0x12345678) @ [0])"
    by (simp_all add: field_def find_node_def idme_example_def le16_def le32_def drop_bit_eq_div)
  have c: "c_string (hex_encode bs @ [0]) = Some (hex_encode bs)" for bs
    using c_string_zero [OF hex_encode_nonzero, of bs "[]"] by simp
  note r = calibration_roundtrip [of "Some idme_example" "hex_encode (concat (map le16 [0x1234, - 2])) @ [0]" "[0x1234, - 2]" "replicate 96 7" 2 "[9, 9, 9]"
      "hex_encode (le32 0x12345678) @ [0]" "0x12345678"]
  have "\<exists>gb. idme_get_sensorcal (Some idme_example) (replicate 96 7) [9, 9, 9] 2
      = Some (0, take (unat (2::u8)) [0x1234, - 2] @ drop (unat (2::u8)) [9, 9, 9], gb)"
    using r [THEN conjunct1] f(1) c by (force simp: SENSOR_CAL_SIZE_def simp del: replicate.simps)
  moreover have "\<exists>gb. idme_get_alscal_value (Some idme_example) (replicate 96 7) = Some (0x12345678, gb)"
    using r [THEN conjunct2] f(2) c by (force simp: SENSOR_CAL_SIZE_def simp del: replicate.simps)
  ultimately show ?thesis by simp
qed

section \<open>The number fields\<close>

lemma digits_bound: "\<forall>c\<in>set ds. is_digit 16 c \<Longrightarrow> V < m \<Longrightarrow> digits_from V ds < m * 16 ^ length ds"
proof (induction ds arbitrary: V m)
  case (Cons c ds)
  then obtain v where "digit_val c = Some v" "v < 16" by (cases "digit_val c") (auto simp: is_digit_def)
  then show ?case using Cons.IH [of "V * 16 + v" "m * 16"] Cons.prems by (simp add: ac_simps)
qed simp

lemma digits_value_bound: "\<forall>c\<in>set ds. is_digit 16 c \<Longrightarrow> digits_value 16 ds < 16 ^ length ds"
  using digits_bound [of ds 0 1] by (simp add: digits_value_def)

lemma tolower_x: "c_tolower x = 120 \<Longrightarrow> 64 \<le> unat x \<and> c_tolower x \<noteq> 102"
proof -
  assume a: "c_tolower x = 120"
  then have "bit (c_tolower x) 6" by simp
  then have "bit x 6" by (simp add: c_tolower_def bit_or_iff)
  then have "bit (unat x) 6" by (simp add: bit_unsigned_iff)
  then have "odd (unat x div 2 ^ 6)" by (simp only: bit_iff_odd) simp
  then show ?thesis using a by (cases "unat x < 64") auto
qed

lemma not_digits: "\<not> is_digit b 43" "c_tolower x = 120 \<Longrightarrow> \<not> is_digit b x"
proof -
  show "\<not> is_digit b 43" by (simp add: is_digit_def digit_val_def c_tolower_def Let_def)
  assume a: "c_tolower x = 120"
  then have "\<not> x \<le> 57" using tolower_x [OF a] by (simp add: word_le_nat_alt)
  then show "\<not> is_digit b x" using a by (simp add: is_digit_def digit_val_def Let_def)
qed

lemma kstrtoull_digits:
  assumes d: "\<forall>c\<in>set ds. is_digit 16 c" "ds \<noteq> []" "length ds \<le> 16"
  shows "kstrtoull ds 16 = Inr (of_nat (digits_value 16 ds))" and "digits_value 16 ds < 2 ^ 64"
proof -
  have s: "strip_prefix (strip_plus ds) = ds"
    using d(1) not_digits(1) [of 16] not_digits(2) [of _ 16] by (auto simp: strip_plus_def strip_prefix_def split: list.split)
  have "(16::nat) ^ length ds \<le> 16 ^ 16" by (rule power_increasing) (use d(3) in simp_all)
  then show b: "digits_value 16 ds < 2 ^ 64" using digits_value_bound [OF d(1)] by simp
  have t: "takeWhile (is_digit 16) ds = ds" "dropWhile (is_digit 16) ds = []" using d(1) by simp_all
  have "parse_number ds = Inr (digits_value 16 ds)"
    unfolding parse_number_def Let_def s t using d(2) b by simp
  moreover have "0 \<notin> set ds" using d(1) by (auto simp: is_digit_def digit_val_def c_tolower_def Let_def)
  ultimately show "kstrtoull ds 16 = Inr (of_nat (digits_value 16 ds))" using kstrtoull_conv [of ds] d(3) by simp
qed

lemma kstrtouint_digits:
  assumes d: "\<forall>c\<in>set ds. is_digit 16 c" "ds \<noteq> []" "length ds \<le> 8"
  shows "kstrtouint ds 16 = Inr (of_nat (digits_value 16 ds))"
proof -
  have "(16::nat) ^ length ds \<le> 16 ^ 8" by (rule power_increasing) (use d(3) in simp_all)
  then have v: "digits_value 16 ds < 2 ^ 32" using digits_value_bound [OF d(1)] by simp
  have u: "ucast (of_nat (digits_value 16 ds) :: u64) = (of_nat (digits_value 16 ds) :: u32)"
    using v by (simp add: word_unat_eq_iff unat_of_nat unsigned_ucast_eq take_bit_eq_mod)
  have "ucast (of_nat (digits_value 16 ds) :: u32) = (of_nat (digits_value 16 ds) :: u64)"
    using v by (simp add: word_unat_eq_iff unat_of_nat unsigned_ucast_eq take_bit_eq_mod)
  then show ?thesis using kstrtoull_digits(1) [OF d(1,2)] d(3) u by (simp add: kstrtouint_def)
qed

lemma c_string_drop:
  assumes "c_string v = Some s" "k \<le> length s"
  shows "c_string (drop k v) = Some (drop k s)"
proof -
  have v: "0 \<in> set v" "s = takeWhile (\<lambda>b. b \<noteq> 0) v" using assms(1) by (auto simp: c_string_def split: if_splits)
  then have "v = s @ dropWhile (\<lambda>b. b \<noteq> 0) v" by simp
  moreover obtain r where "dropWhile (\<lambda>b. b \<noteq> 0) v = 0 # r"
    using v(1) by (metis (mono_tags, lifting) dropWhile_eq_Nil_conv hd_dropWhile list.collapse)
  ultimately have "drop k v = drop k s @ 0 # r" using assms(2) by (metis drop_append diff_is_0_eq drop_0)
  moreover have "0 \<notin> set (drop k s)" using c_string_no_zero [OF assms(1)] by (meson in_set_dropD)
  ultimately show ?thesis by (simp add: c_string_zero)
qed

lemma read_hex_digits:
  assumes c: "c_string src = Some s" and n: "0 < n" "n \<le> b"
    and d: "\<forall>c\<in>set (take (n - 1) s). is_digit 16 c" "take (n - 1) s \<noteq> []" "length (take (n - 1) s) \<le> 8"
  shows "read_hex b src n = Some (of_nat (digits_value 16 (take (n - 1) s)))"
proof -
  have "n \<le> length (replicate b (0::byte))" using n by simp
  then obtain r buf where rb: "strlcpy (replicate b 0) src n = Some (r, buf)"
    using strlcpy_fits [OF c, of n "replicate b 0"] by (metis not_None_eq surj_pair)
  have "c_string buf = Some (take (n - 1) s)"
    using strlcpy_string(1) [OF c n(1) _ rb] n(2) by simp
  then show ?thesis using rb kstrtouint_digits [OF d] by (simp add: read_hex_def)
qed

text \<open>With fields of hexadecimal digits, as the factory writes them, the readers return the number a field denotes: the
  board type its first four digits, the revision the digits seven and eight, a battery field the \<open>len\<close> digits
  from position \<^verbatim>\<open>31 - index\<close>, and the device flags all sixteen.\<close>

theorem number_fields_decode:
  "(field root ''board_id'' = Some v \<and> c_string v = Some s \<and> (\<forall>c\<in>set s. is_digit 16 c) \<and> 9 \<le> length s
      \<longrightarrow> idme_get_board_type root = Some (of_nat (digits_value 16 (take 4 s)))
        \<and> idme_get_board_rev root = Some (of_nat (digits_value 16 [s ! 7, s ! 8])))
   \<and> (field root ''productid2'' = Some v \<and> c_string v = Some s \<and> (\<forall>c\<in>set s. is_digit 16 c)
        \<and> index \<le> 31 \<and> 31 - index + int len \<le> int (length s) \<and> 1 \<le> len \<and> len \<le> 8
      \<longrightarrow> idme_get_battery_info root index len = Some (of_nat (digits_value 16 (take len (drop (nat (31 - index)) s)))))
   \<and> (field root ''dev_flags'' = Some v \<and> c_string v = Some s \<and> (\<forall>c\<in>set s. is_digit 16 c) \<and> 1 \<le> length s \<and> length s \<le> 16
      \<longrightarrow> (\<exists>w. idme_get_dev_flags_value root = Some w \<and> unat w = digits_value 16 s))"
proof (intro conjI impI; elim conjE)
  assume f: "field root ''board_id'' = Some v" and c: "c_string v = Some s" and d: "\<forall>c\<in>set s. is_digit 16 c" and l: "9 \<le> length s"
  have "\<forall>c\<in>set (take 4 s). is_digit 16 c" using d by (meson in_set_takeD)
  then show "idme_get_board_type root = Some (of_nat (digits_value 16 (take 4 s)))"
    using read_hex_digits [OF c, of 5 5] l f by (cases s) (simp_all add: idme_get_board_type_def)
  have two: "take 2 (drop 7 s) = [s ! 7, s ! 8]"
    using l by (intro nth_equalityI) (auto simp: less_2_cases_iff)
  have "\<forall>c\<in>set (take 2 (drop 7 s)). is_digit 16 c" using d by (meson in_set_takeD in_set_dropD)
  then show "idme_get_board_rev root = Some (of_nat (digits_value 16 [s ! 7, s ! 8]))"
    using read_hex_digits [OF c_string_drop [OF c, of 7], of 3 3] l f by (simp add: idme_get_board_rev_def two)
next
  assume f: "field root ''productid2'' = Some v" and c: "c_string v = Some s" and d: "\<forall>c\<in>set s. is_digit 16 c"
    and l: "index \<le> 31" "31 - index + int len \<le> int (length s)" "1 \<le> len" "len \<le> 8"
  let ?k = "nat (31 - index)"
  have k: "?k \<le> length s" "?k + len \<le> length s" using l by linarith+
  have "length s \<le> length v" using c by (auto simp: c_string_def length_takeWhile_le split: if_splits)
  then have v: "\<not> (31 < index \<or> int (length v) < 31 - index)" using l by linarith
  have "\<forall>c\<in>set (take len (drop ?k s)). is_digit 16 c" using d by (meson in_set_takeD in_set_dropD)
  moreover have "take len (drop ?k s) \<noteq> []" using k l by auto
  ultimately have "read_hex 32 (drop ?k v) (len + 1) = Some (of_nat (digits_value 16 (take len (drop ?k s))))"
    using read_hex_digits [OF c_string_drop [OF c k(1)], of "len + 1" 32] l by simp
  moreover have "(len + 1) mod 2 ^ 64 = len + 1" using l by simp
  ultimately show "idme_get_battery_info root index len = Some (of_nat (digits_value 16 (take len (drop ?k s))))"
    using f v by (simp add: idme_get_battery_info_def)
next
  assume f: "field root ''dev_flags'' = Some v" and c: "c_string v = Some s" and d: "\<forall>c\<in>set s. is_digit 16 c"
    and l: "1 \<le> length s" "length s \<le> 16"
  have ne: "s \<noteq> []" using l by auto
  have "unat (of_nat (digits_value 16 s) :: u64) = digits_value 16 s"
    using kstrtoull_digits(2) [OF d ne l(2)] by (simp add: unat_of_nat)
  then show "\<exists>w. idme_get_dev_flags_value root = Some w \<and> unat w = digits_value 16 s"
    using f c kstrtoull_digits(1) [OF d ne l(2)] by (simp add: idme_get_dev_flags_value_def)
qed


theorem number_fields_decode_witness:
  "idme_get_board_type (Some idme_example) = Some 0x2E \<and> idme_get_board_rev (Some idme_example) = Some 0x12"
proof -
  let ?s = "[48, 48, 50, 101, 48, 48, 48, 49, 50] :: byte list"
  have f: "field (Some idme_example) ''board_id'' = Some (?s @ [0])" by (simp add: field_def find_node_def idme_example_def)
  have c: "c_string (?s @ [0]) = Some ?s" by (simp add: c_string_def)
  have d: "\<forall>c\<in>set ?s. is_digit 16 c" by (simp add: is_digit_def digit_val_def c_tolower_def Let_def)
  show ?thesis
    using number_fields_decode [of "Some idme_example" "?s @ [0]" ?s 0 0, THEN conjunct1] f c d
    by (simp add: digits_value_def digit_val_def c_tolower_def Let_def)
qed

section \<open>The proc files\<close>

text \<open>The mode of a regular file after the driver and the proc file system have changed it: no write permission is left.\<close>

lemma created_mode:
  assumes "proc_create_reg (ucast (perm AND NOT S_IWUGO)) = Some m"
  shows "m AND 0x92 = 0 \<and> m AND S_IFMT = S_IFREG"
proof -
  have "ucast (NOT S_IWUGO) = (NOT 0x92 :: u16)"
    by (simp add: word_uint_eq_iff unsigned_ucast_eq uint_word_ariths take_bit_eq_mod)
  then have x: "ucast (perm AND NOT S_IWUGO) = (ucast perm AND NOT 0x92 :: u16)" by (simp only: unsigned_and_eq)
  have w: "(ucast perm AND NOT 0x92 :: u16) AND 0x92 = 0" by (simp add: and.assoc)
  show ?thesis
    using assms w unfolding x
    by (auto simp: proc_create_reg_def Let_def bit.conj_disj_distrib2 and.assoc split: if_splits)
qed


text \<open>The entry one node stands for.\<close>

definition entry_of :: "(string \<Rightarrow> bool) \<Rightarrow> dt_node \<Rightarrow> proc_entry option" where
  "entry_of alloc child =
     (case (dn_value child, of_property_read_u32 (dn_permission child)) of
        (Some v, Some perm) \<Rightarrow>
          (case proc_create_reg (if dn_name child = MAC_SEC_KEY then 0x100 else ucast (perm AND NOT S_IWUGO)) of
             None \<Rightarrow> None
           | Some m \<Rightarrow>
               if dn_name child = [] \<or> 256 \<le> length (dn_name child) \<or> dn_name child \<in> {''.'', ''..''} \<or> \<not> alloc (dn_name child) then None
               else Some \<lparr>pe_name = dn_name child, pe_mode = m,
                          pe_uid = (if dn_name child = MAC_SEC_KEY then MAC_SEC_OWNER else 0), pe_data = v\<rparr>)
      | _ \<Rightarrow> None)"

lemma entry_of_name: "entry_of alloc c = Some e \<Longrightarrow> pe_name e = dn_name c"
  by (auto simp: entry_of_def split: option.splits if_splits)

lemma set_user_last:
  "nm \<notin> set (map pe_name dir) \<Longrightarrow> pe_name e = nm \<Longrightarrow> proc_set_user nm u (dir @ [e]) = dir @ [e\<lparr>pe_uid := u\<rparr>]"
proof -
  assume "nm \<notin> set (map pe_name dir)" "pe_name e = nm"
  then have "\<forall>x\<in>set dir. pe_name x \<noteq> nm" by (metis image_eqI set_map)
  then have "map (\<lambda>x. if pe_name x = nm then x\<lparr>pe_uid := u\<rparr> else x) dir = dir" by (intro map_idI) simp
  then show ?thesis using \<open>pe_name e = nm\<close> by (simp add: proc_set_user_def)
qed

lemma idme_child_entry:
  "dn_name c \<notin> set (map pe_name dir) \<Longrightarrow> idme_child alloc c dir = dir @ (case entry_of alloc c of None \<Rightarrow> [] | Some e \<Rightarrow> [e])"
  using set_user_last [of "dn_name c" dir]
  by (auto simp: idme_child_def entry_of_def proc_create_data_def Let_def split: option.splits if_splits)

lemma idme_child_known: "dn_name c \<in> set (map pe_name dir) \<Longrightarrow> idme_child alloc c dir = dir"
  by (auto simp: idme_child_def proc_create_data_def Let_def split: option.splits if_splits)

lemma fold_entries:
  "distinct (map dn_name cs) \<Longrightarrow> \<forall>c\<in>set cs. dn_name c \<notin> set (map pe_name dir) \<Longrightarrow>
   fold (idme_child alloc) cs dir = dir @ List.map_filter (entry_of alloc) cs"
proof (induction cs arbitrary: dir)
  case (Cons c cs)
  have step: "idme_child alloc c dir = dir @ (case entry_of alloc c of None \<Rightarrow> [] | Some e \<Rightarrow> [e])"
    using Cons.prems by (intro idme_child_entry) simp
  have "\<forall>d\<in>set cs. dn_name d \<noteq> dn_name c" using Cons.prems(1) by (metis distinct.simps(2) image_eqI list.simps(9) set_map)
  then have "\<forall>d\<in>set cs. dn_name d \<notin> set (map pe_name (idme_child alloc c dir))"
    using Cons.prems entry_of_name [of alloc c] unfolding step by (auto split: option.splits)
  then show ?case
    using Cons.IH [of "idme_child alloc c dir"] Cons.prems step by (auto simp: List.map_filter_simps split: option.splits)
qed (simp add: List.map_filter_simps)

definition entry_ok :: "dt_node list \<Rightarrow> proc_entry \<Rightarrow> bool" where
  "entry_ok nodes e \<longleftrightarrow> pe_mode e AND 0x92 = 0 \<and> pe_mode e AND S_IFMT = S_IFREG
     \<and> (pe_name e = MAC_SEC_KEY \<longrightarrow> pe_mode e = 0x8100 \<and> pe_uid e = MAC_SEC_OWNER)
     \<and> (pe_name e \<noteq> MAC_SEC_KEY \<longrightarrow> pe_uid e = 0)
     \<and> (\<exists>c\<in>set nodes. dn_name c = pe_name e \<and> dn_value c = Some (idme_proc_show e))"

lemma entry_of_ok:
  assumes e: "entry_of alloc c = Some e" and c: "c \<in> set nodes"
  shows "entry_ok nodes e"
proof -
  obtain v perm m where s: "dn_value c = Some v"
      "proc_create_reg (if dn_name c = MAC_SEC_KEY then 0x100 else ucast (perm AND NOT S_IWUGO)) = Some m"
      "e = \<lparr>pe_name = dn_name c, pe_mode = m, pe_uid = (if dn_name c = MAC_SEC_KEY then MAC_SEC_OWNER else 0), pe_data = v\<rparr>"
    using e unfolding entry_of_def by (auto split: option.splits if_split_asm)
  have "m AND 0x92 = 0 \<and> m AND S_IFMT = S_IFREG \<and> (dn_name c = MAC_SEC_KEY \<longrightarrow> m = 0x8100)"
  proof (cases "dn_name c = MAC_SEC_KEY")
    case True
    then have "m = 0x8100" using s(2) by (simp add: proc_create_reg_def Let_def)
    then show ?thesis by simp
  next
    case False
    then show ?thesis using created_mode [of perm m] s(2) by (simp only: if_False simp_thms)
  qed
  then show ?thesis using s c by (auto simp: entry_ok_def idme_proc_show_def)
qed

lemma fold_entries_ok:
  "\<forall>e\<in>set dir. entry_ok nodes e \<Longrightarrow> set cs \<subseteq> set nodes \<Longrightarrow> \<forall>e\<in>set (fold (idme_child alloc) cs dir). entry_ok nodes e"
proof (induction cs arbitrary: dir)
  case (Cons c cs)
  have "\<forall>e\<in>set (idme_child alloc c dir). entry_ok nodes e"
  proof (cases "dn_name c \<in> set (map pe_name dir)")
    case False
    then show ?thesis using Cons.prems entry_of_ok [of alloc c _ nodes] by (auto simp: idme_child_entry split: option.splits)
  qed (use Cons.prems idme_child_known in simp)
  then show ?case using Cons.IH Cons.prems by simp
qed simp


text \<open>C29: after initialisation no file below \<^verbatim>\<open>/proc/idme\<close> can be written, each shows the bytes of a field of its
  name, the one of \<^verbatim>\<open>mac_sec\<close> can be read by its owner 1000 alone, and when the names differ there is exactly the
  entry of every field that has a value and a mode.\<close>

theorem idme_files:
  assumes "idme_init mkdir alloc hdmi (Some nodes) = (0, p)"
  shows "(\<forall>e\<in>set (ip_idme p). entry_ok nodes e)
     \<and> (distinct (map dn_name nodes) \<longrightarrow> ip_idme p = List.map_filter (entry_of alloc) nodes)"
proof -
  have p: "ip_idme p = fold (idme_child alloc) nodes []"
    using assms by (auto simp: idme_init_def Let_def ENOMEM_def split: if_splits)
  show ?thesis unfolding p using fold_entries [of nodes "[]" alloc] fold_entries_ok [of "[]" nodes nodes alloc] by simp
qed

theorem idme_files_witness:
  "map (\<lambda>e. (pe_name e, pe_mode e, pe_uid e)) (ip_idme (snd (idme_init (\<lambda>_. True) (\<lambda>_. True) False (Some idme_example)))) =
     [(''sensorcal'', 0x8124, 0), (''alscal'', 0x8124, 0), (''mac_sec'', 0x8100, 1000), (''board_id'', 0x8124, 0)]"
proof -
  let ?p = "snd (idme_init (\<lambda>_. True) (\<lambda>_. True) False (Some idme_example))"
  have "idme_init (\<lambda>_. True) (\<lambda>_. True) False (Some idme_example) = (0, ?p)" by (simp add: idme_init_def Let_def)
  moreover have "distinct (map dn_name idme_example)" by (simp add: idme_example_def)
  ultimately have "ip_idme ?p = List.map_filter (entry_of (\<lambda>_. True)) idme_example" using idme_files by blast
  then show ?thesis
    by (simp add: idme_example_def entry_of_def of_property_read_u32_def proc_create_reg_def List.map_filter_simps MAC_SEC_KEY_def MAC_SEC_OWNER_def)
qed

section \<open>Where the readers fail\<close>

text \<open>A field whose mode only allows writing becomes a file the whole system can read: the proc file system takes the empty mode for no mode.\<close>

theorem hidden_field_readable:
  "idme_child (\<lambda>_. True) \<lparr>dn_name = ''unlock_code'', dn_value = Some v, dn_permission = Some [0, 0, 0, 0x92]\<rparr> []
     = [\<lparr>pe_name = ''unlock_code'', pe_mode = 0x8124, pe_uid = 0, pe_data = v\<rparr>]"
  by (simp add: idme_child_def of_property_read_u32_def proc_create_data_def proc_create_reg_def MAC_SEC_KEY_def Let_def)

text \<open>An empty field reports success and returns the bytes an earlier call of another reader left in the buffer.\<close>

theorem empty_calibration_is_stale:
  "field root ''sensorcal'' = Some [0] \<Longrightarrow>
   (case idme_get_sensorcal root ([a, b, c, d] @ replicate 92 0) [0, 0] 2 of None \<Rightarrow> False
    | Some (st, data, _) \<Rightarrow> st = 0 \<and> data ! 1 = (ucast c AND 0xFF) OR push_bit 8 (scast d))"
proof -
  assume f: "field root ''sensorcal'' = Some [0]"
  have n: "(if (2::u8) > 6 then 6 else unat (2::u8)) = Suc (Suc 0)" by simp
  have h: "hexToBytes ([a, b, c, d] @ replicate 92 0) [0] = Some (0 # b # c # d # replicate 92 0)"
    by (simp add: hexToBytes_def c_string_def del: replicate.simps)
  show ?thesis unfolding idme_get_sensorcal_def f option.case h n by (simp del: replicate.simps)
qed

text \<open>A field of 192 characters or more is decoded past the end of the buffer.\<close>

theorem long_calibration_overruns:
  "c_string v = Some s \<Longrightarrow> 192 \<le> length s \<Longrightarrow> length gb = SENSOR_CAL_SIZE \<Longrightarrow> hexToBytes gb v = None"
  by (simp add: hexToBytes_def SENSOR_CAL_SIZE_def Let_def)

text \<open>Only the reader of the accelerometer survives a missing field; the others follow the NULL pointer.\<close>

theorem missing_field_follows_null:
  assumes "find_node root ''sensorcal'' = None" "find_node root ''alscal'' = None" "find_node root ''board_id'' = None"
    "find_node root ''productid2'' = None" "find_node root ''dev_flags'' = None"
  shows "idme_get_sensorcal root gb data n = Some (- 1, data, gb)" "idme_get_alscal_value root gb = None"
    "idme_get_board_type root = None" "idme_get_board_rev root = None" "idme_get_battery_info root index len = None"
    "idme_get_dev_flags_value root = None"
  using assms
  by (simp_all add: field_def idme_get_sensorcal_def idme_get_alscal_value_def idme_get_board_type_def idme_get_board_rev_def
      idme_get_battery_info_def idme_get_dev_flags_value_def)

end
