(* ===== verification/Acenna.thy ===== *)
theory Acenna
  imports Kstrtox "HOL-Library.Multiset"
begin

text \<open>
  The driver of the neural network accelerator (\<^verbatim>\<open>drivers/misc/amazon/acenna_kmod.c\<close>, for the platform of
  \<^verbatim>\<open>plat_acenna.h\<close>). One process at a time opens its device and asks by ioctl for areas of DMA memory, named by a
  client and a memory number, which it maps and hands to the accelerator. The model keeps the table of
  areas, the counters, and beside them \<open>nd_dma\<close>, the blocks the DMA allocator has given out and not got
  back: freeing a block that is not among them, an index outside the table and an access outside the
  registers are \<open>None\<close>. What the allocator, user copies and the rest of the kernel answer are arguments.
\<close>

section \<open>The device\<close>

definition ENXIO :: int where "ENXIO = 6"
definition ENOTTY :: int where "ENOTTY = 25"
definition EPERM :: int where "EPERM = 1"
definition ERESTARTSYS :: int where "ERESTARTSYS = 512"

definition NNA_MAX_CLIENTS :: nat where "NNA_MAX_CLIENTS = 16"
definition NNA_MAX_AREAS :: nat where "NNA_MAX_AREAS = 128"
definition NNA_MAX_MEMAREA_SIZE :: int where "NNA_MAX_MEMAREA_SIZE = 128 * 1024 * 1024"

abbreviation (input) SYNC_MODE_NONCACHED :: int where "SYNC_MODE_NONCACHED \<equiv> 1"
abbreviation (input) SYNC_ALWAYS :: int where "SYNC_ALWAYS \<equiv> 4"

record nna_area =
  na_phy :: int
  na_kvirt :: int
  na_size :: int
  na_sync :: int
  na_vm_start :: int
  na_vm_end :: int

datatype nna_event = DmaSync bool int int int \<comment> \<open>for the device or the CPU; address, size, direction\<close>
  | RegWrite int u32 | RegRead int

record nna_dev =
  nd_areas :: "nat \<times> nat \<Rightarrow> nna_area"
  nd_buffers :: int
  nd_mem :: int
  nd_locked :: bool
  nd_open :: bool
  nd_sync_mode :: int
  nd_clk_freq :: u64
  nd_halt :: bool
  nd_halt_irq :: int
  nd_irq_ts :: "int \<times> int"
  nd_res_size :: int
  nd_dma :: "(int \<times> int \<times> int) list" \<comment> \<open>size, kernel address, bus address\<close>
  nd_log :: "nna_event list"

text \<open>The indices of the table, in the order of the loops.\<close>

definition area_idx :: "(nat \<times> nat) list" where
  "area_idx = List.product [0..<NNA_MAX_CLIENTS] [0..<NNA_MAX_AREAS]"

definition in_table :: "int \<Rightarrow> int \<Rightarrow> bool" where
  "in_table c m \<longleftrightarrow> 0 \<le> c \<and> c < int NNA_MAX_CLIENTS \<and> 0 \<le> m \<and> m < int NNA_MAX_AREAS"

definition area_put :: "nna_dev \<Rightarrow> nat \<times> nat \<Rightarrow> nna_area \<Rightarrow> nna_dev" where
  "area_put s i a = s\<lparr>nd_areas := (nd_areas s)(i := a)\<rparr>"

definition area_clear :: "nna_area \<Rightarrow> nna_area" where
  "area_clear a = a\<lparr>na_kvirt := 0, na_phy := 0, na_size := 0\<rparr>"

text \<open>A 32-bit access at a byte offset of the registers.\<close>

definition reg_ok :: "nna_dev \<Rightarrow> int \<Rightarrow> bool" where
  "reg_ok s off \<longleftrightarrow> 0 \<le> off \<and> off + 4 \<le> nd_res_size s"

section \<open>Freeing\<close>

definition dma_free_coherent :: "int \<Rightarrow> int \<Rightarrow> int \<Rightarrow> nna_dev \<Rightarrow> nna_dev option" where
  "dma_free_coherent sz kvirt phy s =
     (if (sz, kvirt, phy) \<in> set (nd_dma s) then Some (s\<lparr>nd_dma := remove1 (sz, kvirt, phy) (nd_dma s)\<rparr>) else None)"

definition area_free :: "nat \<times> nat \<Rightarrow> nna_dev \<Rightarrow> nna_dev option" where
  "area_free i s =
     (let a = nd_areas s i in
      case dma_free_coherent (na_size a) (na_kvirt a) (na_phy a) s of None \<Rightarrow> None
      | Some s \<Rightarrow> Some (area_put (s\<lparr>nd_mem := s32 (nd_mem s - na_size a), nd_buffers := s32 (nd_buffers s - 1)\<rparr>) i (area_clear a)))"

fun cleanup_loop :: "(nat \<times> nat) list \<Rightarrow> nna_dev \<Rightarrow> nna_dev option" where
  "cleanup_loop [] s = Some s"
| "cleanup_loop (i # is) s =
     (if na_kvirt (nd_areas s i) \<noteq> 0
      then case area_free i s of None \<Rightarrow> None | Some s \<Rightarrow> cleanup_loop is s
      else cleanup_loop is s)"

definition buffers_cleanup :: "nna_dev \<Rightarrow> nna_dev option" where
  "buffers_cleanup s = cleanup_loop area_idx s"

section \<open>Opening, closing, interrupt and poll\<close>

definition nna_device_file_open :: "nna_dev \<Rightarrow> int \<times> nna_dev" where
  "nna_device_file_open s = (if nd_locked s then (- ERESTARTSYS, s) else (0, s\<lparr>nd_locked := True, nd_open := True\<rparr>))"

definition nna_device_file_release :: "nna_dev \<Rightarrow> (int \<times> nna_dev) option" where
  "nna_device_file_release s =
     (case buffers_cleanup s of None \<Rightarrow> None
      | Some s \<Rightarrow>
          if \<not> reg_ok s 0x44 then None
          else Some (0, s\<lparr>nd_log := nd_log s @ [RegRead 0x44], nd_halt := False, nd_open := False, nd_locked := False\<rparr>))"

definition nna_halt_interrupt :: "int \<times> int \<Rightarrow> nna_dev \<Rightarrow> nna_dev option" where
  "nna_halt_interrupt now s =
     (if \<not> reg_ok s 0x44 then None
      else Some (s\<lparr>nd_log := nd_log s @ [RegRead 0x44], nd_halt := True, nd_irq_ts := now\<rparr>))"

abbreviation (input) POLLIN :: int where "POLLIN \<equiv> 1"

definition nna_device_file_poll :: "nna_dev \<Rightarrow> int" where
  "nna_device_file_poll s = (if nd_halt_irq s < 0 then 0 else if nd_halt s then POLLIN else 0)"

section \<open>The ioctl\<close>

record mem_request =
  mr_client :: int
  mr_mem :: int
  mr_size :: int
  mr_sync :: int

record mem_sync =
  ms_client :: int
  ms_mem :: int
  ms_size :: int
  ms_offset :: int
  ms_direction :: int

datatype nna_req = NNA_ALLOC mem_request | NNA_DEALLOC mem_request | NNA_TRIGGER | NNA_HW_INT_TIME
  | NNA_REG_WRITE int u32 | NNA_REG_READ int | NNA_CLEAR_POLL | NNA_SYNC_FOR_DEVICE mem_sync | NNA_SYNC_FOR_CPU mem_sync | NNA_OTHER

datatype nna_reply = NoReply | AllocReply int | TimeReply int int | RegReply u32

text \<open>
  \<open>ne_arg\<close>: the argument is not NULL; \<open>ne_from\<close> and \<open>ne_to\<close>: the copies from and to the user work; \<open>ne_alloc\<close>: the
  DMA allocator's answer to a size, an error (0 for NULL) or two addresses; \<open>ne_osync\<close>: the file is \<^verbatim>\<open>O_SYNC\<close>.
\<close>

record nna_env =
  ne_arg :: bool
  ne_from :: bool
  ne_to :: bool
  ne_alloc :: "int \<Rightarrow> int + int \<times> int"
  ne_osync :: bool
  ne_reg :: "int \<Rightarrow> u32"

definition page_round :: "int \<Rightarrow> int" where
  "page_round sz = push_bit 12 (drop_bit 12 (s32 (sz + (push_bit 12 1 - 1))))"

text \<open>An allocation tests the request and the table, and then, after the allocator has run, fills the entry.\<close>

definition alloc_check :: "mem_request \<Rightarrow> nna_dev \<Rightarrow> int" where
  "alloc_check r s =
     (if \<not> (in_table (mr_client r) (mr_mem r) \<and> mr_size r > 0 \<and> mr_size r < NNA_MAX_MEMAREA_SIZE) then - EFAULT
      else if na_kvirt (nd_areas s (nat (mr_client r), nat (mr_mem r))) \<noteq> 0 then - EFAULT
      else 0)"

definition alloc_commit :: "nna_env \<Rightarrow> mem_request \<Rightarrow> nna_dev \<Rightarrow> int \<times> nna_reply \<times> nna_dev" where
  "alloc_commit env r s =
     (let i = (nat (mr_client r), nat (mr_mem r)); alloc_size = page_round (mr_size r); a = nd_areas s i in
      case ne_alloc env alloc_size of
        Inl retval \<Rightarrow> (if retval = 0 then - ENOMEM else retval, NoReply, area_put s i (area_clear a))
      | Inr (kvirt, phy) \<Rightarrow>
          let s = area_put s i (a\<lparr>na_kvirt := kvirt, na_phy := phy, na_size := alloc_size, na_sync := mr_sync r\<rparr>);
              s = s\<lparr>nd_mem := s32 (nd_mem s + alloc_size), nd_buffers := s32 (nd_buffers s + 1), nd_dma := (alloc_size, kvirt, phy) # nd_dma s\<rparr>
          in if \<not> ne_to env then (- EFAULT, NoReply, s) else (0, AllocReply phy, s))"

definition nna_alloc :: "nna_env \<Rightarrow> mem_request \<Rightarrow> nna_dev \<Rightarrow> int \<times> nna_reply \<times> nna_dev" where
  "nna_alloc env r s = (if alloc_check r s \<noteq> 0 then (alloc_check r s, NoReply, s) else alloc_commit env r s)"

definition nna_dealloc :: "mem_request \<Rightarrow> nna_dev \<Rightarrow> (int \<times> nna_dev) option" where
  "nna_dealloc r s =
     (if \<not> in_table (mr_client r) (mr_mem r) then Some (- EFAULT, s)
      else let i = (nat (mr_client r), nat (mr_mem r)); a = nd_areas s i
           in if na_kvirt a \<noteq> 0 \<and> na_size a > 0
              then case area_free i s of None \<Rightarrow> None | Some s \<Rightarrow> Some (0, s)
              else Some (- EFAULT, s))"

text \<open>The synchronisation indexes the table with the numbers of the request before anything is tested.\<close>

definition nna_sync :: "nna_env \<Rightarrow> bool \<Rightarrow> mem_sync \<Rightarrow> nna_dev \<Rightarrow> (int \<times> nna_dev) option" where
  "nna_sync env for_device r s =
     (if \<not> in_table (ms_client r) (ms_mem r) then None
      else let a = nd_areas s (nat (ms_client r), nat (ms_mem r))
           in if na_phy a = 0 \<or> na_kvirt a = 0 \<or> na_size a = 0 then Some (- ENXIO, s)
              else if s32 (ms_offset r + ms_size r) > na_size a then Some (- EINVAL, s)
              else if na_sync a = SYNC_MODE_NONCACHED \<or> ne_osync env \<or> ms_size r = 0 then Some (0, s)
              else Some (0, s\<lparr>nd_log := nd_log s @ [DmaSync for_device (na_phy a) (na_size a) (ms_direction r)]\<rparr>))"

text \<open>The offset of a register counts words; the range is that of the resource.\<close>

definition reg_refused :: "nna_dev \<Rightarrow> int \<Rightarrow> bool" where
  "reg_refused s off \<longleftrightarrow> off < 0 \<or> off > nd_res_size s div 4"

definition nna_device_file_ioctl :: "nna_env \<Rightarrow> nna_req \<Rightarrow> nna_dev \<Rightarrow> (int \<times> nna_reply \<times> nna_dev) option" where
  "nna_device_file_ioctl env req s =
     (if req \<noteq> NNA_CLEAR_POLL \<and> \<not> ne_arg env then Some (- EFAULT, NoReply, s)
      else case req of
        NNA_ALLOC r \<Rightarrow> if \<not> ne_from env then Some (- EFAULT, NoReply, s) else Some (nna_alloc env r s)
      | NNA_DEALLOC r \<Rightarrow>
          if \<not> ne_from env then Some (- EFAULT, NoReply, s)
          else (case nna_dealloc r s of None \<Rightarrow> None | Some (ret, s) \<Rightarrow> Some (ret, NoReply, s))
      | NNA_TRIGGER \<Rightarrow> Some (0, NoReply, s)
      | NNA_HW_INT_TIME \<Rightarrow>
          if ne_to env then Some (0, TimeReply (fst (nd_irq_ts s)) (snd (nd_irq_ts s) sdiv 1000), s) else Some (- EFAULT, NoReply, s)
      | NNA_REG_READ off \<Rightarrow>
          if \<not> ne_from env then Some (- EFAULT, NoReply, s)
          else if reg_refused s off then Some (- EINVAL, NoReply, s)
          else if \<not> reg_ok s (4 * off) then None
          else let s = s\<lparr>nd_log := nd_log s @ [RegRead (4 * off)]\<rparr>
               in if ne_to env then Some (0, RegReply (ne_reg env off), s) else Some (- EFAULT, NoReply, s)
      | NNA_REG_WRITE off v \<Rightarrow>
          if \<not> ne_from env then Some (- EFAULT, NoReply, s)
          else if reg_refused s off then Some (- EINVAL, NoReply, s)
          else if \<not> reg_ok s (4 * off) then None
          else Some (0, NoReply, s\<lparr>nd_log := nd_log s @ [RegWrite (4 * off) v]\<rparr>)
      | NNA_CLEAR_POLL \<Rightarrow> Some (0, NoReply, s\<lparr>nd_halt := False\<rparr>)
      | NNA_SYNC_FOR_DEVICE r \<Rightarrow>
          if \<not> ne_from env then Some (- EFAULT, NoReply, s)
          else (case nna_sync env True r s of None \<Rightarrow> None | Some (ret, s) \<Rightarrow> Some (ret, NoReply, s))
      | NNA_SYNC_FOR_CPU r \<Rightarrow>
          if \<not> ne_from env then Some (- EFAULT, NoReply, s)
          else (case nna_sync env False r s of None \<Rightarrow> None | Some (ret, s) \<Rightarrow> Some (ret, NoReply, s))
      | NNA_OTHER \<Rightarrow> Some (- ENOTTY, NoReply, s))"

section \<open>Mapping\<close>

datatype nna_prot = DefaultProt | WriteCombineProt

text \<open>The three modes of the driver all become write-combining on the 64-bit processor.\<close>

definition prot_of :: "int \<Rightarrow> nna_prot" where
  "prot_of mode = (if mode AND 3 \<in> {1, 2, 3} then WriteCombineProt else DefaultProt)"

text \<open>
  The page offset of the call carries the numbers of the area. \<open>pfn_valid\<close>: the frame belongs to the
  memory the kernel manages, so pages are mapped at the fault; otherwise \<open>mmap_ret\<close> is the status of
  \<^verbatim>\<open>dma_mmap_coherent\<close>.
\<close>

definition nna_device_file_mmap :: "(int \<Rightarrow> bool) \<Rightarrow> bool \<Rightarrow> int \<Rightarrow> nat \<Rightarrow> int \<Rightarrow> int \<Rightarrow> nna_dev \<Rightarrow> int \<times> nna_prot \<times> nna_dev" where
  "nna_device_file_mmap pfn_valid osync mmap_ret pgoff vm_start vm_end s =
     (let clientid = s32 (int (pgoff div 1000)); memid = s32 (int (pgoff mod 1000))
      in if \<not> in_table clientid memid then (- EFAULT, DefaultProt, s)
         else let i = (nat clientid, nat memid); a = nd_areas s i
              in if \<not> (na_kvirt a \<noteq> 0 \<and> na_size a \<noteq> 0) then (- EFAULT, DefaultProt, s)
                 else let prot = (if (osync \<or> nd_sync_mode s AND SYNC_ALWAYS \<noteq> 0) \<and> na_sync a = 0
                                  then prot_of (nd_sync_mode s) else prot_of (na_sync a));
                          mapped = area_put s i (a\<lparr>na_vm_start := vm_start, na_vm_end := vm_end\<rparr>)
                      in if pfn_valid (drop_bit 12 (na_phy a)) then (0, prot, mapped)
                         else if mmap_ret = 0 then (0, prot, mapped)
                         else (mmap_ret, prot, area_put s i (a\<lparr>na_vm_start := 0, na_vm_end := 0\<rparr>)))"

text \<open>The search of the fault: the inner loop stops at the first area of a client, the outer loop goes on.\<close>

definition client_area :: "nna_dev \<Rightarrow> int \<Rightarrow> nat \<Rightarrow> nna_area option" where
  "client_area s vm_start c =
     map_option (\<lambda>m. nd_areas s (c, m))
       (find (\<lambda>m. na_vm_start (nd_areas s (c, m)) = vm_start \<and> na_size (nd_areas s (c, m)) \<noteq> 0) [0..<NNA_MAX_AREAS])"

definition fault_area :: "nna_dev \<Rightarrow> int \<Rightarrow> nna_area option" where
  "fault_area s vm_start =
     fold (\<lambda>c found. case client_area s vm_start c of None \<Rightarrow> found | Some a \<Rightarrow> Some a) [0..<NNA_MAX_CLIENTS] None"

text \<open>A fault on page \<open>pgoff\<close> of the mapping at \<open>vm_start\<close>: the frame it maps, or \<open>None\<close> for a bus error.\<close>

definition nna_device_vma_fault :: "(int \<Rightarrow> bool) \<Rightarrow> nna_dev \<Rightarrow> int \<Rightarrow> nat \<Rightarrow> int option" where
  "nna_device_vma_fault pfn_valid s vm_start pgoff =
     (let offset = u64w (push_bit 12 (int pgoff))
      in case fault_area s vm_start of None \<Rightarrow> None
         | Some a \<Rightarrow>
             let phys_addr = u64w (na_phy a + offset); available_size = u64w (na_size a - offset); page_frame_num = drop_bit 12 phys_addr
             in if 4096 > available_size then None
                else if \<not> pfn_valid page_frame_num then None
                else Some page_frame_num)"

section \<open>The sysfs files\<close>

text \<open>\<open>intr\<close>: a signal comes while the lock of the files is awaited.\<close>

definition nna_set_sync_mode :: "bool \<Rightarrow> byte list \<Rightarrow> int \<Rightarrow> nna_dev \<Rightarrow> int \<times> nna_dev" where
  "nna_set_sync_mode intr buf len s =
     (if intr then (- ERESTARTSYS, s)
      else case kstrtoull buf 0 of Inl e \<Rightarrow> (e, s)
      | Inr v \<Rightarrow> if v > 7 then (- EINVAL, s) else (len, s\<lparr>nd_sync_mode := uint v\<rparr>))"

text \<open>On this platform \<^verbatim>\<open>acenna_clk_set_rate\<close> always refuses; the frequency has been stored by then.\<close>

definition acenna_clk_set_rate :: "u64 \<Rightarrow> int" where
  "acenna_clk_set_rate freq = - EPERM"

definition nna_set_clk_freq :: "bool \<Rightarrow> byte list \<Rightarrow> int \<Rightarrow> nna_dev \<Rightarrow> int \<times> nna_dev" where
  "nna_set_clk_freq intr buf len s =
     (if intr then (- ERESTARTSYS, s)
      else case kstrtoull buf 0 of Inl e \<Rightarrow> (e, s)
      | Inr v \<Rightarrow> if v < 1000000 \<or> 800000000 < v then (- EINVAL, s)
          else let s = s\<lparr>nd_clk_freq := v\<rparr>; status = acenna_clk_set_rate (nd_clk_freq s)
               in if status \<noteq> 0 then (status, s) else (len, s))"

section \<open>Creation, probe and removal\<close>

datatype nna_resource = NnaMinor int | NnaMemory | NnaSysDev | NnaCdev | NnaRegion | NnaIomap | NnaIrq | NnaReservedMem | NnaPm

definition area_empty :: nna_area where
  "area_empty = \<lparr>na_phy = 0, na_kvirt = 0, na_size = 0, na_sync = 0, na_vm_start = 0, na_vm_end = 0\<rparr>"

definition nna_dev_zero :: nna_dev where
  "nna_dev_zero = \<lparr>nd_areas = (\<lambda>_. area_empty), nd_buffers = 0, nd_mem = 0, nd_locked = False, nd_open = False, nd_sync_mode = 0,
     nd_clk_freq = 0, nd_halt = False, nd_halt_irq = 0, nd_irq_ts = (0, 0), nd_res_size = 1, nd_dma = [], nd_log = []\<rparr>"

definition DEVICE_MAX_NUM :: int where "DEVICE_MAX_NUM = 256"

text \<open>\<open>ida\<close> allocates in a range of minor numbers; \<open>mem\<close>, \<open>sysdev\<close> and \<open>cdev\<close> say whether those steps work.\<close>

definition nna_device_create :: "(int \<Rightarrow> int \<Rightarrow> int) \<Rightarrow> bool \<Rightarrow> bool \<Rightarrow> int \<Rightarrow> int \<Rightarrow> nna_dev option \<times> nna_resource set" where
  "nna_device_create ida mem sysdev cdev minor =
     (if 0 \<le> minor \<and> minor < DEVICE_MAX_NUM \<and> ida minor (minor + 1) < 0 then (None, {})
      else if minor = - 1 \<and> ida 0 DEVICE_MAX_NUM < 0 then (None, {})
      else if \<not> (0 \<le> minor \<and> minor < DEVICE_MAX_NUM) \<and> minor \<noteq> - 1 then (None, {})
      else let minor = (if minor = - 1 then ida 0 DEVICE_MAX_NUM else minor) in
      if \<not> mem then (None, {NnaMinor minor} - {NnaMinor minor})
      else if \<not> sysdev then (None, {NnaMinor minor, NnaMemory} - {NnaMinor minor, NnaMemory})
      else if cdev \<noteq> 0 then (None, {NnaMinor minor, NnaMemory, NnaSysDev} - {NnaSysDev, NnaMinor minor, NnaMemory})
      else (Some (nna_dev_zero\<lparr>nd_sync_mode := SYNC_MODE_NONCACHED\<rparr>), {NnaMinor minor, NnaMemory, NnaSysDev, NnaCdev}))"

definition nna_device_destroy :: "nna_dev option \<Rightarrow> nna_resource set \<Rightarrow> (int \<times> nna_resource set \<times> nna_dev option) option" where
  "nna_device_destroy this held =
     (case this of None \<Rightarrow> Some (- ENODEV, held, None)
      | Some s \<Rightarrow>
          (case buffers_cleanup s of None \<Rightarrow> None
           | Some s \<Rightarrow> Some (0, held - {NnaCdev, NnaSysDev, NnaMemory} - range NnaMinor, Some s)))"

text \<open>The cleanup releases whatever may be held; it does so also when the driver has not taken it.\<close>

definition nna_platform_driver_cleanup :: "nna_dev option \<Rightarrow> bool \<Rightarrow> nna_resource set \<Rightarrow> (int \<times> nna_resource set) option" where
  "nna_platform_driver_cleanup devdata of_reserved_mem held =
     (case devdata of None \<Rightarrow> Some (- ENODEV, held)
      | Some s \<Rightarrow>
          let held = held - {NnaPm};
              held = (if nd_halt_irq s > 0 then held - {NnaIrq} else held);
              held = held - {NnaIomap} - {NnaRegion}
          in case nna_device_destroy (Some s) held of None \<Rightarrow> None
             | Some (retval, held, _) \<Rightarrow> Some (retval, if of_reserved_mem then held - {NnaReservedMem} else held))"

record nna_penv =
  np_match :: bool
  np_minor :: "int option"
  np_ida :: "int \<Rightarrow> int \<Rightarrow> int"
  np_mem :: bool
  np_sysdev :: bool
  np_cdev :: int
  np_resource :: "int + int" \<comment> \<open>the size of the registers, or the error\<close>
  np_region :: bool
  np_iomap :: bool
  np_irq :: int
  np_request_irq :: int
  np_reserved :: int
  np_dma_config :: int
  np_sync_mode :: "int option"

text \<open>
  \<^verbatim>\<open>nna_platform_driver_probe\<close>: its status, the driver data of the device and what is held. Each step that
  fails leaves with the \<^verbatim>\<open>retval\<close> of the last call that set it. An interrupt that cannot be requested is only logged.
\<close>

definition nna_failed :: "int \<Rightarrow> nna_dev \<Rightarrow> bool \<Rightarrow> nna_resource set \<Rightarrow> (int \<times> nna_dev option \<times> nna_resource set) option" where
  "nna_failed retval s reserved held =
     (case nna_platform_driver_cleanup (Some s) reserved held of None \<Rightarrow> None | Some (_, held) \<Rightarrow> Some (retval, None, held))"

definition nna_platform_driver_probe :: "nna_penv \<Rightarrow> (int \<times> nna_dev option \<times> nna_resource set) option" where
  "nna_platform_driver_probe pe =
     (if \<not> np_match pe then Some (- EINVAL, None, {})
      else case nna_device_create (np_ida pe) (np_mem pe) (np_sysdev pe) (np_cdev pe) (case np_minor pe of None \<Rightarrow> - 1 | Some v \<Rightarrow> s32 v) of
        (None, held) \<Rightarrow> Some (- EINVAL, None, held)
      | (Some s, held) \<Rightarrow>
          (case np_resource pe of Inl retval \<Rightarrow> nna_failed retval s False held
           | Inr sz \<Rightarrow>
               let retval = 0; s = s\<lparr>nd_res_size := sz\<rparr> in
               if \<not> np_region pe then nna_failed retval s False held
               else let held = insert NnaRegion held in
               if \<not> np_iomap pe then nna_failed retval s False held
               else let held = insert NnaIomap held; s = s\<lparr>nd_halt_irq := np_irq pe\<rparr> in
               if nd_halt_irq s < 0 then nna_failed retval s False held
               else let held = (if np_request_irq pe = 0 then insert NnaIrq held else held); retval = np_reserved pe in
               if retval \<noteq> 0 \<and> retval \<noteq> - ENODEV then nna_failed retval s False held
               else let reserved = (retval = 0); held = (if reserved then insert NnaReservedMem held else held);
                        retval = (if reserved then retval else np_dma_config pe) in
               if retval \<noteq> 0 then nna_failed retval s reserved held
               else (case np_sync_mode pe of
                 Some v \<Rightarrow>
                   if v < 1 \<or> v > 3 then nna_failed retval s reserved held
                   else Some (0, Some (s\<lparr>nd_sync_mode := (nd_sync_mode s AND NOT 3) OR v, nd_halt := False\<rparr>), insert NnaPm held)
               | None \<Rightarrow> Some (0, Some (s\<lparr>nd_halt := False\<rparr>), insert NnaPm held))))"

definition nna_platform_driver_remove :: "nna_dev option \<Rightarrow> bool \<Rightarrow> nna_resource set \<Rightarrow> (int \<times> nna_resource set) option" where
  "nna_platform_driver_remove this reserved held = nna_platform_driver_cleanup this reserved held"

section \<open>The module\<close>

datatype nna_registration = NnaNumbers | NnaClass | NnaDriver

definition nna_module_cleanup :: "nna_registration set \<Rightarrow> nna_registration set" where
  "nna_module_cleanup held = held - {NnaDriver} - {NnaClass} - {NnaNumbers}"

text \<open>\<open>cls\<close> is \<open>None\<close> when the class was made, else the error (0 for NULL).\<close>

definition nna_module_init :: "int \<Rightarrow> int option \<Rightarrow> int \<Rightarrow> int \<Rightarrow> int \<times> nna_registration set" where
  "nna_module_init numbers cls wrapper driver =
     (if numbers \<noteq> 0 then (numbers, nna_module_cleanup {})
      else case cls of Some e \<Rightarrow> (if e = 0 then - ENOMEM else e, nna_module_cleanup {NnaNumbers})
      | None \<Rightarrow>
          if wrapper \<noteq> 0 then (wrapper, nna_module_cleanup {NnaNumbers, NnaClass})
          else if driver \<noteq> 0 then (driver, nna_module_cleanup {NnaNumbers, NnaClass})
          else (0, {NnaNumbers, NnaClass, NnaDriver}))"

section \<open>The accounting of the areas\<close>

definition area_block :: "nna_area \<Rightarrow> int \<times> int \<times> int" where
  "area_block a = (na_size a, na_kvirt a, na_phy a)"

definition blocks_of :: "(nat \<times> nat \<Rightarrow> nna_area) \<Rightarrow> (int \<times> int \<times> int) list" where
  "blocks_of areas = map (\<lambda>i. area_block (areas i)) (filter (\<lambda>i. na_kvirt (areas i) \<noteq> 0) area_idx)"

definition area_ok :: "nna_area \<Rightarrow> bool" where
  "area_ok a \<longleftrightarrow> (if na_kvirt a = 0 then na_size a = 0 \<and> na_phy a = 0 else 0 < na_size a \<and> na_size a mod 4096 = 0 \<and> na_size a \<le> NNA_MAX_MEMAREA_SIZE)"

definition areas_inv :: "nna_dev \<Rightarrow> bool" where
  "areas_inv s \<longleftrightarrow> mset (nd_dma s) = mset (blocks_of (nd_areas s)) \<and> nd_buffers s = int (length (blocks_of (nd_areas s)))
     \<and> nd_mem s = s32 (sum_list (map fst (blocks_of (nd_areas s)))) \<and> (\<forall>i\<in>set area_idx. area_ok (nd_areas s i))"

lemma area_idx_facts: "distinct area_idx" "length area_idx = 2048" "i \<in> set area_idx \<longleftrightarrow> fst i < 16 \<and> snd i < 128"
  by (cases i; auto simp: area_idx_def distinct_product NNA_MAX_CLIENTS_def NNA_MAX_AREAS_def)+

lemma in_table_idx: "in_table c m \<Longrightarrow> (nat c, nat m) \<in> set area_idx"
  by (auto simp: in_table_def area_idx_facts NNA_MAX_CLIENTS_def NNA_MAX_AREAS_def)

lemma blocks_length: "length (blocks_of areas) \<le> 2048"
  using length_filter_le [of "\<lambda>i. na_kvirt (areas i) \<noteq> 0" area_idx] by (simp add: blocks_of_def area_idx_facts)

lemma blocks_upd:
  assumes "i \<in> set area_idx"
  obtains B1 B2 where "\<And>a. blocks_of (areas(i := a)) = B1 @ (if na_kvirt a = 0 then [] else [area_block a]) @ B2"
proof -
  obtain pre post where sp: "area_idx = pre @ i # post" using split_list [OF assms] by blast
  have "i \<notin> set pre" "i \<notin> set post" using area_idx_facts(1) unfolding sp by auto
  then have f: "filter (\<lambda>j. na_kvirt ((areas(i := a)) j) \<noteq> 0) xs = filter (\<lambda>j. na_kvirt (areas j) \<noteq> 0) xs"
     "map (\<lambda>j. area_block ((areas(i := a)) j)) (filter P xs) = map (\<lambda>j. area_block (areas j)) (filter P xs)"
     if "xs \<in> {pre, post}" for a xs P
    using that by (auto intro!: filter_cong)
  show ?thesis
    by (rule that [of "map (\<lambda>j. area_block (areas j)) (filter (\<lambda>j. na_kvirt (areas j) \<noteq> 0) pre)" "map (\<lambda>j. area_block (areas j)) (filter (\<lambda>j. na_kvirt (areas j) \<noteq> 0) post)"])
       (simp add: blocks_of_def sp f del: fun_upd_apply, simp)
qed

lemma areas_inv_upd:
  assumes i: "i \<in> set area_idx" and inv: "areas_inv s" and a: "area_ok a" "area_block a = area_block (nd_areas s i)"
  shows "areas_inv (area_put s i a)"
proof -
  obtain B1 B2 where B: "\<And>a. blocks_of ((nd_areas s)(i := a)) = B1 @ (if na_kvirt a = 0 then [] else [area_block a]) @ B2"
    by (rule blocks_upd [OF i, of "nd_areas s"]) blast
  have "na_kvirt a = na_kvirt (nd_areas s i)" using a(2) by (simp add: area_block_def)
  then have "blocks_of ((nd_areas s)(i := a)) = blocks_of (nd_areas s)" using B [of a] B [of "nd_areas s i"] a(2) by simp
  then show ?thesis using inv a(1) by (simp add: areas_inv_def area_put_def)
qed

lemma area_free_ok:
  assumes i: "i \<in> set area_idx" and inv: "areas_inv s" and k: "na_kvirt (nd_areas s i) \<noteq> 0"
  obtains s' where "area_free i s = Some s'" "areas_inv s'" "nd_areas s' = (nd_areas s)(i := area_clear (nd_areas s i))"
    "nd_dma s' = remove1 (area_block (nd_areas s i)) (nd_dma s)" "nd_res_size s' = nd_res_size s" "nd_open s' = nd_open s" "nd_locked s' = nd_locked s"
proof -
  let ?a = "nd_areas s i" let ?c = "area_clear ?a"
  obtain B1 B2 where B: "\<And>a. blocks_of ((nd_areas s)(i := a)) = B1 @ (if na_kvirt a = 0 then [] else [area_block a]) @ B2"
    by (rule blocks_upd [OF i, of "nd_areas s"]) blast
  have b: "blocks_of (nd_areas s) = B1 @ [area_block ?a] @ B2" using B [of ?a] k by simp
  have c: "blocks_of ((nd_areas s)(i := ?c)) = B1 @ B2" using B [of ?c] by (simp add: area_clear_def)
  have m: "area_block ?a \<in> set (nd_dma s)"
    using inv b by (metis areas_inv_def append_Cons in_set_conv_decomp mset_eq_setD append_Nil)
  let ?s = "s\<lparr>nd_dma := remove1 (area_block ?a) (nd_dma s), nd_mem := s32 (nd_mem s - na_size ?a), nd_buffers := s32 (nd_buffers s - 1)\<rparr>"
  have len: "length (B1 @ B2) < 2048" using blocks_length [of "nd_areas s"] b by simp
  have "areas_inv (area_put ?s i ?c)"
    using inv b c len
    by (auto simp: areas_inv_def area_put_def area_ok_def area_clear_def s32_id fst_def area_block_def s32_add_s32 [where b = "- _", simplified] algebra_simps)
  then show ?thesis
    using m by (intro that [of "area_put ?s i ?c"]) (simp_all add: area_free_def dma_free_coherent_def area_block_def area_put_def Let_def)
qed


lemma cleanup_loop_ok:
  "areas_inv s \<Longrightarrow> set is \<subseteq> set area_idx \<Longrightarrow> \<exists>s'. cleanup_loop is s = Some s' \<and> areas_inv s'
     \<and> (\<forall>j. na_kvirt (nd_areas s' j) = (if j \<in> set is then 0 else na_kvirt (nd_areas s j)))
     \<and> nd_res_size s' = nd_res_size s \<and> nd_open s' = nd_open s \<and> nd_locked s' = nd_locked s"
proof (induction "is" arbitrary: s)
  case (Cons i "is")
  show ?case
  proof (cases "na_kvirt (nd_areas s i) = 0")
    case True
    obtain s' where s': "cleanup_loop is s = Some s'" "areas_inv s'"
        "\<forall>j. na_kvirt (nd_areas s' j) = (if j \<in> set is then 0 else na_kvirt (nd_areas s j))"
        "nd_res_size s' = nd_res_size s \<and> nd_open s' = nd_open s \<and> nd_locked s' = nd_locked s"
      using Cons.IH [OF Cons.prems(1)] Cons.prems(2) by auto
    then show ?thesis using True by auto
  next
    case False
    have i: "i \<in> set area_idx" using Cons.prems(2) by simp
    obtain s1 where s1: "area_free i s = Some s1" "areas_inv s1" "nd_areas s1 = (nd_areas s)(i := area_clear (nd_areas s i))"
        "nd_res_size s1 = nd_res_size s" "nd_open s1 = nd_open s" "nd_locked s1 = nd_locked s"
      by (rule area_free_ok [OF i Cons.prems(1) False]) blast
    obtain s' where s': "cleanup_loop is s1 = Some s'" "areas_inv s'"
        "\<forall>j. na_kvirt (nd_areas s' j) = (if j \<in> set is then 0 else na_kvirt (nd_areas s1 j))"
        "nd_res_size s' = nd_res_size s1 \<and> nd_open s' = nd_open s1 \<and> nd_locked s' = nd_locked s1"
      using Cons.IH [OF s1(2)] Cons.prems(2) by auto
    then show ?thesis using s1 False by (auto simp: area_clear_def)
  qed
qed simp

lemma buffers_cleanup_ok:
  assumes "areas_inv s"
  obtains s' where "buffers_cleanup s = Some s'" "areas_inv s'" "nd_dma s' = []" "nd_res_size s' = nd_res_size s" "nd_open s' = nd_open s" "nd_locked s' = nd_locked s"
proof -
  obtain s' where s': "cleanup_loop area_idx s = Some s'" "areas_inv s'"
      "\<forall>j. na_kvirt (nd_areas s' j) = (if j \<in> set area_idx then 0 else na_kvirt (nd_areas s j))"
      "nd_res_size s' = nd_res_size s" "nd_open s' = nd_open s" "nd_locked s' = nd_locked s"
    using cleanup_loop_ok [OF assms subset_refl] by blast
  have "filter (\<lambda>i. na_kvirt (nd_areas s' i) \<noteq> 0) area_idx = []" using s'(3) by (simp only: filter_empty_conv) simp
  then have "blocks_of (nd_areas s') = []" by (simp add: blocks_of_def)
  then have "nd_dma s' = []" using s'(2) by (simp add: areas_inv_def)
  then show ?thesis using s' by (intro that [of s']) (simp_all add: buffers_cleanup_def)
qed

lemma page_round:
  assumes "0 < sz" "sz < NNA_MAX_MEMAREA_SIZE"
  shows "sz \<le> page_round sz" "page_round sz < sz + 4096" "page_round sz mod 4096 = 0" "0 < page_round sz" "page_round sz \<le> NNA_MAX_MEMAREA_SIZE"
proof -
  have s: "s32 (sz + 4095) = sz + 4095" using assms by (intro s32_id) (simp_all add: NNA_MAX_MEMAREA_SIZE_def)
  have r: "page_round sz = (sz + 4095) div 4096 * 4096" by (simp add: page_round_def push_bit_eq_mult drop_bit_eq_div s)
  have m: "page_round sz = sz + 4095 - (sz + 4095) mod 4096" unfolding r by (rule minus_mod_eq_div_mult [symmetric])
  have "0 \<le> (sz + 4095) mod 4096" "(sz + 4095) mod 4096 < 4096" by simp_all
  then show "sz \<le> page_round sz" "page_round sz < sz + 4096" unfolding m by linarith+
  show "page_round sz mod 4096 = 0" unfolding r by simp
  show "0 < page_round sz" using assms \<open>sz \<le> page_round sz\<close> by linarith
  show "page_round sz \<le> NNA_MAX_MEMAREA_SIZE" using assms unfolding r NNA_MAX_MEMAREA_SIZE_def by simp
qed

text \<open>An allocator that hands out no NULL address.\<close>

definition alloc_good :: "nna_env \<Rightarrow> bool" where
  "alloc_good env \<longleftrightarrow> (\<forall>sz kvirt phy. ne_alloc env sz = Inr (kvirt, phy) \<longrightarrow> kvirt \<noteq> 0)"

lemma alloc_commit_ok:
  assumes inv: "areas_inv s" and check: "alloc_check r s = 0" and good: "alloc_good env"
  shows "areas_inv (snd (snd (alloc_commit env r s)))"
proof -
  let ?i = "(nat (mr_client r), nat (mr_mem r))" let ?a = "nd_areas s ?i" let ?z = "page_round (mr_size r)"
  have c: "in_table (mr_client r) (mr_mem r)" "0 < mr_size r" "mr_size r < NNA_MAX_MEMAREA_SIZE" "na_kvirt ?a = 0"
    using check by (auto simp: alloc_check_def EFAULT_def split: if_splits)
  have i: "?i \<in> set area_idx" by (rule in_table_idx [OF c(1)])
  have ok: "area_ok ?a" using inv i by (auto simp: areas_inv_def)
  show ?thesis
  proof (cases "ne_alloc env ?z")
    case (Inl e)
    have "area_clear ?a = ?a" using ok c(4) by (simp add: area_ok_def area_clear_def)
    then have "area_put s ?i (area_clear ?a) = s" by (simp add: area_put_def)
    then show ?thesis using Inl inv by (simp add: alloc_commit_def Let_def)
  next
    case (Inr b)
    obtain kv ph where b: "b = (kv, ph)" by (cases b)
    then have k: "kv \<noteq> 0" using good Inr by (auto simp: alloc_good_def)
    let ?n = "?a\<lparr>na_kvirt := kv, na_phy := ph, na_size := ?z, na_sync := mr_sync r\<rparr>"
    obtain B1 B2 where B: "\<And>a. blocks_of ((nd_areas s)(?i := a)) = B1 @ (if na_kvirt a = 0 then [] else [area_block a]) @ B2"
      by (rule blocks_upd [OF i, of "nd_areas s"]) blast
    have b0: "blocks_of (nd_areas s) = B1 @ B2" using B [of ?a] c(4) by simp
    have b1: "blocks_of ((nd_areas s)(?i := ?n)) = B1 @ [(?z, kv, ph)] @ B2" using B [of ?n] k by (simp add: area_block_def)
    have len: "length (B1 @ B2) < 2048" using blocks_length [of "(nd_areas s)(?i := ?n)"] b1 by simp
    have "area_ok ?n" using k page_round [OF c(2,3)] by (simp add: area_ok_def)
    then have "areas_inv ((area_put s ?i ?n)\<lparr>nd_mem := s32 (nd_mem s + ?z), nd_buffers := s32 (nd_buffers s + 1), nd_dma := (?z, kv, ph) # nd_dma s\<rparr>)"
      using inv b0 b1 len by (simp add: areas_inv_def area_put_def s32_id s32_add_s32 s32_s32_add algebra_simps)
    then show ?thesis using Inr b by (simp add: alloc_commit_def Let_def area_put_def)
  qed
qed


lemma dealloc_ok:
  assumes "areas_inv s"
  obtains ret s' where "nna_dealloc r s = Some (ret, s')" "areas_inv s'" "nd_res_size s' = nd_res_size s" "nd_open s' = nd_open s" "nd_locked s' = nd_locked s"
proof (cases "in_table (mr_client r) (mr_mem r) \<and> na_kvirt (nd_areas s (nat (mr_client r), nat (mr_mem r))) \<noteq> 0
    \<and> na_size (nd_areas s (nat (mr_client r), nat (mr_mem r))) > 0")
  case True
  then obtain s' where "area_free (nat (mr_client r), nat (mr_mem r)) s = Some s'" "areas_inv s'" "nd_res_size s' = nd_res_size s"
      "nd_open s' = nd_open s" "nd_locked s' = nd_locked s"
    using area_free_ok [OF in_table_idx assms] by blast
  then show ?thesis using that True by (simp add: nna_dealloc_def Let_def)
next
  case False
  then have "nna_dealloc r s = Some (- EFAULT, s)" by (auto simp: nna_dealloc_def Let_def)
  then show ?thesis using that [OF _ assms] by simp
qed

section \<open>Processes at the device\<close>

text \<open>
  What happens to a device: a process opens it, uses the file and closes it, the accelerator interrupts and
  the sysfs files are written. The calls that need a file do nothing when none is open.
\<close>

datatype nna_op = OpOpen | OpRelease | OpIoctl nna_env nna_req | OpMmap "int \<Rightarrow> bool" bool int nat int int
  | OpInterrupt "int \<times> int" | OpSyncMode bool "byte list" int | OpClkFreq bool "byte list" int

fun nna_act :: "nna_op \<Rightarrow> nna_dev \<Rightarrow> nna_dev option" where
  "nna_act OpOpen s = Some (snd (nna_device_file_open s))"
| "nna_act OpRelease s = (if nd_open s then map_option snd (nna_device_file_release s) else Some s)"
| "nna_act (OpIoctl env req) s = (if nd_open s then map_option (\<lambda>(_, _, s). s) (nna_device_file_ioctl env req s) else Some s)"
| "nna_act (OpMmap pv osync ret pgoff vs ve) s = Some (if nd_open s then snd (snd (nna_device_file_mmap pv osync ret pgoff vs ve s)) else s)"
| "nna_act (OpInterrupt now) s = nna_halt_interrupt now s"
| "nna_act (OpSyncMode intr buf len) s = Some (snd (nna_set_sync_mode intr buf len s))"
| "nna_act (OpClkFreq intr buf len) s = Some (snd (nna_set_clk_freq intr buf len s))"

fun nna_run :: "nna_op list \<Rightarrow> nna_dev \<Rightarrow> nna_dev option" where
  "nna_run [] s = Some s"
| "nna_run (op # ops) s = (case nna_act op s of None \<Rightarrow> None | Some s \<Rightarrow> nna_run ops s)"

text \<open>Requests that stay inside the table and, for registers, do not name the word just behind the \<open>sz\<close> bytes.\<close>

fun op_safe :: "int \<Rightarrow> nna_op \<Rightarrow> bool" where
  "op_safe sz (OpIoctl env (NNA_SYNC_FOR_DEVICE r)) = in_table (ms_client r) (ms_mem r)"
| "op_safe sz (OpIoctl env (NNA_SYNC_FOR_CPU r)) = in_table (ms_client r) (ms_mem r)"
| "op_safe sz (OpIoctl env (NNA_REG_READ off)) = (off \<noteq> sz div 4)"
| "op_safe sz (OpIoctl env (NNA_REG_WRITE off v)) = (off \<noteq> sz div 4)"
| "op_safe sz (OpIoctl env (NNA_ALLOC r)) = alloc_good env"
| "op_safe sz op = True"

definition nna_inv :: "int \<Rightarrow> nna_dev \<Rightarrow> bool" where
  "nna_inv sz s \<longleftrightarrow> areas_inv s \<and> nd_res_size s = sz \<and> nd_locked s = nd_open s \<and> (\<not> nd_open s \<longrightarrow> nd_dma s = [])"

lemma inv_fields:
  "nna_inv sz (s\<lparr>nd_log := l\<rparr>) = nna_inv sz s" "nna_inv sz (s\<lparr>nd_halt := b\<rparr>) = nna_inv sz s" "nna_inv sz (s\<lparr>nd_irq_ts := ts\<rparr>) = nna_inv sz s"
  "nna_inv sz (s\<lparr>nd_sync_mode := m\<rparr>) = nna_inv sz s" "nna_inv sz (s\<lparr>nd_clk_freq := f\<rparr>) = nna_inv sz s"
  by (simp_all add: nna_inv_def areas_inv_def)

lemma reg_accepted: "\<not> reg_refused s off \<Longrightarrow> off \<noteq> nd_res_size s div 4 \<Longrightarrow> reg_ok s (4 * off)"
  by (simp add: reg_refused_def reg_ok_def) presburger

lemma alloc_frame:
  "nd_res_size (snd (snd (nna_alloc env r s))) = nd_res_size s" "nd_open (snd (snd (nna_alloc env r s))) = nd_open s"
  "nd_locked (snd (snd (nna_alloc env r s))) = nd_locked s"
  by (simp_all add: nna_alloc_def alloc_commit_def area_put_def Let_def split: sum.split prod.split)

lemma ioctl_inv:
  assumes inv: "nna_inv sz s" and o: "nd_open s" and safe: "op_safe sz (OpIoctl env req)"
  shows "\<exists>ret rep s'. nna_device_file_ioctl env req s = Some (ret, rep, s') \<and> nna_inv sz s'"
proof (cases "req \<noteq> NNA_CLEAR_POLL \<and> \<not> ne_arg env")
  case True
  then show ?thesis using inv by (simp add: nna_device_file_ioctl_def)
next
  case False
  have sz: "nd_res_size s = sz" using inv by (simp add: nna_inv_def)
  show ?thesis
  proof (cases req)
    case (NNA_ALLOC r)
    have "areas_inv (snd (snd (nna_alloc env r s)))"
      using alloc_commit_ok [of s r env] inv safe NNA_ALLOC by (auto simp: nna_alloc_def nna_inv_def)
    then have i: "nna_inv sz (snd (snd (nna_alloc env r s)))" using inv o by (simp add: nna_inv_def alloc_frame)
    obtain ret rep s' where a: "nna_alloc env r s = (ret, rep, s')" by (rule prod_cases3)
    show ?thesis using i False inv NNA_ALLOC a by (auto simp: nna_device_file_ioctl_def)
  next
    case (NNA_DEALLOC r)
    have "areas_inv s" using inv by (simp add: nna_inv_def)
    then obtain ret s' where "nna_dealloc r s = Some (ret, s')" "areas_inv s'" "nd_res_size s' = nd_res_size s" "nd_open s' = nd_open s" "nd_locked s' = nd_locked s"
      by (rule dealloc_ok)
    then show ?thesis using False inv o NNA_DEALLOC by (auto simp: nna_device_file_ioctl_def nna_inv_def)
  next
    case (NNA_REG_READ off)
    then show ?thesis using False inv safe reg_accepted [of s off] sz by (auto simp: nna_device_file_ioctl_def inv_fields Let_def)
  next
    case (NNA_REG_WRITE off v)
    then show ?thesis using False inv safe reg_accepted [of s off] sz by (auto simp: nna_device_file_ioctl_def inv_fields Let_def)
  next
    case (NNA_SYNC_FOR_DEVICE r)
    then show ?thesis using False inv safe by (auto simp: nna_device_file_ioctl_def nna_sync_def inv_fields Let_def)
  next
    case (NNA_SYNC_FOR_CPU r)
    then show ?thesis using False inv safe by (auto simp: nna_device_file_ioctl_def nna_sync_def inv_fields Let_def)
  qed (use False inv in \<open>auto simp: nna_device_file_ioctl_def inv_fields\<close>)
qed

lemma nna_act_inv:
  assumes inv: "nna_inv sz s" and sz: "72 \<le> sz" and safe: "op_safe sz op"
  shows "\<exists>s'. nna_act op s = Some s' \<and> nna_inv sz s'"
proof (cases op)
  case OpOpen
  then show ?thesis using inv by (auto simp: nna_device_file_open_def nna_inv_def areas_inv_def)
next
  case OpRelease
  show ?thesis
  proof (cases "nd_open s")
    case True
    have "areas_inv s" using inv by (simp add: nna_inv_def)
    then obtain s' where s': "buffers_cleanup s = Some s'" "areas_inv s'" "nd_dma s' = []" "nd_res_size s' = nd_res_size s"
      by (rule buffers_cleanup_ok)
    then have "areas_inv (s'\<lparr>nd_log := nd_log s' @ [RegRead 0x44], nd_halt := False, nd_open := False, nd_locked := False\<rparr>)"
      by (simp add: areas_inv_def)
    then show ?thesis using OpRelease True s' inv sz by (simp add: nna_device_file_release_def reg_ok_def nna_inv_def)
  qed (use OpRelease inv in simp)
next
  case (OpIoctl env req)
  then show ?thesis using ioctl_inv [OF inv, of env req] safe inv by (cases "nd_open s") auto
next
  case (OpMmap pv osync ret pgoff vs ve)
  have put: "nna_inv sz (area_put s i (nd_areas s i\<lparr>na_vm_start := a, na_vm_end := b\<rparr>))" if "i \<in> set area_idx" for i a b
  proof -
    have "area_ok (nd_areas s i)" using inv that by (auto simp: nna_inv_def areas_inv_def)
    then have "areas_inv (area_put s i (nd_areas s i\<lparr>na_vm_start := a, na_vm_end := b\<rparr>))"
      using inv by (intro areas_inv_upd [OF that]) (simp_all add: nna_inv_def area_ok_def area_block_def)
    then show ?thesis using inv by (simp add: nna_inv_def area_put_def)
  qed
  then show ?thesis using OpMmap inv in_table_idx by (auto simp: nna_device_file_mmap_def Let_def)
next
  case (OpInterrupt now)
  then show ?thesis using inv sz by (auto simp: nna_halt_interrupt_def reg_ok_def inv_fields nna_inv_def areas_inv_def)
next
  case (OpSyncMode intr buf len)
  then show ?thesis using inv by (auto simp: nna_set_sync_mode_def inv_fields split: sum.split)
next
  case (OpClkFreq intr buf len)
  then show ?thesis using inv by (auto simp: nna_set_clk_freq_def inv_fields Let_def split: sum.split)
qed

lemma nna_run_inv: "nna_inv sz s \<Longrightarrow> 72 \<le> sz \<Longrightarrow> \<forall>op\<in>set ops. op_safe sz op \<Longrightarrow> \<exists>s'. nna_run ops s = Some s' \<and> nna_inv sz s'"
proof (induction ops arbitrary: s)
  case (Cons op ops)
  obtain s1 where "nna_act op s = Some s1" "nna_inv sz s1" using nna_act_inv [OF Cons.prems(1,2), of op] Cons.prems(3) by auto
  then show ?case using Cons.IH [of s1] Cons.prems by simp
qed simp


lemma nna_inv_closed_form:
  assumes "nna_inv sz s"
  shows "nd_buffers s = int (length (nd_dma s))" "nd_mem s = s32 (sum_list (map fst (nd_dma s)))" "\<not> nd_open s \<Longrightarrow> nd_dma s = []"
proof -
  have m: "mset (nd_dma s) = mset (blocks_of (nd_areas s))" using assms by (simp add: nna_inv_def areas_inv_def)
  have "length (nd_dma s) = length (blocks_of (nd_areas s))" using m by (rule mset_eq_length)
  then show "nd_buffers s = int (length (nd_dma s))" using assms by (simp add: nna_inv_def areas_inv_def)
  have "sum_list (map fst (nd_dma s)) = sum_list (map fst (blocks_of (nd_areas s)))"
    using m by (metis mset_map sum_mset_sum_list)
  then show "nd_mem s = s32 (sum_list (map fst (nd_dma s)))" using assms by (simp add: nna_inv_def areas_inv_def)
  show "nd_dma s = []" if "\<not> nd_open s" using assms that by (simp add: nna_inv_def)
qed

lemma blocks_of_empty: "(\<And>i. na_kvirt (areas i) = 0) \<Longrightarrow> blocks_of areas = []"
  by (simp add: blocks_of_def)

lemma areas_inv_zero: "nd_areas s = (\<lambda>_. area_empty) \<Longrightarrow> nd_dma s = [] \<Longrightarrow> nd_buffers s = 0 \<Longrightarrow> nd_mem s = 0 \<Longrightarrow> areas_inv s"
  by (simp add: areas_inv_def blocks_of_empty area_empty_def area_ok_def s32_id)

lemma nna_create_zero:
  assumes "nna_device_create ida mem sysdev cdev minor = (Some s, held)"
  shows "s = nna_dev_zero\<lparr>nd_sync_mode := SYNC_MODE_NONCACHED\<rparr>"
  using assms by (auto simp: nna_device_create_def Let_def split: if_splits)

lemma nna_failed_none: "nna_failed retval s reserved held = Some (ret, Some s0, h) \<Longrightarrow> False"
  by (auto simp: nna_failed_def split: option.splits)

lemma nna_probe_inv:
  assumes p: "nna_platform_driver_probe pe = Some (0, Some s0, held)" and sz: "np_resource pe = Inr sz"
  shows "nna_inv sz s0"
proof -
  obtain s h where c: "nna_device_create (np_ida pe) (np_mem pe) (np_sysdev pe) (np_cdev pe) (case np_minor pe of None \<Rightarrow> - 1 | Some v \<Rightarrow> s32 v) = (Some s, h)"
    using p by (cases "nna_device_create (np_ida pe) (np_mem pe) (np_sysdev pe) (np_cdev pe) (case np_minor pe of None \<Rightarrow> - 1 | Some v \<Rightarrow> s32 v)")
      (auto simp: nna_platform_driver_probe_def split: if_splits option.splits)
  then have z: "s = nna_dev_zero\<lparr>nd_sync_mode := SYNC_MODE_NONCACHED\<rparr>" by (rule nna_create_zero)
  have "nd_areas s0 = (\<lambda>_. area_empty) \<and> nd_dma s0 = [] \<and> nd_buffers s0 = 0 \<and> nd_mem s0 = 0 \<and> nd_res_size s0 = sz \<and> \<not> nd_locked s0 \<and> \<not> nd_open s0"
    using p sz c z by (auto simp: nna_platform_driver_probe_def Let_def nna_dev_zero_def dest: nna_failed_none split: if_splits option.splits)
  then show ?thesis by (auto simp: nna_inv_def intro: areas_inv_zero)
qed


section \<open>The table a process sees\<close>

text \<open>
  To a process the device is a finite map from the numbers of an area to its size and bus address: an
  allocation adds an entry of the size rounded up to pages, a free removes it, and a mapping needs it.
\<close>

type_synonym nna_table = "nat \<times> nat \<Rightarrow> (int \<times> int) option"

definition table_of :: "nna_dev \<Rightarrow> nna_table" where
  "table_of s i = (if i \<in> set area_idx \<and> na_kvirt (nd_areas s i) \<noteq> 0 then Some (na_size (nd_areas s i), na_phy (nd_areas s i)) else None)"

definition pages_up :: "int \<Rightarrow> int" where
  "pages_up sz = (sz + 4095) div 4096 * 4096"

definition table_alloc :: "nna_env \<Rightarrow> mem_request \<Rightarrow> nna_table \<Rightarrow> int \<times> nna_table" where
  "table_alloc env r t =
     (let i = (nat (mr_client r), nat (mr_mem r)) in
      if \<not> in_table (mr_client r) (mr_mem r) \<or> mr_size r \<le> 0 \<or> NNA_MAX_MEMAREA_SIZE \<le> mr_size r \<or> t i \<noteq> None then (- EFAULT, t)
      else case ne_alloc env (pages_up (mr_size r)) of
        Inl e \<Rightarrow> (if e = 0 then - ENOMEM else e, t)
      | Inr (kvirt, phy) \<Rightarrow> (if ne_to env then 0 else - EFAULT, t(i \<mapsto> (pages_up (mr_size r), phy))))"

definition table_dealloc :: "mem_request \<Rightarrow> nna_table \<Rightarrow> int \<times> nna_table" where
  "table_dealloc r t =
     (let i = (nat (mr_client r), nat (mr_mem r)) in
      if in_table (mr_client r) (mr_mem r) \<and> t i \<noteq> None then (0, t(i := None)) else (- EFAULT, t))"

lemma page_round_pages_up:
  assumes "0 < sz" "sz < NNA_MAX_MEMAREA_SIZE"
  shows "page_round sz = pages_up sz"
proof -
  have "s32 (sz + 4095) = sz + 4095" using assms by (intro s32_id) (simp_all add: NNA_MAX_MEMAREA_SIZE_def)
  then show ?thesis by (simp add: page_round_def push_bit_eq_mult drop_bit_eq_div pages_up_def)
qed

lemma table_of_put: "i \<in> set area_idx \<Longrightarrow> table_of (area_put s i a) = (table_of s)(i := if na_kvirt a = 0 then None else Some (na_size a, na_phy a))"
  by (rule ext) (simp add: table_of_def area_put_def)

lemma table_of_vm: "table_of (area_put s i (nd_areas s i\<lparr>na_vm_start := vs, na_vm_end := ve\<rparr>)) = table_of s"
  by (rule ext) (simp add: table_of_def area_put_def)

lemma table_of_fields:
  "table_of (s\<lparr>nd_dma := d\<rparr>) = table_of s" "table_of (s\<lparr>nd_mem := m\<rparr>) = table_of s" "table_of (s\<lparr>nd_buffers := b\<rparr>) = table_of s"
  by (simp_all add: table_of_def fun_eq_iff)

lemma alloc_table:
  assumes "alloc_good env"
  shows "(\<lambda>(ret, _, s'). (ret, table_of s')) (nna_alloc env r s) = table_alloc env r (table_of s)"
proof (cases "in_table (mr_client r) (mr_mem r) \<and> 0 < mr_size r \<and> mr_size r < NNA_MAX_MEMAREA_SIZE \<and> na_kvirt (nd_areas s (nat (mr_client r), nat (mr_mem r))) = 0")
  case True
  then have i: "(nat (mr_client r), nat (mr_mem r)) \<in> set area_idx" using in_table_idx by blast
  have z: "page_round (mr_size r) = pages_up (mr_size r)" using True by (intro page_round_pages_up) simp_all
  have t: "table_of s (nat (mr_client r), nat (mr_mem r)) = None" using True by (simp add: table_of_def)
  show ?thesis
    using True i z t assms
    by (auto simp: nna_alloc_def alloc_check_def alloc_commit_def table_alloc_def Let_def table_of_put table_of_fields area_clear_def alloc_good_def fun_upd_idem split: sum.split)
next
  case False
  then have "alloc_check r s = - EFAULT" by (auto simp: alloc_check_def)
  moreover have "table_alloc env r (table_of s) = (- EFAULT, table_of s)"
    using False in_table_idx [of "mr_client r" "mr_mem r"] by (auto simp: table_alloc_def Let_def table_of_def)
  ultimately show ?thesis by (simp add: nna_alloc_def EFAULT_def)
qed

lemma dealloc_table:
  assumes inv: "areas_inv s"
  shows "map_option (\<lambda>(ret, s'). (ret, table_of s')) (nna_dealloc r s) = Some (table_dealloc r (table_of s))"
proof (cases "in_table (mr_client r) (mr_mem r)")
  case True
  let ?i = "(nat (mr_client r), nat (mr_mem r))"
  have i: "?i \<in> set area_idx" using True by (rule in_table_idx)
  show ?thesis
  proof (cases "na_kvirt (nd_areas s ?i) = 0")
    case False
    have "na_size (nd_areas s ?i) > 0" using False inv i by (auto simp: areas_inv_def area_ok_def split: if_splits)
    moreover obtain s' where s': "area_free ?i s = Some s'" "nd_areas s' = (nd_areas s)(?i := area_clear (nd_areas s ?i))"
      by (rule area_free_ok [OF i inv False]) blast
    moreover have "table_of s' = (table_of s)(?i := None)" by (rule ext) (simp add: table_of_def s'(2) area_clear_def)
    ultimately show ?thesis using True i False by (simp add: nna_dealloc_def table_dealloc_def Let_def table_of_def)
  qed (use True i in \<open>simp add: nna_dealloc_def table_dealloc_def Let_def table_of_def\<close>)
qed (simp add: nna_dealloc_def table_dealloc_def)

lemma mmap_table:
  assumes inv: "areas_inv s"
  shows "table_of (snd (snd (nna_device_file_mmap pv osync mret pgoff vs ve s))) = table_of s"
    and "m < 1000 \<Longrightarrow> c < 1000000 \<Longrightarrow> fst (nna_device_file_mmap pv osync 0 (1000 * c + m) vs ve s) = 0 \<longleftrightarrow> table_of s (c, m) \<noteq> None"
proof -
  have ok: "area_ok (nd_areas s i)" if "i \<in> set area_idx" for i using inv that by (auto simp: areas_inv_def)
  then show "table_of (snd (snd (nna_device_file_mmap pv osync mret pgoff vs ve s))) = table_of s"
    by (simp add: nna_device_file_mmap_def Let_def table_of_vm)
  assume that: "m < 1000" "c < 1000000"
  have d: "(1000 * c + m) div 1000 = c" "(1000 * c + m) mod 1000 = m" using that by simp_all
  have s: "s32 (int c) = int c" "s32 (int m) = int m" using that by (simp_all add: s32_id)
  have t: "in_table (int c) (int m) \<longleftrightarrow> (c, m) \<in> set area_idx" by (simp add: in_table_def area_idx_facts NNA_MAX_CLIENTS_def NNA_MAX_AREAS_def)
  have z: "na_size (nd_areas s (c, m)) \<noteq> 0 \<longleftrightarrow> na_kvirt (nd_areas s (c, m)) \<noteq> 0" if "(c, m) \<in> set area_idx"
    using ok [OF that] by (auto simp: area_ok_def split: if_splits)
  show "fst (nna_device_file_mmap pv osync 0 (1000 * c + m) vs ve s) = 0 \<longleftrightarrow> table_of s (c, m) \<noteq> None"
    unfolding nna_device_file_mmap_def Let_def d s t using z by (auto simp: table_of_def EFAULT_def)
qed

text \<open>C9: In every state that a probe and safe calls lead to, an allocation, a free and a mapping do to the table
  what the finite map says: the size is rounded up to pages, an entry cannot be allocated twice nor freed
  when it is not there, and exactly the entries that are there can be mapped.
\<close>

theorem accelerator_table_refined:
  assumes "nna_platform_driver_probe pe = Some (0, Some s0, held)" "np_resource pe = Inr sz" "72 \<le> sz" "\<forall>op\<in>set ops. op_safe sz op"
    "nna_run ops s0 = Some s" "alloc_good env" "m < 1000" "c < 1000000"
  shows "(\<lambda>(ret, _, s'). (ret, table_of s')) (nna_alloc env r s) = table_alloc env r (table_of s)
       \<and> map_option (\<lambda>(ret, s'). (ret, table_of s')) (nna_dealloc r s) = Some (table_dealloc r (table_of s))
       \<and> table_of (snd (snd (nna_device_file_mmap pv osync mret (1000 * c + m) vs ve s))) = table_of s
       \<and> (fst (nna_device_file_mmap pv osync 0 (1000 * c + m) vs ve s) = 0 \<longleftrightarrow> table_of s (c, m) \<noteq> None)"
proof -
  have "nna_inv sz s" using nna_run_inv [OF nna_probe_inv [OF assms(1,2)] assms(3,4)] assms(5) by auto
  then have i: "areas_inv s" by (simp add: nna_inv_def)
  show ?thesis using alloc_table [OF assms(6)] dealloc_table [OF i] mmap_table [OF i] assms(7,8) by blast
qed

section \<open>An example, and what goes wrong\<close>

definition nna_penv_example :: nna_penv where
  "nna_penv_example = \<lparr>np_match = True, np_minor = None, np_ida = (\<lambda>lo hi. lo), np_mem = True, np_sysdev = True, np_cdev = 0, np_resource = Inr 4096,
     np_region = True, np_iomap = True, np_irq = 77, np_request_irq = 0, np_reserved = 0, np_dma_config = 0, np_sync_mode = Some 2\<rparr>"

definition nna_env_example :: nna_env where
  "nna_env_example = \<lparr>ne_arg = True, ne_from = True, ne_to = True, ne_alloc = (\<lambda>sz. Inr (0x7000, 0x80000000)), ne_osync = False, ne_reg = (\<lambda>_. 0)\<rparr>"

definition request_example :: mem_request where
  "request_example = \<lparr>mr_client = 3, mr_mem = 7, mr_size = 5000, mr_sync = 0\<rparr>"

definition nna_started :: nna_dev where
  "nna_started = nna_dev_zero\<lparr>nd_sync_mode := 2, nd_res_size := 4096, nd_halt_irq := 77\<rparr>"

lemma probe_example: "nna_platform_driver_probe nna_penv_example = Some (0, Some nna_started, {NnaMinor 0, NnaMemory, NnaSysDev, NnaCdev, NnaRegion, NnaIomap, NnaIrq, NnaReservedMem, NnaPm})"
  by (simp add: nna_platform_driver_probe_def nna_penv_example_def nna_device_create_def nna_started_def nna_dev_zero_def DEVICE_MAX_NUM_def Let_def) auto

lemma alloc_good_example: "alloc_good nna_env_example"
  by (simp add: alloc_good_def nna_env_example_def)


theorem accelerator_table_refined_witness:
  "(\<lambda>(ret, _, s'). (ret, table_of s')) (nna_alloc nna_env_example request_example nna_started)
     = table_alloc nna_env_example request_example (table_of nna_started)"
  using accelerator_table_refined [OF probe_example, of 4096 "[]" nna_started nna_env_example 7 3 request_example "\<lambda>_. True" False 0 0 0]
  by (simp add: nna_penv_example_def alloc_good_example)

text \<open>
  The synchronisation of an area out of the table reads whatever lies there, although the two other requests
  with such numbers test them.
\<close>

theorem sync_index_unchecked:
  assumes "\<not> in_table (ms_client r) (ms_mem r)"
  shows "nna_sync env dir r s = None"
  using assms by (simp add: nna_sync_def)

text \<open>The range of a register number is one word too long.\<close>

theorem register_one_past:
  assumes "0 \<le> nd_res_size s" "ne_arg env" "ne_from env"
  shows "nna_device_file_ioctl env (NNA_REG_READ (nd_res_size s div 4)) s = None"
proof -
  have "\<not> reg_refused s (nd_res_size s div 4)" using assms(1) by (simp add: reg_refused_def)
  moreover have "\<not> reg_ok s (4 * (nd_res_size s div 4))" unfolding reg_ok_def by presburger
  ultimately show ?thesis using assms by (simp add: nna_device_file_ioctl_def)
qed

text \<open>
  The length of a mapping is not compared with the size of its area, and the test at a fault subtracts
  unsigned numbers: a fault behind the end of the area maps the memory that follows the area.
\<close>

theorem mapping_exposes_memory:
  assumes "fault_area s vs = Some a" "0 \<le> na_size a" "na_size a mod 4096 = 0" "na_size a < 4096 * int n" "n < 2 ^ 50"
    "pv (drop_bit 12 (u64w (na_phy a + 4096 * int n)))"
  shows "nna_device_vma_fault pv s vs n = Some (drop_bit 12 (u64w (na_phy a + 4096 * int n)))"
proof -
  have n: "int n < 1125899906842624" using assms(5) by simp
  have "push_bit 12 (int n) = 4096 * int n" by (simp add: push_bit_eq_mult)
  then have o: "u64w (push_bit 12 (int n)) = 4096 * int n" using n by (simp add: u64w_id)
  obtain k where "na_size a = 4096 * k" using assms(3) by (metis mod_0_imp_dvd dvdE)
  then have le: "na_size a - 4096 * int n \<le> - 4096" using assms(4) by simp
  let ?x = "na_size a - 4096 * int n"
  have "u64w ?x = u64w (?x + 18446744073709551616)" by (simp add: u64w_def)
  also have "\<dots> = ?x + 18446744073709551616" using le n assms(2) by (intro u64w_id) linarith+
  finally have "\<not> 4096 > u64w ?x" using assms(2) n by linarith
  then show ?thesis using assms(1,6) unfolding nna_device_vma_fault_def Let_def o by simp
qed

text \<open>
  The ioctl takes no lock. When two threads both test a free entry before either fills it, the second block
  replaces the first in the table, and closing the file does not give the first one back.
\<close>

lemma cleanup_keeps:
  "cleanup_loop is s = Some s' \<Longrightarrow> b \<in> set (nd_dma s) \<Longrightarrow> fst (snd b) \<noteq> 0 \<Longrightarrow> \<forall>i. na_kvirt (nd_areas s i) \<noteq> fst (snd b) \<Longrightarrow> b \<in> set (nd_dma s')"
proof (induction "is" arbitrary: s)
  case (Cons i "is")
  show ?case
  proof (cases "na_kvirt (nd_areas s i) = 0")
    case True
    then show ?thesis using Cons.IH [of s] Cons.prems by simp
  next
    case False
    then obtain s1 where s1: "area_free i s = Some s1" "cleanup_loop is s1 = Some s'" using Cons.prems(1) by (auto split: option.splits)
    have ne: "b \<noteq> (na_size (nd_areas s i), na_kvirt (nd_areas s i), na_phy (nd_areas s i))" using Cons.prems(4) by (metis fst_conv snd_conv)
    have "b \<in> set (nd_dma s1) \<and> (\<forall>j. na_kvirt (nd_areas s1 j) \<noteq> fst (snd b))"
      using s1(1) ne Cons.prems(2-4)
      by (auto simp: area_free_def dma_free_coherent_def area_put_def area_clear_def Let_def in_set_remove1 split: if_splits)
    then show ?thesis using Cons.IH [OF s1(2)] Cons.prems(3) by simp
  qed
qed simp

theorem racing_allocations_lose_block:
  assumes "alloc_check r s = 0" "ne_alloc env1 (page_round (mr_size r)) = Inr (kv1, ph1)" "ne_alloc env2 (page_round (mr_size r)) = Inr (kv2, ph2)"
    "kv1 \<noteq> 0" "kv1 \<noteq> kv2" "\<forall>i. na_kvirt (nd_areas s i) \<noteq> kv1"
    "buffers_cleanup (snd (snd (alloc_commit env2 r (snd (snd (alloc_commit env1 r s)))))) = Some s'"
  shows "(page_round (mr_size r), kv1, ph1) \<in> set (nd_dma s')"
proof (rule cleanup_keeps [OF assms(7) [unfolded buffers_cleanup_def]])
  show "\<forall>i. na_kvirt (nd_areas (snd (snd (alloc_commit env2 r (snd (snd (alloc_commit env1 r s)))))) i) \<noteq> fst (snd (page_round (mr_size r), kv1, ph1))"
    using assms by (simp add: alloc_commit_def area_put_def Let_def split: if_splits)
qed (use assms in \<open>simp_all add: alloc_commit_def area_put_def Let_def\<close>)

text \<open>
  A probe that cannot get the region of the registers, map them or find the interrupt reports success with
  the device destroyed: the status is still the 0 of the last call that worked.
\<close>

theorem probe_failure_succeeds:
  assumes "np_match pe" "nna_device_create (np_ida pe) (np_mem pe) (np_sysdev pe) (np_cdev pe) (case np_minor pe of None \<Rightarrow> - 1 | Some v \<Rightarrow> s32 v) = (Some s, h)"
    "np_resource pe = Inr sz" "\<not> np_region pe \<or> \<not> np_iomap pe \<or> np_irq pe < 0"
  shows "\<exists>held. nna_platform_driver_probe pe = Some (0, None, held) \<and> NnaCdev \<notin> held"
proof -
  have z: "s = nna_dev_zero\<lparr>nd_sync_mode := SYNC_MODE_NONCACHED\<rparr>" by (rule nna_create_zero [OF assms(2)])
  have f: "\<exists>held'. nna_failed 0 t False held = Some (0, None, held') \<and> NnaCdev \<notin> held'"
    if "nd_areas t = (\<lambda>_. area_empty)" "nd_dma t = []" "nd_buffers t = 0" "nd_mem t = 0" for t held
  proof -
    have "areas_inv t" by (rule areas_inv_zero [OF that])
    then obtain t' where "buffers_cleanup t = Some t'" by (rule buffers_cleanup_ok)
    then show ?thesis by (simp add: nna_failed_def nna_platform_driver_cleanup_def nna_device_destroy_def Let_def)
  qed
  show ?thesis using assms z by (auto simp: nna_platform_driver_probe_def nna_dev_zero_def Let_def intro!: f)
qed

end
