(* ===== verification/Charger_Data.thy ===== *)
theory Charger_Data
  imports Prelude
begin

text \<open>
  The data of the charger framework (\<^verbatim>\<open>drivers/power/supply/mtk_charger.h\<close>) and the charger chip. The chip is what
  the driver tells it: whether it is enabled, its voltage and currents, and the events it was sent, in order.
  What the chip, the gauge and the Type-C controller answer is in the environment of a pass, one field for each
  place that asks, since two readings within a pass may differ. The fast charging algorithms are known by
  their answers. \<^verbatim>\<open>CONFIG_MTK_USE_AGING_ZCV\<close> is set.
\<close>

section \<open>Data\<close>

datatype sw_jeita_state = TEMP_BELOW_T0 | TEMP_T0_TO_T1 | TEMP_T1_TO_T2 | TEMP_T2_TO_T3 | TEMP_T3_TO_T4 | TEMP_ABOVE_T4

datatype bat_temp_state = BAT_TEMP_LOW | BAT_TEMP_NORMAL | BAT_TEMP_HIGH

datatype vbus_voltage_state = VBUS_NORMAL | VBUS_OVP | VBUS_UVLO

abbreviation (input) POWER_SUPPLY_TYPE_UNKNOWN :: int where "POWER_SUPPLY_TYPE_UNKNOWN \<equiv> 0"
abbreviation (input) POWER_SUPPLY_TYPE_USB :: int where "POWER_SUPPLY_TYPE_USB \<equiv> 4"
abbreviation (input) POWER_SUPPLY_TYPE_USB_DCP :: int where "POWER_SUPPLY_TYPE_USB_DCP \<equiv> 5"
abbreviation (input) POWER_SUPPLY_TYPE_USB_CDP :: int where "POWER_SUPPLY_TYPE_USB_CDP \<equiv> 6"
abbreviation (input) POWER_SUPPLY_TYPE_WIRELESS :: int where "POWER_SUPPLY_TYPE_WIRELESS \<equiv> 12"
abbreviation (input) POWER_SUPPLY_TYPE_USB_FLOAT :: int where "POWER_SUPPLY_TYPE_USB_FLOAT \<equiv> 16"
abbreviation (input) POWER_SUPPLY_TYPE_WIRELESS_5W :: int where "POWER_SUPPLY_TYPE_WIRELESS_5W \<equiv> 17"
abbreviation (input) POWER_SUPPLY_TYPE_WIRELESS_10W :: int where "POWER_SUPPLY_TYPE_WIRELESS_10W \<equiv> 18"

abbreviation (input) BCM_FLAG_NONE :: int where "BCM_FLAG_NONE \<equiv> 0"
abbreviation (input) BCM_FLAG_CHARGE_TIMER :: int where "BCM_FLAG_CHARGE_TIMER \<equiv> 1"
abbreviation (input) BCM_FLAG_SECONDARY_THERMAL :: int where "BCM_FLAG_SECONDARY_THERMAL \<equiv> 2"

text \<open>
  The voltages that exist for a new and for two stages of an aged battery are functions of the stage (0, 1, 2),
  those of the temperature ranges also of the state.
\<close>

record charger_custom_data =
  cc_battery_cv :: "nat \<Rightarrow> int"
  cc_max_charger_voltage :: int
  cc_max_charger_voltage_setting :: int
  cc_min_charger_voltage :: int
  cc_vbus_uvlo_voltage :: int
  cc_usb_current :: int
  cc_ac_current :: int
  cc_ac_input_current :: int
  cc_non_std_current :: int
  cc_host_current :: int
  cc_w5_input :: int
  cc_w5_current :: int
  cc_w10_input :: int
  cc_w10_current :: int
  cc_wd_input :: int
  cc_wd_current :: int
  cc_jeita_cv :: "nat \<Rightarrow> sw_jeita_state \<Rightarrow> int"
  cc_t4 :: int
  cc_t4_minus :: int
  cc_t3 :: int
  cc_t3_minus :: int
  cc_t2 :: int
  cc_t2_plus :: int
  cc_t1 :: int
  cc_t1_plus :: int
  cc_t0 :: int
  cc_t0_plus :: int
  cc_neg_10 :: int
  cc_t0_t1_current :: int
  cc_t3_t4_current :: int
  cc_min_voltage_1 :: int
  cc_min_voltage_2 :: int
  cc_max_dmivr_current :: int

record charger_data =
  ch_input_limit :: int
  ch_charging_limit :: int
  ch_force_charging :: int
  ch_force_input :: int
  ch_thermal_input :: int
  ch_thermal_power :: int
  ch_thermal_charging :: int
  ch_disable_count :: int
  ch_aicl :: int
  ch_tj_min :: int
  ch_tj_max :: int

record power_detection_data =
  pw_en :: bool
  pw_iusb_ua :: int
  pw_type :: nat
  pw_9w_aicl_min :: int
  pw_12w_aicl_min :: int
  pw_5w_lim :: int
  pw_7p5w_lim :: int
  pw_9w_lim :: int
  pw_12w_lim :: int
  pw_15w_lim :: int
  pw_trigger_iusb :: int
  pw_trigger_ichg :: int

record sw_jeita_data =
  sj_sm :: sw_jeita_state
  sj_pre_sm :: sw_jeita_state
  sj_cv :: int
  sj_charging :: bool

record thermal_protection =
  bt_sm :: bat_temp_state
  bt_enable_min :: bool
  bt_min :: int
  bt_min_plus :: int
  bt_max :: int
  bt_max_minus :: int

record chg_limit_setting =
  st_cv :: int
  st_input1 :: int
  st_input2 :: int
  st_charging1 :: int
  st_charging2 :: int

text \<open>The limits of the check for a weak input at the end of a charge, and of the check for a bad charger.\<close>

record dpm_limits =
  dp_vdiff_uv :: int
  dp_ibat_ma :: int
  dp_count_max :: int
  dp_low_soc_diff :: int
  dp_input_ua :: int
  dp_charge_ua :: int

record invchg_limits =
  iv_iusb_ua :: int
  iv_ichg_ua :: int
  iv_mivr_uv :: int

datatype alg_notify = EVT_PLUG_IN | EVT_PLUG_OUT | EVT_FULL | EVT_RECHARGE
datatype dev_event = EVENT_FULL | EVENT_RECHARGE | EVENT_DISCHARGE
datatype bat_metric = MetricBcm int | MetricTopOff bool | MetricDpmEoc int | MetricInvalidCharger | MetricAdapter nat int
  | MetricFault nat

datatype chg_event = AlgStop nat | AlgStart nat | AlgNotify nat alg_notify | AlgLimit nat chg_limit_setting | DevEvent dev_event
  | DevPlugIn | DevPlugOut | ChgStat u32 | TimerStart | DiffFullCv int | Metric bat_metric | PowerOff | WakeCharger | RunAicl | WpcAlgorithm
  | PowerPath bool | SafetyTimer bool

record chg_hw =
  hw_en :: bool
  hw_cv :: int
  hw_input :: int
  hw_ichg :: int
  hw_mivr :: int
  hw_ir_comp :: bool
  hw_pmic :: u32 \<comment> \<open>register 0xb88 of the PMIC\<close>
  hw_log :: "chg_event list"

text \<open>
  The last fields are the static variables of the functions \<^verbatim>\<open>battery_protect_algo\<close>, \<^verbatim>\<open>battery_full_track\<close> and
  \<^verbatim>\<open>bat_eoc_protect_handle_plug_state\<close>, the switch of an invalid charger, and the chip. \<open>mc_algs\<close> are the
  slots that hold a fast charging algorithm; \<open>mc_basic\<close> says that the algorithm of the driver is the basic one
  (otherwise none is set).
\<close>

record mtk_charger =
  mc_data :: charger_custom_data
  mc_dpm :: dpm_limits
  mc_inv :: invchg_limits
  mc_pw :: power_detection_data
  mc_chg1 :: charger_data
  mc_chg2 :: charger_data
  mc_setting :: chg_limit_setting
  mc_series :: bool
  mc_has_chg2 :: bool
  mc_bootmode :: nat
  mc_bcm_flag :: int
  mc_chr_type :: int
  mc_cable_out_cnt :: int
  mc_polling :: bool
  mc_usb_unlimited :: bool
  mc_disable_charger :: bool
  mc_battery_temp :: int
  mc_can_charging :: bool
  mc_cmd_discharging :: bool
  mc_safety_timeout :: bool
  mc_vbusov_stat :: bool
  mc_is_chg_done :: bool
  mc_atm_enabled :: bool
  mc_basic :: bool
  mc_notify_code :: u32
  mc_notify_test_mode :: nat
  mc_enable_sw_jeita :: bool
  mc_sw_jeita :: sw_jeita_data
  mc_thermal :: thermal_protection
  mc_algs :: "nat list"
  mc_enable_hv :: bool
  mc_water :: bool
  mc_enable_dynamic_mivr :: bool
  mc_enable_eoc :: bool
  mc_bat_eoc_protect :: bool
  mc_soc_exit_eoc :: int
  mc_dpm_disable :: bool
  mc_soc_exit_dpm :: int
  mc_cv_enter_dpm :: int
  mc_dpm_count :: int
  mc_inv_done :: bool
  mc_inv_weak :: bool
  mc_disconnect_time :: int
  mc_disconnect_duration :: int
  mc_reset_time :: int
  mc_top_off_enable :: int
  mc_custom_cv :: int
  mc_top_off_cv :: "nat \<Rightarrow> int"
  mc_top_off_diff :: int
  mc_normal_diff :: int
  mc_custom_mode :: int
  mc_vbus_state :: vbus_voltage_state
  mc_uvlo_recovery :: bool
  mc_pd_type :: int
  mc_pd_reset :: bool
  mc_has_tcpc :: bool
  mc_recharge_soc :: int
  mc_update_eoc :: bool
  mc_plug_status :: bool
  mc_invalid_switch :: int
  mc_hw :: chg_hw

section \<open>The chip\<close>

definition chg_note :: "chg_event \<Rightarrow> mtk_charger \<Rightarrow> mtk_charger" where
  "chg_note ev s = s\<lparr>mc_hw := (mc_hw s)\<lparr>hw_log := hw_log (mc_hw s) @ [ev]\<rparr>\<rparr>"

definition charger_dev_enable :: "bool \<Rightarrow> mtk_charger \<Rightarrow> mtk_charger" where
  "charger_dev_enable en s = s\<lparr>mc_hw := (mc_hw s)\<lparr>hw_en := en\<rparr>\<rparr>"

definition charger_dev_set_constant_voltage :: "int \<Rightarrow> mtk_charger \<Rightarrow> mtk_charger" where
  "charger_dev_set_constant_voltage v s = s\<lparr>mc_hw := (mc_hw s)\<lparr>hw_cv := v\<rparr>\<rparr>"

definition charger_dev_set_input_current :: "int \<Rightarrow> mtk_charger \<Rightarrow> mtk_charger" where
  "charger_dev_set_input_current v s = s\<lparr>mc_hw := (mc_hw s)\<lparr>hw_input := v\<rparr>\<rparr>"

definition charger_dev_set_charging_current :: "int \<Rightarrow> mtk_charger \<Rightarrow> mtk_charger" where
  "charger_dev_set_charging_current v s = s\<lparr>mc_hw := (mc_hw s)\<lparr>hw_ichg := v\<rparr>\<rparr>"

definition charger_dev_set_mivr :: "int \<Rightarrow> mtk_charger \<Rightarrow> mtk_charger" where
  "charger_dev_set_mivr v s = s\<lparr>mc_hw := (mc_hw s)\<lparr>hw_mivr := v\<rparr>\<rparr>"

definition charger_dev_enable_ir_comp :: "bool \<Rightarrow> mtk_charger \<Rightarrow> mtk_charger" where
  "charger_dev_enable_ir_comp b s = s\<lparr>mc_hw := (mc_hw s)\<lparr>hw_ir_comp := b\<rparr>\<rparr>"

text \<open>A call to every algorithm that is there.\<close>

definition each_alg :: "(nat \<Rightarrow> chg_event) \<Rightarrow> mtk_charger \<Rightarrow> mtk_charger" where
  "each_alg ev s = fold (\<lambda>i. chg_note (ev i)) (mc_algs s) s"

lemmas chip_defs = chg_note_def charger_dev_enable_def charger_dev_set_constant_voltage_def charger_dev_set_input_current_def
  charger_dev_set_charging_current_def charger_dev_set_mivr_def charger_dev_enable_ir_comp_def

section \<open>The environment of a pass\<close>

datatype alg_state = ALG_INIT_FAIL | ALG_TA_CHECKING | ALG_TA_NOT_SUPPORT | ALG_NOT_READY | ALG_READY | ALG_RUNNING | ALG_DONE | ALG_OTHER

text \<open>
  Readings are named after the function that takes them: \<open>on\<close> is \<^verbatim>\<open>mtk_is_charger_on\<close>, \<open>ck\<close> \<^verbatim>\<open>charger_check_status\<close>,
  \<open>vb\<close> \<^verbatim>\<open>mtk_chg_check_vbus\<close>, \<open>kp\<close> \<^verbatim>\<open>kpoc_power_off_check\<close>, \<open>mi\<close> \<^verbatim>\<open>check_dynamic_mivr\<close>, \<open>to\<close>
  \<^verbatim>\<open>charger_top_off_mode\<close>, \<open>bp\<close> \<^verbatim>\<open>battery_protect_algo\<close>, \<open>ft\<close> \<^verbatim>\<open>battery_full_track\<close>, \<open>dp\<close> \<^verbatim>\<open>check_dpm_eoc_state\<close>.
\<close>

record chg_env =
  ce_temp :: int
  ce_aging :: nat
  on_type :: int
  on_soc :: int
  ck_type :: int
  ck_bat_id :: bool
  ck_tj1 :: "(int \<times> int) option"
  ck_tj2 :: "(int \<times> int) option"
  vb_type :: int
  vb_vbus :: int
  vb_wpc_online :: bool
  nt_vbus :: int
  kp_type :: int
  kp_vbus :: int
  kp_soc :: int
  mi_alg :: "nat \<Rightarrow> alg_state"
  mi_vbat :: int
  to_ui_soc :: int
  bp_ui_soc :: int
  bp_soc :: int
  bp_done :: bool
  ft_ui_soc :: int
  ft_done :: bool
  dp_indpm :: "int \<times> bool \<times> bool"
  dp_cv :: int
  dp_soc :: int
  dp_vbat :: int
  dp_ibat :: int
  dp_chg_en :: bool
  dp_done :: bool
  dp_icl :: int
  dp_ccl :: int

end
