(* ===== verification/Charger.thy ===== *)
theory Charger
  imports Charger_Data
begin

text \<open>
  The charger framework (\<^verbatim>\<open>drivers/power/supply/mtk_charger.c\<close>): the JEITA temperature states, the checks that
  stop charging, the protections at the end of a charge, plugging, the top-off mode, and the ways in from sysfs,
  procfs, the power supply class and the Type-C controller.
\<close>

section \<open>Software JEITA\<close>

text \<open>The next state and whether charging is allowed.\<close>

definition jeita_next :: "charger_custom_data \<Rightarrow> int \<Rightarrow> sw_jeita_state \<Rightarrow> sw_jeita_state \<times> bool" where
  "jeita_next d temp sm =
     (if temp \<ge> cc_t4 d then (TEMP_ABOVE_T4, False)
      else if temp \<ge> cc_t3 d then
        (if sm = TEMP_ABOVE_T4 \<and> temp \<ge> cc_t4_minus d then (sm, False) else (TEMP_T3_TO_T4, True))
      else if temp \<ge> cc_t2 d then
        (if sm = TEMP_T3_TO_T4 \<and> temp \<ge> cc_t3_minus d \<or> sm = TEMP_T1_TO_T2 \<and> temp \<le> cc_t2_plus d then (sm, True)
         else (TEMP_T2_TO_T3, True))
      else if temp \<ge> cc_t1 d then
        (if (sm = TEMP_T0_TO_T1 \<or> sm = TEMP_BELOW_T0) \<and> temp \<le> cc_t1_plus d then (sm, sm \<noteq> TEMP_BELOW_T0)
         else (TEMP_T1_TO_T2, True))
      else if temp \<ge> cc_t0 d then
        (if sm = TEMP_BELOW_T0 \<and> temp \<le> cc_t0_plus d then (sm, False) else (TEMP_T0_TO_T1, True))
      else (TEMP_BELOW_T0, False))"

definition jeita_cv :: "charger_custom_data \<Rightarrow> nat \<Rightarrow> sw_jeita_state \<Rightarrow> int" where
  "jeita_cv d aging sm = (if sm = TEMP_T2_TO_T3 then 0 else if aging = 1 then cc_jeita_cv d 1 sm
     else if aging = 2 then cc_jeita_cv d 2 sm else cc_jeita_cv d 0 sm)"

definition do_sw_jeita_state_machine :: "nat \<Rightarrow> mtk_charger \<Rightarrow> mtk_charger" where
  "do_sw_jeita_state_machine aging s =
     (let j = mc_sw_jeita s; (sm, charging) = jeita_next (mc_data s) (mc_battery_temp s) (sj_sm j)
      in s\<lparr>mc_sw_jeita := \<lparr>sj_sm = sm, sj_pre_sm = sj_sm j, sj_cv = jeita_cv (mc_data s) aging sm, sj_charging = charging\<rparr>\<rparr>)"

definition mtk_get_battery_cv :: "nat \<Rightarrow> mtk_charger \<Rightarrow> int" where
  "mtk_get_battery_cv aging s =
     (if aging = 1 then cc_battery_cv (mc_data s) 1 else if aging = 2 then cc_battery_cv (mc_data s) 2 else cc_battery_cv (mc_data s) 0)"

definition DEFAULT_DEMO_CHARGING_CV :: int where "DEFAULT_DEMO_CHARGING_CV = 4100000"

text \<open>The voltage is unsigned here, and so are the comparisons.\<close>

definition select_cv :: "nat \<Rightarrow> mtk_charger \<Rightarrow> mtk_charger" where
  "select_cv aging s =
     (let cv = u32w (mtk_get_battery_cv aging s);
          cv = (if mc_enable_sw_jeita s \<and> sj_cv (mc_sw_jeita s) \<noteq> 0 then u32w (sj_cv (mc_sw_jeita s)) else cv);
          cv = (if mc_custom_cv s \<noteq> - 1 \<and> u32w (mc_custom_cv s) < cv then u32w (mc_custom_cv s) else cv);
          cv = (if mc_custom_mode s \<noteq> 0 \<and> cv > DEFAULT_DEMO_CHARGING_CV then DEFAULT_DEMO_CHARGING_CV else cv)
      in s\<lparr>mc_setting := (mc_setting s)\<lparr>st_cv := s32 cv\<rparr>\<rparr>)"

section \<open>Plugging\<close>

definition enable_charging :: "bool \<Rightarrow> mtk_charger \<Rightarrow> mtk_charger" where
  "enable_charging en s =
     (if \<not> en then chg_note (DevEvent EVENT_DISCHARGE) (charger_dev_enable False (each_alg AlgStop s))
      else chg_note (DevEvent EVENT_RECHARGE) (charger_dev_enable True s))"

definition mtk_enable_charging :: "bool \<Rightarrow> mtk_charger \<Rightarrow> mtk_charger" where
  "mtk_enable_charging en s = (if mc_basic s then enable_charging en s else s)"

definition switch_invalid :: "int \<Rightarrow> mtk_charger \<Rightarrow> mtk_charger" where
  "switch_invalid v s = s\<lparr>mc_invalid_switch := v\<rparr>"

definition mtk_charger_plug_out :: "mtk_charger \<Rightarrow> mtk_charger" where
  "mtk_charger_plug_out s =
     (let s = s\<lparr>mc_chr_type := POWER_SUPPLY_TYPE_UNKNOWN, mc_polling := False, mc_pw := (mc_pw s)\<lparr>pw_iusb_ua := 0\<rparr>,
               mc_chg1 := (mc_chg1 s)\<lparr>ch_disable_count := 0, ch_aicl := - 1, ch_input_limit := 500000\<rparr>,
               mc_chg2 := (mc_chg2 s)\<lparr>ch_disable_count := 0\<rparr>\<rparr>;
          s = switch_invalid 0 s;
          s = each_alg (\<lambda>i. AlgNotify i EVT_PLUG_OUT) s;
          s = charger_dev_enable_ir_comp False s;
          s = charger_dev_set_input_current 500000 s;
          s = charger_dev_set_mivr (cc_min_charger_voltage (mc_data s)) s
      in chg_note DevPlugOut s)"

definition NO_IR_COMPENSATION_SOC :: int where "NO_IR_COMPENSATION_SOC = 85"

definition mtk_charger_plug_in :: "int \<Rightarrow> int \<Rightarrow> mtk_charger \<Rightarrow> mtk_charger" where
  "mtk_charger_plug_in soc chr_type s =
     (let s = s\<lparr>mc_chr_type := chr_type, mc_polling := True, mc_can_charging := True, mc_safety_timeout := False, mc_vbusov_stat := False\<rparr>;
          s = switch_invalid 0 s;
          s = each_alg (\<lambda>i. AlgNotify i EVT_PLUG_IN) s;
          s = charger_dev_set_input_current (ch_input_limit (mc_chg1 s)) s;
          s = (if soc \<ge> 0 \<and> soc < NO_IR_COMPENSATION_SOC then charger_dev_enable_ir_comp True s else s)
      in chg_note DevPlugIn s)"

definition mtk_is_charger_on :: "int \<Rightarrow> int \<Rightarrow> mtk_charger \<Rightarrow> bool \<times> mtk_charger" where
  "mtk_is_charger_on chr_type soc s =
     (let s = (if chr_type = POWER_SUPPLY_TYPE_UNKNOWN
               then if mc_chr_type s \<noteq> POWER_SUPPLY_TYPE_UNKNOWN then (mtk_charger_plug_out s)\<lparr>mc_cable_out_cnt := 0\<rparr> else s
               else let s = (if mc_chr_type s = POWER_SUPPLY_TYPE_UNKNOWN then mtk_charger_plug_in soc chr_type s
                             else s\<lparr>mc_chr_type := chr_type\<rparr>)
                    in if mc_cable_out_cnt s > 0
                       then (mtk_charger_plug_in soc chr_type (mtk_charger_plug_out s))\<lparr>mc_cable_out_cnt := 0\<rparr> else s)
      in (chr_type \<noteq> POWER_SUPPLY_TYPE_UNKNOWN, s))"

definition is_disable_charger :: "mtk_charger \<Rightarrow> bool" where
  "is_disable_charger s = mc_disable_charger s"

definition check_dynamic_mivr :: "chg_env \<Rightarrow> mtk_charger \<Rightarrow> mtk_charger" where
  "check_dynamic_mivr env s =
     (if \<not> mc_enable_dynamic_mivr s then s
      else if list_ex (\<lambda>i. mi_alg env i = ALG_RUNNING) (mc_algs s) then s
      else let d = mc_data s
           in if mi_vbat env < cc_min_voltage_2 d sdiv 1000 - 200 then charger_dev_set_mivr (cc_min_voltage_2 d) s
              else if mi_vbat env < cc_min_voltage_1 d sdiv 1000 - 200 then charger_dev_set_mivr (cc_min_voltage_1 d) s
              else charger_dev_set_mivr (cc_min_charger_voltage d) s)"

section \<open>What stops charging\<close>

definition get_bcm_flag :: "mtk_charger \<Rightarrow> bool" where
  "get_bcm_flag s \<longleftrightarrow> mc_bcm_flag s \<noteq> BCM_FLAG_NONE"

text \<open>The protection without JEITA: the next state and whether charging may go on.\<close>

definition thermal_next :: "thermal_protection \<Rightarrow> int \<Rightarrow> bat_temp_state \<times> bool" where
  "thermal_next t temp =
     (let high = (\<lambda>sm. if temp \<ge> bt_max t then (BAT_TEMP_HIGH, False)
                  else if sm = BAT_TEMP_HIGH then (if temp < bt_max_minus t then (BAT_TEMP_NORMAL, True) else (sm, False))
                  else (sm, True))
      in if bt_enable_min t
         then if temp < bt_min t then (BAT_TEMP_LOW, False)
              else if bt_sm t = BAT_TEMP_LOW
              then if temp \<ge> bt_min_plus t then high BAT_TEMP_NORMAL else (bt_sm t, False)
              else high (bt_sm t)
         else high (bt_sm t))"

definition tj_of :: "(int \<times> int) option \<Rightarrow> charger_data \<Rightarrow> charger_data" where
  "tj_of r ch = (case r of None \<Rightarrow> ch\<lparr>ch_tj_min := - 127, ch_tj_max := - 127\<rparr> | Some (lo, hi) \<Rightarrow> ch\<lparr>ch_tj_min := lo, ch_tj_max := hi\<rparr>)"

definition mtk_chg_get_tchg :: "chg_env \<Rightarrow> mtk_charger \<Rightarrow> mtk_charger" where
  "mtk_chg_get_tchg env s =
     (let s = s\<lparr>mc_chg1 := tj_of (ck_tj1 env) (mc_chg1 s)\<rparr>
      in if mc_has_chg2 s then s\<lparr>mc_chg2 := tj_of (ck_tj2 env) (mc_chg2 s)\<rparr> else s)"

text \<open>The state of the input: over, under or normal.\<close>

definition vbus_class :: "chg_env \<Rightarrow> mtk_charger \<Rightarrow> vbus_voltage_state" where
  "vbus_class env s =
     (let vchr = s32 (vb_vbus env * 1000)
      in if vchr > cc_max_charger_voltage (mc_data s) \<and> \<not> vb_wpc_online env then VBUS_OVP
         else if vchr < cc_vbus_uvlo_voltage (mc_data s) \<and> vchr > 0 \<and> vb_type env \<noteq> POWER_SUPPLY_TYPE_UNKNOWN then VBUS_UVLO
         else VBUS_NORMAL)"

definition mtk_chg_check_vbus :: "chg_env \<Rightarrow> mtk_charger \<Rightarrow> bool \<times> mtk_charger" where
  "mtk_chg_check_vbus env s =
     (if mc_inv_weak s then (True, s)
      else let pre_state = mc_vbus_state s; state = vbus_class env s;
               s = (if state \<noteq> VBUS_NORMAL then switch_invalid 1 s else s);
               s = s\<lparr>mc_vbus_state := state\<rparr>;
               s = (if pre_state \<noteq> state \<and> pre_state = VBUS_UVLO then s\<lparr>mc_uvlo_recovery := True\<rparr> else s)
           in if state \<noteq> VBUS_NORMAL then (False, s) else (True, switch_invalid 0 s))"

definition CHG_VBUS_OV_STATUS :: u32 where "CHG_VBUS_OV_STATUS = 1"
definition CHG_BAT_OT_STATUS :: u32 where "CHG_BAT_OT_STATUS = 2"
definition CHG_OC_STATUS :: u32 where "CHG_OC_STATUS = 4"
definition CHG_BAT_OV_STATUS :: u32 where "CHG_BAT_OV_STATUS = 8"
definition CHG_ST_TMO_STATUS :: u32 where "CHG_ST_TMO_STATUS = 16"
definition CHG_BAT_LT_STATUS :: u32 where "CHG_BAT_LT_STATUS = 32"
definition CHG_TYPEC_WD_STATUS :: u32 where "CHG_TYPEC_WD_STATUS = 64"

text \<open>A status bit that is set is announced, each time.\<close>

definition notify_status :: "bool \<Rightarrow> u32 \<Rightarrow> mtk_charger \<Rightarrow> mtk_charger" where
  "notify_status bad bits s =
     (if bad then let s = s\<lparr>mc_notify_code := mc_notify_code s OR bits\<rparr> in chg_note (ChgStat (mc_notify_code s)) s
      else s\<lparr>mc_notify_code := mc_notify_code s AND NOT bits\<rparr>)"

definition mtk_battery_notify_VCharger_check :: "chg_env \<Rightarrow> mtk_charger \<Rightarrow> mtk_charger" where
  "mtk_battery_notify_VCharger_check env s =
     notify_status (\<not> s32 (nt_vbus env * 1000) < cc_max_charger_voltage (mc_data s)) CHG_VBUS_OV_STATUS s"

definition mtk_battery_notify_VBatTemp_check :: "mtk_charger \<Rightarrow> mtk_charger" where
  "mtk_battery_notify_VBatTemp_check s =
     (let s = notify_status (mc_battery_temp s \<ge> bt_max (mc_thermal s)) CHG_BAT_OT_STATUS s
      in if mc_enable_sw_jeita s then notify_status (mc_battery_temp s < cc_neg_10 (mc_data s)) CHG_BAT_LT_STATUS s else s)"

definition mtk_battery_notify_UI_test :: "mtk_charger \<Rightarrow> mtk_charger" where
  "mtk_battery_notify_UI_test s =
     (let m = mc_notify_test_mode s;
          code = (if m = 1 then CHG_VBUS_OV_STATUS else if m = 2 then CHG_BAT_OT_STATUS else if m = 3 then CHG_OC_STATUS
                  else if m = 4 then CHG_BAT_OV_STATUS else if m = 5 then CHG_ST_TMO_STATUS else if m = 6 then CHG_BAT_LT_STATUS
                  else if m = 7 then CHG_TYPEC_WD_STATUS else mc_notify_code s)
      in chg_note (ChgStat code) (s\<lparr>mc_notify_code := code\<rparr>))"

definition mtk_battery_notify_check :: "chg_env \<Rightarrow> mtk_charger \<Rightarrow> mtk_charger" where
  "mtk_battery_notify_check env s =
     (if mc_notify_test_mode s = 0 then mtk_battery_notify_VBatTemp_check (mtk_battery_notify_VCharger_check env s)
      else mtk_battery_notify_UI_test s)"

text \<open>The reading of the battery's identification, in millivolts; a missing gauge or a failed read is \<open>None\<close>.\<close>

definition get_battery_id_status :: "int \<Rightarrow> int \<Rightarrow> int option \<Rightarrow> bool" where
  "get_battery_id_status volt_min volt_max r = (case r of None \<Rightarrow> False | Some v \<Rightarrow> \<not> (v < volt_min \<or> v > volt_max))"

text \<open>\<^verbatim>\<open>charger_check_status\<close> up to its label: what it decides, and the part behind the temperature.\<close>

definition input_decision :: "chg_env \<Rightarrow> mtk_charger \<Rightarrow> bool \<times> mtk_charger" where
  "input_decision env s =
     (case mtk_chg_check_vbus env (mtk_chg_get_tchg env s) of (ok, s) \<Rightarrow>
        if \<not> ok then (False, s)
        else if \<not> ck_bat_id env then (False, s)
        else (\<not> (mc_cmd_discharging s \<or> mc_safety_timeout s \<or> mc_vbusov_stat s
                  \<or> mc_enable_eoc s \<and> (mc_bat_eoc_protect s \<or> mc_dpm_disable s) \<or> mc_inv_weak s), s))"

definition charging_decision :: "chg_env \<Rightarrow> mtk_charger \<Rightarrow> bool \<times> mtk_charger" where
  "charging_decision env s =
     (if get_bcm_flag s then (False, s)
      else if mc_enable_sw_jeita s
      then let s = do_sw_jeita_state_machine (ce_aging env) s
           in if \<not> sj_charging (mc_sw_jeita s) then (False, s) else input_decision env s
      else (case thermal_next (mc_thermal s) (mc_battery_temp s) of (sm, ok) \<Rightarrow>
              let s = s\<lparr>mc_thermal := (mc_thermal s)\<lparr>bt_sm := sm\<rparr>\<rparr>
              in if \<not> ok then (False, s) else input_decision env s))"

definition charger_check_status :: "chg_env \<Rightarrow> mtk_charger \<Rightarrow> mtk_charger" where
  "charger_check_status env s =
     (if ck_type env = POWER_SUPPLY_TYPE_UNKNOWN then s
      else case charging_decision env s of (charging, s) \<Rightarrow>
        let s = mtk_battery_notify_check env s;
            s = (if charging \<noteq> mc_can_charging s then mtk_enable_charging charging s else s);
            s = (if \<not> charging then let s = select_cv (ce_aging env) s in charger_dev_set_constant_voltage (st_cv (mc_setting s)) s else s)
        in s\<lparr>mc_can_charging := charging\<rparr>)"

section \<open>The rest of a pass\<close>

definition charger_top_off_mode :: "chg_env \<Rightarrow> mtk_charger \<Rightarrow> mtk_charger" where
  "charger_top_off_mode env s =
     (let a = ce_aging env; top_off_cv = mc_top_off_cv s (if a = 1 then 1 else if a = 2 then 2 else 0)
      in if top_off_cv = 0 then s
         else if mc_top_off_enable s \<noteq> 0 \<and> to_ui_soc env < 100 then s
         else if mc_top_off_enable s \<noteq> 0
         then chg_note (Metric (MetricTopOff True)) (chg_note (DiffFullCv (mc_top_off_diff s)) (s\<lparr>mc_custom_cv := top_off_cv\<rparr>))
         else chg_note (Metric (MetricTopOff False)) (chg_note (DiffFullCv (mc_normal_diff s)) (s\<lparr>mc_custom_cv := - 1\<rparr>)))"

text \<open>In the modes that only charge, a device without a charger is switched off.\<close>

definition kpoc_power_off_check :: "chg_env \<Rightarrow> mtk_charger \<Rightarrow> mtk_charger" where
  "kpoc_power_off_check env s =
     (if (mc_bootmode s = 8 \<or> mc_bootmode s = 9) \<and> kp_vbus env \<ge> 0 \<and> kp_vbus env < 2500
      then case mtk_is_charger_on (kp_type env) (kp_soc env) s of (on, s) \<Rightarrow> if \<not> on then chg_note PowerOff s else s
      else s)"

definition RECHARGE_SOC_DIFF_FOR_LOW_SOC :: int where "RECHARGE_SOC_DIFF_FOR_LOW_SOC = 2"

definition reset_bat_eoc_protect_state :: "mtk_charger \<Rightarrow> mtk_charger" where
  "reset_bat_eoc_protect_state s = s\<lparr>mc_bat_eoc_protect := False, mc_disconnect_duration := 0\<rparr>"

text \<open>The state of charge is compared with the unsigned \<^verbatim>\<open>soc_exit_eoc\<close>, so a negative one is large.\<close>

definition battery_protect_algo :: "chg_env \<Rightarrow> mtk_charger \<Rightarrow> mtk_charger" where
  "battery_protect_algo env s =
     (if \<not> mc_enable_eoc s then s
      else if mc_chr_type s = POWER_SUPPLY_TYPE_UNKNOWN then s
      else let ui_soc = bp_ui_soc env; soc = bp_soc env; battery_cv = mtk_get_battery_cv (ce_aging env) s;
               sw_jeita_cv = (if mc_enable_sw_jeita s \<and> sj_cv (mc_sw_jeita s) \<noteq> 0 then sj_cv (mc_sw_jeita s) else battery_cv)
           in if \<not> mc_bat_eoc_protect s
              then if bp_done env \<and> ui_soc = 100 \<and> mc_custom_cv s = - 1 \<and> mc_custom_mode s = 0 \<and> sw_jeita_cv = battery_cv
                   then s\<lparr>mc_recharge_soc := (if u32w soc \<ge> mc_soc_exit_eoc s then s32 (mc_soc_exit_eoc s)
                                               else soc - RECHARGE_SOC_DIFF_FOR_LOW_SOC), mc_bat_eoc_protect := True\<rparr>
                   else s
              else let s = (if soc < mc_recharge_soc s \<or> ui_soc < 100 then reset_bat_eoc_protect_state s else s)
                   in if mc_custom_cv s > 0 \<or> sw_jeita_cv < battery_cv \<or> mc_custom_mode s \<noteq> 0
                      then reset_bat_eoc_protect_state s else s)"

definition battery_full_track :: "chg_env \<Rightarrow> mtk_charger \<Rightarrow> mtk_charger" where
  "battery_full_track env s =
     (if ft_done env
      then if \<not> mc_update_eoc s \<and> ft_ui_soc env < 100 then s\<lparr>mc_update_eoc := True\<rparr>
           else if mc_update_eoc s \<and> ft_ui_soc env = 100 then chg_note (DevEvent EVENT_FULL) (s\<lparr>mc_update_eoc := False\<rparr>)
           else s
      else s)"

definition ENOTSUPP :: int where "ENOTSUPP = 524"

definition reset_dpm_eoc_state :: "mtk_charger \<Rightarrow> mtk_charger" where
  "reset_dpm_eoc_state s = s\<lparr>mc_dpm_disable := False, mc_soc_exit_dpm := 0, mc_cv_enter_dpm := 0, mc_dpm_count := 0\<rparr>"

text \<open>A valid detection: almost no current flows into a battery that is not full, although the input is limited.\<close>

definition dpm_valid :: "chg_env \<Rightarrow> mtk_charger \<Rightarrow> bool" where
  "dpm_valid env s \<longleftrightarrow>
     (let battery_cv = cc_battery_cv (mc_data s) 0; d = mc_dpm s; (vdpm, idpm) = snd (dp_indpm env)
      in \<not> ((dp_ibat env \<le> 0 \<or> dp_ibat env > dp_ibat_ma d) \<or> dp_cv env \<noteq> battery_cv \<or> dp_icl env < dp_input_ua d
            \<or> dp_ccl env < dp_charge_ua d \<or> \<not> dp_chg_en env \<or> dp_done env
            \<or> s32 (dp_vbat env * 1000) \<le> s32 (battery_cv - dp_vdiff_uv d) \<or> \<not> (vdpm \<or> idpm)))"

definition check_dpm_eoc_state :: "chg_env \<Rightarrow> mtk_charger \<Rightarrow> mtk_charger" where
  "check_dpm_eoc_state env s =
     (if \<not> mc_enable_eoc s then s
      else if fst (dp_indpm env) = - ENOTSUPP then s
      else if mc_dpm_disable s
      then let t = (if dp_cv env \<noteq> mc_cv_enter_dpm s then reset_dpm_eoc_state s else s)
           in if dp_soc env < mc_soc_exit_dpm t then reset_dpm_eoc_state t else t
      else if \<not> dpm_valid env s then reset_dpm_eoc_state s
      else let s = s\<lparr>mc_dpm_count := s32 (mc_dpm_count s + 1)\<rparr>
           in if mc_dpm_count s \<ge> dp_count_max (mc_dpm s)
              then chg_note (Metric (MetricDpmEoc (dp_cv env)))
                     (s\<lparr>mc_dpm_disable := True,
                        mc_soc_exit_dpm := (if u32w (dp_soc env) \<ge> mc_soc_exit_eoc s then s32 (mc_soc_exit_eoc s)
                                            else dp_soc env - dp_low_soc_diff (mc_dpm s)),
                        mc_cv_enter_dpm := dp_cv env, mc_dpm_count := 0\<rparr>)
              else s)"

section \<open>The ways in\<close>

definition wake_up_charger :: "mtk_charger \<Rightarrow> mtk_charger" where
  "wake_up_charger s = chg_note WakeCharger s"

definition reset_invalid_charger_state :: "mtk_charger \<Rightarrow> mtk_charger" where
  "reset_invalid_charger_state s = s\<lparr>mc_inv_done := False, mc_inv_weak := False\<rparr>"

text \<open>\<open>now\<close> is the boot time in nanoseconds.\<close>

definition bat_eoc_protect_handle_plug_state :: "int \<Rightarrow> bool \<Rightarrow> mtk_charger \<Rightarrow> mtk_charger" where
  "bat_eoc_protect_handle_plug_state now plug s =
     (if \<not> mc_enable_eoc s then s
      else if mc_plug_status s = plug then s
      else let s = (reset_invalid_charger_state s)\<lparr>mc_plug_status := plug\<rparr>
           in if plug
              then let s = s\<lparr>mc_disconnect_duration := (now - mc_disconnect_time s) sdiv 1000000 sdiv 1000\<rparr>
                   in if (mc_bat_eoc_protect s \<or> mc_dpm_disable s) \<and> mc_disconnect_duration s \<ge> mc_reset_time s
                      then reset_dpm_eoc_state (reset_bat_eoc_protect_state s) else s
              else s\<lparr>mc_disconnect_time := now, mc_disconnect_duration := 0\<rparr>)"

definition mtk_charger_external_power_changed :: "int \<Rightarrow> int \<Rightarrow> mtk_charger \<Rightarrow> mtk_charger" where
  "mtk_charger_external_power_changed now online s =
     wake_up_charger (bat_eoc_protect_handle_plug_state now (online \<noteq> 0) s)"

datatype charger_psp = PROP_ONLINE | PROP_PRESENT | PROP_VOLTAGE_MAX | PROP_VOLTAGE_NOW | PROP_TEMP | PROP_CONSTANT_CHARGE_CURRENT_MAX
  | PROP_INPUT_CURRENT_LIMIT | PROP_USB_TYPE | PROP_VOLTAGE_BOOT | PROP_EOC_PROTECT | PROP_OTHER

text \<open>\<open>psy\<close>: 1 and 2 are the supplies of the two chargers.\<close>

definition psy_charger_set_property :: "nat \<Rightarrow> charger_psp \<Rightarrow> int \<Rightarrow> mtk_charger \<Rightarrow> int \<times> mtk_charger" where
  "psy_charger_set_property psy psp val s =
     (if psy \<noteq> 1 \<and> psy \<noteq> 2 then (0, s)
      else let upd = (\<lambda>f s. if psy = 1 then s\<lparr>mc_chg1 := f (mc_chg1 s)\<rparr> else s\<lparr>mc_chg2 := f (mc_chg2 s)\<rparr>)
           in case psp of
             PROP_VOLTAGE_MAX \<Rightarrow> (0, wake_up_charger (s\<lparr>mc_enable_hv := val > 0\<rparr>))
           | PROP_CONSTANT_CHARGE_CURRENT_MAX \<Rightarrow> (0, wake_up_charger (upd (\<lambda>c. c\<lparr>ch_thermal_charging := val\<rparr>) s))
           | PROP_INPUT_CURRENT_LIMIT \<Rightarrow> (0, wake_up_charger (upd (\<lambda>c. c\<lparr>ch_thermal_input := val\<rparr>) s))
           | _ \<Rightarrow> (- EINVAL, s))"

text \<open>
  What the chip and the other supply answer to a query. \<open>gp_chg1\<close> and \<open>gp_chg2\<close> are whether the chips were found; with neither,
  the two pointers are equal. The value is left alone where it is \<open>None\<close>.
\<close>

record psy_reads =
  gp_chg1 :: bool
  gp_chg2 :: bool
  gp_online :: int
  gp_vbus :: int
  gp_ichg :: int
  gp_input :: int
  gp_zcv :: int

definition psy_charger_get_property :: "psy_reads \<Rightarrow> nat \<Rightarrow> charger_psp \<Rightarrow> mtk_charger \<Rightarrow> int \<times> int option" where
  "psy_charger_get_property r psy psp s =
     (if psy \<noteq> 1 \<and> psy \<noteq> 2 then (0, None)
      else let num = (\<lambda>b. if b then 1 else 0); there = (if psy = 1 then gp_chg1 r else gp_chg2 r)
           in case psp of
             PROP_ONLINE \<Rightarrow> (0, Some (num (gp_online r \<noteq> 0)))
           | PROP_PRESENT \<Rightarrow> (0, Some (num there))
           | PROP_VOLTAGE_MAX \<Rightarrow> (0, Some (num (mc_enable_hv s)))
           | PROP_VOLTAGE_NOW \<Rightarrow> (0, Some (gp_vbus r))
           | PROP_TEMP \<Rightarrow> (0, Some (s32 (ch_tj_max (if psy = 1 \<or> \<not> gp_chg1 r \<and> \<not> gp_chg2 r then mc_chg1 s else mc_chg2 s) * 10)))
           | PROP_CONSTANT_CHARGE_CURRENT_MAX \<Rightarrow> (0, Some (gp_ichg r))
           | PROP_INPUT_CURRENT_LIMIT \<Rightarrow> (0, Some (gp_input r))
           | PROP_USB_TYPE \<Rightarrow> (0, Some (mc_chr_type s))
           | PROP_VOLTAGE_BOOT \<Rightarrow> (0, Some (gp_zcv r))
           | PROP_EOC_PROTECT \<Rightarrow> (0, Some (if mc_enable_eoc s then num (mc_bat_eoc_protect s \<or> mc_dpm_disable s) else 0))
           | PROP_OTHER \<Rightarrow> (- EINVAL, None))"

datatype adapter_event = MTK_PD_CONNECT_NONE | MTK_PD_CONNECT_HARD_RESET | MTK_PD_CONNECT_PE_READY_SNK
  | MTK_PD_CONNECT_PE_READY_SNK_PD30 | MTK_PD_CONNECT_PE_READY_SNK_APDO | MTK_PD_CONNECT_TYPEC_ONLY_SNK | MTK_TYPEC_WD_STATUS bool
  | MTK_TYPEC_HRESET_STATUS

fun notify_adapter_event :: "adapter_event \<Rightarrow> mtk_charger \<Rightarrow> mtk_charger" where
  "notify_adapter_event MTK_PD_CONNECT_NONE s = s\<lparr>mc_pd_type := 0\<rparr>"
| "notify_adapter_event MTK_PD_CONNECT_HARD_RESET s = wake_up_charger (s\<lparr>mc_pd_type := 0, mc_pd_reset := True\<rparr>)"
| "notify_adapter_event MTK_PD_CONNECT_PE_READY_SNK s = s\<lparr>mc_pd_type := 2\<rparr>"
| "notify_adapter_event MTK_PD_CONNECT_PE_READY_SNK_PD30 s = s\<lparr>mc_pd_type := 3\<rparr>"
| "notify_adapter_event MTK_PD_CONNECT_PE_READY_SNK_APDO s = wake_up_charger (s\<lparr>mc_pd_type := 4\<rparr>)"
| "notify_adapter_event MTK_PD_CONNECT_TYPEC_ONLY_SNK s = wake_up_charger (s\<lparr>mc_pd_type := 5\<rparr>)"
| "notify_adapter_event MTK_TYPEC_HRESET_STATUS s = s"
| "notify_adapter_event (MTK_TYPEC_WD_STATUS wet) s =
     (let code = (if wet then mc_notify_code s OR CHG_TYPEC_WD_STATUS else mc_notify_code s AND NOT CHG_TYPEC_WD_STATUS)
      in chg_note (ChgStat code) (s\<lparr>mc_water := wet, mc_notify_code := code\<rparr>))"

text \<open>The stores: the parsed number is \<open>None\<close> when the text is malformed. \<open>bcm_flag\<close> compares only the beginning.\<close>

definition sw_jeita_store :: "int option \<Rightarrow> mtk_charger \<Rightarrow> mtk_charger" where
  "sw_jeita_store num s = (case num of None \<Rightarrow> s | Some v \<Rightarrow> s\<lparr>mc_enable_sw_jeita := v \<noteq> 0\<rparr>)"

definition chr_type_store :: "int option \<Rightarrow> mtk_charger \<Rightarrow> mtk_charger" where
  "chr_type_store num s = (case num of None \<Rightarrow> s | Some v \<Rightarrow> s\<lparr>mc_chr_type := v\<rparr>)"

definition input_current_store :: "int option \<Rightarrow> mtk_charger \<Rightarrow> mtk_charger" where
  "input_current_store num s =
     (case num of None \<Rightarrow> s | Some v \<Rightarrow> s\<lparr>mc_chg1 := (mc_chg1 s)\<lparr>ch_thermal_input := (if v < 0 then 0 else v)\<rparr>\<rparr>)"

definition starts_with :: "string \<Rightarrow> string \<Rightarrow> bool" where
  "starts_with buf w \<longleftrightarrow> take (length w) buf = w"

definition bcm_flag_store :: "string \<Rightarrow> mtk_charger \<Rightarrow> mtk_charger" where
  "bcm_flag_store buf s =
     (let put = (\<lambda>v. chg_note (Metric (MetricBcm v)) (s\<lparr>mc_bcm_flag := v\<rparr>))
      in if starts_with buf ''charge_timer'' then put BCM_FLAG_CHARGE_TIMER
         else if starts_with buf ''secondary_thermal'' then put BCM_FLAG_SECONDARY_THERMAL
         else if starts_with buf ''0'' then put BCM_FLAG_NONE
         else s)"

definition Custom_Charging_Mode_store :: "int option \<Rightarrow> mtk_charger \<Rightarrow> mtk_charger" where
  "Custom_Charging_Mode_store num s = s\<lparr>mc_custom_mode := (case num of None \<Rightarrow> 0 | Some v \<Rightarrow> v)\<rparr>"

definition BatteryNotify_store :: "u32 option \<Rightarrow> mtk_charger \<Rightarrow> mtk_charger" where
  "BatteryNotify_store num s = (case num of None \<Rightarrow> s | Some v \<Rightarrow> chg_note (ChgStat v) (s\<lparr>mc_notify_code := v\<rparr>))"

definition store_top_off_mode :: "int option \<Rightarrow> mtk_charger \<Rightarrow> mtk_charger" where
  "store_top_off_mode num s = wake_up_charger (case num of None \<Rightarrow> s | Some v \<Rightarrow> s\<lparr>mc_top_off_enable := v\<rparr>)"

text \<open>The command \<^verbatim>\<open>current_cmd\<close> switches the chip itself, whatever the last pass decided. The flags of a safety timer in software are read nowhere
  and left out.\<close>

definition mtk_chg_current_cmd_write :: "(int \<times> int) option \<Rightarrow> mtk_charger \<Rightarrow> mtk_charger" where
  "mtk_chg_current_cmd_write nums s =
     (case nums of None \<Rightarrow> s
      | Some (unlimited, discharging) \<Rightarrow>
          let s = s\<lparr>mc_usb_unlimited := unlimited \<noteq> 0\<rparr>
          in if discharging = 1
             then chg_note (DevEvent EVENT_DISCHARGE) (charger_dev_enable False (s\<lparr>mc_cmd_discharging := True\<rparr>))
             else if discharging = 0
             then chg_note (DevEvent EVENT_RECHARGE) (charger_dev_enable True (s\<lparr>mc_cmd_discharging := False\<rparr>))
             else s)"

definition mtk_chg_en_power_path_write :: "int option \<Rightarrow> mtk_charger \<Rightarrow> mtk_charger" where
  "mtk_chg_en_power_path_write num s = (case num of None \<Rightarrow> s | Some v \<Rightarrow> chg_note (PowerPath (v \<noteq> 0)) s)"

definition mtk_chg_en_safety_timer_write :: "int option \<Rightarrow> mtk_charger \<Rightarrow> mtk_charger" where
  "mtk_chg_en_safety_timer_write num s = (case num of None \<Rightarrow> s | Some v \<Rightarrow> chg_note (SafetyTimer (v \<noteq> 0)) s)"

definition mtk_charger_shutdown :: "mtk_charger \<Rightarrow> mtk_charger" where
  "mtk_charger_shutdown s = each_alg AlgStop s"

definition mtk_chg_bat_eoc_protect_reset_time_write :: "int option \<Rightarrow> mtk_charger \<Rightarrow> mtk_charger" where
  "mtk_chg_bat_eoc_protect_reset_time_write num s = (case num of None \<Rightarrow> s | Some v \<Rightarrow> s\<lparr>mc_reset_time := v\<rparr>)"

text \<open>The register of the PMIC that guards the input voltage, as the update writes it: mask and shift have changed places.\<close>

definition pmic_set_register_value :: "u32 \<Rightarrow> nat \<Rightarrow> u32 \<Rightarrow> u32 \<Rightarrow> u32" where
  "pmic_set_register_value msk shift val reg =
     (let m = push_bit shift msk in (reg AND NOT m) OR (push_bit shift val AND m))"

definition PMIC_RG_VCDT_HV_EN_MASK :: nat where "PMIC_RG_VCDT_HV_EN_MASK = 1"
definition PMIC_RG_VCDT_HV_EN_SHIFT :: nat where "PMIC_RG_VCDT_HV_EN_SHIFT = 11"

definition disable_hw_ovp :: "bool \<Rightarrow> bool \<Rightarrow> mtk_charger \<Rightarrow> int \<times> mtk_charger" where
  "disable_hw_ovp found en s =
     (if \<not> found then (- 1, s)
      else (0, s\<lparr>mc_hw := (mc_hw s)\<lparr>hw_pmic := pmic_set_register_value (of_nat PMIC_RG_VCDT_HV_EN_SHIFT) PMIC_RG_VCDT_HV_EN_MASK
                                       (if en then 1 else 0) (hw_pmic (mc_hw s))\<rparr>\<rparr>))"

definition mtk_chg_enable_vbus_ovp :: "bool \<Rightarrow> bool \<Rightarrow> bool \<Rightarrow> mtk_charger \<Rightarrow> int \<times> mtk_charger" where
  "mtk_chg_enable_vbus_ovp ready found enable s =
     (if \<not> ready then (- 1, s)
      else let sw_ovp = (if enable then cc_max_charger_voltage_setting (mc_data s) else 15000000)
           in (0, snd (disable_hw_ovp found enable (s\<lparr>mc_data := (mc_data s)\<lparr>cc_max_charger_voltage := sw_ovp\<rparr>\<rparr>))))"

end
