(* ===== verification/Basic_Charger.thy ===== *)
theory Basic_Charger
  imports Charger
begin

text \<open>
  The basic charging algorithm (\<^verbatim>\<open>drivers/power/supply/mtk_basic_charger.c\<close>): the choice of the currents from the
  charger, the adapter, the temperature and the thermal limits, the detection of bad chargers and of the power of
  an adapter, and the call of the fast charging algorithms; then the pass of the charger thread that runs all this.
\<close>

section \<open>The environment\<close>

text \<open>
  \<open>be_fast\<close> and \<open>be_ready\<close> are the states of the algorithms in \<^verbatim>\<open>support_fast_charging\<close> and in \<^verbatim>\<open>do_algorithm\<close>;
  \<open>be_aicl\<close> and \<open>be_aicl2\<close> the results of the two measurements of the input current, \<open>None\<close> when the call leaves
  its variable alone; \<open>be_rp\<close> the successive readings of the Type-C current; \<open>be_usb\<close> the successive answers for
  \<^verbatim>\<open>is_usb_plugout_or_disabled\<close>: the status and result for the power path, and the charger type.
\<close>

record basic_env =
  be_aging :: nat
  be_usbif :: bool
  be_done :: bool
  be_wpc_online :: bool
  be_fast :: "nat \<Rightarrow> alg_state"
  be_ready :: "nat \<Rightarrow> alg_state"
  be_max_vbus :: "nat \<Rightarrow> int option"
  be_running :: "nat \<Rightarrow> bool"
  be_aicl :: "int option"
  be_aicl2 :: "int option"
  be_tcpc :: bool
  be_rp :: "nat \<Rightarrow> int"
  be_rp_level :: int
  be_usb :: "nat \<Rightarrow> int \<times> bool \<times> int"
  be_bak_cv :: int
  be_bak_iusb :: int
  be_bak_ichg :: int
  be_indpm :: "int \<times> bool \<times> bool"
  be_inv_vbus :: int
  be_min_ichg :: "int \<times> int"
  be_min_aicr :: "int \<times> int"

definition uA_to_mA :: "int \<Rightarrow> int" where
  "uA_to_mA uA = (if uA = - 1 then - 1 else uA sdiv 1000)"

abbreviation (input) set_chg1 :: "(charger_data \<Rightarrow> charger_data) \<Rightarrow> mtk_charger \<Rightarrow> mtk_charger" where
  "set_chg1 f s \<equiv> s\<lparr>mc_chg1 := f (mc_chg1 s)\<rparr>"

abbreviation (input) set_chg2 :: "(charger_data \<Rightarrow> charger_data) \<Rightarrow> mtk_charger \<Rightarrow> mtk_charger" where
  "set_chg2 f s \<equiv> s\<lparr>mc_chg2 := f (mc_chg2 s)\<rparr>"

section \<open>Adapters\<close>

text \<open>The port controller is looked up when it was not there before.\<close>

definition find_tcpc :: "basic_env \<Rightarrow> mtk_charger \<Rightarrow> mtk_charger" where
  "find_tcpc env s = (if mc_has_tcpc s then s else s\<lparr>mc_has_tcpc := be_tcpc env\<rparr>)"

definition is_typec_adapter :: "basic_env \<Rightarrow> mtk_charger \<Rightarrow> bool \<times> mtk_charger" where
  "is_typec_adapter env s =
     (let s = find_tcpc env s in
      if \<not> mc_has_tcpc s then (False, s)
      else if pw_en (mc_pw s) \<and> (be_rp env 0 = 3000 \<or> be_rp env 1 = 1500) then (True, s)
      else (mc_pd_type s = 5 \<and> be_rp_level env \<noteq> 500 \<and> mc_chr_type s \<noteq> POWER_SUPPLY_TYPE_USB
              \<and> mc_chr_type s \<noteq> POWER_SUPPLY_TYPE_USB_CDP, s))"

fun fast_charging_loop :: "basic_env \<Rightarrow> nat list \<Rightarrow> mtk_charger \<Rightarrow> bool \<times> mtk_charger" where
  "fast_charging_loop env [] s = (False, s)"
| "fast_charging_loop env (i # is) s =
     (let s = chg_note (AlgLimit i (mc_setting s)) s
      in if be_fast env i = ALG_READY \<or> be_fast env i = ALG_RUNNING then (True, s) else fast_charging_loop env is s)"

definition support_fast_charging :: "basic_env \<Rightarrow> mtk_charger \<Rightarrow> bool \<times> mtk_charger" where
  "support_fast_charging env s = fast_charging_loop env (mc_algs s) s"

definition is_usb_plugout_or_disabled :: "int \<times> bool \<times> int \<Rightarrow> bool" where
  "is_usb_plugout_or_disabled u = (case u of (ret, is_en, chr_type) \<Rightarrow> ret < 0 \<or> chr_type = POWER_SUPPLY_TYPE_UNKNOWN \<or> \<not> is_en)"

definition DETECTION_MIVR_UV :: int where "DETECTION_MIVR_UV = 4500000"

definition aicl_result :: "int option \<Rightarrow> mtk_charger \<Rightarrow> mtk_charger" where
  "aicl_result r s = chg_note RunAicl (case r of None \<Rightarrow> s | Some v \<Rightarrow> set_chg1 (\<lambda>c. c\<lparr>ch_aicl := v\<rparr>) s)"

definition adapter_power_detection_by_ocp :: "basic_env \<Rightarrow> mtk_charger \<Rightarrow> bool \<times> mtk_charger" where
  "adapter_power_detection_by_ocp env s =
     (let s = charger_dev_set_mivr DETECTION_MIVR_UV s;
          s = charger_dev_set_constant_voltage (cc_battery_cv (mc_data s) 0) s;
          s = charger_dev_set_input_current (pw_trigger_iusb (mc_pw s)) s;
          s = charger_dev_set_charging_current (pw_trigger_ichg (mc_pw s)) s;
          aborted = list_ex (\<lambda>i. is_usb_plugout_or_disabled (be_usb env i)) [0..<5];
          s = (if aborted then s else aicl_result (be_aicl2 env) s);
          is_checked = (\<not> aborted \<and> \<not> is_usb_plugout_or_disabled (be_usb env 5));
          s = charger_dev_set_mivr (cc_min_charger_voltage (mc_data s)) s;
          s = charger_dev_set_constant_voltage (be_bak_cv env) s;
          s = charger_dev_set_input_current (be_bak_iusb env) s;
          s = charger_dev_set_charging_current (be_bak_ichg env) s
      in (is_checked, s))"

text \<open>The category of an adapter: 5 W, 7.5 W, 9 W, 12 W, 15 W, as 0 to 4.\<close>

definition adapter_found :: "int \<Rightarrow> int \<Rightarrow> nat \<Rightarrow> mtk_charger \<Rightarrow> mtk_charger" where
  "adapter_found input iusb ty s =
     (set_chg1 (\<lambda>c. c\<lparr>ch_input_limit := input\<rparr>) s)\<lparr>mc_pw := (mc_pw s)\<lparr>pw_iusb_ua := iusb, pw_type := ty\<rparr>\<rparr>"

definition adapter_report :: "int \<Rightarrow> mtk_charger \<Rightarrow> int \<times> mtk_charger" where
  "adapter_report aicl_ua s = (0, chg_note (Metric (MetricAdapter (pw_type (mc_pw s)) (uA_to_mA aicl_ua))) s)"

definition adapter_power_detection :: "basic_env \<Rightarrow> mtk_charger \<Rightarrow> int \<times> mtk_charger" where
  "adapter_power_detection env s =
     (let det = mc_pw s in
      if \<not> pw_en det then (0, s)
      else if pw_iusb_ua det \<noteq> 0
      then (if ch_thermal_input (mc_chg1 s) \<noteq> - 1 \<and> ch_thermal_input (mc_chg1 s) < pw_iusb_ua det then (0, s)
            else (0, set_chg1 (\<lambda>c. c\<lparr>ch_input_limit := pw_iusb_ua det\<rparr>) s))
      else let s = find_tcpc env s in
      if \<not> mc_has_tcpc s then (- ENODEV, s)
      else if be_rp env 4 = 3000 then adapter_report 0 (adapter_found 3000000 (pw_15w_lim det) 4 s)
      else if be_rp env 4 = 1500 then adapter_report 0 (adapter_found 1500000 (pw_7p5w_lim det) 1 s)
      else if mc_chr_type s \<noteq> POWER_SUPPLY_TYPE_USB_DCP then (0, s)
      else case adapter_power_detection_by_ocp env s of (checked, s) \<Rightarrow>
        if \<not> checked then (- ENODEV, (set_chg1 (\<lambda>c. c\<lparr>ch_aicl := - 1\<rparr>) s)\<lparr>mc_pw := (mc_pw s)\<lparr>pw_iusb_ua := 0\<rparr>\<rparr>)
        else let aicl_ua = ch_aicl (mc_chg1 s) in
          if aicl_ua < 0 then adapter_report aicl_ua (adapter_found (pw_12w_lim det) (pw_12w_lim det) 3 s)
          else if aicl_ua > pw_12w_aicl_min det then adapter_report aicl_ua (adapter_found (pw_12w_lim det) (pw_12w_lim det) 3 s)
          else if aicl_ua > pw_9w_aicl_min det then adapter_report aicl_ua (adapter_found (pw_9w_lim det) (pw_9w_lim det) 2 s)
          else adapter_report aicl_ua (adapter_found (pw_5w_lim det) (pw_5w_lim det) 0 s))"

section \<open>Bad chargers\<close>

definition check_invalid_charger :: "basic_env \<Rightarrow> mtk_charger \<Rightarrow> mtk_charger" where
  "check_invalid_charger env s =
     (if mc_inv_done s then s
      else let iv = mc_inv s;
               s = charger_dev_set_mivr (iv_mivr_uv iv) s;
               s = charger_dev_set_input_current (iv_iusb_ua iv) s;
               s = charger_dev_set_charging_current (iv_ichg_ua iv) s;
               aborted = list_ex (\<lambda>i. is_usb_plugout_or_disabled (be_usb env i)) [10..<30];
               s = charger_dev_set_mivr (cc_min_charger_voltage (mc_data s)) s;
               s = charger_dev_set_input_current 500000 s
           in if aborted then s
              else let vbus_uv = s32 (be_inv_vbus env * 1000); (ret, vdpm, idpm) = be_indpm env;
                       weak = (mc_inv_weak s \<or> ret \<noteq> - ENOTSUPP \<and> vdpm \<or> vbus_uv < iv_mivr_uv iv \<and> vbus_uv > 0);
                       s = s\<lparr>mc_inv_weak := weak, mc_inv_done := True\<rparr>
                   in if \<not> weak then s
                      else if \<not> is_usb_plugout_or_disabled (be_usb env 30)
                      then chg_note (Metric MetricInvalidCharger) (switch_invalid 1 s)
                      else s\<lparr>mc_inv_weak := False, mc_inv_done := False\<rparr>)"

section \<open>The currents\<close>

text \<open>The cases that leave the selection at once, without thermal and JEITA limits.\<close>

definition early_limits :: "mtk_charger \<Rightarrow> mtk_charger option" where
  "early_limits s =
     (let d = mc_data s in
      if mc_usb_unlimited s then Some (set_chg1 (\<lambda>c. c\<lparr>ch_input_limit := cc_ac_input_current d, ch_charging_limit := cc_ac_current d\<rparr>) s)
      else if mc_water s then Some (set_chg1 (\<lambda>c. c\<lparr>ch_input_limit := cc_usb_current d, ch_charging_limit := cc_usb_current d\<rparr>) s)
      else if mc_bootmode s = 1 \<or> mc_bootmode s = 5 then Some (set_chg1 (\<lambda>c. c\<lparr>ch_input_limit := 200000\<rparr>) s)
      else if mc_atm_enabled s \<and> (mc_chr_type s = POWER_SUPPLY_TYPE_USB \<or> mc_chr_type s = POWER_SUPPLY_TYPE_USB_CDP)
      then Some (set_chg1 (\<lambda>c. c\<lparr>ch_input_limit := 100000\<rparr>) s)
      else None)"

text \<open>The limits of the charger type; those of a wireless charger also obey a limit in milliwatts, at \<open>volt\<close> volts.\<close>

definition wireless_limits :: "int \<Rightarrow> int \<Rightarrow> int \<Rightarrow> mtk_charger \<Rightarrow> mtk_charger" where
  "wireless_limits input charging volt s =
     set_chg1 (\<lambda>c. let iusb_ua = s32 (ch_thermal_power c * 1000) sdiv volt
                   in c\<lparr>ch_input_limit := (if ch_thermal_power c \<noteq> - 1 \<and> iusb_ua < input then iusb_ua else input),
                        ch_charging_limit := charging\<rparr>) s"

definition type_limits :: "mtk_charger \<Rightarrow> bool \<times> mtk_charger" where
  "type_limits s =
     (let d = mc_data s; t = mc_chr_type s;
          put = (\<lambda>i c s. set_chg1 (\<lambda>ch. ch\<lparr>ch_input_limit := i, ch_charging_limit := c\<rparr>) s) in
      if t = POWER_SUPPLY_TYPE_USB then (True, put (cc_usb_current d) (cc_usb_current d) s)
      else if t = POWER_SUPPLY_TYPE_USB_CDP then (True, put (cc_host_current d) (cc_host_current d) s)
      else if t = POWER_SUPPLY_TYPE_USB_DCP
      then let s = put (cc_ac_input_current d) (cc_ac_current d) s
           in (False, if mc_series s
                      then set_chg2 (\<lambda>ch. ch\<lparr>ch_input_limit := ch_input_limit (mc_chg1 s), ch_charging_limit := 2000000\<rparr>) s else s)
      else if t = POWER_SUPPLY_TYPE_USB_FLOAT then (True, put (cc_non_std_current d) (cc_non_std_current d) s)
      else if t = POWER_SUPPLY_TYPE_WIRELESS_5W then (False, wireless_limits (cc_w5_input d) (cc_w5_current d) 5 s)
      else if t = POWER_SUPPLY_TYPE_WIRELESS_10W then (False, wireless_limits (cc_w10_input d) (cc_w10_current d) 9 s)
      else if t = POWER_SUPPLY_TYPE_WIRELESS then (False, wireless_limits (cc_wd_input d) (cc_wd_current d) 5 s)
      else (False, s))"

definition typec_limits :: "basic_env \<Rightarrow> mtk_charger \<Rightarrow> mtk_charger" where
  "typec_limits env s =
     (let d = mc_data s;
          (input, charging) = (if be_rp env 2 = 3000 then (3000000, cc_ac_current d)
                               else if be_rp env 3 = 1500 then (1500000, cc_ac_current d) else (500000, 500000))
      in set_chg1 (\<lambda>c. c\<lparr>ch_input_limit := (if input < ch_input_limit c then input else ch_input_limit c),
                        ch_charging_limit := (if charging < ch_charging_limit c then charging else ch_charging_limit c)\<rparr>) s)"

definition input_measured :: "basic_env \<Rightarrow> mtk_charger \<Rightarrow> bool \<times> mtk_charger" where
  "input_measured env s =
     (case support_fast_charging env s of (fast, s) \<Rightarrow>
        if fast then (False, s)
        else let s = aicl_result (be_aicl env) s;
                 s = (if mc_enable_dynamic_mivr s \<and> ch_aicl (mc_chg1 s) > cc_max_dmivr_current (mc_data s)
                      then set_chg1 (\<lambda>c. c\<lparr>ch_aicl := cc_max_dmivr_current (mc_data s)\<rparr>) s else s)
             in case is_typec_adapter env s of (typec, s) \<Rightarrow> (True, if typec then typec_limits env s else s))"

definition wired_limits :: "basic_env \<Rightarrow> mtk_charger \<Rightarrow> bool \<times> mtk_charger" where
  "wired_limits env s =
     (case input_measured env s of (is_basic, s) \<Rightarrow>
        let s = check_invalid_charger env s;
            s = snd (adapter_power_detection env s)
        in (is_basic,
            if is_basic \<and> ch_aicl (mc_chg1 s) \<noteq> - 1
            then if mc_uvlo_recovery s then s\<lparr>mc_uvlo_recovery := False\<rparr>
                 else if ch_aicl (mc_chg1 s) < ch_input_limit (mc_chg1 s) then set_chg1 (\<lambda>c. c\<lparr>ch_input_limit := ch_aicl c\<rparr>) s
                 else s
            else s))"

text \<open>The current of a temperature range, \<open>-1\<close> for no limit.\<close>

definition jeita_current :: "int \<Rightarrow> mtk_charger \<Rightarrow> mtk_charger" where
  "jeita_current lim s =
     (if lim \<noteq> - 1
      then if lim < ch_charging_limit (mc_chg1 s)
           then (set_chg1 (\<lambda>c. c\<lparr>ch_charging_limit := lim\<rparr>) s)\<lparr>mc_setting := (mc_setting s)\<lparr>st_charging1 := lim\<rparr>\<rparr> else s
      else s\<lparr>mc_setting := (mc_setting s)\<lparr>st_charging1 := - 1\<rparr>\<rparr>)"

definition jeita_limits :: "basic_env \<Rightarrow> mtk_charger \<Rightarrow> mtk_charger" where
  "jeita_limits env s =
     (if mc_enable_sw_jeita s \<and> \<not> (be_usbif env \<and> mc_chr_type s = POWER_SUPPLY_TYPE_USB)
      then let s = (if sj_sm (mc_sw_jeita s) = TEMP_T0_TO_T1 then jeita_current (cc_t0_t1_current (mc_data s)) s else s)
           in if sj_sm (mc_sw_jeita s) = TEMP_T3_TO_T4 then jeita_current (cc_t3_t4_current (mc_data s)) s else s
      else s)"

definition thermal_charging1 :: "mtk_charger \<Rightarrow> mtk_charger" where
  "thermal_charging1 s =
     (let lim = ch_thermal_charging (mc_chg1 s) in
      if lim \<noteq> - 1
      then if lim < ch_charging_limit (mc_chg1 s)
           then (set_chg1 (\<lambda>c. c\<lparr>ch_charging_limit := lim\<rparr>) s)\<lparr>mc_setting := (mc_setting s)\<lparr>st_charging1 := lim\<rparr>\<rparr> else s
      else s\<lparr>mc_setting := (mc_setting s)\<lparr>st_charging1 := - 1\<rparr>\<rparr>)"

definition thermal_input1 :: "mtk_charger \<Rightarrow> mtk_charger" where
  "thermal_input1 s =
     (let lim = ch_thermal_input (mc_chg1 s) in
      if lim \<noteq> - 1
      then if lim < ch_input_limit (mc_chg1 s)
           then (set_chg1 (\<lambda>c. c\<lparr>ch_input_limit := lim\<rparr>) s)\<lparr>mc_setting := (mc_setting s)\<lparr>st_input1 := lim\<rparr>\<rparr> else s
      else s\<lparr>mc_setting := (mc_setting s)\<lparr>st_input1 := - 1\<rparr>\<rparr>)"

definition thermal_charging2 :: "mtk_charger \<Rightarrow> mtk_charger" where
  "thermal_charging2 s =
     (let lim = ch_thermal_charging (mc_chg2 s) in
      if lim \<noteq> - 1
      then if lim < ch_charging_limit (mc_chg2 s)
           then (set_chg2 (\<lambda>c. c\<lparr>ch_charging_limit := lim\<rparr>) s)\<lparr>mc_setting := (mc_setting s)\<lparr>st_charging2 := lim\<rparr>\<rparr> else s
      else s\<lparr>mc_setting := (mc_setting s)\<lparr>st_charging2 := - 1\<rparr>\<rparr>)"

definition thermal_input2 :: "mtk_charger \<Rightarrow> mtk_charger" where
  "thermal_input2 s =
     (let lim = ch_thermal_input (mc_chg2 s) in
      if lim \<noteq> - 1
      then if lim < ch_input_limit (mc_chg2 s)
           then (set_chg2 (\<lambda>c. c\<lparr>ch_input_limit := lim\<rparr>) s)\<lparr>mc_setting := (mc_setting s)\<lparr>st_input2 := lim\<rparr>\<rparr> else s
      else s\<lparr>mc_setting := (mc_setting s)\<lparr>st_input2 := - 1\<rparr>\<rparr>)"

text \<open>
  What follows the label \<^verbatim>\<open>done\<close>: forced currents, and no current below the smallest one of the chip. The limits
  are signed, the smallest currents unsigned, and so are the comparisons.
\<close>

definition EOPNOTSUPP :: int where "EOPNOTSUPP = 95"

definition forced_limits :: "mtk_charger \<Rightarrow> mtk_charger" where
  "forced_limits s =
     (let fi = ch_force_input (mc_chg1 s); fc = ch_force_charging (mc_chg1 s);
          s = (if fi \<noteq> - 1 then set_chg1 (\<lambda>c. c\<lparr>ch_input_limit := fi\<rparr>) s else s);
          s = s\<lparr>mc_setting := (mc_setting s)\<lparr>st_input1 := fi, st_input2 := fi\<rparr>\<rparr>;
          s = (if fc \<noteq> - 1 then set_chg1 (\<lambda>c. c\<lparr>ch_charging_limit := fc\<rparr>) s else s)
      in s\<lparr>mc_setting := (mc_setting s)\<lparr>st_charging1 := fc, st_charging2 := fc\<rparr>\<rparr>)"

definition final_limits :: "basic_env \<Rightarrow> bool \<Rightarrow> mtk_charger \<Rightarrow> bool \<times> mtk_charger" where
  "final_limits env is_basic s =
     (let s = forced_limits s;
          low_ichg = (fst (be_min_ichg env) \<noteq> - EOPNOTSUPP \<and> u32w (ch_charging_limit (mc_chg1 s)) < u32w (snd (be_min_ichg env)));
          s = (if low_ichg then set_chg1 (\<lambda>c. c\<lparr>ch_charging_limit := 0\<rparr>) s else s);
          low_aicr = (fst (be_min_aicr env) \<noteq> - EOPNOTSUPP \<and> u32w (ch_input_limit (mc_chg1 s)) < u32w (snd (be_min_aicr env)));
          s = (if low_aicr then set_chg1 (\<lambda>c. c\<lparr>ch_input_limit := 0\<rparr>) s else s)
      in (is_basic \<or> low_ichg \<or> low_aicr, s))"

definition select_charging_current_limit :: "basic_env \<Rightarrow> mtk_charger \<Rightarrow> bool \<times> mtk_charger" where
  "select_charging_current_limit env s =
     (let s = select_cv (be_aging env) s in
      case early_limits s of Some s \<Rightarrow> final_limits env True s
      | None \<Rightarrow>
          (case type_limits s of (is_basic, s) \<Rightarrow>
            (case (if be_wpc_online env then (is_basic, s) else wired_limits env s) of (is_basic, s) \<Rightarrow>
               final_limits env is_basic (thermal_input2 (thermal_charging2 (thermal_input1 (thermal_charging1 (jeita_limits env s))))))))"

section \<open>Charging\<close>

fun try_algs :: "basic_env \<Rightarrow> int \<Rightarrow> nat list \<Rightarrow> mtk_charger \<Rightarrow> bool \<times> mtk_charger" where
  "try_algs env val [] s = (True, s)"
| "try_algs env val (i # is) s =
     (if \<not> mc_enable_hv s \<or> ch_charging_limit (mc_chg1 s) = 0 \<or> ch_input_limit (mc_chg1 s) = 0
      then let val = (case be_max_vbus env i of None \<Rightarrow> val | Some v \<Rightarrow> v)
           in try_algs env val is (if val > 5000 then chg_note (AlgStop i) s else s)
      else let s = (if be_done env \<noteq> mc_is_chg_done s
                    then chg_note (AlgNotify i (if be_done env then EVT_FULL else EVT_RECHARGE)) s else s);
               s = chg_note (AlgLimit i (mc_setting s)) s
           in case be_ready env i of
                ALG_INIT_FAIL \<Rightarrow> try_algs env val is s
              | ALG_TA_NOT_SUPPORT \<Rightarrow> try_algs env val is s
              | ALG_TA_CHECKING \<Rightarrow> (True, s)
              | ALG_DONE \<Rightarrow> (True, s)
              | ALG_NOT_READY \<Rightarrow> (True, s)
              | ALG_READY \<Rightarrow> (False, chg_note (AlgStart i) s)
              | ALG_RUNNING \<Rightarrow> (False, chg_note (AlgStart i) s)
              | ALG_OTHER \<Rightarrow> try_algs env val is s)"

fun stop_hv :: "basic_env \<Rightarrow> int \<Rightarrow> nat list \<Rightarrow> mtk_charger \<Rightarrow> mtk_charger" where
  "stop_hv env val [] s = s"
| "stop_hv env val (i # is) s =
     (let val = (case be_max_vbus env i of None \<Rightarrow> val | Some v \<Rightarrow> v)
      in stop_hv env val is (if val > 5000 \<and> be_running env i then chg_note (AlgStop i) s else s))"

definition charge_with :: "mtk_charger \<Rightarrow> mtk_charger" where
  "charge_with s =
     (let c = mc_chg1 s;
          s = charger_dev_set_input_current (ch_input_limit c) s;
          s = charger_dev_set_charging_current (ch_charging_limit c) s;
          s = charger_dev_set_constant_voltage (st_cv (mc_setting s)) s
      in charger_dev_enable (\<not> (ch_input_limit c = 0 \<or> ch_charging_limit c = 0)) s)"

definition do_algorithm :: "basic_env \<Rightarrow> mtk_charger \<Rightarrow> mtk_charger" where
  "do_algorithm env s =
     (case select_charging_current_limit env s of (is_basic, s) \<Rightarrow>
        let s = (if mc_is_chg_done s \<noteq> be_done env
                 then if be_done env then charger_dev_enable_ir_comp False (chg_note (DevEvent EVENT_FULL) s)
                      else chg_note (DevEvent EVENT_RECHARGE) s
                 else s);
            (is_basic, s) =
              (if \<not> is_basic then try_algs env 0 (mc_algs s) s
               else (True, if \<not> mc_enable_hv s \<or> ch_charging_limit (mc_chg1 s) = 0 \<or> ch_input_limit (mc_chg1 s) = 0
                           then stop_hv env 0 (mc_algs s) s else s));
            s = s\<lparr>mc_is_chg_done := be_done env\<rparr>
        in if is_basic then charge_with s else s)"

datatype chg_dev_notify = CHARGER_DEV_NOTIFY_EOC | CHARGER_DEV_NOTIFY_RECHG | CHARGER_DEV_NOTIFY_SAFETY_TIMEOUT
  | CHARGER_DEV_NOTIFY_VBUS_OVP bool | CHARGER_DEV_NOTIFY_UPDATE | CHARGER_DEV_NOTIFY_OTHER

text \<open>\<open>polling\<close>: the chip is polled, so most of its events need not wake the thread.\<close>

definition charger_dev_event :: "bool \<Rightarrow> chg_dev_notify \<Rightarrow> mtk_charger \<Rightarrow> mtk_charger" where
  "charger_dev_event polling ev s =
     (let fin = (\<lambda>s. if polling then s else wake_up_charger s) in
      case ev of
        CHARGER_DEV_NOTIFY_EOC \<Rightarrow> fin (each_alg (\<lambda>i. AlgNotify i EVT_FULL) s)
      | CHARGER_DEV_NOTIFY_RECHG \<Rightarrow> fin s
      | CHARGER_DEV_NOTIFY_SAFETY_TIMEOUT \<Rightarrow> fin (chg_note (Metric (MetricFault 3)) (s\<lparr>mc_safety_timeout := True\<rparr>))
      | CHARGER_DEV_NOTIFY_VBUS_OVP b \<Rightarrow> fin (chg_note (Metric (MetricFault 1)) (s\<lparr>mc_vbusov_stat := b\<rparr>))
      | CHARGER_DEV_NOTIFY_UPDATE \<Rightarrow> wake_up_charger s
      | CHARGER_DEV_NOTIFY_OTHER \<Rightarrow> s)"

text \<open>The wireless charger driver calls the selection of the currents alone.\<close>

definition mtk_basic_charging_current :: "basic_env \<Rightarrow> mtk_charger \<Rightarrow> int \<times> mtk_charger" where
  "mtk_basic_charging_current env s = (0, snd (select_charging_current_limit env s))"

section \<open>A pass of the charger thread\<close>

definition charger_pass :: "chg_env \<Rightarrow> basic_env \<Rightarrow> mtk_charger \<Rightarrow> mtk_charger" where
  "charger_pass env be s =
     (case mtk_is_charger_on (on_type env) (on_soc env) (s\<lparr>mc_battery_temp := ce_temp env\<rparr>) of (is_charger_on, s) \<Rightarrow>
        let s = (if mc_polling s then chg_note TimerStart s else s);
            s = check_dynamic_mivr env s;
            s = charger_check_status env s;
            s = charger_top_off_mode env s;
            s = kpoc_power_off_check env s;
            s = battery_protect_algo env s;
            s = battery_full_track env s;
            s = check_dpm_eoc_state env s;
            s = (if \<not> is_disable_charger s \<and> is_charger_on \<and> mc_can_charging s \<and> mc_basic s then do_algorithm be s else s)
        in chg_note WpcAlgorithm s)"

end
