(* ===== verification/Charger_Probe.thy ===== *)
theory Charger_Probe
  imports Basic_Charger
begin

text \<open>
  The start of the charger driver (\<^verbatim>\<open>mtk_charger_probe\<close>, \<^verbatim>\<open>mtk_charger_parse_dt\<close>, \<^verbatim>\<open>charger_init_algo\<close>): every number of the
  device tree with its default, and the state in which the charger thread begins.
\<close>

section \<open>The device tree\<close>

text \<open>A property that is there has a value of 32 bits without sign.\<close>

record charger_dt =
  dt_u32 :: "string \<Rightarrow> int option"
  dt_bool :: "string \<Rightarrow> bool"
  dt_algorithm :: "string option"
  dt_bootmode :: "nat option"

definition dt_uint :: "charger_dt \<Rightarrow> string \<Rightarrow> int \<Rightarrow> int" where
  "dt_uint dt name dflt = (case dt_u32 dt name of None \<Rightarrow> dflt | Some v \<Rightarrow> v)"

text \<open>Most of them are put into signed variables.\<close>

definition dt_int :: "charger_dt \<Rightarrow> string \<Rightarrow> int \<Rightarrow> int" where
  "dt_int dt name dflt = (case dt_u32 dt name of None \<Rightarrow> dflt | Some v \<Rightarrow> s32 v)"

definition parse_node :: "charger_dt \<Rightarrow> string \<Rightarrow> int \<Rightarrow> int" where
  "parse_node dt name old = (case dt_u32 dt name of None \<Rightarrow> old | Some v \<Rightarrow> s32 v)"

definition jeita_cv_new :: "charger_dt \<Rightarrow> sw_jeita_state \<Rightarrow> int" where
  "jeita_cv_new dt sm = (case sm of
        TEMP_ABOVE_T4 \<Rightarrow> (dt_int dt ''jeita_temp_above_t4_cv'' 4240000)
        | TEMP_T3_TO_T4 \<Rightarrow> (dt_int dt ''jeita_temp_t3_to_t4_cv'' 4240000)
        | TEMP_T2_TO_T3 \<Rightarrow> (dt_int dt ''jeita_temp_t2_to_t3_cv'' 4340000)
        | TEMP_T1_TO_T2 \<Rightarrow> (dt_int dt ''jeita_temp_t1_to_t2_cv'' 4240000)
        | TEMP_T0_TO_T1 \<Rightarrow> (dt_int dt ''jeita_temp_t0_to_t1_cv'' 4040000)
        | TEMP_BELOW_T0 \<Rightarrow> (dt_int dt ''jeita_temp_below_t0_cv'' 4040000))"

definition jeita_cv_aging1 :: "charger_dt \<Rightarrow> sw_jeita_state \<Rightarrow> int" where
  "jeita_cv_aging1 dt sm = (case sm of
        TEMP_ABOVE_T4 \<Rightarrow> (dt_int dt ''jeita_temp_above_t4_cv_aging1'' 4240000)
        | TEMP_T3_TO_T4 \<Rightarrow> (dt_int dt ''jeita_temp_t3_to_t4_cv_aging1'' 4240000)
        | TEMP_T2_TO_T3 \<Rightarrow> (dt_int dt ''jeita_temp_t2_to_t3_cv_aging1'' 4340000)
        | TEMP_T1_TO_T2 \<Rightarrow> (dt_int dt ''jeita_temp_t1_to_t2_cv_aging1'' 4240000)
        | TEMP_T0_TO_T1 \<Rightarrow> (dt_int dt ''jeita_temp_t0_to_t1_cv_aging1'' 4040000)
        | TEMP_BELOW_T0 \<Rightarrow> (dt_int dt ''jeita_temp_below_t0_cv_aging1'' 4040000))"

definition jeita_cv_aging2 :: "charger_dt \<Rightarrow> sw_jeita_state \<Rightarrow> int" where
  "jeita_cv_aging2 dt sm = (case sm of
        TEMP_ABOVE_T4 \<Rightarrow> (dt_int dt ''jeita_temp_above_t4_cv_aging2'' 4240000)
        | TEMP_T3_TO_T4 \<Rightarrow> (dt_int dt ''jeita_temp_t3_to_t4_cv_aging2'' 4240000)
        | TEMP_T2_TO_T3 \<Rightarrow> (dt_int dt ''jeita_temp_t2_to_t3_cv_aging2'' 4340000)
        | TEMP_T1_TO_T2 \<Rightarrow> (dt_int dt ''jeita_temp_t1_to_t2_cv_aging2'' 4240000)
        | TEMP_T0_TO_T1 \<Rightarrow> (dt_int dt ''jeita_temp_t0_to_t1_cv_aging2'' 4040000)
        | TEMP_BELOW_T0 \<Rightarrow> (dt_int dt ''jeita_temp_below_t0_cv_aging2'' 4040000))"

definition parse_custom_data :: "charger_dt \<Rightarrow> charger_custom_data" where
  "parse_custom_data dt =
    \<lparr>cc_battery_cv = (\<lambda>a. if a = 1 then dt_int dt ''battery_cv_aging1'' 4300000 else if a = 2 then dt_int dt ''battery_cv_aging2'' 4000000
        else dt_int dt ''battery_cv'' 4400000),
     cc_max_charger_voltage = dt_int dt ''max_charger_voltage'' 6500000,
     cc_max_charger_voltage_setting = dt_int dt ''max_charger_voltage'' 6500000,
     cc_min_charger_voltage = dt_int dt ''min_charger_voltage'' 4600000,
     cc_vbus_uvlo_voltage = dt_int dt ''vbus_uvlo_voltage'' 4300000,
     cc_usb_current = dt_int dt ''usb_charger_current'' 500000,
     cc_ac_current = dt_int dt ''ac_charger_current'' 2050000,
     cc_ac_input_current = dt_int dt ''ac_charger_input_current'' 3200000,
     cc_non_std_current = dt_int dt ''non_std_ac_charger_current'' 500000,
     cc_host_current = dt_int dt ''charging_host_charger_current'' 650000,
     cc_w5_input = dt_int dt ''wireless_5w_charger_input_current'' 1000000,
     cc_w5_current = dt_int dt ''wireless_5w_charger_current'' 1000000,
     cc_w10_input = dt_int dt ''wireless_10w_charger_input_current'' 1800000,
     cc_w10_current = dt_int dt ''wireless_10w_charger_current'' 1800000,
     cc_wd_input = dt_int dt ''wireless_default_charger_input_current'' 500000,
     cc_wd_current = dt_int dt ''wireless_default_charger_current'' 500000,
     cc_jeita_cv = (\<lambda>a sm. if a = 1 then jeita_cv_aging1 dt sm else if a = 2 then jeita_cv_aging2 dt sm else jeita_cv_new dt sm),
     cc_t4 = dt_int dt ''temp_t4_thres'' 50,
     cc_t4_minus = dt_int dt ''temp_t4_thres_minus_x_degree'' 47,
     cc_t3 = dt_int dt ''temp_t3_thres'' 45,
     cc_t3_minus = dt_int dt ''temp_t3_thres_minus_x_degree'' 39,
     cc_t2 = dt_int dt ''temp_t2_thres'' 10,
     cc_t2_plus = dt_int dt ''temp_t2_thres_plus_x_degree'' 16,
     cc_t1 = dt_int dt ''temp_t1_thres'' 0,
     cc_t1_plus = dt_int dt ''temp_t1_thres_plus_x_degree'' 6,
     cc_t0 = dt_int dt ''temp_t0_thres'' 0,
     cc_t0_plus = dt_int dt ''temp_t0_thres_plus_x_degree'' 0,
     cc_neg_10 = (case dt_u32 dt ''temp_neg_10_thres'' of None \<Rightarrow> - 10
        | Some v \<Rightarrow> s32 (if dt_bool dt ''temp_neg_10_thres_neg'' then - v else v)),
     cc_t0_t1_current = dt_int dt ''temp_t0_to_t1_charger_current'' 350000,
     cc_t3_t4_current = dt_int dt ''temp_t3_to_t4_charger_current'' 2000000,
     cc_min_voltage_1 = dt_int dt ''min_charger_voltage_1'' 4400000,
     cc_min_voltage_2 = dt_int dt ''min_charger_voltage_2'' 4200000,
     cc_max_dmivr_current = dt_int dt ''max_dmivr_charger_current'' 1800000\<rparr>"

definition adapter_power_detection_parse_dt :: "charger_dt \<Rightarrow> power_detection_data \<Rightarrow> power_detection_data" where
  "adapter_power_detection_parse_dt dt d =
     (if \<not> dt_bool dt ''power_detection_en'' then d
      else let d = d\<lparr>pw_en := True,
                     pw_9w_aicl_min := parse_node dt ''adapter_9w_aicl_min'' (pw_9w_aicl_min d),
                     pw_12w_aicl_min := parse_node dt ''adapter_12w_aicl_min'' (pw_12w_aicl_min d),
                     pw_5w_lim := parse_node dt ''adapter_5w_iusb_lim'' (pw_5w_lim d),
                     pw_7p5w_lim := parse_node dt ''adapter_7p5w_iusb_lim'' (pw_7p5w_lim d),
                     pw_9w_lim := parse_node dt ''adapter_9w_iusb_lim'' (pw_9w_lim d),
                     pw_12w_lim := parse_node dt ''adapter_12w_iusb_lim'' (pw_12w_lim d),
                     pw_15w_lim := parse_node dt ''adapter_15w_iusb_lim'' (pw_15w_lim d),
                     pw_trigger_iusb := parse_node dt ''aicl_trigger_iusb'' (pw_trigger_iusb d),
                     pw_trigger_ichg := parse_node dt ''aicl_trigger_ichg'' (pw_trigger_ichg d)\<rparr>
           in if pw_9w_aicl_min d = 0 \<or> pw_12w_aicl_min d = 0 \<or> pw_5w_lim d = 0 \<or> pw_7p5w_lim d = 0 \<or> pw_9w_lim d = 0
                 \<or> pw_12w_lim d = 0 \<or> pw_15w_lim d = 0 \<or> pw_trigger_iusb d = 0 \<or> pw_trigger_ichg d = 0
              then d\<lparr>pw_en := False\<rparr> else d)"

definition invalid_charger_check_parse_dt :: "charger_dt \<Rightarrow> invchg_limits" where
  "invalid_charger_check_parse_dt dt =
     \<lparr>iv_iusb_ua = dt_int dt ''invchg_check_iusb_ua'' 300000, iv_ichg_ua = dt_int dt ''invchg_check_ichg_ua'' 1000000,
      iv_mivr_uv = dt_int dt ''invchg_check_mivr_uv'' 4500000\<rparr>"

definition dpm_eoc_parse_dt :: "charger_dt \<Rightarrow> dpm_limits" where
  "dpm_eoc_parse_dt dt =
     \<lparr>dp_vdiff_uv = dt_int dt ''dpm_cv_bat_vdiff_uv'' 20000, dp_ibat_ma = dt_int dt ''dpm_ibat_threshold_ma'' 200,
      dp_count_max = dt_int dt ''dpm_state_count_max'' 9, dp_low_soc_diff = dt_int dt ''dpm_rechg_low_soc_diff'' 2,
      dp_input_ua = dt_int dt ''dpm_input_cur_limit_ua'' 300000, dp_charge_ua = dt_int dt ''dpm_charge_cur_limit_ua'' 300000\<rparr>"

text \<open>
  \<^verbatim>\<open>config\<close> 1 is two chargers in series. An algorithm of another name than \<^verbatim>\<open>Basic\<close> leaves the framework without
  the basic one. Times are in milliseconds in the device tree's reset time, a signed one.
\<close>

definition mtk_charger_parse_dt :: "charger_dt \<Rightarrow> mtk_charger \<Rightarrow> mtk_charger" where
  "mtk_charger_parse_dt dt s =
     s\<lparr>mc_bootmode := (case dt_bootmode dt of None \<Rightarrow> mc_bootmode s | Some m \<Rightarrow> m),
       mc_basic := (case dt_algorithm dt of None \<Rightarrow> True | Some a \<Rightarrow> a = ''Basic''),
       mc_disable_charger := dt_bool dt ''disable_charger'',
       mc_series := dt_uint dt ''charger_configuration'' 0 = 1,
       mc_data := parse_custom_data dt,
       mc_enable_eoc := dt_bool dt ''enable_bat_eoc_protect'',
       mc_soc_exit_eoc := dt_uint dt ''soc_exit_eoc'' 96,
       mc_reset_time := dt_uint dt ''bat_eoc_protect_reset_time'' 60,
       mc_enable_sw_jeita := dt_bool dt ''enable_sw_jeita'',
       mc_thermal := \<lparr>bt_sm = BAT_TEMP_NORMAL, bt_enable_min = dt_bool dt ''enable_min_charge_temp'',
                      bt_min = dt_int dt ''min_charge_temp'' 0, bt_min_plus = dt_int dt ''min_charge_temp_plus_x_degree'' 6,
                      bt_max = dt_int dt ''max_charge_temp'' 50, bt_max_minus = dt_int dt ''max_charge_temp_minus_x_degree'' 47\<rparr>,
       mc_enable_dynamic_mivr := dt_bool dt ''enable_dynamic_mivr'',
       mc_top_off_cv := (\<lambda>a. if a = 1 then dt_int dt ''top_off_mode_cv_aging1'' 4200000 else if a = 2 then dt_int dt ''top_off_mode_cv_aging2'' 0
                            else dt_int dt ''top_off_mode_cv'' 4200000),
       mc_top_off_diff := dt_uint dt ''top_off_difference_full_cv'' 500,
       mc_normal_diff := dt_uint dt ''normal_difference_full_cv'' 500,
       mc_pw := adapter_power_detection_parse_dt dt (mc_pw s),
       mc_inv := invalid_charger_check_parse_dt dt,
       mc_dpm := dpm_eoc_parse_dt dt\<rparr>"

section \<open>The boot argument of the test mode\<close>

text \<open>
  The value of \<^verbatim>\<open>androidboot.atm\<close> up to the next blank is copied into 64 bytes: \<open>None\<close> when it does not fit (the
  copy and the end mark are written behind the array), the mode otherwise.
\<close>

fun after_key :: "string \<Rightarrow> string \<Rightarrow> string option" where
  "after_key key [] = (if key = [] then Some [] else None)"
| "after_key key (c # cs) = (if take (length key) (c # cs) = key then Some (drop (length key) (c # cs)) else after_key key cs)"

definition mtk_charger_get_atm_mode :: "string \<Rightarrow> bool option" where
  "mtk_charger_get_atm_mode cmdline =
     (case after_key ''androidboot.atm='' cmdline of None \<Rightarrow> Some False
      | Some rest \<Rightarrow>
          (let val = takeWhile (\<lambda>c. c \<noteq> CHR '' '') rest
           in if length val = length rest then Some False
              else if val = [] then Some False
              else if length val \<ge> 64 then None
              else Some (take (length ''enable'') val = ''enable'')))"

text \<open>Bug: the mode is missed at the end of the command line, and a long value is written behind the array.\<close>

theorem atm_mode_cases:
  "mtk_charger_get_atm_mode ''androidboot.atm=enable quiet'' = Some True" "mtk_charger_get_atm_mode ''androidboot.atm=enable'' = Some False"
  "64 \<le> length val \<Longrightarrow> CHR '' '' \<notin> set val \<Longrightarrow> mtk_charger_get_atm_mode (''androidboot.atm='' @ val @ '' quiet'') = None"
proof -
  show "mtk_charger_get_atm_mode ''androidboot.atm=enable quiet'' = Some True" "mtk_charger_get_atm_mode ''androidboot.atm=enable'' = Some False"
    by (simp_all add: mtk_charger_get_atm_mode_def)
  assume v: "64 \<le> length val" "CHR '' '' \<notin> set val"
  have "takeWhile (\<lambda>c. c \<noteq> CHR '' '') (val @ '' quiet'') = val" by (subst takeWhile_append2) (use v(2) in auto)
  moreover have "after_key ''androidboot.atm='' (''androidboot.atm='' @ val @ '' quiet'') = Some (val @ '' quiet'')" by simp
  ultimately show "mtk_charger_get_atm_mode (''androidboot.atm='' @ val @ '' quiet'') = None"
    using v(1) unfolding mtk_charger_get_atm_mode_def by (auto simp: Let_def)
qed

section \<open>The probe\<close>

definition zero_limits :: charger_data where
  "zero_limits = \<lparr>ch_input_limit = 500000, ch_charging_limit = 0, ch_force_charging = - 1, ch_force_input = - 1, ch_thermal_input = - 1,
     ch_thermal_power = - 1, ch_thermal_charging = - 1, ch_disable_count = 0, ch_aicl = - 1, ch_tj_min = 0, ch_tj_max = 0\<rparr>"

text \<open>
  The memory of the driver starts as zeros, its static variables with the values in the source; \<open>hw\<close> is the chip as
  the boot loader left it. \<open>switch_ret\<close> is the answer of \<^verbatim>\<open>switch_dev_register\<close>, \<open>tcpc\<close> whether the Type-C controller was found.
\<close>

definition zero_charger :: "chg_hw \<Rightarrow> mtk_charger" where
  "zero_charger hw =
    \<lparr>mc_data = parse_custom_data \<lparr>dt_u32 = (\<lambda>_. Some 0), dt_bool = (\<lambda>_. False), dt_algorithm = None, dt_bootmode = None\<rparr>,
     mc_dpm = \<lparr>dp_vdiff_uv = 0, dp_ibat_ma = 0, dp_count_max = 0, dp_low_soc_diff = 0, dp_input_ua = 0, dp_charge_ua = 0\<rparr>,
     mc_inv = \<lparr>iv_iusb_ua = 0, iv_ichg_ua = 0, iv_mivr_uv = 0\<rparr>,
     mc_pw = \<lparr>pw_en = False, pw_iusb_ua = 0, pw_type = 0, pw_9w_aicl_min = 0, pw_12w_aicl_min = 0, pw_5w_lim = 0, pw_7p5w_lim = 0,
       pw_9w_lim = 0, pw_12w_lim = 0, pw_15w_lim = 0, pw_trigger_iusb = 0, pw_trigger_ichg = 0\<rparr>,
     mc_chg1 = zero_limits, mc_chg2 = zero_limits,
     mc_setting = \<lparr>st_cv = 0, st_input1 = 0, st_input2 = 0, st_charging1 = 0, st_charging2 = 0\<rparr>,
     mc_series = False, mc_has_chg2 = False, mc_bootmode = 0, mc_bcm_flag = BCM_FLAG_NONE, mc_chr_type = POWER_SUPPLY_TYPE_UNKNOWN,
     mc_cable_out_cnt = 0, mc_polling = False, mc_usb_unlimited = False, mc_disable_charger = False, mc_battery_temp = 0,
     mc_can_charging = False, mc_cmd_discharging = False, mc_safety_timeout = False, mc_vbusov_stat = False, mc_is_chg_done = False,
     mc_atm_enabled = False, mc_basic = False, mc_notify_code = 0, mc_notify_test_mode = 0, mc_enable_sw_jeita = False,
     mc_sw_jeita = \<lparr>sj_sm = TEMP_BELOW_T0, sj_pre_sm = TEMP_BELOW_T0, sj_cv = 0, sj_charging = False\<rparr>,
     mc_thermal = \<lparr>bt_sm = BAT_TEMP_LOW, bt_enable_min = False, bt_min = 0, bt_min_plus = 0, bt_max = 0, bt_max_minus = 0\<rparr>,
     mc_algs = [], mc_enable_hv = False, mc_water = False, mc_enable_dynamic_mivr = False, mc_enable_eoc = False,
     mc_bat_eoc_protect = False, mc_soc_exit_eoc = 0, mc_dpm_disable = False, mc_soc_exit_dpm = 0, mc_cv_enter_dpm = 0, mc_dpm_count = 0,
     mc_inv_done = False, mc_inv_weak = False, mc_disconnect_time = 0, mc_disconnect_duration = 0, mc_reset_time = 0,
     mc_top_off_enable = 0, mc_custom_cv = 0, mc_top_off_cv = (\<lambda>_. 0), mc_top_off_diff = 0, mc_normal_diff = 0, mc_custom_mode = 0,
     mc_vbus_state = VBUS_NORMAL, mc_uvlo_recovery = False, mc_pd_type = 0, mc_pd_reset = False, mc_has_tcpc = False,
     mc_recharge_soc = 0, mc_update_eoc = False, mc_plug_status = False, mc_invalid_switch = 0, mc_hw = hw\<rparr>"

definition mtk_charger_probe :: "charger_dt \<Rightarrow> int \<Rightarrow> bool \<Rightarrow> bool \<Rightarrow> chg_hw \<Rightarrow> int \<times> mtk_charger" where
  "mtk_charger_probe dt switch_ret atm tcpc hw =
     (let s = (mtk_charger_parse_dt dt (zero_charger hw))\<lparr>mc_bcm_flag := BCM_FLAG_NONE, mc_invalid_switch := 0\<rparr>
      in if switch_ret \<noteq> 0 then (switch_ret, s)
         else (0, s\<lparr>mc_atm_enabled := atm, mc_chg1 := zero_limits, mc_chg2 := zero_limits,
           mc_enable_hv := True, mc_disconnect_time := - (mc_reset_time s * 1000) * 1000000, mc_custom_cv := - 1,
           mc_top_off_enable := 0, mc_has_tcpc := tcpc, mc_sw_jeita := (mc_sw_jeita s)\<lparr>sj_sm := TEMP_T2_TO_T3\<rparr>\<rparr>))"

text \<open>
  The thread looks for the fast algorithms, in this order, and for the chips; without a chip it fails and is
  called again after a pause.
\<close>

definition ALG_NAMES :: "string list" where "ALG_NAMES = [''pe4'', ''pd'', ''pe2'', ''pe'']"

definition charger_init_algo :: "(string \<Rightarrow> bool) \<Rightarrow> bool \<Rightarrow> bool \<Rightarrow> mtk_charger \<Rightarrow> bool \<times> mtk_charger" where
  "charger_init_algo found primary secondary s =
     (let s = s\<lparr>mc_algs := filter (\<lambda>i. found (ALG_NAMES ! i)) [0, 1, 2, 3]\<rparr>
      in if \<not> primary then (False, s)
         else if mc_series s then (secondary, s\<lparr>mc_has_chg2 := secondary\<rparr>)
         else (True, s))"

section \<open>What the start guarantees\<close>

lemma dt_default [simp]: "dt_u32 dt name = None \<Longrightarrow> dt_int dt name d = d" "dt_u32 dt name = None \<Longrightarrow> dt_uint dt name d = d"
  by (simp_all add: dt_int_def dt_uint_def)

text \<open>The detection of adapters is on only with all its parameters.\<close>

lemma detection_complete:
  "pw_en (mc_pw (snd (mtk_charger_probe dt ret atm tcpc hw))) \<Longrightarrow>
     let d = mc_pw (snd (mtk_charger_probe dt ret atm tcpc hw)) in pw_12w_aicl_min d \<noteq> 0 \<and> pw_9w_aicl_min d \<noteq> 0 \<and> pw_5w_lim d \<noteq> 0 \<and> pw_7p5w_lim d \<noteq> 0
       \<and> pw_9w_lim d \<noteq> 0 \<and> pw_12w_lim d \<noteq> 0 \<and> pw_15w_lim d \<noteq> 0 \<and> pw_trigger_iusb d \<noteq> 0 \<and> pw_trigger_ichg d \<noteq> 0"
  unfolding mtk_charger_probe_def mtk_charger_parse_dt_def Let_def
  by (simp add: adapter_power_detection_parse_dt_def Let_def zero_charger_def split: if_splits)

text \<open>The parameters left out of the device tree: the chip off, JEITA and the protection at the end of a charge on.\<close>

definition plain_dt :: charger_dt where
  "plain_dt = \<lparr>dt_u32 = (\<lambda>_. None), dt_bool = (\<lambda>n. n = ''enable_sw_jeita'' \<or> n = ''enable_bat_eoc_protect''), dt_algorithm = None,
     dt_bootmode = None\<rparr>"

definition chip_off :: chg_hw where
  "chip_off = \<lparr>hw_en = False, hw_cv = 0, hw_input = 0, hw_ichg = 0, hw_mivr = 0, hw_ir_comp = False, hw_pmic = 0, hw_log = []\<rparr>"

definition started :: mtk_charger where
  "started = snd (mtk_charger_probe plain_dt 0 False False chip_off)"

definition plain_data :: charger_custom_data where
  "plain_data = parse_custom_data plain_dt"

lemma plain_data_fields [simp]:
  "cc_battery_cv plain_data 0 = 4400000" "cc_max_charger_voltage plain_data = 6500000" "cc_min_charger_voltage plain_data = 4600000"
  "cc_vbus_uvlo_voltage plain_data = 4300000" "cc_usb_current plain_data = 500000" "cc_ac_current plain_data = 2050000"
  "cc_ac_input_current plain_data = 3200000" "cc_t4 plain_data = 50" "cc_t4_minus plain_data = 47" "cc_t3 plain_data = 45"
  "cc_t3_minus plain_data = 39" "cc_t2 plain_data = 10" "cc_t2_plus plain_data = 16" "cc_t1 plain_data = 0" "cc_t1_plus plain_data = 6"
  "cc_t0 plain_data = 0" "cc_t0_plus plain_data = 0" "cc_neg_10 plain_data = - 10" "cc_t0_t1_current plain_data = 350000"
  "cc_t3_t4_current plain_data = 2000000"
  by (simp_all add: plain_data_def parse_custom_data_def dt_int_def plain_dt_def)

lemma started_fields [simp]:
  "mc_data started = plain_data" "mc_basic started" "mc_enable_sw_jeita started" "mc_enable_eoc started" "\<not> mc_can_charging started"
  "mc_bcm_flag started = 0" "mc_chr_type started = 0" "mc_cable_out_cnt started = 0" "mc_hw started = chip_off" "\<not> mc_disable_charger started"
  "mc_algs started = []" "\<not> mc_bat_eoc_protect started" "\<not> mc_dpm_disable started" "\<not> mc_inv_weak started" "\<not> mc_cmd_discharging started"
  "mc_dpm_count started = 0" "mc_dpm started = \<lparr>dp_vdiff_uv = 20000, dp_ibat_ma = 200, dp_count_max = 9, dp_low_soc_diff = 2,
     dp_input_ua = 300000, dp_charge_ua = 300000\<rparr>" "sj_sm (mc_sw_jeita started) = TEMP_T2_TO_T3" "sj_cv (mc_sw_jeita started) = 0"
  "mc_chg1 started = zero_limits" "mc_chg2 started = zero_limits" "\<not> mc_usb_unlimited started" "\<not> mc_water started"
  "mc_bootmode started = 0" "\<not> mc_atm_enabled started" "mc_custom_cv started = - 1" "mc_custom_mode started = 0"
  "\<not> mc_enable_dynamic_mivr started" "\<not> mc_has_chg2 started" "mc_notify_test_mode started = 0" "mc_notify_code started = 0"
  "mc_vbus_state started = VBUS_NORMAL" "mc_polling started = False" "\<not> mc_inv_done started" "mc_top_off_enable started = 0"
  "mc_thermal started = \<lparr>bt_sm = BAT_TEMP_NORMAL, bt_enable_min = False, bt_min = 0, bt_min_plus = 6, bt_max = 50, bt_max_minus = 47\<rparr>"
  "mc_inv started = \<lparr>iv_iusb_ua = 300000, iv_ichg_ua = 1000000, iv_mivr_uv = 4500000\<rparr>" "\<not> mc_has_tcpc started"
  "\<not> mc_series started" "\<not> mc_uvlo_recovery started" "\<not> mc_is_chg_done started" "mc_enable_hv started" "mc_soc_exit_eoc started = 96"
  "mc_plug_status started = False" "mc_disconnect_time started = - 60000000000" "mc_reset_time started = 60" "\<not> pw_en (mc_pw started)"
  by (simp_all add: started_def mtk_charger_probe_def Let_def mtk_charger_parse_dt_def zero_charger_def plain_data_def dt_uint_def dt_int_def
      dpm_eoc_parse_dt_def invalid_charger_check_parse_dt_def adapter_power_detection_parse_dt_def, simp_all add: plain_dt_def)

text \<open>The readings of a warm battery at a charger of 5 V, with a type of charger.\<close>

definition calm_env :: "int \<Rightarrow> int \<Rightarrow> chg_env" where
  "calm_env ty temp = \<lparr>ce_temp = temp, ce_aging = 0, on_type = ty, on_soc = 50, ck_type = ty, ck_bat_id = True, ck_tj1 = None, ck_tj2 = None,
     vb_type = ty, vb_vbus = 5000, vb_wpc_online = False, nt_vbus = 5000, kp_type = ty, kp_vbus = 5000, kp_soc = 50, mi_alg = (\<lambda>_. ALG_OTHER),
     mi_vbat = 3800, to_ui_soc = 50, bp_ui_soc = 50, bp_soc = 50, bp_done = False, ft_ui_soc = 50, ft_done = False,
     dp_indpm = (0, False, False), dp_cv = 4400000, dp_soc = 50, dp_vbat = 3800, dp_ibat = 500, dp_chg_en = True, dp_done = False,
     dp_icl = 500000, dp_ccl = 500000\<rparr>"

definition calm_basic :: basic_env where
  "calm_basic = \<lparr>be_aging = 0, be_usbif = False, be_done = False, be_wpc_online = True, be_fast = (\<lambda>_. ALG_OTHER), be_ready = (\<lambda>_. ALG_OTHER),
     be_max_vbus = (\<lambda>_. None), be_running = (\<lambda>_. False), be_aicl = None, be_aicl2 = None, be_tcpc = False, be_rp = (\<lambda>_. 0), be_rp_level = 0,
     be_usb = (\<lambda>_. (0, True, 5)), be_bak_cv = 0, be_bak_iusb = 0, be_bak_ichg = 0, be_indpm = (0, False, False), be_inv_vbus = 5000,
     be_min_ichg = (0, 0), be_min_aicr = (0, 0)\<rparr>"

end
