(* ===== verification/Charger_Battery.thy ===== *)
theory Charger_Battery
  imports Charger_Probe
begin

text \<open>
  What the charger framework promises about the battery: the automaton that software JEITA refines, the detection of
  a weak input at the end of a charge, and the bounds of the charging voltage.
\<close>

section \<open>What the temperature states mean\<close>

text \<open>
  Seen from outside, the six states are three: too hot, too cold, or fit for charging, each left only with some
  distance. The table does not assume that a temperature changes in small steps.
\<close>

datatype heat = Fit | Hot | Cold

definition heat_of :: "sw_jeita_state \<Rightarrow> heat" where
  "heat_of sm = (if sm = TEMP_ABOVE_T4 then Hot else if sm = TEMP_BELOW_T0 then Cold else Fit)"

definition heat_next :: "charger_custom_data \<Rightarrow> int \<Rightarrow> heat \<Rightarrow> heat" where
  "heat_next d t h =
     (if t \<ge> cc_t4 d then Hot
      else if t < cc_t0 d then Cold
      else if h = Hot \<and> t \<ge> cc_t3 d \<and> t \<ge> cc_t4_minus d then Hot
      else if h = Cold \<and> (t < cc_t1 d \<and> t \<le> cc_t0_plus d \<or> cc_t1 d \<le> t \<and> t < cc_t2 d \<and> t \<le> cc_t1_plus d) then Cold
      else Fit)"

definition ordered_ranges :: "charger_custom_data \<Rightarrow> bool" where
  "ordered_ranges d \<longleftrightarrow> cc_t0 d \<le> cc_t1 d \<and> cc_t1 d \<le> cc_t2 d \<and> cc_t2 d \<le> cc_t3 d \<and> cc_t3 d \<le> cc_t4 d"

text \<open>Temperatures one after another, from some state.\<close>

definition jeita_run :: "nat \<Rightarrow> int list \<Rightarrow> mtk_charger \<Rightarrow> mtk_charger" where
  "jeita_run aging ts s = fold (\<lambda>t s. do_sw_jeita_state_machine aging (s\<lparr>mc_battery_temp := t\<rparr>)) ts s"

definition heat_run :: "charger_custom_data \<Rightarrow> int list \<Rightarrow> heat \<Rightarrow> heat" where
  "heat_run d ts h = fold (heat_next d) ts h"

lemma jeita_next_heat:
  "ordered_ranges d \<Longrightarrow> heat_of (fst (jeita_next d t sm)) = heat_next d t (heat_of sm)"
  by (cases sm) (auto simp: jeita_next_def heat_next_def heat_of_def ordered_ranges_def)

lemma jeita_next_charging: "snd (jeita_next d t sm) \<longleftrightarrow> heat_of (fst (jeita_next d t sm)) = Fit"
  by (cases sm) (auto simp: jeita_next_def heat_of_def)

lemma jeita_step [simp]:
  "mc_data (do_sw_jeita_state_machine a s) = mc_data s"
  "sj_sm (mc_sw_jeita (do_sw_jeita_state_machine a s)) = fst (jeita_next (mc_data s) (mc_battery_temp s) (sj_sm (mc_sw_jeita s)))"
  "sj_charging (mc_sw_jeita (do_sw_jeita_state_machine a s)) = snd (jeita_next (mc_data s) (mc_battery_temp s) (sj_sm (mc_sw_jeita s)))"
  by (simp_all add: do_sw_jeita_state_machine_def Let_def split_beta)

lemma jeita_run_heat:
  "ordered_ranges (mc_data s) \<Longrightarrow>
   mc_data (jeita_run a ts s) = mc_data s \<and>
   heat_of (sj_sm (mc_sw_jeita (jeita_run a ts s))) = heat_run (mc_data s) ts (heat_of (sj_sm (mc_sw_jeita s)))"
  by (induction ts rule: rev_induct) (auto simp: jeita_run_def heat_run_def jeita_next_heat)

text \<open>C6: however the temperature changes, software JEITA (\<^verbatim>\<open>do_sw_jeita_state_machine\<close>) allows charging exactly when the
  automaton with the states fit, hot and cold is in fit, so it refines that automaton: above the highest threshold or
  below the lowest one charging stops, and goes on again only behind the hysteresis.\<close>

theorem sw_jeita_refines_heat:
  assumes "ordered_ranges (mc_data s)" and "ts \<noteq> []"
  shows "sj_charging (mc_sw_jeita (jeita_run a ts s)) \<longleftrightarrow> heat_run (mc_data s) ts (heat_of (sj_sm (mc_sw_jeita s))) = Fit"
proof -
  obtain us t where ts: "ts = us @ [t]" using assms(2) by (meson rev_exhaust)
  show ?thesis using jeita_run_heat [OF assms(1), of a us] assms(1)
    by (simp add: ts jeita_run_def heat_run_def jeita_next_charging jeita_next_heat)
qed

theorem sw_jeita_refines_heat_witness:
  "sj_charging (mc_sw_jeita (jeita_run 0 [55, 48, 46] started)) \<and> \<not> sj_charging (mc_sw_jeita (jeita_run 0 [55, 48] started))"
  using sw_jeita_refines_heat [of started "[55, 48, 46]" 0] sw_jeita_refines_heat [of started "[55, 48]" 0]
  by (simp add: ordered_ranges_def heat_run_def heat_next_def heat_of_def)

section \<open>The weak input at the end of a charge\<close>

definition dpm_run :: "chg_env list \<Rightarrow> mtk_charger \<Rightarrow> mtk_charger" where
  "dpm_run envs s = fold check_dpm_eoc_state envs s"

text \<open>What a valid detection depends on.\<close>

lemma dpm_valid_cong: "mc_data s = mc_data t \<Longrightarrow> mc_dpm s = mc_dpm t \<Longrightarrow> dpm_valid env s = dpm_valid env t"
  by (simp add: dpm_valid_def Let_def split_beta)

lemma dpm_counts:
  assumes "mc_enable_eoc s" "\<not> mc_dpm_disable s" "mc_dpm_count s = 0"
    and "\<forall>env \<in> set envs. fst (dp_indpm env) \<noteq> - ENOTSUPP \<and> dpm_valid env s"
    and "int (length envs) < dp_count_max (mc_dpm s)" "dp_count_max (mc_dpm s) < 2147483648"
  shows "dpm_run envs s = s\<lparr>mc_dpm_count := int (length envs)\<rparr>"
  using assms(4,5)
proof (induction envs rule: rev_induct)
  case Nil
  show ?case using assms(3) by (simp add: dpm_run_def)
next
  case (snoc env envs)
  have run: "dpm_run envs s = s\<lparr>mc_dpm_count := int (length envs)\<rparr>" using snoc by simp
  have "dpm_valid env (s\<lparr>mc_dpm_count := int (length envs)\<rparr>)" using snoc.prems(1) dpm_valid_cong [of s "s\<lparr>mc_dpm_count := int (length envs)\<rparr>" env] by simp
  moreover have "s32 (int (length envs) + 1) = int (length envs) + 1" using snoc.prems(2) assms(6) by (simp add: s32_id)
  ultimately show ?case using run snoc.prems assms(1,2)
    by (simp add: dpm_run_def check_dpm_eoc_state_def Let_def)
qed

text \<open>C17: exactly the configured number of valid detections one after another makes \<^verbatim>\<open>check_dpm_eoc_state\<close> stop the
  charging: after all of them it is stopped, after any fewer of them it is not.\<close>

theorem dpm_enters_after_count:
  assumes "mc_enable_eoc s" "\<not> mc_dpm_disable s" "mc_dpm_count s = 0"
    and "\<forall>env \<in> set envs. fst (dp_indpm env) \<noteq> - ENOTSUPP \<and> dpm_valid env s"
    and "int (length envs) = dp_count_max (mc_dpm s)" "0 < dp_count_max (mc_dpm s)" "dp_count_max (mc_dpm s) < 2147483648"
  shows "mc_dpm_disable (dpm_run envs s) \<and> (\<forall>n < length envs. \<not> mc_dpm_disable (dpm_run (take n envs) s))"
proof (rule conjI)
  obtain us env where envs: "envs = us @ [env]" using assms(5,6) by (cases envs rule: rev_exhaust) auto
  have run: "dpm_run us s = s\<lparr>mc_dpm_count := int (length us)\<rparr>"
    by (rule dpm_counts) (use assms in \<open>auto simp: envs\<close>)
  have "dpm_valid env (s\<lparr>mc_dpm_count := int (length us)\<rparr>)" using assms(4) dpm_valid_cong [of s "s\<lparr>mc_dpm_count := int (length us)\<rparr>" env] by (simp add: envs)
  moreover have "s32 (int (length us) + 1) = int (length us) + 1" using assms(5,7) by (simp add: s32_id envs)
  ultimately show "mc_dpm_disable (dpm_run envs s)" using run assms(1,2,4,5)
    by (simp add: dpm_run_def check_dpm_eoc_state_def Let_def envs chg_note_def)
next
  show "\<forall>n < length envs. \<not> mc_dpm_disable (dpm_run (take n envs) s)"
  proof (intro allI impI)
    fix n assume n: "n < length envs"
    have "dpm_run (take n envs) s = s\<lparr>mc_dpm_count := int (length (take n envs))\<rparr>"
      by (rule dpm_counts) (use assms n in \<open>auto dest: in_set_takeD\<close>)
    then show "\<not> mc_dpm_disable (dpm_run (take n envs) s)" using assms(2) by simp
  qed
qed

definition weak_env :: chg_env where
  "weak_env = (calm_env 5 25)\<lparr>dp_indpm := (0, True, False), dp_vbat := 4390, dp_ibat := 100\<rparr>"

theorem dpm_enters_after_count_witness:
  "mc_dpm_disable (dpm_run (replicate 9 weak_env) started) \<and> \<not> mc_dpm_disable (dpm_run (take 8 (replicate 9 weak_env)) started)"
proof -
  have "fst (dp_indpm weak_env) \<noteq> - ENOTSUPP" "dpm_valid weak_env started"
    by (simp_all add: weak_env_def calm_env_def ENOTSUPP_def dpm_valid_def s32_def)
  then have "mc_dpm_disable (dpm_run (replicate 9 weak_env) started)
      \<and> (\<forall>n < length (replicate 9 weak_env). \<not> mc_dpm_disable (dpm_run (take n (replicate 9 weak_env)) started))"
    by (intro dpm_enters_after_count) simp_all
  moreover have "8 < length (replicate 9 weak_env)" by simp
  ultimately show ?thesis by blast
qed

section \<open>The voltage\<close>

text \<open>Bounds of the voltage: the temperature range or the age sets it, the top-off and the demo mode only lower it.\<close>

theorem select_cv_bounds:
  assumes "0 \<le> mtk_get_battery_cv a s" "mtk_get_battery_cv a s < 2147483648" "0 \<le> sj_cv (mc_sw_jeita s)" "sj_cv (mc_sw_jeita s) < 2147483648"
    and "- 1 \<le> mc_custom_cv s" "mc_custom_cv s < 2147483648"
  shows "st_cv (mc_setting (select_cv a s)) \<le> (if mc_enable_sw_jeita s \<and> sj_cv (mc_sw_jeita s) \<noteq> 0 then sj_cv (mc_sw_jeita s) else mtk_get_battery_cv a s)
    \<and> (mc_custom_cv s \<noteq> - 1 \<longrightarrow> st_cv (mc_setting (select_cv a s)) \<le> mc_custom_cv s)
    \<and> (mc_custom_mode s \<noteq> 0 \<longrightarrow> st_cv (mc_setting (select_cv a s)) \<le> DEFAULT_DEMO_CHARGING_CV)
    \<and> 0 \<le> st_cv (mc_setting (select_cv a s))"
proof -
  define c where "c = mc_custom_cv s"
  have "c = - 1 \<or> 0 \<le> c" using assms(5) c_def by linarith
  then show ?thesis using assms c_def [symmetric]
    by (auto simp: select_cv_def Let_def u32w_id s32_id DEFAULT_DEMO_CHARGING_CV_def)
qed

section \<open>What goes wrong\<close>

text \<open>
  Bug: the update of the PMIC gives the mask where the shift belongs. The bit that guards the input voltage (11) keeps its
  value whatever is asked for, and bits 2 and 4 are cleared.
\<close>

theorem hw_ovp_bit_unchanged:
  assumes "disable_hw_ovp True en s = (ret, t)"
  shows "(bit (hw_pmic (mc_hw t)) 11 \<longleftrightarrow> bit (hw_pmic (mc_hw s)) 11) \<and> \<not> bit (hw_pmic (mc_hw t)) 2 \<and> \<not> bit (hw_pmic (mc_hw t)) 4"
  using assms by (cases en; auto simp: disable_hw_ovp_def pmic_set_register_value_def Let_def PMIC_RG_VCDT_HV_EN_MASK_def PMIC_RG_VCDT_HV_EN_SHIFT_def bit_simps)

text \<open>Bug: a charge level that cannot be read (a negative number) lifts the protection at the end of a charge.\<close>

theorem failed_read_lifts_protection:
  assumes "mc_enable_eoc s" "mc_chr_type s \<noteq> POWER_SUPPLY_TYPE_UNKNOWN" "mc_bat_eoc_protect s" "0 \<le> mc_recharge_soc s" "bp_soc env < 0"
  shows "\<not> mc_bat_eoc_protect (battery_protect_algo env s)"
  using assms by (simp add: battery_protect_algo_def Let_def reset_bat_eoc_protect_state_def)

text \<open>
  Bug: a charger found to be bad is forgotten only in the handler of plugging, and there only with the protection at the
  end of a charge configured; without it, every later charger is taken for bad and the check is not made again.
\<close>

theorem bad_charger_not_forgotten:
  assumes "\<not> mc_enable_eoc s" "mc_inv_weak s" "mc_inv_done s"
  shows "let t = fold (\<lambda>(now, online). mtk_charger_external_power_changed now online) plugs s in mc_inv_weak t \<and> mc_inv_done t"
proof -
  let ?bad = "\<lambda>s. \<not> mc_enable_eoc s \<and> mc_inv_weak s \<and> mc_inv_done s"
  have "?bad (mtk_charger_external_power_changed now online s)" if "?bad s" for now online s
    using that by (simp add: mtk_charger_external_power_changed_def bat_eoc_protect_handle_plug_state_def wake_up_charger_def)
      (simp add: chg_note_def)
  then have "?bad (fold (\<lambda>(now, online). mtk_charger_external_power_changed now online) plugs s)" if "?bad s" for s
    using that by (induction plugs arbitrary: s) (simp, simp split: prod.split)
  then show ?thesis using assms by (simp add: Let_def)
qed

end
