(* ===== verification/Charger_Limits.thy ===== *)
theory Charger_Limits
  imports Charger_Probe
begin

text \<open>
  The currents the basic algorithm chooses. Two projections of the state say what an operation leaves alone:
  \<open>chg_core\<close> (whether the algorithm is there, charging is allowed, the chip is on) and \<open>limit_inputs\<close> (what the limits
  are made of); the collection \<open>chg_frame\<close> has a rule for each operation.
\<close>

named_theorems chg_frame \<open>what an operation of the charger leaves alone\<close>

definition chg_core :: "mtk_charger \<Rightarrow> bool \<times> bool \<times> bool" where
  "chg_core s = (mc_basic s, mc_can_charging s, hw_en (mc_hw s))"

definition limit_inputs :: "mtk_charger \<Rightarrow> (int \<times> int \<times> int \<times> int) \<times> (sw_jeita_data \<times> bool \<times> charger_custom_data \<times> int)" where
  "limit_inputs s = ((ch_thermal_charging (mc_chg1 s), ch_thermal_input (mc_chg1 s), ch_force_input (mc_chg1 s), ch_force_charging (mc_chg1 s)),
     (mc_sw_jeita s, mc_enable_sw_jeita s, mc_data s, mc_chr_type s))"

lemma each_alg_log: "each_alg ev s = s\<lparr>mc_hw := (mc_hw s)\<lparr>hw_log := hw_log (mc_hw s) @ map ev (mc_algs s)\<rparr>\<rparr>"
proof -
  have "fold (\<lambda>i. chg_note (ev i)) is s = s\<lparr>mc_hw := (mc_hw s)\<lparr>hw_log := hw_log (mc_hw s) @ map ev is\<rparr>\<rparr>" for "is"
    by (induction "is" arbitrary: s) (simp_all add: chg_note_def)
  then show ?thesis by (simp add: each_alg_def)
qed

lemma core_note [chg_frame]: "chg_core (chg_note ev s) = chg_core s" by (simp add: chg_core_def chg_note_def)
lemma limits_note [chg_frame]: "limit_inputs (chg_note ev s) = limit_inputs s" by (simp add: limit_inputs_def chg_note_def)
lemma core_each_alg [chg_frame]: "chg_core (each_alg ev s) = chg_core s" by (simp add: chg_core_def each_alg_log)
lemma core_cv [chg_frame]: "chg_core (charger_dev_set_constant_voltage v s) = chg_core s" by (simp add: chg_core_def chip_defs)
lemma core_input [chg_frame]: "chg_core (charger_dev_set_input_current v s) = chg_core s" by (simp add: chg_core_def chip_defs)
lemma core_ichg [chg_frame]: "chg_core (charger_dev_set_charging_current v s) = chg_core s" by (simp add: chg_core_def chip_defs)
lemma core_mivr [chg_frame]: "chg_core (charger_dev_set_mivr v s) = chg_core s" by (simp add: chg_core_def chip_defs)
lemma core_ir [chg_frame]: "chg_core (charger_dev_enable_ir_comp v s) = chg_core s" by (simp add: chg_core_def chip_defs)
lemma limits_cv [chg_frame]: "limit_inputs (charger_dev_set_constant_voltage v s) = limit_inputs s" by (simp add: limit_inputs_def chip_defs)
lemma limits_input [chg_frame]: "limit_inputs (charger_dev_set_input_current v s) = limit_inputs s" by (simp add: limit_inputs_def chip_defs)
lemma limits_ichg [chg_frame]: "limit_inputs (charger_dev_set_charging_current v s) = limit_inputs s" by (simp add: limit_inputs_def chip_defs)
lemma limits_mivr [chg_frame]: "limit_inputs (charger_dev_set_mivr v s) = limit_inputs s" by (simp add: limit_inputs_def chip_defs)

lemma core_select_cv [chg_frame]: "chg_core (select_cv a s) = chg_core s" by (simp add: chg_core_def select_cv_def Let_def)
lemma limits_select_cv [chg_frame]: "limit_inputs (select_cv a s) = limit_inputs s" by (simp add: limit_inputs_def select_cv_def Let_def)

lemma core_enable_charging: "chg_core (enable_charging en s) = (mc_basic s, mc_can_charging s, en)"
  by (simp add: chg_core_def enable_charging_def chip_defs each_alg_log)

lemma core_plug_out: "chg_core (mtk_charger_plug_out s) = chg_core s"
  by (simp add: mtk_charger_plug_out_def Let_def chg_frame) (simp add: chg_core_def switch_invalid_def)

lemma core_plug_in: "chg_core (mtk_charger_plug_in soc ty s) = (mc_basic s, True, hw_en (mc_hw s))"
  by (simp add: mtk_charger_plug_in_def Let_def chg_frame) (simp add: chg_core_def switch_invalid_def)

lemma core_mivr_check [chg_frame]: "chg_core (check_dynamic_mivr env s) = chg_core s"
  by (simp add: check_dynamic_mivr_def Let_def chg_frame)

lemma core_notify [chg_frame]: "chg_core (mtk_battery_notify_check env s) = chg_core s"
  by (simp add: mtk_battery_notify_check_def mtk_battery_notify_VCharger_check_def mtk_battery_notify_VBatTemp_check_def
        mtk_battery_notify_UI_test_def notify_status_def Let_def chg_frame) (auto simp: chg_core_def chg_note_def)

lemma core_switch [chg_frame]: "chg_core (switch_invalid v s) = chg_core s" by (simp add: chg_core_def switch_invalid_def)
lemma core_tchg [chg_frame]: "chg_core (mtk_chg_get_tchg env s) = chg_core s" by (simp add: chg_core_def mtk_chg_get_tchg_def Let_def)
lemma core_jeita [chg_frame]: "chg_core (do_sw_jeita_state_machine a s) = chg_core s"
  by (simp add: chg_core_def do_sw_jeita_state_machine_def Let_def split_beta)
lemma core_vbus_state [chg_frame]: "chg_core (s\<lparr>mc_vbus_state := v\<rparr>) = chg_core s" by (simp add: chg_core_def)
lemma core_uvlo [chg_frame]: "chg_core (s\<lparr>mc_uvlo_recovery := v\<rparr>) = chg_core s" by (simp add: chg_core_def)
lemma core_thermal [chg_frame]: "chg_core (s\<lparr>mc_thermal := v\<rparr>) = chg_core s" by (simp add: chg_core_def)

lemma core_vbus [chg_frame]: "chg_core (snd (mtk_chg_check_vbus env s)) = chg_core s"
  by (simp add: mtk_chg_check_vbus_def Let_def chg_frame)

lemma core_input_decision [chg_frame]: "chg_core (snd (input_decision env s)) = chg_core s"
  by (simp add: input_decision_def split_beta chg_frame)

lemma core_decision [chg_frame]: "chg_core (snd (charging_decision env s)) = chg_core s"
  by (simp add: charging_decision_def split_beta Let_def chg_frame)

lemma core_top_off [chg_frame]: "chg_core (charger_top_off_mode env s) = chg_core s"
  by (simp add: charger_top_off_mode_def Let_def chg_frame) (simp add: chg_core_def)

lemma core_protect [chg_frame]: "chg_core (battery_protect_algo env s) = chg_core s"
  by (simp add: battery_protect_algo_def reset_bat_eoc_protect_state_def Let_def chg_core_def)

lemma core_full_track [chg_frame]: "chg_core (battery_full_track env s) = chg_core s"
  by (simp add: battery_full_track_def chg_core_def chg_note_def)

lemma core_dpm [chg_frame]: "chg_core (check_dpm_eoc_state env s) = chg_core s"
  by (simp add: check_dpm_eoc_state_def reset_dpm_eoc_state_def Let_def chg_core_def chg_note_def)

lemma core_is_charger_on:
  "mc_basic (snd (mtk_is_charger_on ty soc s)) = mc_basic s"
  "hw_en (mc_hw (snd (mtk_is_charger_on ty soc s))) = hw_en (mc_hw s)"
  "mc_can_charging s \<Longrightarrow> mc_can_charging (snd (mtk_is_charger_on ty soc s))"
  using core_plug_out [of s] core_plug_in [of soc ty s] core_plug_in [of soc ty "mtk_charger_plug_out s"]
    core_plug_in [of soc ty "mtk_charger_plug_out (mtk_charger_plug_in soc ty s)"] core_plug_out [of "mtk_charger_plug_in soc ty s"]
    core_plug_in [of soc ty "mtk_charger_plug_out (s\<lparr>mc_chr_type := ty\<rparr>)"] core_plug_out [of "s\<lparr>mc_chr_type := ty\<rparr>"]
  by (auto simp: mtk_is_charger_on_def Let_def chg_core_def)

section \<open>The basic algorithm\<close>

lemma core_chg1 [chg_frame]: "chg_core (s\<lparr>mc_chg1 := v\<rparr>) = chg_core s" by (simp add: chg_core_def)
lemma core_chg2 [chg_frame]: "chg_core (s\<lparr>mc_chg2 := v\<rparr>) = chg_core s" by (simp add: chg_core_def)
lemma core_setting [chg_frame]: "chg_core (s\<lparr>mc_setting := v\<rparr>) = chg_core s" by (simp add: chg_core_def)
lemma core_pw [chg_frame]: "chg_core (s\<lparr>mc_pw := v\<rparr>) = chg_core s" by (simp add: chg_core_def)
lemma core_tcpc [chg_frame]: "chg_core (s\<lparr>mc_has_tcpc := v\<rparr>) = chg_core s" by (simp add: chg_core_def)
lemma core_weak [chg_frame]: "chg_core (s\<lparr>mc_inv_weak := v\<rparr>) = chg_core s" by (simp add: chg_core_def)
lemma core_inv_done [chg_frame]: "chg_core (s\<lparr>mc_inv_done := v\<rparr>) = chg_core s" by (simp add: chg_core_def)
lemma core_chg_done [chg_frame]: "chg_core (s\<lparr>mc_is_chg_done := v\<rparr>) = chg_core s" by (simp add: chg_core_def)
lemma limits_chg2 [chg_frame]: "limit_inputs (s\<lparr>mc_chg2 := v\<rparr>) = limit_inputs s" by (simp add: limit_inputs_def)
lemma limits_setting [chg_frame]: "limit_inputs (s\<lparr>mc_setting := v\<rparr>) = limit_inputs s" by (simp add: limit_inputs_def)
lemma limits_pw [chg_frame]: "limit_inputs (s\<lparr>mc_pw := v\<rparr>) = limit_inputs s" by (simp add: limit_inputs_def)
lemma limits_tcpc [chg_frame]: "limit_inputs (s\<lparr>mc_has_tcpc := v\<rparr>) = limit_inputs s" by (simp add: limit_inputs_def)
lemma limits_weak [chg_frame]: "limit_inputs (s\<lparr>mc_inv_weak := v\<rparr>) = limit_inputs s" by (simp add: limit_inputs_def)
lemma limits_inv_done [chg_frame]: "limit_inputs (s\<lparr>mc_inv_done := v\<rparr>) = limit_inputs s" by (simp add: limit_inputs_def)
lemma limits_uvlo [chg_frame]: "limit_inputs (s\<lparr>mc_uvlo_recovery := v\<rparr>) = limit_inputs s" by (simp add: limit_inputs_def)
lemma limits_switch [chg_frame]: "limit_inputs (switch_invalid v s) = limit_inputs s" by (simp add: limit_inputs_def switch_invalid_def)

text \<open>The fields of the first charger that the choice of the currents writes.\<close>

lemma limits_chg1 [chg_frame]:
  "limit_inputs (s\<lparr>mc_chg1 := (mc_chg1 s)\<lparr>ch_input_limit := v\<rparr>\<rparr>) = limit_inputs s"
  "limit_inputs (s\<lparr>mc_chg1 := (mc_chg1 s)\<lparr>ch_charging_limit := v\<rparr>\<rparr>) = limit_inputs s"
  "limit_inputs (s\<lparr>mc_chg1 := (mc_chg1 s)\<lparr>ch_aicl := v\<rparr>\<rparr>) = limit_inputs s"
  "limit_inputs (s\<lparr>mc_chg1 := (mc_chg1 s)\<lparr>ch_input_limit := v, ch_charging_limit := w\<rparr>\<rparr>) = limit_inputs s"
  by (simp_all add: limit_inputs_def)

lemma frame_find_tcpc [chg_frame]: "chg_core (find_tcpc be s) = chg_core s" "limit_inputs (find_tcpc be s) = limit_inputs s"
  by (simp_all add: find_tcpc_def chg_frame)

lemma frame_typec_adapter [chg_frame]:
  "chg_core (snd (is_typec_adapter be s)) = chg_core s" "limit_inputs (snd (is_typec_adapter be s)) = limit_inputs s"
  by (simp_all add: is_typec_adapter_def Let_def chg_frame)

lemma frame_fast_loop: "chg_core (snd (fast_charging_loop be is s)) = chg_core s \<and> limit_inputs (snd (fast_charging_loop be is s)) = limit_inputs s"
  by (induction "is" arbitrary: s) (simp_all add: Let_def chg_frame)

lemma frame_fast [chg_frame]:
  "chg_core (snd (support_fast_charging be s)) = chg_core s" "limit_inputs (snd (support_fast_charging be s)) = limit_inputs s"
  by (simp_all add: support_fast_charging_def frame_fast_loop)

lemma frame_aicl [chg_frame]: "chg_core (aicl_result r s) = chg_core s" "limit_inputs (aicl_result r s) = limit_inputs s"
  by (simp_all add: aicl_result_def chg_frame split: option.split)

lemma frame_ocp [chg_frame]:
  "chg_core (snd (adapter_power_detection_by_ocp be s)) = chg_core s"
  "limit_inputs (snd (adapter_power_detection_by_ocp be s)) = limit_inputs s"
  by (simp_all add: adapter_power_detection_by_ocp_def Let_def chg_frame del: upt_rec_numeral)

lemma frame_found [chg_frame]: "chg_core (adapter_found i u ty s) = chg_core s" "limit_inputs (adapter_found i u ty s) = limit_inputs s"
  by (simp_all add: adapter_found_def chg_core_def limit_inputs_def)

lemma frame_report [chg_frame]: "chg_core (snd (adapter_report a s)) = chg_core s" "limit_inputs (snd (adapter_report a s)) = limit_inputs s"
  by (simp_all add: adapter_report_def chg_frame)

lemma frame_ocp_failed [chg_frame]:
  "chg_core (s\<lparr>mc_chg1 := c, mc_pw := p\<rparr>) = chg_core s"
  "limit_inputs (s\<lparr>mc_chg1 := (mc_chg1 s)\<lparr>ch_aicl := v\<rparr>, mc_pw := p\<rparr>) = limit_inputs s"
  by (simp_all add: chg_core_def limit_inputs_def)

lemma frame_detection [chg_frame]:
  "chg_core (snd (adapter_power_detection be s)) = chg_core s" "limit_inputs (snd (adapter_power_detection be s)) = limit_inputs s"
  by (simp_all add: adapter_power_detection_def Let_def split_beta chg_frame)

lemma frame_invalid [chg_frame]:
  "chg_core (check_invalid_charger be s) = chg_core s" "limit_inputs (check_invalid_charger be s) = limit_inputs s"
  by (simp_all add: check_invalid_charger_def Let_def split_beta chg_frame del: upt_rec_numeral)

lemma frame_typec_limits [chg_frame]: "chg_core (typec_limits be s) = chg_core s" "limit_inputs (typec_limits be s) = limit_inputs s"
  by (simp_all add: typec_limits_def Let_def split_beta chg_frame)

lemma frame_measured [chg_frame]:
  "chg_core (snd (input_measured be s)) = chg_core s" "limit_inputs (snd (input_measured be s)) = limit_inputs s"
  by (simp_all add: input_measured_def Let_def split_beta chg_frame)

lemma frame_wired [chg_frame]:
  "chg_core (snd (wired_limits be s)) = chg_core s" "limit_inputs (snd (wired_limits be s)) = limit_inputs s"
  by (simp_all add: wired_limits_def Let_def split_beta chg_frame)

lemma frame_wireless [chg_frame]: "chg_core (wireless_limits i c v s) = chg_core s" "limit_inputs (wireless_limits i c v s) = limit_inputs s"
  by (simp_all add: wireless_limits_def Let_def chg_frame)

lemma frame_type [chg_frame]: "chg_core (snd (type_limits s)) = chg_core s" "limit_inputs (snd (type_limits s)) = limit_inputs s"
  by (simp_all add: type_limits_def Let_def chg_frame)

section \<open>The limits of the temperature\<close>

lemma frame_jeita_limits [chg_frame]: "chg_core (jeita_limits be s) = chg_core s" "limit_inputs (jeita_limits be s) = limit_inputs s"
  by (simp_all add: jeita_limits_def jeita_current_def Let_def chg_frame)

lemma frame_thermal [chg_frame]:
  "chg_core (thermal_charging1 s) = chg_core s" "limit_inputs (thermal_charging1 s) = limit_inputs s"
  "chg_core (thermal_input1 s) = chg_core s" "limit_inputs (thermal_input1 s) = limit_inputs s"
  "chg_core (thermal_charging2 s) = chg_core s" "limit_inputs (thermal_charging2 s) = limit_inputs s"
  "chg_core (thermal_input2 s) = chg_core s" "limit_inputs (thermal_input2 s) = limit_inputs s"
  by (simp_all add: thermal_charging1_def thermal_input1_def thermal_charging2_def thermal_input2_def Let_def chg_frame)

lemma frame_forced [chg_frame]: "chg_core (forced_limits s) = chg_core s" "limit_inputs (forced_limits s) = limit_inputs s"
  by (simp_all add: forced_limits_def Let_def chg_core_def limit_inputs_def)

lemma frame_final [chg_frame]: "chg_core (snd (final_limits be b s)) = chg_core s" "limit_inputs (snd (final_limits be b s)) = limit_inputs s"
  by (simp_all add: final_limits_def Let_def chg_frame)

text \<open>The pair of limits that the selection narrows down, charging and input.\<close>

definition limits1 :: "mtk_charger \<Rightarrow> int \<times> int" where
  "limits1 s = (ch_charging_limit (mc_chg1 s), ch_input_limit (mc_chg1 s))"

definition below :: "int \<Rightarrow> int \<Rightarrow> bool" where "below lim x \<longleftrightarrow> lim \<noteq> - 1 \<longrightarrow> x \<le> lim"

lemma jeita_current_le:
  "fst (limits1 (jeita_current lim s)) \<le> fst (limits1 s)" "below lim (fst (limits1 (jeita_current lim s)))"
  "mc_sw_jeita (jeita_current lim s) = mc_sw_jeita s" "mc_data (jeita_current lim s) = mc_data s"
  by (simp_all add: jeita_current_def limits1_def below_def)

lemma limits_of_inputs:
  assumes "limit_inputs s = limit_inputs t"
  shows "ch_thermal_charging (mc_chg1 s) = ch_thermal_charging (mc_chg1 t)" "ch_thermal_input (mc_chg1 s) = ch_thermal_input (mc_chg1 t)"
    "ch_force_input (mc_chg1 s) = ch_force_input (mc_chg1 t)" "ch_force_charging (mc_chg1 s) = ch_force_charging (mc_chg1 t)"
    "mc_sw_jeita s = mc_sw_jeita t" "mc_enable_sw_jeita s = mc_enable_sw_jeita t" "mc_data s = mc_data t" "mc_chr_type s = mc_chr_type t"
  using assms by (simp_all add: limit_inputs_def)

text \<open>The current of the temperature range, \<open>-1\<close> where there is none.\<close>

definition jeita_limit_of :: "basic_env \<Rightarrow> mtk_charger \<Rightarrow> int" where
  "jeita_limit_of be s =
     (if mc_enable_sw_jeita s \<and> \<not> (be_usbif be \<and> mc_chr_type s = POWER_SUPPLY_TYPE_USB)
      then if sj_sm (mc_sw_jeita s) = TEMP_T0_TO_T1 then cc_t0_t1_current (mc_data s)
           else if sj_sm (mc_sw_jeita s) = TEMP_T3_TO_T4 then cc_t3_t4_current (mc_data s) else - 1
      else - 1)"

lemma jeita_limits_below: "below (jeita_limit_of be s) (fst (limits1 (jeita_limits be s)))"
proof (cases "mc_enable_sw_jeita s \<and> \<not> (be_usbif be \<and> mc_chr_type s = POWER_SUPPLY_TYPE_USB)")
  case True
  then show ?thesis unfolding jeita_limits_def jeita_limit_of_def Let_def
    by (cases "sj_sm (mc_sw_jeita s)") (simp_all add: jeita_current_le, simp_all add: below_def)
next
  case False
  then show ?thesis unfolding jeita_limit_of_def by (simp only: if_False below_def) simp
qed

lemma thermal_narrows:
  "fst (limits1 (thermal_charging1 s)) \<le> fst (limits1 s)" "snd (limits1 (thermal_charging1 s)) = snd (limits1 s)"
  "below (ch_thermal_charging (mc_chg1 s)) (fst (limits1 (thermal_charging1 s)))"
  "fst (limits1 (thermal_input1 s)) = fst (limits1 s)" "below (ch_thermal_input (mc_chg1 s)) (snd (limits1 (thermal_input1 s)))"
  "limits1 (thermal_charging2 s) = limits1 s" "limits1 (thermal_input2 s) = limits1 s"
  by (simp_all add: thermal_charging1_def thermal_input1_def thermal_charging2_def thermal_input2_def limits1_def below_def Let_def)

definition thermal_all :: "basic_env \<Rightarrow> mtk_charger \<Rightarrow> mtk_charger" where
  "thermal_all be s = thermal_input2 (thermal_charging2 (thermal_input1 (thermal_charging1 (jeita_limits be s))))"

lemma thermal_all_below:
  "below (jeita_limit_of be s) (fst (limits1 (thermal_all be s)))"
  "below (ch_thermal_charging (mc_chg1 s)) (fst (limits1 (thermal_all be s)))"
  "below (ch_thermal_input (mc_chg1 s)) (snd (limits1 (thermal_all be s)))"
proof -
  let ?j = "jeita_limits be s"
  have in1: "limit_inputs ?j = limit_inputs s" "limit_inputs (thermal_charging1 ?j) = limit_inputs s" by (simp_all add: chg_frame)
  have "fst (limits1 (thermal_all be s)) \<le> fst (limits1 ?j)" using thermal_narrows(1) [of ?j] by (simp add: thermal_all_def thermal_narrows(2-))
  then show "below (jeita_limit_of be s) (fst (limits1 (thermal_all be s)))"
    using jeita_limits_below [of be s] order_trans unfolding below_def by blast
  show "below (ch_thermal_charging (mc_chg1 s)) (fst (limits1 (thermal_all be s)))"
    using thermal_narrows(3) [of ?j] limits_of_inputs(1) [OF in1(1)] by (simp add: thermal_all_def thermal_narrows)
  show "below (ch_thermal_input (mc_chg1 s)) (snd (limits1 (thermal_all be s)))"
    using thermal_narrows(5) [of "thermal_charging1 ?j"] limits_of_inputs(2) [OF in1(2)] by (simp add: thermal_all_def thermal_narrows)
qed

lemma forced_none: "ch_force_input (mc_chg1 s) = - 1 \<Longrightarrow> ch_force_charging (mc_chg1 s) = - 1 \<Longrightarrow> limits1 (forced_limits s) = limits1 s"
  by (simp add: forced_limits_def limits1_def Let_def)

lemma final_limits_le:
  assumes "ch_force_input (mc_chg1 s) = - 1" "ch_force_charging (mc_chg1 s) = - 1"
  shows "fst (limits1 (snd (final_limits be b s))) \<in> {0, fst (limits1 s)}" "snd (limits1 (snd (final_limits be b s))) \<in> {0, snd (limits1 s)}"
  using forced_none [OF assms] by (simp_all add: final_limits_def Let_def limits1_def)

text \<open>The cases in which the selection looks neither at the temperature nor at the thermal limits.\<close>

definition exempt :: "mtk_charger \<Rightarrow> bool" where
  "exempt s \<longleftrightarrow> mc_usb_unlimited s \<or> mc_water s \<or> mc_bootmode s = 1 \<or> mc_bootmode s = 5
     \<or> mc_atm_enabled s \<and> (mc_chr_type s = POWER_SUPPLY_TYPE_USB \<or> mc_chr_type s = POWER_SUPPLY_TYPE_USB_CDP)"

lemma early_none: "\<not> exempt s \<Longrightarrow> early_limits (select_cv a s) = None"
  by (simp add: early_limits_def exempt_def select_cv_def Let_def)

lemma select_shape:
  assumes "\<not> exempt s"
  obtains t b where "limit_inputs t = limit_inputs s" "chg_core t = chg_core s"
    "select_charging_current_limit be s = final_limits be b (thermal_all be t)"
proof -
  let ?c = "select_cv (be_aging be) s"
  obtain b1 t1 where ty: "type_limits ?c = (b1, t1)" by (cases "type_limits ?c")
  obtain b t where w: "(if be_wpc_online be then (b1, t1) else wired_limits be t1) = (b, t)" by (metis prod.exhaust)
  have t1: "limit_inputs t1 = limit_inputs s" "chg_core t1 = chg_core s"
    using frame_type [of ?c] ty by (simp_all add: chg_frame)
  have "limit_inputs t = limit_inputs t1" "chg_core t = chg_core t1"
    using w frame_wired [of be t1] by (auto split: if_splits)
  moreover have "select_charging_current_limit be s = final_limits be b (thermal_all be t)"
    using early_none [OF assms] ty w by (simp add: select_charging_current_limit_def thermal_all_def Let_def)
  ultimately show ?thesis using that t1 by simp
qed

lemma below_zero: "below lim x \<Longrightarrow> y \<in> {0, x} \<Longrightarrow> lim \<noteq> - 1 \<Longrightarrow> y \<le> max 0 lim"
  by (auto simp: below_def)



text \<open>Bug: whatever the selection found, the settings handed to the fast charging algorithms are the forced currents.\<close>

theorem fast_settings_lost:
  assumes "\<not> exempt s" "ch_force_input (mc_chg1 s) = - 1" "ch_force_charging (mc_chg1 s) = - 1"
  shows "let st = mc_setting (snd (select_charging_current_limit be s))
    in st_input1 st = - 1 \<and> st_input2 st = - 1 \<and> st_charging1 st = - 1 \<and> st_charging2 st = - 1"
proof -
  obtain u c where u: "limit_inputs u = limit_inputs s" "select_charging_current_limit be s = final_limits be c (thermal_all be u)"
    by (rule select_shape [OF assms(1)])
  have "limit_inputs (thermal_all be u) = limit_inputs s" by (simp add: thermal_all_def chg_frame u(1))
  note eq2 = limits_of_inputs [OF this]
  show ?thesis by (simp add: u(2) final_limits_def forced_limits_def Let_def eq2 assms)
qed

section \<open>Charging\<close>

lemma frame_try: "chg_core (snd (try_algs be v is s)) = chg_core s"
  by (induction "is" arbitrary: v s) (simp_all add: Let_def chg_frame split: alg_state.split)

lemma frame_stop_hv [chg_frame]: "chg_core (stop_hv be v is s) = chg_core s"
  by (induction "is" arbitrary: v s) (simp_all add: Let_def chg_frame)

lemma frame_select [chg_frame]: "chg_core (snd (select_charging_current_limit be s)) = chg_core s"
proof (cases "early_limits (select_cv (be_aging be) s)")
  case None
  then show ?thesis
    by (simp add: select_charging_current_limit_def Let_def split_beta chg_frame)
next
  case (Some t)
  have "chg_core t = chg_core (select_cv (be_aging be) s)"
    using Some by (auto simp: early_limits_def Let_def chg_frame split: if_splits)
  then show ?thesis using Some by (simp add: select_charging_current_limit_def Let_def chg_frame)
qed

lemma charge_with_core: "chg_core (charge_with s) = (mc_basic s, mc_can_charging s, ch_input_limit (mc_chg1 s) \<noteq> 0 \<and> ch_charging_limit (mc_chg1 s) \<noteq> 0)"
  by (simp add: charge_with_def Let_def chip_defs chg_core_def)

definition chg_flags :: "mtk_charger \<Rightarrow> bool \<times> bool" where
  "chg_flags s = (mc_basic s, mc_can_charging s)"

lemma flags_of_core: "chg_core s = chg_core t \<Longrightarrow> chg_flags s = chg_flags t"
  by (simp add: chg_core_def chg_flags_def)

lemma core_eq: "chg_core s = chg_core t \<Longrightarrow> mc_basic s = mc_basic t \<and> mc_can_charging s = mc_can_charging t \<and> hw_en (mc_hw s) = hw_en (mc_hw t)"
  by (simp add: chg_core_def)

lemma charge_with_flags: "chg_flags (charge_with s) = chg_flags s"
  using charge_with_core [of s] by (simp add: chg_core_def chg_flags_def)

text \<open>The last steps of the algorithm, behind the choice of the currents.\<close>

definition done_events :: "basic_env \<Rightarrow> mtk_charger \<Rightarrow> mtk_charger" where
  "done_events be s =
     (if mc_is_chg_done s \<noteq> be_done be
      then if be_done be then charger_dev_enable_ir_comp False (chg_note (DevEvent EVENT_FULL) s) else chg_note (DevEvent EVENT_RECHARGE) s
      else s)"

definition stop_fast :: "basic_env \<Rightarrow> mtk_charger \<Rightarrow> mtk_charger" where
  "stop_fast be s =
     (if \<not> mc_enable_hv s \<or> ch_charging_limit (mc_chg1 s) = 0 \<or> ch_input_limit (mc_chg1 s) = 0 then stop_hv be 0 (mc_algs s) s else s)"

lemma do_algorithm_basic:
  "select_charging_current_limit be s = (True, t) \<Longrightarrow>
   do_algorithm be s = charge_with ((stop_fast be (done_events be t))\<lparr>mc_is_chg_done := be_done be\<rparr>)"
  by (simp add: do_algorithm_def done_events_def stop_fast_def Let_def)

lemma do_algorithm_fast:
  "select_charging_current_limit be s = (False, t) \<Longrightarrow> try_algs be 0 (mc_algs (done_events be t)) (done_events be t) = (b, u) \<Longrightarrow>
   do_algorithm be s = (if b then charge_with (u\<lparr>mc_is_chg_done := be_done be\<rparr>) else u\<lparr>mc_is_chg_done := be_done be\<rparr>)"
  unfolding do_algorithm_def done_events_def [symmetric] by (simp add: Let_def)

lemma frame_done_events [chg_frame]: "chg_core (done_events be s) = chg_core s"
  by (simp add: done_events_def chg_frame)

lemma stop_fast_log: "\<exists>l. stop_fast be s = s\<lparr>mc_hw := (mc_hw s)\<lparr>hw_log := l\<rparr>\<rparr>"
proof -
  have "\<exists>l. stop_hv be v is s = s\<lparr>mc_hw := (mc_hw s)\<lparr>hw_log := l\<rparr>\<rparr>" for v "is"
  proof (induction "is" arbitrary: v s)
    case Nil
    have "s = s\<lparr>mc_hw := (mc_hw s)\<lparr>hw_log := hw_log (mc_hw s)\<rparr>\<rparr>" by simp
    then show ?case by (metis stop_hv.simps(1))
  next
    case (Cons i "is")
    define w where "w = (case be_max_vbus be i of None \<Rightarrow> v | Some v \<Rightarrow> v)"
    have eq: "stop_hv be v (i # is) s = stop_hv be w is (if w > 5000 \<and> be_running be i then chg_note (AlgStop i) s else s)"
      by (simp add: Let_def w_def)
    show ?case unfolding eq using Cons.IH [of w s] Cons.IH [of w "chg_note (AlgStop i) s"] by (simp add: chg_note_def)
  qed
  moreover have "s = s\<lparr>mc_hw := (mc_hw s)\<lparr>hw_log := hw_log (mc_hw s)\<rparr>\<rparr>" by simp
  ultimately show ?thesis unfolding stop_fast_def by metis
qed

lemma do_algorithm_flags: "chg_flags (do_algorithm be s) = chg_flags s"
proof -
  obtain c t where sel: "select_charging_current_limit be s = (c, t)" by (cases "select_charging_current_limit be s")
  have t: "chg_core t = chg_core s" using frame_select [of be s] sel by simp
  show ?thesis
  proof (cases c)
    case True
    have "chg_core (stop_fast be (done_events be t)) = chg_core t" by (simp add: stop_fast_def chg_frame)
    then show ?thesis using do_algorithm_basic [of be s t] sel True t
      by (simp add: charge_with_flags) (simp add: chg_flags_def chg_core_def)
  next
    case False
    obtain b u where tr: "try_algs be 0 (mc_algs (done_events be t)) (done_events be t) = (b, u)" by (meson prod.exhaust)
    have "chg_core u = chg_core t" using frame_try [of be 0 "mc_algs (done_events be t)" "done_events be t"] tr by (simp add: chg_frame)
    then show ?thesis using do_algorithm_fast [OF _ tr, of s] sel False t
      by (simp add: charge_with_flags) (simp add: chg_flags_def chg_core_def)
  qed
qed

text \<open>Without a fast algorithm, the chip charges exactly when both limits are above zero.\<close>

theorem basic_charging_enables:
  assumes "select_charging_current_limit be s = (True, t)"
  shows "hw_en (mc_hw (do_algorithm be s)) \<longleftrightarrow> ch_input_limit (mc_chg1 t) \<noteq> 0 \<and> ch_charging_limit (mc_chg1 t) \<noteq> 0"
proof -
  obtain l where l: "stop_fast be (done_events be t) = (done_events be t)\<lparr>mc_hw := (mc_hw (done_events be t))\<lparr>hw_log := l\<rparr>\<rparr>" using stop_fast_log by blast
  have "mc_chg1 (done_events be t) = mc_chg1 t" by (simp add: done_events_def chip_defs)
  then show ?thesis using do_algorithm_basic [OF assms] charge_with_core [of "(stop_fast be (done_events be t))\<lparr>mc_is_chg_done := be_done be\<rparr>"]
    by (simp add: l chg_core_def)
qed

end
