(* ===== verification/Charger_Pass.thy ===== *)
theory Charger_Pass
  imports Charger_Limits
begin

text \<open>
  A pass of the charger thread in parts, and what it decides: charging is allowed after a pass that sees a
  charger exactly when the condition \<open>charging_allowed\<close> holds of the readings of the pass and of the state in which
  the charger is plugged.
\<close>

section \<open>What allows charging\<close>

definition temperature_fit :: "mtk_charger \<Rightarrow> bool" where
  "temperature_fit s \<longleftrightarrow>
     (if mc_enable_sw_jeita s then snd (jeita_next (mc_data s) (mc_battery_temp s) (sj_sm (mc_sw_jeita s)))
      else snd (thermal_next (mc_thermal s) (mc_battery_temp s)))"

definition charging_allowed :: "chg_env \<Rightarrow> mtk_charger \<Rightarrow> bool" where
  "charging_allowed env s \<longleftrightarrow>
     mc_bcm_flag s = BCM_FLAG_NONE \<and> temperature_fit s \<and> \<not> mc_inv_weak s \<and> vbus_class env s = VBUS_NORMAL \<and> ck_bat_id env
     \<and> \<not> mc_cmd_discharging s \<and> \<not> mc_safety_timeout s \<and> \<not> mc_vbusov_stat s
     \<and> \<not> (mc_enable_eoc s \<and> (mc_bat_eoc_protect s \<or> mc_dpm_disable s))"

text \<open>What the part of the check behind the temperature reads.\<close>

definition input_inputs :: "mtk_charger \<Rightarrow> (bool \<times> charger_custom_data) \<times> (bool \<times> bool \<times> bool) \<times> (bool \<times> bool \<times> bool)" where
  "input_inputs s = ((mc_inv_weak s, mc_data s), (mc_cmd_discharging s, mc_safety_timeout s, mc_vbusov_stat s),
     (mc_enable_eoc s, mc_bat_eoc_protect s, mc_dpm_disable s))"

lemma vbus_class_cong: "mc_data s = mc_data t \<Longrightarrow> vbus_class env s = vbus_class env t"
  by (simp add: vbus_class_def Let_def)

lemma check_vbus_ok: "fst (mtk_chg_check_vbus env s) \<longleftrightarrow> mc_inv_weak s \<or> vbus_class env s = VBUS_NORMAL"
  by (simp add: mtk_chg_check_vbus_def Let_def)

lemma inputs_check_vbus: "input_inputs (snd (mtk_chg_check_vbus env s)) = input_inputs s"
  by (simp add: mtk_chg_check_vbus_def Let_def input_inputs_def switch_invalid_def)

lemma inputs_tchg: "input_inputs (mtk_chg_get_tchg env s) = input_inputs s"
  by (simp add: mtk_chg_get_tchg_def Let_def input_inputs_def)

lemma input_decision_eq:
  "fst (input_decision env s) \<longleftrightarrow> \<not> mc_inv_weak s \<and> vbus_class env s = VBUS_NORMAL \<and> ck_bat_id env
     \<and> \<not> mc_cmd_discharging s \<and> \<not> mc_safety_timeout s \<and> \<not> mc_vbusov_stat s
     \<and> \<not> (mc_enable_eoc s \<and> (mc_bat_eoc_protect s \<or> mc_dpm_disable s))"
proof -
  let ?t = "mtk_chg_get_tchg env s"
  have eq: "input_inputs ?t = input_inputs s" "input_inputs (snd (mtk_chg_check_vbus env ?t)) = input_inputs s"
    by (simp_all add: inputs_tchg inputs_check_vbus)
  have "vbus_class env ?t = vbus_class env s" by (rule vbus_class_cong) (use eq(1) in \<open>simp add: input_inputs_def\<close>)
  then show ?thesis using eq check_vbus_ok [of env ?t]
    by (cases "mtk_chg_check_vbus env ?t") (auto simp: input_decision_def input_inputs_def)
qed

lemma charging_decision_eq: "fst (charging_decision env s) \<longleftrightarrow> charging_allowed env s"
proof -
  have j: "vbus_class env (do_sw_jeita_state_machine a s) = vbus_class env s" for a
    by (rule vbus_class_cong) (simp add: do_sw_jeita_state_machine_def Let_def split_beta)
  have t: "vbus_class env (s\<lparr>mc_thermal := v\<rparr>) = vbus_class env s" for v by (rule vbus_class_cong) simp
  show ?thesis
    by (cases "mc_enable_sw_jeita s")
      (simp_all add: charging_decision_def charging_allowed_def temperature_fit_def get_bcm_flag_def Let_def split_beta input_decision_eq j t,
       auto simp: do_sw_jeita_state_machine_def Let_def split_beta)
qed

section \<open>A pass\<close>

definition gated :: "mtk_charger \<Rightarrow> bool" where
  "gated s \<longleftrightarrow> (hw_en (mc_hw s) \<longrightarrow> mc_can_charging s)"

lemma core_enable: "mc_basic s \<Longrightarrow> chg_core (mtk_enable_charging en s) = (True, mc_can_charging s, en)"
  using core_enable_charging [of en s] by (simp add: mtk_enable_charging_def)

lemma check_status_core:
  assumes "ck_type env \<noteq> POWER_SUPPLY_TYPE_UNKNOWN" "mc_basic s"
  shows "chg_core (charger_check_status env s)
    = (True, charging_allowed env s, if charging_allowed env s = mc_can_charging s then hw_en (mc_hw s) else charging_allowed env s)"
proof -
  obtain c t where ct: "charging_decision env s = (c, t)" by (cases "charging_decision env s")
  have c: "c = charging_allowed env s" using charging_decision_eq [of env s] ct by simp
  define u where "u = mtk_battery_notify_check env t"
  have u: "chg_core u = chg_core s" using core_decision [of env s] ct by (simp add: u_def chg_frame)
  define v where "v = (if c \<noteq> mc_can_charging u then mtk_enable_charging c u else u)"
  have v: "chg_core v = (True, mc_can_charging s, if c = mc_can_charging s then hw_en (mc_hw s) else c)"
    using core_enable [of u c] core_eq [OF u] assms(2) by (auto simp: v_def chg_core_def)
  define w where "w = (if \<not> c then let s = select_cv (ce_aging env) v in charger_dev_set_constant_voltage (st_cv (mc_setting s)) s else v)"
  have "chg_core w = chg_core v" by (simp add: w_def Let_def chg_frame)
  moreover have "charger_check_status env s = w\<lparr>mc_can_charging := c\<rparr>"
    using assms(1) unfolding charger_check_status_def ct u_def v_def w_def Let_def by (simp only: if_False prod.case)
  ultimately show ?thesis using v by (simp add: chg_core_def c)
qed

lemma check_status_gated: "mc_basic s \<Longrightarrow> gated s \<Longrightarrow> mc_basic (charger_check_status env s) \<and> gated (charger_check_status env s)"
  using check_status_core [of env s]
  by (cases "ck_type env = POWER_SUPPLY_TYPE_UNKNOWN") (simp add: charger_check_status_def, auto simp: gated_def chg_core_def split: if_splits)

lemma is_charger_on_gated:
  "mc_basic s \<Longrightarrow> gated s \<Longrightarrow> mc_basic (snd (mtk_is_charger_on ty soc s)) \<and> gated (snd (mtk_is_charger_on ty soc s))"
  by (simp add: gated_def core_is_charger_on)

lemma kpoc_gated: "mc_basic s \<Longrightarrow> gated s \<Longrightarrow> mc_basic (kpoc_power_off_check env s) \<and> gated (kpoc_power_off_check env s)"
  using is_charger_on_gated [of s "kp_type env" "kp_soc env"]
  by (simp add: kpoc_power_off_check_def split_beta chg_note_def gated_def)

lemma gated_core: "chg_core s = chg_core t \<Longrightarrow> (mc_basic s \<and> gated s) = (mc_basic t \<and> gated t)"
  by (auto simp: chg_core_def gated_def)

text \<open>The parts of a pass: up to the check, and from there to the charging.\<close>

definition pass_plugged :: "chg_env \<Rightarrow> mtk_charger \<Rightarrow> mtk_charger" where
  "pass_plugged env s =
     (let s = snd (mtk_is_charger_on (on_type env) (on_soc env) (s\<lparr>mc_battery_temp := ce_temp env\<rparr>))
      in check_dynamic_mivr env (if mc_polling s then chg_note TimerStart s else s))"

definition pass_checked :: "chg_env \<Rightarrow> mtk_charger \<Rightarrow> mtk_charger" where
  "pass_checked env s = charger_top_off_mode env (charger_check_status env (pass_plugged env s))"

definition pass_protected :: "chg_env \<Rightarrow> mtk_charger \<Rightarrow> mtk_charger" where
  "pass_protected env s = check_dpm_eoc_state env (battery_full_track env (battery_protect_algo env (kpoc_power_off_check env (pass_checked env s))))"

lemma charger_pass_parts:
  "charger_pass env be s =
     (let t = pass_protected env s
      in chg_note WpcAlgorithm (if \<not> is_disable_charger t \<and> on_type env \<noteq> POWER_SUPPLY_TYPE_UNKNOWN \<and> mc_can_charging t \<and> mc_basic t
                                then do_algorithm be t else t))"
  by (simp add: charger_pass_def pass_protected_def pass_checked_def pass_plugged_def Let_def split_beta mtk_is_charger_on_def)

lemma do_algorithm_gated: "mc_can_charging s \<Longrightarrow> mc_basic (do_algorithm be s) = mc_basic s \<and> gated (do_algorithm be s)"
  using do_algorithm_flags [of be s] by (simp add: chg_flags_def gated_def)

lemma pass_plugged_gated: "mc_basic s \<Longrightarrow> gated s \<Longrightarrow> mc_basic (pass_plugged env s) \<and> gated (pass_plugged env s)"
proof -
  let ?s = "s\<lparr>mc_battery_temp := ce_temp env\<rparr>"
  let ?t = "snd (mtk_is_charger_on (on_type env) (on_soc env) ?s)"
  assume "mc_basic s" "gated s"
  then have "mc_basic ?t \<and> gated ?t" by (intro is_charger_on_gated) (simp_all add: gated_def)
  moreover have "chg_core (pass_plugged env s) = chg_core ?t" by (simp add: pass_plugged_def Let_def chg_frame)
  ultimately show ?thesis using gated_core by blast
qed

lemma pass_checked_gated: "mc_basic s \<Longrightarrow> gated s \<Longrightarrow> mc_basic (pass_checked env s) \<and> gated (pass_checked env s)"
  using check_status_gated [of "pass_plugged env s" env] pass_plugged_gated [of s env]
    gated_core [OF core_top_off [of env "charger_check_status env (pass_plugged env s)"]]
  by (simp add: pass_checked_def)

lemma pass_protected_core: "chg_core (pass_protected env s) = chg_core (kpoc_power_off_check env (pass_checked env s))"
  by (simp add: pass_protected_def chg_frame)

lemma pass_gated: "mc_basic s \<Longrightarrow> gated s \<Longrightarrow> mc_basic (charger_pass env be s) \<and> gated (charger_pass env be s)"
proof -
  assume "mc_basic s" "gated s"
  then have p: "mc_basic (pass_protected env s) \<and> gated (pass_protected env s)"
    using gated_core [OF pass_protected_core] kpoc_gated pass_checked_gated by blast
  then show ?thesis using do_algorithm_gated [of "pass_protected env s" be]
    by (simp add: charger_pass_parts Let_def chg_note_def gated_def)
qed

section \<open>The decision of a pass\<close>

definition plug_state :: "mtk_charger \<Rightarrow> int \<times> int" where
  "plug_state s = (mc_chr_type s, mc_cable_out_cnt s)"

definition plug_inputs :: "mtk_charger \<Rightarrow> (int \<times> int \<times> charger_custom_data) \<times> (bool \<times> sw_jeita_data \<times> thermal_protection) \<times> (bool \<times> bool) \<times> (bool \<times> bool \<times> bool)" where
  "plug_inputs s = ((mc_bcm_flag s, mc_battery_temp s, mc_data s), (mc_enable_sw_jeita s, mc_sw_jeita s, mc_thermal s),
     (mc_inv_weak s, mc_cmd_discharging s), (mc_enable_eoc s, mc_bat_eoc_protect s, mc_dpm_disable s))"

lemma plug_hw: "plug_state (s\<lparr>mc_hw := h\<rparr>) = plug_state s" "plug_inputs (s\<lparr>mc_hw := h\<rparr>) = plug_inputs s"
  by (simp_all add: plug_state_def plug_inputs_def)

lemma plug_chip:
  "plug_state (chg_note ev s) = plug_state s" "plug_inputs (chg_note ev s) = plug_inputs s"
  "plug_state (each_alg av s) = plug_state s" "plug_inputs (each_alg av s) = plug_inputs s"
  "plug_state (charger_dev_enable b s) = plug_state s" "plug_inputs (charger_dev_enable b s) = plug_inputs s"
  "plug_state (charger_dev_enable_ir_comp b s) = plug_state s" "plug_inputs (charger_dev_enable_ir_comp b s) = plug_inputs s"
  "plug_state (charger_dev_set_mivr v s) = plug_state s" "plug_inputs (charger_dev_set_mivr v s) = plug_inputs s"
  "plug_state (charger_dev_set_input_current v s) = plug_state s" "plug_inputs (charger_dev_set_input_current v s) = plug_inputs s"
  "plug_state (charger_dev_set_constant_voltage v s) = plug_state s"
  "plug_state (switch_invalid v s) = plug_state s" "plug_inputs (switch_invalid v s) = plug_inputs s"
  by (simp_all add: chip_defs each_alg_log plug_hw switch_invalid_def) (simp_all add: plug_state_def plug_inputs_def)

lemma inputs_plug_out: "plug_inputs (mtk_charger_plug_out s) = plug_inputs s"
  by (simp add: mtk_charger_plug_out_def Let_def plug_chip) (simp add: plug_inputs_def)

lemma inputs_plug_in: "plug_inputs (mtk_charger_plug_in soc ty s) = plug_inputs s"
  by (simp add: mtk_charger_plug_in_def Let_def plug_chip) (simp add: plug_inputs_def)

lemma inputs_fields: "plug_inputs (s\<lparr>mc_cable_out_cnt := n\<rparr>) = plug_inputs s" "plug_inputs (s\<lparr>mc_chr_type := n\<rparr>) = plug_inputs s"
  by (simp_all add: plug_inputs_def)

lemma inputs_is_charger_on: "plug_inputs (snd (mtk_is_charger_on ty soc s)) = plug_inputs s"
  by (simp add: mtk_is_charger_on_def Let_def inputs_fields inputs_plug_in inputs_plug_out)

lemma state_plug_in: "plug_state (mtk_charger_plug_in soc ty s) = (ty, mc_cable_out_cnt s)"
  by (simp add: mtk_charger_plug_in_def Let_def plug_chip) (simp add: plug_state_def)

lemma state_is_charger_on:
  assumes "ty \<noteq> POWER_SUPPLY_TYPE_UNKNOWN"
  shows "fst (plug_state (snd (mtk_is_charger_on ty soc s))) = ty" "snd (plug_state (snd (mtk_is_charger_on ty soc s))) \<le> 0"
  using assms state_plug_in [of soc ty s]
    state_plug_in [of soc ty "mtk_charger_plug_out (mtk_charger_plug_in soc ty s)"]
    state_plug_in [of soc ty "mtk_charger_plug_out (s\<lparr>mc_chr_type := ty\<rparr>)"]
  by (simp_all add: mtk_is_charger_on_def Let_def plug_state_def)

lemma plug_mivr: "plug_state (check_dynamic_mivr env s) = plug_state s" "plug_inputs (check_dynamic_mivr env s) = plug_inputs s"
  by (simp_all add: check_dynamic_mivr_def Let_def plug_chip)

lemma pass_plugged_inputs: "plug_inputs (pass_plugged env s) = plug_inputs (s\<lparr>mc_battery_temp := ce_temp env\<rparr>)"
  by (simp add: pass_plugged_def Let_def plug_mivr plug_chip inputs_is_charger_on)

lemma pass_plugged_state:
  "on_type env \<noteq> POWER_SUPPLY_TYPE_UNKNOWN \<Longrightarrow> mc_chr_type (pass_plugged env s) = on_type env \<and> mc_cable_out_cnt (pass_plugged env s) \<le> 0"
proof -
  assume a: "on_type env \<noteq> POWER_SUPPLY_TYPE_UNKNOWN"
  have "plug_state (pass_plugged env s) = plug_state (snd (mtk_is_charger_on (on_type env) (on_soc env) (s\<lparr>mc_battery_temp := ce_temp env\<rparr>)))"
    by (simp add: pass_plugged_def Let_def plug_mivr plug_chip)
  then show ?thesis using state_is_charger_on [OF a, of "on_soc env" "s\<lparr>mc_battery_temp := ce_temp env\<rparr>"] by (simp add: plug_state_def)
qed

lemma state_decision: "plug_state (snd (charging_decision env s)) = plug_state s"
proof -
  have f: "plug_state (s\<lparr>mc_thermal := v\<rparr>) = plug_state s" "plug_state (do_sw_jeita_state_machine a s) = plug_state s"
    "plug_state (mtk_chg_get_tchg env s) = plug_state s" "plug_state (s\<lparr>mc_vbus_state := w\<rparr>) = plug_state s"
    "plug_state (s\<lparr>mc_uvlo_recovery := b\<rparr>) = plug_state s" for s v a w b
    by (simp_all add: plug_state_def do_sw_jeita_state_machine_def mtk_chg_get_tchg_def Let_def split_beta)
  have v: "plug_state (snd (mtk_chg_check_vbus env s)) = plug_state s" for s
    by (simp add: mtk_chg_check_vbus_def Let_def f plug_chip)
  have i: "plug_state (snd (input_decision env s)) = plug_state s" for s by (simp add: input_decision_def split_beta f v)
  show ?thesis by (simp add: charging_decision_def Let_def split_beta f i)
qed

lemma state_check_status: "plug_state (charger_check_status env s) = plug_state s"
proof -
  have n: "plug_state (mtk_battery_notify_check env s) = plug_state s" for s
    by (simp add: mtk_battery_notify_check_def mtk_battery_notify_VCharger_check_def mtk_battery_notify_VBatTemp_check_def
        mtk_battery_notify_UI_test_def notify_status_def Let_def plug_chip) (simp add: plug_state_def chg_note_def)
  have e: "plug_state (mtk_enable_charging b s) = plug_state s" for b s by (simp add: mtk_enable_charging_def enable_charging_def plug_chip)
  have c: "plug_state (select_cv a s) = plug_state s" for a s by (simp add: select_cv_def Let_def plug_state_def)
  have k: "plug_state (s\<lparr>mc_can_charging := b\<rparr>) = plug_state s" for b s by (simp add: plug_state_def)
  show ?thesis by (simp add: charger_check_status_def Let_def split_beta n e c k plug_chip state_decision)
qed

lemma state_top_off: "plug_state (charger_top_off_mode env s) = plug_state s"
  by (simp add: charger_top_off_mode_def Let_def plug_chip) (simp add: plug_state_def)

lemma kpoc_can_charging:
  assumes "mc_chr_type s \<noteq> POWER_SUPPLY_TYPE_UNKNOWN" "mc_cable_out_cnt s \<le> 0"
  shows "chg_core (kpoc_power_off_check env s) = chg_core s"
proof -
  have "chg_core ((mtk_charger_plug_out s)\<lparr>mc_cable_out_cnt := 0\<rparr>) = chg_core s" using core_plug_out [of s] by (simp add: chg_core_def)
  moreover have "chg_core (s\<lparr>mc_chr_type := n\<rparr>) = chg_core s" for n by (simp add: chg_core_def)
  ultimately show ?thesis using assms
    by (simp add: kpoc_power_off_check_def mtk_is_charger_on_def Let_def chg_frame)
qed

text \<open>A pass that sees the charger: at the check for the plug and at the check of the battery.\<close>

definition sees_charger :: "chg_env \<Rightarrow> bool" where
  "sees_charger env \<longleftrightarrow> on_type env \<noteq> POWER_SUPPLY_TYPE_UNKNOWN \<and> ck_type env \<noteq> POWER_SUPPLY_TYPE_UNKNOWN"

lemma pass_protected_checked:
  assumes "sees_charger env"
  shows "chg_core (pass_protected env s) = chg_core (charger_check_status env (pass_plugged env s))"
proof -
  have "plug_state (pass_checked env s) = plug_state (pass_plugged env s)" by (simp add: pass_checked_def state_top_off state_check_status)
  then have "mc_chr_type (pass_checked env s) \<noteq> POWER_SUPPLY_TYPE_UNKNOWN" "mc_cable_out_cnt (pass_checked env s) \<le> 0"
    using pass_plugged_state [of env s] assms by (simp_all add: plug_state_def sees_charger_def)
  then show ?thesis using kpoc_can_charging by (simp add: pass_protected_core pass_checked_def chg_frame)
qed

lemma pass_plugged_basic: "mc_basic (pass_plugged env s) = mc_basic s"
proof -
  have "chg_core (pass_plugged env s) = chg_core (snd (mtk_is_charger_on (on_type env) (on_soc env) (s\<lparr>mc_battery_temp := ce_temp env\<rparr>)))"
    by (simp add: pass_plugged_def Let_def chg_frame)
  then show ?thesis by (simp add: chg_core_def core_is_charger_on)
qed

lemma pass_decides:
  assumes "sees_charger env" "mc_basic s"
  shows "mc_can_charging (charger_pass env be s) \<longleftrightarrow> charging_allowed env (pass_plugged env s)"
proof -
  have "mc_can_charging (pass_protected env s) \<longleftrightarrow> charging_allowed env (pass_plugged env s)"
    using pass_protected_checked [OF assms(1), of s] check_status_core [of env "pass_plugged env s"] assms
    by (simp add: chg_core_def sees_charger_def pass_plugged_basic)
  then show ?thesis using do_algorithm_flags [of be "pass_protected env s"]
    by (simp add: charger_pass_parts Let_def chg_note_def chg_flags_def)
qed

end
