(* ===== verification/Charger_Example.thy ===== *)
theory Charger_Example
  imports Charger_Pass
begin

text \<open>
  One pass evaluated step by step: the driver as the probe leaves it, with the parameters left out of the device
  tree; a wireless charger is found, the battery has 25 degrees and all readings are normal. The pass ends with the
  chip charging at 500 mA.
\<close>

section \<open>The pass\<close>

definition chip_plugged :: chg_hw where "chip_plugged = chip_off\<lparr>hw_input := 500000, hw_ir_comp := True, hw_log := [DevPlugIn, TimerStart]\<rparr>"

definition walk_plugged :: mtk_charger where
  "walk_plugged = started\<lparr>mc_battery_temp := 25, mc_chr_type := 12, mc_polling := True, mc_can_charging := True, mc_safety_timeout := False,
     mc_vbusov_stat := False, mc_invalid_switch := 0, mc_hw := chip_plugged\<rparr>"

lemma walk_plugs: "pass_plugged (calm_env 12 25) started = walk_plugged"
  by (simp add: pass_plugged_def mtk_is_charger_on_def mtk_charger_plug_in_def Let_def calm_env_def switch_invalid_def each_alg_def
     check_dynamic_mivr_def chip_defs walk_plugged_def NO_IR_COMPENSATION_SOC_def zero_limits_def chip_off_def chip_plugged_def)

definition walk_jeita :: mtk_charger where
  "walk_jeita = walk_plugged\<lparr>mc_sw_jeita := \<lparr>sj_sm = TEMP_T2_TO_T3, sj_pre_sm = TEMP_T2_TO_T3, sj_cv = 0, sj_charging = True\<rparr>\<rparr>"

lemma walk_jeita_step: "do_sw_jeita_state_machine 0 walk_plugged = walk_jeita"
  by (simp add: do_sw_jeita_state_machine_def walk_jeita_def walk_plugged_def jeita_next_def jeita_cv_def)

definition walk_tchg :: mtk_charger where
  "walk_tchg = walk_jeita\<lparr>mc_chg1 := zero_limits\<lparr>ch_tj_min := - 127, ch_tj_max := - 127\<rparr>\<rparr>"

lemma walk_tchg_step: "mtk_chg_get_tchg (calm_env 12 25) walk_jeita = walk_tchg"
  by (simp add: mtk_chg_get_tchg_def tj_of_def walk_tchg_def walk_jeita_def walk_plugged_def calm_env_def)

definition walk_vbus :: mtk_charger where
  "walk_vbus = walk_tchg\<lparr>mc_vbus_state := VBUS_NORMAL, mc_invalid_switch := 0\<rparr>"

lemma walk_vbus_step: "mtk_chg_check_vbus (calm_env 12 25) walk_tchg = (True, walk_vbus)"
  by (simp add: mtk_chg_check_vbus_def vbus_class_def s32_def calm_env_def switch_invalid_def walk_vbus_def walk_tchg_def walk_jeita_def walk_plugged_def)

lemma walk_decides: "charging_decision (calm_env 12 25) walk_plugged = (True, walk_vbus)"
proof -
  have "input_decision (calm_env 12 25) walk_jeita = (True, walk_vbus)"
    by (simp add: input_decision_def walk_tchg_step walk_vbus_step) (simp add: calm_env_def walk_vbus_def walk_tchg_def walk_jeita_def walk_plugged_def)
  moreover have "ce_aging (calm_env 12 25) = 0" by (simp add: calm_env_def)
  moreover have "mc_enable_sw_jeita walk_plugged" "\<not> get_bcm_flag walk_plugged" by (simp_all add: walk_plugged_def get_bcm_flag_def)
  ultimately show ?thesis using walk_jeita_step by (simp add: charging_decision_def Let_def) (simp add: walk_jeita_def)
qed

lemma walk_notifies: "mtk_battery_notify_check (calm_env 12 25) walk_vbus = walk_vbus\<lparr>mc_notify_code := 0\<rparr>"
  by (simp add: mtk_battery_notify_check_def mtk_battery_notify_VCharger_check_def mtk_battery_notify_VBatTemp_check_def notify_status_def s32_def
     calm_env_def walk_vbus_def walk_tchg_def walk_jeita_def walk_plugged_def)

definition walk_checked :: mtk_charger where
  "walk_checked = walk_vbus\<lparr>mc_notify_code := 0, mc_can_charging := True\<rparr>"

lemma walk_checks: "charger_check_status (calm_env 12 25) walk_plugged = walk_checked"
proof -
  have "ck_type (calm_env 12 25) \<noteq> 0" "mc_can_charging (walk_vbus\<lparr>mc_notify_code := 0\<rparr>)" by (simp_all add: calm_env_def walk_vbus_def walk_tchg_def walk_jeita_def walk_plugged_def)
  then show ?thesis by (simp add: charger_check_status_def walk_decides walk_notifies Let_def walk_checked_def)
qed

definition walk_top_off :: mtk_charger where
  "walk_top_off = chg_note (Metric (MetricTopOff False)) (chg_note (DiffFullCv 500) (walk_checked\<lparr>mc_custom_cv := - 1\<rparr>))"

lemma walk_top_off_step: "charger_top_off_mode (calm_env 12 25) walk_checked = walk_top_off"
  by (simp add: charger_top_off_mode_def calm_env_def walk_top_off_def walk_checked_def walk_vbus_def walk_tchg_def walk_jeita_def walk_plugged_def) (simp add: started_def mtk_charger_probe_def Let_def
    mtk_charger_parse_dt_def dt_int_def dt_uint_def plain_dt_def)

lemma walk_kpoc_step: "kpoc_power_off_check (calm_env 12 25) walk_top_off = walk_top_off"
  by (simp add: kpoc_power_off_check_def walk_top_off_def walk_checked_def walk_vbus_def walk_tchg_def walk_jeita_def walk_plugged_def chg_note_def)

lemma walk_protect_step: "battery_protect_algo (calm_env 12 25) walk_top_off = walk_top_off"
  by (simp add: battery_protect_algo_def Let_def walk_top_off_def walk_checked_def walk_vbus_def walk_tchg_def walk_jeita_def walk_plugged_def chg_note_def) (simp add: calm_env_def)

lemma walk_full_step: "battery_full_track (calm_env 12 25) walk_top_off = walk_top_off"
  by (simp add: battery_full_track_def calm_env_def)

definition walk_protected :: mtk_charger where
  "walk_protected = reset_dpm_eoc_state walk_top_off"

lemma walk_dpm_step: "check_dpm_eoc_state (calm_env 12 25) walk_top_off = walk_protected"
proof -
  have "\<not> dpm_valid (calm_env 12 25) walk_top_off" by (simp add: dpm_valid_def Let_def walk_top_off_def walk_checked_def walk_vbus_def walk_tchg_def walk_jeita_def walk_plugged_def chg_note_def) (simp add: calm_env_def)
  moreover have "mc_enable_eoc walk_top_off" "\<not> mc_dpm_disable walk_top_off" by (simp_all add: walk_top_off_def walk_checked_def walk_vbus_def walk_tchg_def walk_jeita_def walk_plugged_def chg_note_def)
  moreover have "fst (dp_indpm (calm_env 12 25)) \<noteq> - ENOTSUPP" by (simp add: calm_env_def ENOTSUPP_def)
  ultimately show ?thesis by (simp add: check_dpm_eoc_state_def walk_protected_def)
qed

lemma walk_until_charging: "pass_protected (calm_env 12 25) started = walk_protected"
  by (simp add: pass_protected_def pass_checked_def walk_plugs walk_checks walk_top_off_step walk_kpoc_step walk_protect_step walk_full_step walk_dpm_step)

lemmas walk_defs = walk_protected_def walk_top_off_def walk_checked_def walk_vbus_def walk_tchg_def walk_jeita_def walk_plugged_def chg_note_def reset_dpm_eoc_state_def

lemma walk_protected_fields [simp]: "mc_data walk_protected = plain_data" "mc_chr_type walk_protected = 12" "mc_can_charging walk_protected" "mc_basic walk_protected" "\<not> mc_disable_charger walk_protected"
  "mc_chg1 walk_protected = zero_limits\<lparr>ch_tj_min := - 127, ch_tj_max := - 127\<rparr>" "mc_chg2 walk_protected = zero_limits" "\<not> mc_usb_unlimited walk_protected" "\<not> mc_water walk_protected"
  "mc_bootmode walk_protected = 0" "\<not> mc_atm_enabled walk_protected" "mc_enable_sw_jeita walk_protected" "sj_sm (mc_sw_jeita walk_protected) = TEMP_T2_TO_T3" "mc_series walk_protected = False"
  by (simp_all add: walk_defs)

definition walk_cv :: mtk_charger where
  "walk_cv = select_cv 0 walk_protected"

lemma walk_cv_fields [simp]: "mc_data walk_cv = plain_data" "mc_chr_type walk_cv = 12" "mc_enable_sw_jeita walk_cv" "mc_sw_jeita walk_cv = mc_sw_jeita walk_protected"
  "mc_chg1 walk_cv = zero_limits\<lparr>ch_tj_min := - 127, ch_tj_max := - 127\<rparr>" "mc_chg2 walk_cv = zero_limits" "early_limits walk_cv = None"
  by (simp_all add: walk_cv_def early_none exempt_def) (simp_all add: select_cv_def Let_def)

definition walk_type :: mtk_charger where
  "walk_type = wireless_limits 500000 500000 5 walk_cv"

lemma walk_type_step: "type_limits walk_cv = (False, walk_type)" by (simp add: type_limits_def Let_def walk_type_def) (simp add: plain_data_def parse_custom_data_def plain_dt_def dt_int_def)

lemma walk_type_limits: "mc_chg1 walk_type = zero_limits\<lparr>ch_tj_min := - 127, ch_tj_max := - 127, ch_input_limit := 500000, ch_charging_limit := 500000\<rparr>"
  by (simp add: walk_type_def wireless_limits_def zero_limits_def)

lemma walk_thermal_step: "thermal_all calm_basic walk_type = walk_type\<lparr>mc_setting := (mc_setting walk_type)\<lparr>st_charging1 := - 1, st_input1 := - 1, st_charging2 := - 1, st_input2 := - 1\<rparr>\<rparr>"
proof -
  have "jeita_limits calm_basic walk_type = walk_type" by (simp add: jeita_limits_def walk_type_def wireless_limits_def Let_def)
  moreover have "mc_chg2 walk_type = zero_limits" by (simp add: walk_type_def wireless_limits_def)
  ultimately show ?thesis
    by (simp add: thermal_all_def thermal_charging1_def thermal_input1_def thermal_charging2_def thermal_input2_def Let_def walk_type_limits zero_limits_def)
qed

definition walk_limits :: mtk_charger where
  "walk_limits = snd (final_limits calm_basic False (thermal_all calm_basic walk_type))"

lemma walk_selects: "select_charging_current_limit calm_basic walk_protected = (False, walk_limits)"
proof -
  have "fst (final_limits calm_basic False (thermal_all calm_basic walk_type)) = False"
    by (simp add: walk_thermal_step final_limits_def forced_limits_def Let_def walk_type_limits zero_limits_def) (simp add: calm_basic_def u32w_def)
  then have "final_limits calm_basic False (thermal_all calm_basic walk_type) = (False, walk_limits)" unfolding walk_limits_def by (metis prod.collapse)
  moreover have "be_aging calm_basic = 0" "be_wpc_online calm_basic" by (simp_all add: calm_basic_def)
  ultimately show ?thesis
    using walk_type_step walk_cv_fields(7) by (simp add: select_charging_current_limit_def Let_def walk_cv_def thermal_all_def)
qed

lemma walk_limits_found: "mc_algs walk_limits = [] \<and> limits1 walk_limits = (500000, 500000)"
  by (simp add: walk_limits_def walk_thermal_step final_limits_def forced_limits_def Let_def walk_type_limits zero_limits_def limits1_def)
    (simp add: calm_basic_def u32w_def walk_type_def wireless_limits_def walk_cv_def select_cv_def Let_def walk_defs)

lemma calm_pass_charges: "hw_en (mc_hw (charger_pass (calm_env 12 25) calm_basic started))"
proof -
  let ?d = "done_events calm_basic walk_limits"
  have d: "mc_algs ?d = []" "limits1 ?d = (500000, 500000)" using walk_limits_found by (simp_all add: done_events_def chip_defs limits1_def)
  have "try_algs calm_basic 0 (mc_algs ?d) ?d = (True, ?d)" by (simp add: d)
  then have "do_algorithm calm_basic walk_protected = charge_with (?d\<lparr>mc_is_chg_done := be_done calm_basic\<rparr>)"
    using do_algorithm_fast [OF walk_selects, of True ?d] by simp
  then have "hw_en (mc_hw (do_algorithm calm_basic walk_protected))"
    using charge_with_core [of "?d\<lparr>mc_is_chg_done := be_done calm_basic\<rparr>"] d(2) by (simp add: chg_core_def limits1_def)
  moreover have "on_type (calm_env 12 25) \<noteq> 0" by (simp add: calm_env_def)
  ultimately show ?thesis by (simp add: charger_pass_parts walk_until_charging Let_def is_disable_charger_def chg_note_def)
qed
end
