(* ===== verification/Charger_Safety.thy ===== *)
theory Charger_Safety
  imports Charger_Battery Charger_Example
begin

text \<open>
  When the chip may charge, for any sequence of passes, events, stores and commands. The general argument is a
  locale of a machine behind a gate, interpreted on the charger.
\<close>

section \<open>A machine behind a gate\<close>

text \<open>
  The interface between a machine that can be live and the operations on it: an irregular operation aside, the machine
  is live only while its gate is open. What a sequence of operations reaches follows from the laws of one.
\<close>

locale gated_machine =
  fixes step :: "'op \<Rightarrow> 's \<Rightarrow> 's" and ready :: "'s \<Rightarrow> bool" and gate :: "'s \<Rightarrow> bool" and live :: "'s \<Rightarrow> bool" and regular :: "'op \<Rightarrow> bool"
  assumes ready_step: "ready s \<Longrightarrow> ready (step op s)"
    and gate_step: "ready s \<Longrightarrow> regular op \<Longrightarrow> (live s \<longrightarrow> gate s) \<Longrightarrow> live (step op s) \<longrightarrow> gate (step op s)"
begin

lemma ready_run: "ready s \<Longrightarrow> ready (fold step ops s)"
  by (induction ops arbitrary: s) (simp_all add: ready_step)

lemma gate_run:
  "ready s \<Longrightarrow> (live s \<longrightarrow> gate s) \<Longrightarrow> \<forall>op \<in> set ops. regular op \<Longrightarrow> live (fold step ops s) \<longrightarrow> gate (fold step ops s)"
  by (induction ops arbitrary: s) (simp_all add: ready_step gate_step)

text \<open>A live machine with a closed gate has an irregular operation in its past.\<close>

lemma irregular_cause:
  assumes "ready s" "live s \<longrightarrow> gate s" "live (fold step ops s)" "\<not> gate (fold step ops s)"
  obtains op where "op \<in> set ops" "\<not> regular op"
  using gate_run [OF assms(1,2)] assms(3,4) by blast

end

text \<open>Some operations decide anew whether the gate is open.\<close>

locale decided_machine = gated_machine +
  fixes decides :: "'a \<Rightarrow> bool" and allowed :: "'a \<Rightarrow> 'b \<Rightarrow> bool"
  assumes decides_regular: "decides op \<Longrightarrow> regular op"
    and gate_decided: "ready s \<Longrightarrow> decides op \<Longrightarrow> gate (step op s) = allowed op s"
begin

lemma live_allowed:
  assumes "ready s" "live s \<longrightarrow> gate s" "\<forall>op \<in> set ops. regular op" "decides op" "live (step op (fold step ops s))"
  shows "allowed op (fold step ops s)"
  using gate_step [OF ready_run [OF assms(1)] decides_regular [OF assms(4)] gate_run [OF assms(1-3)]] assms(5)
    gate_decided [OF ready_run [OF assms(1)] assms(4)] by blast

end

section \<open>The charger as such a machine\<close>

text \<open>Everything that reaches the driver. A store or command carries what its text was parsed to.\<close>

datatype chg_op = OpPass chg_env basic_env | OpPsySet nat charger_psp int | OpAdapter adapter_event | OpExternalPower int int
  | OpDevEvent bool chg_dev_notify | OpSwJeita "int option" | OpChrType "int option" | OpInputCurrent "int option" | OpBcm string
  | OpCustomMode "int option" | OpNotify "u32 option" | OpTopOff "int option" | OpResetTime "int option"
  | OpVbusOvp bool bool bool | OpPowerPath "int option" | OpSafetyTimer "int option" | OpShutdown | OpCurrents basic_env
  | OpCurrentCmd "(int \<times> int) option"

fun chg_step :: "chg_op \<Rightarrow> mtk_charger \<Rightarrow> mtk_charger" where
  "chg_step (OpPass env be) s = charger_pass env be s"
| "chg_step (OpPsySet psy psp v) s = snd (psy_charger_set_property psy psp v s)"
| "chg_step (OpAdapter ev) s = notify_adapter_event ev s"
| "chg_step (OpExternalPower now online) s = mtk_charger_external_power_changed now online s"
| "chg_step (OpDevEvent polling ev) s = charger_dev_event polling ev s"
| "chg_step (OpSwJeita num) s = sw_jeita_store num s"
| "chg_step (OpChrType num) s = chr_type_store num s"
| "chg_step (OpInputCurrent num) s = input_current_store num s"
| "chg_step (OpBcm buf) s = bcm_flag_store buf s"
| "chg_step (OpCustomMode num) s = Custom_Charging_Mode_store num s"
| "chg_step (OpNotify num) s = BatteryNotify_store num s"
| "chg_step (OpTopOff num) s = store_top_off_mode num s"
| "chg_step (OpResetTime num) s = mtk_chg_bat_eoc_protect_reset_time_write num s"
| "chg_step (OpVbusOvp ready found enable) s = snd (mtk_chg_enable_vbus_ovp ready found enable s)"
| "chg_step (OpPowerPath num) s = mtk_chg_en_power_path_write num s"
| "chg_step (OpSafetyTimer num) s = mtk_chg_en_safety_timer_write num s"
| "chg_step OpShutdown s = mtk_charger_shutdown s"
| "chg_step (OpCurrents be) s = snd (mtk_basic_charging_current be s)"
| "chg_step (OpCurrentCmd nums) s = mtk_chg_current_cmd_write nums s"

fun regular_op :: "chg_op \<Rightarrow> bool" where
  "regular_op (OpCurrentCmd nums) = False"
| "regular_op _ = True"

fun deciding_op :: "chg_op \<Rightarrow> bool" where
  "deciding_op (OpPass env be) = sees_charger env"
| "deciding_op _ = False"

fun allowed_op :: "chg_op \<Rightarrow> mtk_charger \<Rightarrow> bool" where
  "allowed_op (OpPass env be) s = charging_allowed env (pass_plugged env s)"
| "allowed_op _ s = False"

lemma basic_current_cmd: "mc_basic (mtk_chg_current_cmd_write nums s) = mc_basic s"
  by (simp add: mtk_chg_current_cmd_write_def Let_def chip_defs split: option.split)

lemma core_adapter: "chg_core (notify_adapter_event ev s) = chg_core s"
  by (cases ev) (simp_all add: Let_def wake_up_charger_def chg_frame, simp_all add: chg_core_def)

lemma core_dev_event: "chg_core (charger_dev_event polling ev s) = chg_core s"
  by (cases ev) (simp_all add: charger_dev_event_def Let_def wake_up_charger_def chg_frame, simp_all add: chg_core_def)

lemma core_plug_handling: "chg_core (bat_eoc_protect_handle_plug_state now plug s) = chg_core s"
  by (simp add: bat_eoc_protect_handle_plug_state_def reset_dpm_eoc_state_def reset_bat_eoc_protect_state_def
      reset_invalid_charger_state_def Let_def chg_core_def)

lemma core_psy: "chg_core (snd (psy_charger_set_property psy psp v s)) = chg_core s"
  by (cases psp) (simp_all add: psy_charger_set_property_def Let_def wake_up_charger_def chg_frame, simp_all add: chg_core_def)

lemma core_stores:
  "chg_core (sw_jeita_store n s) = chg_core s" "chg_core (chr_type_store n s) = chg_core s" "chg_core (input_current_store n s) = chg_core s"
  "chg_core (bcm_flag_store buf s) = chg_core s" "chg_core (Custom_Charging_Mode_store n s) = chg_core s"
  "chg_core (BatteryNotify_store w s) = chg_core s" "chg_core (store_top_off_mode n s) = chg_core s"
  "chg_core (mtk_chg_bat_eoc_protect_reset_time_write n s) = chg_core s"
  by (cases n; cases w; simp add: sw_jeita_store_def chr_type_store_def input_current_store_def bcm_flag_store_def
      Custom_Charging_Mode_store_def BatteryNotify_store_def store_top_off_mode_def wake_up_charger_def
      mtk_chg_bat_eoc_protect_reset_time_write_def Let_def chg_core_def chg_note_def)+

lemma core_vbus_ovp: "chg_core (snd (mtk_chg_enable_vbus_ovp r f e s)) = chg_core s"
  by (simp add: mtk_chg_enable_vbus_ovp_def disable_hw_ovp_def Let_def chg_core_def)

lemma core_chip_writes:
  "chg_core (mtk_chg_en_power_path_write n s) = chg_core s" "chg_core (mtk_chg_en_safety_timer_write n s) = chg_core s"
  "chg_core (mtk_charger_shutdown s) = chg_core s" "chg_core (snd (mtk_basic_charging_current be s)) = chg_core s"
  by (simp_all add: mtk_basic_charging_current_def mtk_chg_en_power_path_write_def mtk_chg_en_safety_timer_write_def mtk_charger_shutdown_def chg_frame split: option.split)

lemma step_core: "regular_op op \<Longrightarrow> (\<nexists>env be. op = OpPass env be) \<Longrightarrow> chg_core (chg_step op s) = chg_core s"
  by (cases op) (simp_all add: core_adapter core_dev_event core_psy core_stores core_vbus_ovp core_chip_writes
      mtk_charger_external_power_changed_def wake_up_charger_def core_note core_plug_handling)

lemma step_gated: "mc_basic s \<Longrightarrow> regular_op op \<Longrightarrow> gated s \<Longrightarrow> mc_basic (chg_step op s) \<and> gated (chg_step op s)"
  using gated_core [OF step_core [of op s]] pass_gated by (cases op) auto

lemma pass_basic: "mc_basic (charger_pass env be s) = mc_basic s"
proof -
  have k: "mc_basic (kpoc_power_off_check env t) = mc_basic t" for t
    by (simp add: kpoc_power_off_check_def split_beta chg_note_def core_is_charger_on)
  have e: "mc_basic (mtk_enable_charging b t) = mc_basic t" for b t
    using core_enable_charging [of b t] by (simp add: mtk_enable_charging_def chg_core_def)
  have "mc_basic (charger_check_status env t) = mc_basic t" for t
  proof (cases "ck_type env = POWER_SUPPLY_TYPE_UNKNOWN")
    case False
    have "mc_basic (mtk_battery_notify_check env (snd (charging_decision env t))) = mc_basic t"
      using core_notify [of env "snd (charging_decision env t)"] core_decision [of env t] by (simp add: chg_core_def)
    then show ?thesis using False
      by (simp add: charger_check_status_def split_beta Let_def e charger_dev_set_constant_voltage_def select_cv_def)
  qed (simp add: charger_check_status_def)
  then have "mc_basic (pass_protected env s) = mc_basic s"
    using pass_protected_core [of env s] core_top_off [of env "charger_check_status env (pass_plugged env s)"]
    by (simp add: chg_core_def k pass_checked_def pass_plugged_basic)
  then show ?thesis using do_algorithm_flags [of be "pass_protected env s"]
    by (simp add: charger_pass_parts Let_def chg_note_def chg_flags_def)
qed

lemma step_ready: "mc_basic s \<Longrightarrow> mc_basic (chg_step op s)"
proof (cases "regular_op op")
  case True
  then show "mc_basic s \<Longrightarrow> mc_basic (chg_step op s)" using step_core [of op s] by (cases op) (auto simp: chg_core_def pass_basic)
next
  case False
  then show "mc_basic s \<Longrightarrow> mc_basic (chg_step op s)" by (cases op) (simp_all add: basic_current_cmd)
qed

interpretation chg: gated_machine chg_step mc_basic mc_can_charging "\<lambda>s. hw_en (mc_hw s)" regular_op
proof
  show "mc_basic (chg_step op s)" if "mc_basic s" for s op using that by (rule step_ready)
  show "hw_en (mc_hw (chg_step op s)) \<longrightarrow> mc_can_charging (chg_step op s)"
    if "mc_basic s" "regular_op op" "hw_en (mc_hw s) \<longrightarrow> mc_can_charging s" for s op
    using step_gated [OF that(1,2)] that(3) by (simp add: gated_def)
qed

interpretation pass: decided_machine chg_step mc_basic mc_can_charging "\<lambda>s. hw_en (mc_hw s)" regular_op deciding_op allowed_op
proof
  show "regular_op op" if "deciding_op op" for op using that by (cases op) simp_all
  show "mc_can_charging (chg_step op s) = allowed_op op s" if "mc_basic s" "deciding_op op" for s op
    using that by (cases op) (simp_all add: pass_decides)
qed

section \<open>Safety\<close>

text \<open>The conditions in the terms of what is measured in the pass and of the state before it.\<close>

definition battery_safe :: "chg_env \<Rightarrow> mtk_charger \<Rightarrow> bool" where
  "battery_safe env s \<longleftrightarrow>
     (if mc_enable_sw_jeita s then cc_t0 (mc_data s) \<le> ce_temp env \<and> ce_temp env < cc_t4 (mc_data s)
      else ce_temp env < bt_max (mc_thermal s) \<and> (bt_enable_min (mc_thermal s) \<longrightarrow> bt_min (mc_thermal s) \<le> ce_temp env))
     \<and> ck_bat_id env \<and> (vb_wpc_online env \<or> s32 (vb_vbus env * 1000) \<le> cc_max_charger_voltage (mc_data s))
     \<and> mc_bcm_flag s = BCM_FLAG_NONE \<and> \<not> mc_inv_weak s \<and> \<not> mc_cmd_discharging s
     \<and> \<not> (mc_enable_eoc s \<and> (mc_bat_eoc_protect s \<or> mc_dpm_disable s))"

lemma jeita_next_in_range: "ordered_ranges d \<Longrightarrow> snd (jeita_next d t sm) \<Longrightarrow> cc_t0 d \<le> t \<and> t < cc_t4 d"
  by (auto simp: jeita_next_def ordered_ranges_def split: if_splits)

lemma thermal_next_in_range: "snd (thermal_next p t) \<Longrightarrow> t < bt_max p \<and> (bt_enable_min p \<longrightarrow> bt_min p \<le> t)"
  by (auto simp: thermal_next_def Let_def split: if_splits)

lemma vbus_normal_bound: "vbus_class env s = VBUS_NORMAL \<Longrightarrow> vb_wpc_online env \<or> s32 (vb_vbus env * 1000) \<le> cc_max_charger_voltage (mc_data s)"
  by (auto simp: vbus_class_def Let_def split: if_splits)

lemma allowed_safe: "ordered_ranges (mc_data s) \<Longrightarrow> charging_allowed env (pass_plugged env s) \<Longrightarrow> battery_safe env s"
  using pass_plugged_inputs [of env s] jeita_next_in_range [of "mc_data s" "ce_temp env" "sj_sm (mc_sw_jeita s)"]
    thermal_next_in_range [of "mc_thermal s" "ce_temp env"] vbus_normal_bound [of env "pass_plugged env s"]
  by (simp add: charging_allowed_def battery_safe_def temperature_fit_def plug_inputs_def) (simp split: if_splits)

text \<open>C1: whatever events, stores and commands other than \<^verbatim>\<open>current_cmd\<close> came before, after a pass that sees the charger the
  chip is on only if the battery is one that may be charged: its temperature in range, its identification right, the input
  voltage not too high, no reason in \<^verbatim>\<open>bcm_flag\<close>, no bad charger, no command to discharge and no protection at the
  end of a charge.\<close>

theorem unsafe_battery_never_charged:
  assumes "mc_basic s" "\<not> hw_en (mc_hw s)" "\<forall>op \<in> set ops. regular_op op" "sees_charger env"
    and "ordered_ranges (mc_data (fold chg_step ops s))"
    and "hw_en (mc_hw (charger_pass env be (fold chg_step ops s)))"
  shows "battery_safe env (fold chg_step ops s)"
proof -
  have "allowed_op (OpPass env be) (fold chg_step ops s)"
    by (rule pass.live_allowed) (use assms in auto)
  then show ?thesis using allowed_safe [OF assms(5)] by simp
qed

theorem unsafe_battery_never_charged_witness: "battery_safe (calm_env 12 25) (fold chg_step [OpSwJeita (Some 1)] started)"
proof -
  have "s\<lparr>mc_enable_sw_jeita := True\<rparr> = s" if "mc_enable_sw_jeita s" for s :: mtk_charger using that by (cases s) simp
  then have s: "fold chg_step [OpSwJeita (Some 1)] started = started" by (simp add: sw_jeita_store_def)
  show ?thesis
    by (rule unsafe_battery_never_charged [where be = calm_basic])
      (simp_all only: s, simp_all add: calm_pass_charges ordered_ranges_def sees_charger_def, simp_all add: calm_env_def chip_off_def)
qed

text \<open>The chip is on only while the driver thinks that it may charge.\<close>

theorem charging_needs_permission:
  assumes "mc_basic s" "\<not> hw_en (mc_hw s)" "\<forall>op \<in> set ops. regular_op op"
  shows "hw_en (mc_hw (fold chg_step ops s)) \<longrightarrow> mc_can_charging (fold chg_step ops s)"
  by (rule chg.gate_run) (use assms in auto)

text \<open>C16: after a pass that sees the charger, charging is allowed exactly when no reason against it holds: the check with its
  early exits and state changes decides like one conjunction over the readings of the pass.\<close>

theorem pass_decides_charging:
  assumes "mc_basic s" "sees_charger env"
  shows "mc_can_charging (charger_pass env be s) \<longleftrightarrow> charging_allowed env (pass_plugged env s)"
  using pass_decides [OF assms(2,1)] .

theorem pass_decides_charging_witness:
  "\<not> mc_can_charging (charger_pass (calm_env 12 60) calm_basic started) \<and> mc_can_charging (charger_pass (calm_env 12 25) calm_basic started)"
proof -
  have "sees_charger (calm_env 12 t)" for t by (simp add: sees_charger_def calm_env_def)
  moreover have "\<not> charging_allowed (calm_env 12 60) (pass_plugged (calm_env 12 60) started)"
  proof -
    have "ordered_ranges (mc_data started)" "ce_temp (calm_env 12 60) = 60" by (simp_all add: ordered_ranges_def calm_env_def)
    moreover have "\<not> battery_safe (calm_env 12 60) started" using calculation(2) by (simp add: battery_safe_def)
    ultimately show ?thesis using allowed_safe by blast
  qed
  moreover have "charging_allowed (calm_env 12 25) (pass_plugged (calm_env 12 25) started)"
    using charging_decision_eq [of "calm_env 12 25" walk_plugged] walk_decides walk_plugs by simp
  ultimately show ?thesis using pass_decides_charging [of started "calm_env 12 60" calm_basic] pass_decides_charging [of started "calm_env 12 25" calm_basic] by simp
qed

section \<open>The command that opens the gate\<close>

text \<open>
  Bug: \<^verbatim>\<open>current_cmd\<close> with \<^verbatim>\<open>0 0\<close> switches the chip on whatever the last pass decided, and the following passes
  switch it off only when their decision changes: a battery that was unfit before stays charged.
\<close>

theorem current_cmd_defeats_checks:
  assumes "mc_basic s" "\<not> mc_can_charging s" "mc_chr_type s \<noteq> POWER_SUPPLY_TYPE_UNKNOWN" "mc_cable_out_cnt s \<le> 0"
    and "sees_charger env" "t = mtk_chg_current_cmd_write (Some (u, 0)) s" "\<not> charging_allowed env (pass_plugged env t)"
  shows "hw_en (mc_hw (charger_pass env be t)) \<and> \<not> mc_can_charging (charger_pass env be t)"
proof -
  have t: "mc_basic t" "hw_en (mc_hw t)" "\<not> mc_can_charging t" "mc_chr_type t \<noteq> POWER_SUPPLY_TYPE_UNKNOWN" "mc_cable_out_cnt t \<le> 0"
    using assms(1-4) unfolding assms(6) by (simp_all add: mtk_chg_current_cmd_write_def Let_def chip_defs)
  have "chg_core (pass_plugged env t) = chg_core t"
    using t(4,5) assms(5) by (simp add: pass_plugged_def mtk_is_charger_on_def Let_def chg_frame sees_charger_def) (simp add: chg_core_def)
  then have "chg_core (pass_protected env t) = (True, False, True)"
    using pass_protected_checked [OF assms(5), of t] check_status_core [of env "pass_plugged env t"] t(1-3) assms(5,7)
    by (simp add: chg_core_def sees_charger_def)
  then show ?thesis by (simp add: charger_pass_parts Let_def chg_note_def chg_core_def)
qed

end
