(* ===== verification/Charger_Thermal.thy ===== *)
theory Charger_Thermal
  imports Charger_Safety Vs_Zone
begin

text \<open>
  The charger chip as a thermal zone (\<^verbatim>\<open>drivers/power/supply/mtk_charger.c\<close>): its temperature, and the notification that
  records a thermal shutdown with the sign of life driver.
\<close>

definition mtk_master_charger_get_temp :: "mtk_charger \<Rightarrow> int \<times> int" where
  "mtk_master_charger_get_temp s = (0, s32 (ch_tj_max (mc_chg1 s) * 1000))"

text \<open>\<open>zone\<close> is false for a missing zone. The second result is whether the discharging of the capacitors at the shutdown was enabled.\<close>

definition charger_thermal_notify :: "bool \<Rightarrow> thermal_trip_type \<Rightarrow> 's sol_driver \<Rightarrow> int \<times> bool \<times> 's sol_driver" where
  "charger_thermal_notify zone ty d =
     (if \<not> zone then (- EINVAL, False, d)
      else if ty = TRIP_CRITICAL then (0, True, snd (life_cycle_set_thermal_shutdown_reason d THERMAL_SHUTDOWN_REASON_PMIC))
      else (0, False, d))"

text \<open>A temperature that cannot be read is one of -127 degrees: the zone never comes near a trip point.\<close>

lemma unreadable_chip_is_cold: "ck_tj1 env = None \<Longrightarrow> mtk_master_charger_get_temp (mtk_chg_get_tchg env s) = (0, - 127000)"
  by (simp add: mtk_master_charger_get_temp_def mtk_chg_get_tchg_def tj_of_def Let_def s32_def)

end
