(* ===== verification/Charger_Wakeup.thy ===== *)
theory Charger_Wakeup
  imports Prelude
begin

text \<open>
  When the charger thread runs (\<^verbatim>\<open>drivers/power/supply/mtk_charger.c\<close>): its flag, its wake lock, the alarm that polls
  a plugged charger, and suspend. Everything that can happen is an event; a run is a list of events, in any
  order in which they are possible. Times are boot times in nanoseconds; the end time of the alarm is 0 when it was
  consumed. The callback of the alarm takes no time, so the alarm can always be cancelled.
\<close>

section \<open>State\<close>

text \<open>The thread waits for its flag, is in a pass before the timer is started, or behind it.\<close>

datatype thread_phase = Waiting | Pass | Timed

record wake_state =
  wk_timeout :: bool
  wk_lock :: bool
  wk_suspend :: bool
  wk_polling :: bool
  wk_phase :: thread_phase
  wk_alarm :: "int option"
  wk_end :: int
  wk_now :: int

definition NSEC_PER_SEC :: int where "NSEC_PER_SEC = 1000000000"

definition CHARGING_INTERVAL :: int where "CHARGING_INTERVAL = 10"

section \<open>Operations\<close>

definition wk_wake_up_charger :: "wake_state \<Rightarrow> wake_state" where
  "wk_wake_up_charger s = s\<lparr>wk_lock := True, wk_timeout := True\<rparr>"

definition mtk_charger_start_timer :: "wake_state \<Rightarrow> wake_state" where
  "mtk_charger_start_timer s =
     (let e = wk_now s + CHARGING_INTERVAL * NSEC_PER_SEC in s\<lparr>wk_end := e, wk_alarm := Some e\<rparr>)"

definition mtk_charger_alarm_timer_func :: "wake_state \<Rightarrow> wake_state" where
  "mtk_charger_alarm_timer_func s =
     (let s = s\<lparr>wk_alarm := None\<rparr> in if \<not> wk_suspend s then wk_wake_up_charger s else s\<lparr>wk_lock := True\<rparr>)"

datatype pm_event = PM_SUSPEND_PREPARE | PM_POST_SUSPEND | PM_OTHER

definition charger_pm_event :: "pm_event \<Rightarrow> wake_state \<Rightarrow> wake_state" where
  "charger_pm_event ev s =
     (case ev of
        PM_SUSPEND_PREPARE \<Rightarrow> s\<lparr>wk_suspend := True\<rparr>
      | PM_POST_SUSPEND \<Rightarrow>
          (let s = s\<lparr>wk_suspend := False\<rparr>
           in if wk_now s \<ge> wk_end s \<and> wk_end s div NSEC_PER_SEC \<noteq> 0 \<and> wk_end s mod NSEC_PER_SEC \<noteq> 0
              then wk_wake_up_charger (s\<lparr>wk_lock := False, wk_end := 0\<rparr>) else s)
      | PM_OTHER \<Rightarrow> s)"

text \<open>The three parts of a pass; \<open>p\<close> is whether a charger is plugged then.\<close>

definition pass_begin :: "wake_state \<Rightarrow> wake_state" where
  "pass_begin s = s\<lparr>wk_lock := True, wk_timeout := False, wk_phase := Pass\<rparr>"

definition pass_timer :: "bool \<Rightarrow> wake_state \<Rightarrow> wake_state" where
  "pass_timer p s = (let s = s\<lparr>wk_polling := p, wk_phase := Timed\<rparr> in if wk_polling s then mtk_charger_start_timer s else s)"

definition pass_end :: "wake_state \<Rightarrow> wake_state" where
  "pass_end s = s\<lparr>wk_lock := False, wk_phase := Waiting\<rparr>"

text \<open>The start: the probe starts the timer.\<close>

definition wake_init :: "int \<Rightarrow> wake_state" where
  "wake_init now = mtk_charger_start_timer \<lparr>wk_timeout = False, wk_lock = False, wk_suspend = False, wk_polling = False,
     wk_phase = Waiting, wk_alarm = None, wk_end = 0, wk_now = now\<rparr>"

lemmas wake_defs = wk_wake_up_charger_def mtk_charger_alarm_timer_func_def mtk_charger_start_timer_def charger_pm_event_def
  pass_begin_def pass_timer_def pass_end_def wake_init_def CHARGING_INTERVAL_def NSEC_PER_SEC_def

section \<open>Runs\<close>

datatype wake_event = EvTick int | EvWake | EvAlarm | EvPm pm_event | EvBegin | EvTimer bool | EvEnd

inductive wake_step :: "wake_state \<Rightarrow> wake_event \<Rightarrow> wake_state \<Rightarrow> bool" where
  tick: "wk_now s \<le> t \<Longrightarrow> wake_step s (EvTick t) (s\<lparr>wk_now := t\<rparr>)"
| wake: "wake_step s EvWake (wk_wake_up_charger s)"
| alarm: "wk_alarm s = Some e \<Longrightarrow> e \<le> wk_now s \<Longrightarrow> wake_step s EvAlarm (mtk_charger_alarm_timer_func s)"
| pm: "wake_step s (EvPm ev) (charger_pm_event ev s)"
| pass: "wk_phase s = Waiting \<Longrightarrow> wk_timeout s \<Longrightarrow> wake_step s EvBegin (pass_begin s)"
| timer: "wk_phase s = Pass \<Longrightarrow> wake_step s (EvTimer p) (pass_timer p s)"
| finish: "wk_phase s = Timed \<Longrightarrow> wake_step s EvEnd (pass_end s)"

inductive_cases wake_stepE: "wake_step s ev t"

inductive wake_run :: "wake_state \<Rightarrow> wake_event list \<Rightarrow> wake_state \<Rightarrow> bool" where
  none: "wake_run s [] s"
| more: "wake_run s evs t \<Longrightarrow> wake_step t ev u \<Longrightarrow> wake_run s (evs @ [ev]) u"

lemma wake_run_one: "wake_step s ev t \<Longrightarrow> wake_run s [ev] t"
  using wake_run.more [OF wake_run.none] by simp

lemma wake_run_trans: "wake_run t evs' u \<Longrightarrow> wake_run s evs t \<Longrightarrow> wake_run s (evs @ evs') u"
proof (induction rule: wake_run.induct)
  case (more t evs' u ev v)
  then show ?case using wake_run.more [of s "evs @ evs'" u ev v] by simp
qed simp

lemma wake_run_more: "wake_step s ev t \<Longrightarrow> wake_run t evs u \<Longrightarrow> wake_run s (ev # evs) u"
  using wake_run_trans [of t evs u s "[ev]"] wake_run_one by simp

section \<open>A plugged charger is not forgotten\<close>

text \<open>A time that the test behind suspend takes for one: neither its seconds nor its nanoseconds are 0.\<close>

definition proper_time :: "int \<Rightarrow> bool" where
  "proper_time t \<longleftrightarrow> 0 \<le> t \<and> t mod NSEC_PER_SEC \<noteq> 0"

definition poll_kept :: "wake_state \<Rightarrow> bool" where
  "poll_kept s \<longleftrightarrow> proper_time (wk_now s) \<and>
     (wk_polling s \<longrightarrow> wk_timeout s \<or> wk_phase s = Pass
        \<or> (wk_end s div NSEC_PER_SEC \<noteq> 0 \<and> wk_end s mod NSEC_PER_SEC \<noteq> 0
             \<and> (wk_alarm s = Some (wk_end s) \<or> wk_suspend s \<and> wk_end s \<le> wk_now s)))"

lemma proper_later:
  assumes "proper_time t"
  shows "(t + CHARGING_INTERVAL * NSEC_PER_SEC) div NSEC_PER_SEC \<noteq> 0" "(t + CHARGING_INTERVAL * NSEC_PER_SEC) mod NSEC_PER_SEC \<noteq> 0"
proof -
  have "(t + CHARGING_INTERVAL * NSEC_PER_SEC) div NSEC_PER_SEC = CHARGING_INTERVAL + t div NSEC_PER_SEC"
    by (simp add: NSEC_PER_SEC_def)
  moreover have "0 \<le> t div NSEC_PER_SEC" using assms by (simp add: proper_time_def NSEC_PER_SEC_def pos_imp_zdiv_nonneg_iff)
  ultimately show "(t + CHARGING_INTERVAL * NSEC_PER_SEC) div NSEC_PER_SEC \<noteq> 0" by (simp add: CHARGING_INTERVAL_def)
  show "(t + CHARGING_INTERVAL * NSEC_PER_SEC) mod NSEC_PER_SEC \<noteq> 0" using assms by (simp add: proper_time_def)
qed

lemma poll_kept_step:
  assumes "wake_step s ev t" "poll_kept s" "\<forall>n. ev = EvTick n \<longrightarrow> proper_time n"
  shows "poll_kept t"
  using assms(1)
proof (cases rule: wake_step.cases)
  case (pm ev')
  show ?thesis using assms(2) unfolding pm
    by (cases ev') (auto simp: poll_kept_def charger_pm_event_def wk_wake_up_charger_def Let_def)
next
  case (timer p)
  show ?thesis using assms(2) proper_later [of "wk_now s"] unfolding timer
    by (simp add: poll_kept_def pass_timer_def mtk_charger_start_timer_def Let_def)
qed (use assms(2,3) in \<open>auto simp: poll_kept_def mtk_charger_alarm_timer_func_def wk_wake_up_charger_def pass_begin_def pass_end_def Let_def\<close>)

lemma poll_kept_run: "wake_run s evs t \<Longrightarrow> poll_kept s \<Longrightarrow> \<forall>n. EvTick n \<in> set evs \<longrightarrow> proper_time n \<Longrightarrow> poll_kept t"
  by (induction rule: wake_run.induct) (auto intro: poll_kept_step)

lemma poll_kept_init: "proper_time now \<Longrightarrow> poll_kept (wake_init now)"
  by (simp add: poll_kept_def wake_init_def mtk_charger_start_timer_def Let_def)

text \<open>What brings the thread to its next pass, without a wake-up from outside.\<close>

lemma pass_ahead:
  assumes "poll_kept s" "wk_polling s" "wk_phase s = Waiting"
  obtains evs t where "wake_run s evs t" "EvWake \<notin> set evs" "length evs \<le> 4" "wk_phase t = Pass"
proof -
  have go: "\<exists>t. wake_run u [EvBegin] t \<and> wk_phase t = Pass" if "wk_timeout u" "wk_phase u = Waiting" for u
    using wake_run_one [OF pass [OF that(2,1)]] by (auto simp: pass_begin_def)
  define u where "u = charger_pm_event PM_POST_SUSPEND s"
  have run_u: "wake_run s [EvPm PM_POST_SUSPEND] u" unfolding u_def by (rule wake_run_one [OF pm])
  have ph_u: "wk_phase u = Waiting" "\<not> wk_suspend u" using assms(3) by (simp_all add: u_def charger_pm_event_def wk_wake_up_charger_def Let_def)
  show ?thesis
  proof (cases "wk_timeout u")
    case True
    obtain t where "wake_run u [EvBegin] t" "wk_phase t = Pass" using go [OF True ph_u(1)] by blast
    then show ?thesis using that [of "[EvPm PM_POST_SUSPEND] @ [EvBegin]" t] wake_run_trans [OF _ run_u] by simp
  next
    case False
    then have a: "wk_alarm u = Some (wk_end s)"
      using assms by (auto simp: u_def charger_pm_event_def wk_wake_up_charger_def Let_def poll_kept_def split: if_splits)
    define n where "n = max (wk_now u) (wk_end s)"
    have t1: "wake_step u (EvTick n) (u\<lparr>wk_now := n\<rparr>)" by (rule tick) (simp add: n_def)
    have t2: "wake_step (u\<lparr>wk_now := n\<rparr>) EvAlarm (mtk_charger_alarm_timer_func (u\<lparr>wk_now := n\<rparr>))"
      by (rule alarm [where e = "wk_end s"]) (simp_all add: a n_def le_max_iff_disj)
    let ?v = "mtk_charger_alarm_timer_func (u\<lparr>wk_now := n\<rparr>)"
    have "wk_timeout ?v" "wk_phase ?v = Waiting"
      using ph_u by (simp_all add: mtk_charger_alarm_timer_func_def wk_wake_up_charger_def Let_def)
    then obtain t where "wake_run ?v [EvBegin] t" "wk_phase t = Pass" using go by blast
    then have "wake_run s ([EvPm PM_POST_SUSPEND] @ [EvTick n, EvAlarm, EvBegin]) t" "wk_phase t = Pass"
      using wake_run_trans [OF _ run_u] wake_run_more [OF t1 wake_run_more [OF t2]] by blast+
    then show ?thesis using that by simp
  qed
qed


definition polled :: wake_state where
  "polled = \<lparr>wk_timeout = False, wk_lock = False, wk_suspend = False, wk_polling = True, wk_phase = Waiting, wk_alarm = Some 15000000001,
     wk_end = 15000000001, wk_now = 5000000001\<rparr>"

lemma polled_run: "wake_run (wake_init 5000000001) [EvWake, EvBegin, EvTimer True, EvEnd] polled"
proof -
  let ?s = "wk_wake_up_charger (wake_init 5000000001)"
  have "wake_run (wake_init 5000000001) [EvWake, EvBegin, EvTimer True, EvEnd] (pass_end (pass_timer True (pass_begin ?s)))"
    by (rule wake_run_more [OF wake] wake_run_more [OF pass] wake_run_more [OF timer] wake_run_more [OF finish] wake_run.none
        | simp add: wake_defs Let_def)+
  then show ?thesis by (simp add: wake_defs Let_def polled_def)
qed


section \<open>The thread comes to rest\<close>

definition thread_event :: "wake_event \<Rightarrow> bool" where
  "thread_event ev \<longleftrightarrow> ev = EvBegin \<or> ev = EvEnd \<or> (\<exists>p. ev = EvTimer p)"

definition thread_work :: "wake_state \<Rightarrow> nat" where
  "thread_work s = (if wk_timeout s then 3 else 0) + (case wk_phase s of Waiting \<Rightarrow> 0 | Pass \<Rightarrow> 2 | Timed \<Rightarrow> 1)"

lemma thread_work_less: "wake_step s ev t \<Longrightarrow> thread_event ev \<Longrightarrow> thread_work s = Suc (thread_work t)"
  by (erule wake_stepE) (auto simp: thread_event_def thread_work_def pass_begin_def pass_timer_def pass_end_def mtk_charger_start_timer_def Let_def)

lemma thread_run_work: "wake_run s evs t \<Longrightarrow> \<forall>ev \<in> set evs. thread_event ev \<Longrightarrow> thread_work s = length evs + thread_work t"
  by (induction rule: wake_run.induct) (auto dest: thread_work_less)



section \<open>What goes wrong\<close>

text \<open>
  An alarm that ends on a whole second and fires while the system suspends is forgotten: no event but a
  wake-up from outside starts a pass again. The battery that charges is not looked at any more.
\<close>

definition forgotten :: "wake_state \<Rightarrow> bool" where
  "forgotten s \<longleftrightarrow> wk_polling s \<and> wk_phase s = Waiting \<and> \<not> wk_timeout s \<and> wk_alarm s = None \<and> wk_end s mod NSEC_PER_SEC = 0"

definition lost_poll :: "wake_event list" where
  "lost_poll = [EvWake, EvBegin, EvTimer True, EvEnd, EvPm PM_SUSPEND_PREPARE, EvTick 15000000000, EvAlarm, EvPm PM_POST_SUSPEND]"

lemma forgotten_step: "wake_step s ev t \<Longrightarrow> forgotten s \<Longrightarrow> ev \<noteq> EvWake \<Longrightarrow> forgotten t"
  by (erule wake_stepE) (auto simp: forgotten_def charger_pm_event_def Let_def split: pm_event.split)

lemma forgotten_run: "wake_run s evs t \<Longrightarrow> forgotten s \<Longrightarrow> EvWake \<notin> set evs \<Longrightarrow> forgotten t"
  by (induction rule: wake_run.induct) (auto intro: forgotten_step)

theorem poll_lost_on_whole_second:
  "\<exists>s. wake_run (wake_init 5000000000) lost_poll s \<and> (\<forall>evs t. wake_run s evs t \<and> EvWake \<notin> set evs \<longrightarrow> wk_polling t \<and> wk_phase t = Waiting)"
proof -
  define s where "s = \<lparr>wk_timeout = False, wk_lock = True, wk_suspend = False, wk_polling = True, wk_phase = Waiting, wk_alarm = None,
      wk_end = 15000000000, wk_now = 15000000000\<rparr>"
  let ?s1 = "wk_wake_up_charger (wake_init 5000000000)"
  let ?s4 = "pass_end (pass_timer True (pass_begin ?s1))"
  let ?s6 = "(charger_pm_event PM_SUSPEND_PREPARE ?s4)\<lparr>wk_now := 15000000000\<rparr>"
  have "wake_run (wake_init 5000000000) lost_poll (charger_pm_event PM_POST_SUSPEND (mtk_charger_alarm_timer_func ?s6))"
    unfolding lost_poll_def
    by (rule wake_run_more [OF wake] wake_run_more [OF pass] wake_run_more [OF timer] wake_run_more [OF finish] wake_run_more [OF pm]
        wake_run_more [OF tick] wake_run_more [OF alarm [where e = 15000000000]] wake_run.none | simp add: wake_defs Let_def)+
  moreover have "charger_pm_event PM_POST_SUSPEND (mtk_charger_alarm_timer_func ?s6) = s"
    by (simp add: wake_defs Let_def s_def)
  moreover have "forgotten s" by (simp add: forgotten_def NSEC_PER_SEC_def s_def)
  ultimately show ?thesis using forgotten_run unfolding forgotten_def by metis
qed

text \<open>
  Bug: a wake-up during a pass takes the wake lock, and the end of the pass drops it although the thread has to
  run again, so the system may suspend first.
\<close>

theorem wakeup_lock_dropped: "wk_timeout (pass_end (wk_wake_up_charger s)) \<and> \<not> wk_lock (pass_end (wk_wake_up_charger s))"
  by (simp add: pass_end_def wk_wake_up_charger_def)

end
