(* ===== verification/Bat_Metrics.thy ===== *)
theory Bat_Metrics
  imports Sign_Of_Life
begin

text \<open>
  The battery metrics (\<^verbatim>\<open>drivers/power/supply/battery_metrics.c\<close>), with both metrics logs and the display notifier
  configured. What goes to a log is a record with the texts and numbers its format is given; \<open>None\<close> is a fault or
  a division by zero.
  Times are boot times in nanoseconds.
\<close>

section \<open>State\<close>

text \<open>Entries of the metrics log (domain, event, numbers), of the Minerva log (event, numbers) and of the vitals.\<close>

datatype metrics_entry = MetricsEntry string string "int list" | MinervaEntry string "int list" | VitalsEntry string "int list"

record bm_screen =
  screen_on_time :: int
  screen_off_time :: int
  screen_on_soc :: int
  screen_off_soc :: int
  screen_is_on :: bool

record bm_pm =
  suspend_ts :: int
  resume_ts :: int
  suspend_soc :: int
  resume_soc :: int
  suspend_car :: int
  resume_car :: int

record bm_iavg =
  last_ts :: int
  pre_car :: int
  pre_screen :: bool

record bat_metrics_data =
  bm_top_off :: bool
  bm_ready :: bool
  bm_fault_old :: nat
  bm_chg_sts_old :: nat
  bm_bcm_old :: nat
  bm_aging_old :: int
  bm_cycle_old :: int
  bm_qmax_old :: int
  bm_gm :: bool \<comment> \<open>the battery's data are known, the pointer is not NULL\<close>
  bm_iavg :: bm_iavg
  bm_screen :: bm_screen
  bm_pm :: bm_pm
  bm_queued :: bool
  bm_client :: bool
  bm_log :: "metrics_entry list"

text \<open>
  What the battery driver and the gauge say; a property that the gauge does not have is \<open>None\<close>. \<open>ga_iavg\<close> is the average
  current by software, \<open>ga_hw\<close> the version of the gauge, \<open>ga_off\<close> whether the gauge's algorithm is off.
\<close>

record gauge_answers =
  ga_soc :: int
  ga_ui_soc :: int
  ga_temp :: int
  ga_vol :: int
  ga_iavg :: int
  ga_precise :: int
  ga_off :: bool
  ga_voltage :: "int option"
  ga_coulomb :: "int option"
  ga_current :: "int option"
  ga_average :: "int option"
  ga_hw :: "int option"

section \<open>Logging\<close>

definition bm_note :: "metrics_entry \<Rightarrow> bat_metrics_data \<Rightarrow> bat_metrics_data" where
  "bm_note e s = s\<lparr>bm_log := bm_log s @ [e]\<rparr>"

text \<open>The Minerva record of an event carries the state of the battery, behind a pointer that is not tested.\<close>

definition bat_minerva_log :: "gauge_answers \<Rightarrow> string \<Rightarrow> bat_metrics_data \<Rightarrow> bat_metrics_data option" where
  "bat_minerva_log g ev s =
     (if \<not> bm_gm s then None
      else Some (bm_note (MinervaEntry ev [ga_ui_soc g, ga_soc g, ga_temp g, ga_vol g, ga_iavg g sdiv 10]) s))"

definition metrics_get_int_property :: "int option \<Rightarrow> bat_metrics_data \<Rightarrow> int" where
  "metrics_get_int_property p s = (if \<not> bm_ready s then 0 else case p of None \<Rightarrow> 0 | Some v \<Rightarrow> v)"

definition GAUGE_HW_V1000 :: int where "GAUGE_HW_V1000 = 1000"
definition GAUGE_HW_V2000 :: int where "GAUGE_HW_V2000 = 2000"

definition metrics_get_average_current :: "gauge_answers \<Rightarrow> bat_metrics_data \<Rightarrow> int" where
  "metrics_get_average_current g s =
     (if \<not> bm_ready s then - ENODEV
      else if ga_off g then 0
      else let ver = metrics_get_int_property (ga_hw g) s
           in if GAUGE_HW_V1000 \<le> ver \<and> ver < GAUGE_HW_V2000 then ga_iavg g else metrics_get_int_property (ga_average g) s)"

section \<open>Events\<close>

definition power_category :: "int list" where "power_category = [5000, 7500, 9000, 12000, 15000]"
definition category_text :: "string list" where "category_text = [''5W'', ''7.5W'', ''9W'', ''12W'', ''15W'']"

text \<open>The current is unsigned and so never below 0; the format prints it signed.\<close>

definition bat_metrics_adapter_power :: "nat \<Rightarrow> int \<Rightarrow> bat_metrics_data \<Rightarrow> int \<times> bat_metrics_data" where
  "bat_metrics_adapter_power ty aicl s =
     (if ty \<ge> length category_text then (0, s)
      else let shown = s32 (if u32w aicl < 0 then 0 else u32w aicl);
               s = bm_note (MetricsEntry ''battery'' (''adapter_'' @ category_text ! ty) [shown]) s
           in (0, bm_note (MinervaEntry ''adapter'' [power_category ! ty, shown]) s))"

definition charger_fault_text :: "string list" where "charger_fault_text = [''NONE'', ''VBUS_OVP'', ''VBAT_OVP'', ''SAFETY_TIMEOUT'']"

definition bat_metrics_chg_fault :: "gauge_answers \<Rightarrow> nat \<Rightarrow> bat_metrics_data \<Rightarrow> (int \<times> bat_metrics_data) option" where
  "bat_metrics_chg_fault g ty s =
     (if bm_fault_old s = ty then Some (0, s)
      else let s = s\<lparr>bm_fault_old := ty\<rparr>
           in if ty = 0 then Some (0, s)
              else if ty \<ge> length charger_fault_text then None
              else let ev = ''charger_fault_type_'' @ charger_fault_text ! ty
                   in (case bat_minerva_log g ev (bm_note (MetricsEntry ''battery'' ev []) s) of None \<Rightarrow> None | Some s \<Rightarrow> Some (0, s)))"

definition bat_metrics_bcm_flag :: "gauge_answers \<Rightarrow> nat \<Rightarrow> bat_metrics_data \<Rightarrow> (int \<times> bat_metrics_data) option" where
  "bat_metrics_bcm_flag g flag s =
     (if bm_bcm_old s = flag then Some (0, s)
      else let s = s\<lparr>bm_bcm_old := flag\<rparr>;
               both = (\<lambda>ev. case bat_minerva_log g ev (bm_note (MetricsEntry ''battery'' ev []) s) of None \<Rightarrow> None | Some s \<Rightarrow> Some (0, s))
           in if flag = 1 then both ''bcm_flag_charge_timer''
              else if flag = 2 then both ''bcm_flag_secondary_thermal''
              else Some (0, s))"

definition charger_type_text :: "string list" where
  "charger_type_text = [''UNKNOWN'', ''BATTERY'', ''UPS'', ''MAINS'', ''USB'', ''USB_DCP'', ''USB_CDP'', ''USB_ACA'', ''USB_TYPE_C'', ''USB_PD'',
     ''USB_PD_DRP'', ''APPLE_BRICK_ID'', ''WIRELESS'', ''USB_HVDCP'', ''USB_HVDCP_3'', ''USB_HVDCP_3P5'', ''USB_FLOAT'', ''WIRELESS_5W'',
     ''WIRELESS_10W'']"

definition LAST_SUPPLY_TYPE :: nat where "LAST_SUPPLY_TYPE = 18"

definition bat_metrics_chrdet :: "gauge_answers \<Rightarrow> nat \<Rightarrow> bat_metrics_data \<Rightarrow> (int \<times> bat_metrics_data) option" where
  "bat_metrics_chrdet g ty s =
     (if 0 < ty \<and> ty \<le> LAST_SUPPLY_TYPE
      then let ev = ''chg_type_'' @ charger_type_text ! ty
           in (case bat_minerva_log g ev (bm_note (MetricsEntry ''USBCableEvent'' ev []) s) of None \<Rightarrow> None | Some s \<Rightarrow> Some (0, s))
      else Some (0, s))"

definition POWER_SUPPLY_STATUS_CHARGING :: nat where "POWER_SUPPLY_STATUS_CHARGING = 1"

definition bat_metrics_chg_state :: "gauge_answers \<Rightarrow> nat \<Rightarrow> bat_metrics_data \<Rightarrow> (int \<times> bat_metrics_data) option" where
  "bat_metrics_chg_state g sts s =
     (if \<not> bm_ready s then Some (- ENODEV, s)
      else if bm_chg_sts_old s = sts then Some (0, s)
      else let vbat = metrics_get_int_property (ga_voltage g) s; ibat_avg = metrics_get_average_current g s;
               ev = ''POWER_STATUS_'' @ (if sts = POWER_SUPPLY_STATUS_CHARGING then ''CHARGING'' else ''DISCHARGING'');
               s = s\<lparr>bm_chg_sts_old := sts\<rparr>
           in if \<not> bm_gm s then None
              else (case bat_minerva_log g ev (bm_note (MetricsEntry ''battery'' ev [ga_soc g, vbat, ibat_avg]) s) of None \<Rightarrow> None
                    | Some s \<Rightarrow> Some (0, s)))"

text \<open>The end of an empty battery is also recorded as the special mode of the sign of life driver.\<close>

definition bat_metrics_critical_shutdown ::
    "gauge_answers \<Rightarrow> bat_metrics_data \<Rightarrow> 's sol_driver \<Rightarrow> (int \<times> bat_metrics_data \<times> 's sol_driver) option" where
  "bat_metrics_critical_shutdown g s d =
     (case bat_minerva_log g ''critical_shutdown'' (bm_note (MetricsEntry ''battery'' ''critical_shutdown'' []) s) of None \<Rightarrow> None
      | Some s \<Rightarrow> Some (0, s, snd (life_cycle_set_special_mode d LIFE_CYCLE_SMODE_LOW_BATTERY)))"

definition bat_metrics_top_off_mode :: "gauge_answers \<Rightarrow> bool \<Rightarrow> bat_metrics_data \<Rightarrow> (int \<times> bat_metrics_data) option" where
  "bat_metrics_top_off_mode g on s =
     (if \<not> bm_ready s then Some (- ENODEV, s)
      else if bm_top_off s = on then Some (0, s)
      else let vbat = metrics_get_int_property (ga_voltage g) s; s = s\<lparr>bm_top_off := on\<rparr>
           in if \<not> on then Some (0, s)
              else if \<not> bm_gm s then None
              else (case bat_minerva_log g ''Charging_Over_7days''
                       (bm_note (MetricsEntry ''battery'' ''Charging_Over_7days'' [vbat, ga_ui_soc g, ga_soc g, ga_precise g]) s) of
                      None \<Rightarrow> None | Some s \<Rightarrow> Some (0, s)))"

definition bat_metrics_aging :: "int \<Rightarrow> int \<Rightarrow> int \<Rightarrow> bat_metrics_data \<Rightarrow> int \<times> bat_metrics_data" where
  "bat_metrics_aging aging_factor bat_cycle qmax s =
     (if bm_aging_old s = aging_factor \<and> bm_cycle_old s = bat_cycle \<and> bm_qmax_old s = qmax then (0, s)
      else let s = s\<lparr>bm_aging_old := aging_factor, bm_cycle_old := bat_cycle, bm_qmax_old := qmax\<rparr>;
               s = bm_note (MetricsEntry ''battery'' ''aging_factor'' [aging_factor sdiv 100, bat_cycle, qmax sdiv 10]) s
           in (0, bm_note (VitalsEntry ''aging'' [aging_factor sdiv 100, bat_cycle, qmax sdiv 10]) s))"

definition bat_metrics_invalid_charger :: "gauge_answers \<Rightarrow> bat_metrics_data \<Rightarrow> (int \<times> bat_metrics_data) option" where
  "bat_metrics_invalid_charger g s =
     (case bat_minerva_log g ''invalid_charger'' (bm_note (MetricsEntry ''battery'' ''invalid_charger'' []) s) of None \<Rightarrow> None
      | Some s \<Rightarrow> Some (0, s))"

text \<open>Here the Minerva log is the alternative to the metrics log, not an addition.\<close>

definition bat_metrics_dpm_eoc_mode :: "gauge_answers \<Rightarrow> int \<Rightarrow> bat_metrics_data \<Rightarrow> (int \<times> bat_metrics_data) option" where
  "bat_metrics_dpm_eoc_mode g vcharge s =
     (if \<not> bm_gm s then None
      else Some (0, bm_note (MetricsEntry ''battery'' ''dpm_eoc''
                   [metrics_get_int_property (ga_voltage g) s, ga_ui_soc g, ga_soc g, vcharge sdiv 1000]) s))"

section \<open>Drain by the screen\<close>

definition NSEC_PER_MSEC :: int where "NSEC_PER_MSEC = 1000000"

text \<open>
  The elapsed milliseconds: the difference as seconds and nanoseconds, these not negative, put together again.
\<close>

definition elapsed_msec :: "int \<Rightarrow> int" where
  "elapsed_msec d = d div 1000000000 * 1000 + (d mod 1000000000) sdiv NSEC_PER_MSEC"

definition drain_report :: "string \<Rightarrow> int \<Rightarrow> int \<Rightarrow> bat_metrics_data \<Rightarrow> bat_metrics_data" where
  "drain_report ev diff msec s = bm_note (VitalsEntry ev [diff, msec]) (bm_note (MetricsEntry ''drain_metrics'' ev [diff, msec]) s)"

definition bat_metrics_screen_on :: "gauge_answers \<Rightarrow> int \<Rightarrow> bat_metrics_data \<Rightarrow> (int \<times> bat_metrics_data) option" where
  "bat_metrics_screen_on g now s =
     (if \<not> bm_ready s then Some (- ENODEV, s)
      else if \<not> bm_gm s then None
      else let soc = ga_soc g; sc = bm_screen s;
               s = (if screen_on_soc sc = - 1 \<or> screen_off_soc sc = - 1 then s
                    else drain_report ''screen_off_drain'' (s32 (screen_off_soc sc - soc)) (elapsed_msec (now - screen_off_time sc)) s)
           in Some (0, s\<lparr>bm_screen := sc\<lparr>screen_is_on := True, screen_on_time := now, screen_on_soc := soc\<rparr>\<rparr>))"

definition bat_metrics_screen_off :: "gauge_answers \<Rightarrow> int \<Rightarrow> bat_metrics_data \<Rightarrow> (int \<times> bat_metrics_data) option" where
  "bat_metrics_screen_off g now s =
     (if \<not> bm_ready s then Some (- ENODEV, s)
      else if \<not> bm_gm s then None
      else let soc = ga_soc g; sc = bm_screen s;
               s = (if screen_on_soc sc = - 1 \<or> screen_off_soc sc = - 1 then s
                    else drain_report ''screen_on_drain'' (s32 (screen_on_soc sc - soc)) (elapsed_msec (now - screen_on_time sc)) s)
           in Some (0, s\<lparr>bm_screen := sc\<lparr>screen_is_on := False, screen_off_time := now, screen_off_soc := soc\<rparr>\<rparr>))"

datatype fb_blank = FB_BLANK_UNBLANK | FB_BLANK_POWERDOWN | FB_BLANK_OTHER

text \<open>\<open>ev\<close> is \<open>None\<close> for another event, or one without data.\<close>

definition pm_notifier_callback :: "fb_blank option \<Rightarrow> gauge_answers \<Rightarrow> int \<Rightarrow> bat_metrics_data \<Rightarrow> bat_metrics_data option" where
  "pm_notifier_callback ev g now s =
     (case ev of
        Some FB_BLANK_UNBLANK \<Rightarrow> (case bat_metrics_screen_on g now s of None \<Rightarrow> None | Some (_, s) \<Rightarrow> Some s)
      | Some FB_BLANK_POWERDOWN \<Rightarrow> (case bat_metrics_screen_off g now s of None \<Rightarrow> None | Some (_, s) \<Rightarrow> Some s)
      | _ \<Rightarrow> Some s)"

section \<open>Average currents\<close>

definition bat_metrics_suspend :: "gauge_answers \<Rightarrow> int \<Rightarrow> bat_metrics_data \<Rightarrow> int \<times> bat_metrics_data" where
  "bat_metrics_suspend g now s =
     (0, s\<lparr>bm_pm := (bm_pm s)\<lparr>suspend_ts := now, suspend_car := metrics_get_int_property (ga_coulomb g) s\<rparr>\<rparr>)"

definition SUSPEND_RESUME_INTEVAL_MIN :: int where "SUSPEND_RESUME_INTEVAL_MIN = 30"

text \<open>The average current over a sleep is only printed: the result is the one the code prints, \<open>None\<close> for a short sleep.\<close>

definition bat_metrics_resume :: "gauge_answers \<Rightarrow> int \<Rightarrow> bat_metrics_data \<Rightarrow> int option \<times> bat_metrics_data" where
  "bat_metrics_resume g now s =
     (let secs = (now - suspend_ts (bm_pm s)) div 1000000000
      in if secs < SUSPEND_RESUME_INTEVAL_MIN
         then (None, s\<lparr>bm_pm := (bm_pm s)\<lparr>resume_car := - 1, resume_ts := now\<rparr>\<rparr>)
         else let car = metrics_get_int_property (ga_coulomb g) s; diff = s32 (car - suspend_car (bm_pm s))
              in (Some (s32 (s32 (diff * 3600) sdiv secs sdiv 10)), s\<lparr>bm_pm := (bm_pm s)\<lparr>resume_car := car, resume_ts := now\<rparr>\<rparr>))"

text \<open>The work of every ten seconds, with the average current it prints; it divides by the seconds since the last time.\<close>

definition bat_metrics_work :: "gauge_answers \<Rightarrow> int \<Rightarrow> bat_metrics_data \<Rightarrow> (int option \<times> bat_metrics_data) option" where
  "bat_metrics_work g now s =
     (let iavg = bm_iavg s; screen = screen_is_on (bm_screen s); car = metrics_get_int_property (ga_coulomb g) s;
          again = (\<lambda>r. Some (r, s\<lparr>bm_iavg := \<lparr>last_ts = now, pre_car = car, pre_screen = screen\<rparr>, bm_queued := True\<rparr>))
      in if pre_car iavg = - 1 then again None
         else if screen \<noteq> pre_screen iavg then again None
         else let secs = (now - last_ts iavg) div 1000000000; sign = (if car > pre_car iavg then 1 else - 1);
                  diff = s32 (abs (s32 (pre_car iavg - car)))
              in if secs = 0 then None else again (Some (s32 (s32 (sign * diff * 3600) sdiv secs sdiv 10))))"

section \<open>Start and end\<close>

definition bat_metrics_init :: "bool \<Rightarrow> bool \<Rightarrow> bool \<Rightarrow> bat_metrics_data \<Rightarrow> int \<times> bat_metrics_data" where
  "bat_metrics_init gauge battery fb s =
     (let s = s\<lparr>bm_screen := (bm_screen s)\<lparr>screen_on_soc := - 1, screen_off_soc := - 1\<rparr>,
                bm_pm := (bm_pm s)\<lparr>suspend_soc := - 1, resume_soc := - 1, suspend_car := - 1, resume_car := - 1\<rparr>,
                bm_iavg := (bm_iavg s)\<lparr>pre_car := - 1\<rparr>\<rparr>
      in if \<not> gauge then (- ENODEV, s)
         else if \<not> battery then (- ENODEV, s)
         else (0, s\<lparr>bm_gm := True, bm_ready := True, bm_queued := True, bm_client := fb\<rparr>))"

definition bat_metrics_uninit :: "bat_metrics_data \<Rightarrow> bat_metrics_data" where
  "bat_metrics_uninit s = s\<lparr>bm_ready := False, bm_client := False\<rparr>"

section \<open>The drain adds up\<close>

text \<open>The drain that the entries report.\<close>

fun entry_drain :: "metrics_entry \<Rightarrow> int" where
  "entry_drain (MetricsEntry domain ev (d # ds)) = (if domain = ''drain_metrics'' then d else 0)"
| "entry_drain _ = 0"

definition drained :: "bat_metrics_data \<Rightarrow> int" where
  "drained s = sum_list (map entry_drain (bm_log s))"

text \<open>The display goes on and off in turn, each time with a charge level and a time.\<close>

fun screen_run :: "bool \<Rightarrow> (gauge_answers \<times> int) list \<Rightarrow> bat_metrics_data \<Rightarrow> bat_metrics_data option" where
  "screen_run on [] s = Some s"
| "screen_run on ((g, t) # es) s =
     (case pm_notifier_callback (Some (if on then FB_BLANK_UNBLANK else FB_BLANK_POWERDOWN)) g t s of
        None \<Rightarrow> None | Some s \<Rightarrow> screen_run (\<not> on) es s)"

definition charge_level :: "int \<Rightarrow> bool" where
  "charge_level soc \<longleftrightarrow> 0 \<le> soc \<and> soc \<le> 100"

definition tracking :: "bool \<Rightarrow> bat_metrics_data \<Rightarrow> bool" where
  "tracking on s \<longleftrightarrow> bm_ready s \<and> bm_gm s \<and> screen_is_on (bm_screen s) = on \<and> charge_level (screen_on_soc (bm_screen s)) \<and> charge_level (screen_off_soc (bm_screen s))"

definition level_of :: "bat_metrics_data \<Rightarrow> int" where
  "level_of s = (if screen_is_on (bm_screen s) then screen_on_soc (bm_screen s) else screen_off_soc (bm_screen s))"

lemma drained_report [simp]: "drained (drain_report ev d m s) = drained s + d"
  by (simp add: drain_report_def bm_note_def drained_def)

lemma drained_screen [simp]: "drained (s\<lparr>bm_screen := sc\<rparr>) = drained s"
  by (simp add: drained_def)

lemma report_fields [simp]:
  "bm_ready (drain_report ev d m s) = bm_ready s" "bm_gm (drain_report ev d m s) = bm_gm s" "bm_screen (drain_report ev d m s) = bm_screen s"
  by (simp_all add: drain_report_def bm_note_def)

lemma screen_step:
  assumes "tracking (\<not> on) s" "charge_level (ga_soc g)"
  obtains t where "pm_notifier_callback (Some (if on then FB_BLANK_UNBLANK else FB_BLANK_POWERDOWN)) g now s = Some t"
    "tracking on t" "drained t + level_of t = drained s + level_of s" "level_of t = ga_soc g"
proof -
  have lv: "s32 (a - ga_soc g) = a - ga_soc g" if "charge_level a" for a
    using that assms(2) by (intro s32_id) (simp_all add: charge_level_def)
  have "screen_on_soc (bm_screen s) \<noteq> - 1" "screen_off_soc (bm_screen s) \<noteq> - 1" using assms(1) by (auto simp: tracking_def charge_level_def)
  then show ?thesis using assms that
    by (cases on) (simp_all add: pm_notifier_callback_def bat_metrics_screen_on_def bat_metrics_screen_off_def tracking_def level_of_def lv Let_def)
qed

text \<open>After the start, a first on and a first off are enough to track the drain; nothing is reported until then.\<close>

lemma tracking_after_start:
  assumes "bat_metrics_init True True fb s = (r, u)" "charge_level (ga_soc g)" "charge_level (ga_soc h)"
  shows "\<exists>t. screen_run True [(g, m), (h, n)] u = Some t \<and> tracking False t \<and> drained t = drained s \<and> level_of t = ga_soc h"
proof -
  have "ga_soc g \<noteq> - 1" using assms(2) by (auto simp: charge_level_def)
  then show ?thesis using assms
    by (auto simp: bat_metrics_init_def pm_notifier_callback_def bat_metrics_screen_on_def bat_metrics_screen_off_def tracking_def
        level_of_def drained_def Let_def)
qed

text \<open>C32: while the display goes on and off in turn, the drains reported with the screen on and off add up to the
  charge lost.\<close>

theorem reported_drain_adds_up:
  assumes "tracking (\<not> on) s" "\<forall>(g, t) \<in> set es. charge_level (ga_soc g)"
  shows "\<exists>t. screen_run on es s = Some t \<and> drained t - drained s = level_of s - level_of t \<and> (es \<noteq> [] \<longrightarrow> level_of t = ga_soc (fst (last es)))"
  using assms
proof (induction es arbitrary: on s)
  case Nil
  show ?case by simp
next
  case (Cons e es)
  obtain g now where e: "e = (g, now)" by (cases e)
  have "charge_level (ga_soc g)" using Cons.prems(2) by (simp add: e)
  then obtain u where u: "pm_notifier_callback (Some (if on then FB_BLANK_UNBLANK else FB_BLANK_POWERDOWN)) g now s = Some u"
    "tracking on u" "drained u + level_of u = drained s + level_of s" "level_of u = ga_soc g"
    by (rule screen_step [OF Cons.prems(1)])
  have "tracking (\<not> \<not> on) u" "\<forall>(g, t) \<in> set es. charge_level (ga_soc g)" using u(2) Cons.prems(2) by auto
  then obtain t where t: "screen_run (\<not> on) es u = Some t" "drained t - drained u = level_of u - level_of t"
    "es \<noteq> [] \<longrightarrow> level_of t = ga_soc (fst (last es))" using Cons.IH by blast
  have "es = [] \<Longrightarrow> level_of t = ga_soc g" using t(1) u(4) by simp
  then show ?case using t u(1,3) by (cases es) (simp_all add: e)
qed

definition bm_example :: bat_metrics_data where
  "bm_example = \<lparr>bm_top_off = False, bm_ready = True, bm_fault_old = 0, bm_chg_sts_old = 0, bm_bcm_old = 0, bm_aging_old = 0, bm_cycle_old = 0,
     bm_qmax_old = 0, bm_gm = True, bm_iavg = \<lparr>last_ts = 0, pre_car = - 1, pre_screen = False\<rparr>,
     bm_screen = \<lparr>screen_on_time = 0, screen_off_time = 0, screen_on_soc = 80, screen_off_soc = 82, screen_is_on = True\<rparr>,
     bm_pm = \<lparr>suspend_ts = 0, resume_ts = 0, suspend_soc = - 1, resume_soc = - 1, suspend_car = - 1, resume_car = - 1\<rparr>,
     bm_queued = True, bm_client = True, bm_log = []\<rparr>"

definition gauge_at :: "int \<Rightarrow> gauge_answers" where
  "gauge_at soc = \<lparr>ga_soc = soc, ga_ui_soc = soc, ga_temp = 25, ga_vol = 3800, ga_iavg = 0, ga_precise = 250, ga_off = False,
     ga_voltage = Some 3800, ga_coulomb = Some 0, ga_current = Some 0, ga_average = Some 0, ga_hw = Some 2000\<rparr>"

theorem reported_drain_adds_up_witness:
  "\<exists>t. screen_run False [(gauge_at 70, 1000000000), (gauge_at 69, 9000000000), (gauge_at 60, 11000000000)] bm_example = Some t \<and> drained t = 20"
proof -
  obtain t where t: "screen_run False [(gauge_at 70, 1000000000), (gauge_at 69, 9000000000), (gauge_at 60, 11000000000)] bm_example = Some t"
    "drained t - drained bm_example = level_of bm_example - level_of t" "level_of t = 60"
    using reported_drain_adds_up [of False bm_example "[(gauge_at 70, 1000000000), (gauge_at 69, 9000000000), (gauge_at 60, 11000000000)]"]
    by (auto simp: tracking_def bm_example_def charge_level_def gauge_at_def)
  then show ?thesis by (simp add: drained_def bm_example_def level_of_def)
qed

text \<open>Bug: a second event of the same kind, as for a second display, reports the drain since the last change again.\<close>

theorem repeated_unblank_counts_twice:
  assumes "tracking False s" "charge_level (ga_soc g)" "charge_level (ga_soc h)"
    and "pm_notifier_callback (Some FB_BLANK_UNBLANK) g m s = Some t" "pm_notifier_callback (Some FB_BLANK_UNBLANK) h n t = Some u"
  shows "drained u - drained s = (level_of s - ga_soc h) + (level_of s - ga_soc g)"
proof -
  let ?a = "screen_off_soc (bm_screen s)"
  have lv: "s32 (?a - ga_soc g) = ?a - ga_soc g" "s32 (?a - ga_soc h) = ?a - ga_soc h"
    using assms(1-3) by (auto intro!: s32_id simp: tracking_def charge_level_def)
  have soc: "screen_on_soc (bm_screen s) \<noteq> - 1" "?a \<noteq> - 1" "ga_soc g \<noteq> - 1" using assms(1,2) by (auto simp: tracking_def charge_level_def)
  have t: "t = (drain_report ''screen_off_drain'' (?a - ga_soc g) (elapsed_msec (m - screen_off_time (bm_screen s))) s)
      \<lparr>bm_screen := (bm_screen s)\<lparr>screen_is_on := True, screen_on_time := m, screen_on_soc := ga_soc g\<rparr>\<rparr>"
    using assms(1,4) soc lv by (simp add: pm_notifier_callback_def bat_metrics_screen_on_def tracking_def Let_def)
  have "drained u = drained t + (?a - ga_soc h)"
    using assms(1,5) soc lv unfolding t by (auto simp: pm_notifier_callback_def bat_metrics_screen_on_def tracking_def Let_def)
  then show ?thesis using assms(1) by (simp add: t level_of_def tracking_def)
qed

section \<open>The average current\<close>

text \<open>The detour over sign and absolute value is the division of the signed difference.\<close>

lemma work_average:
  assumes "bm_ready s" "ga_coulomb g = Some car" "pre_car (bm_iavg s) \<noteq> - 1" "screen_is_on (bm_screen s) = pre_screen (bm_iavg s)"
    and "\<bar>car - pre_car (bm_iavg s)\<bar> < 500000" "(now - last_ts (bm_iavg s)) div 1000000000 = secs" "0 < secs"
  shows "\<exists>t. bat_metrics_work g now s = Some (Some (s32 ((car - pre_car (bm_iavg s)) * 3600 sdiv secs sdiv 10)), t)"
proof -
  let ?d = "car - pre_car (bm_iavg s)"
  have "s32 (pre_car (bm_iavg s) - car) = - ?d" using assms(5) by (subst s32_id) auto
  moreover have "s32 (abs (- ?d)) = \<bar>?d\<bar>" using assms(5) by (subst s32_id) auto
  moreover have "(if car > pre_car (bm_iavg s) then 1 else - 1) * \<bar>?d\<bar> = ?d" by simp
  moreover have "s32 (?d * 3600) = ?d * 3600" using assms(5) by (simp add: s32_id abs_less_iff)
  ultimately show ?thesis using assms by (simp add: bat_metrics_work_def metrics_get_int_property_def Let_def)
qed

section \<open>What goes wrong\<close>

text \<open>
  Bug: an event before the gauge driver has called the start function (or when a supply is missing) follows a NULL
  pointer: so does the store of \<^verbatim>\<open>bcm_flag\<close> of the charger driver. A fault number outside the table follows a wrong one.
\<close>

theorem events_before_start_fault:
  assumes "\<not> bm_gm s"
  shows "bm_bcm_old s \<noteq> 1 \<Longrightarrow> bat_metrics_bcm_flag g 1 s = None" and "bat_metrics_invalid_charger g s = None"
    and "bat_metrics_critical_shutdown g s d = None" and "0 < ty \<Longrightarrow> bm_fault_old s \<noteq> ty \<Longrightarrow> bat_metrics_chg_fault g ty s = None"
  using assms by (simp_all add: bat_metrics_bcm_flag_def bat_metrics_invalid_charger_def bat_metrics_critical_shutdown_def
      bat_metrics_chg_fault_def bat_minerva_log_def bm_note_def Let_def)

text \<open>Bug: a current that is not known (-1) is logged as -1, not as 0, since the argument is unsigned.\<close>

theorem unknown_current_logged_negative:
  "ty < 5 \<Longrightarrow> MinervaEntry ''adapter'' [power_category ! ty, - 1] \<in> set (bm_log (snd (bat_metrics_adapter_power ty (- 1) s)))"
  by (simp add: bat_metrics_adapter_power_def category_text_def bm_note_def u32w_def s32_def Let_def)

text \<open>Bug: after the end function the work queues itself again.\<close>

theorem work_survives_uninit: "bat_metrics_work g now (bat_metrics_uninit s) = Some (r, t) \<Longrightarrow> bm_queued t"
  by (auto simp: bat_metrics_work_def Let_def split: if_splits)

section \<open>With the sign of life driver\<close>

text \<open>The end of an empty battery is found in the registers: the special mode is the one for a low battery.\<close>

theorem low_battery_recorded:
  assumes "dev_sol_init True c False d0 = Some (n, d)" "rtc_present (sol_platform d0)" "\<not> is_charger_mode d0"
    and "bat_metrics_critical_shutdown g s d = Some (ret, t, d')"
  shows "rtc_stored (sol_platform d') SPECIAL = LIFE_CYCLE_SMODE_LOW_BATTERY"
proof -
  have "d' = snd (life_cycle_set SPECIAL d LIFE_CYCLE_SMODE_LOW_BATTERY)"
    using assms(4) by (simp add: bat_metrics_critical_shutdown_def split: option.splits)
  moreover have "LIFE_CYCLE_SMODE_LOW_BATTERY \<in> lcr_table_reasons SPECIAL" by (simp add: lcr_table_reasons_def rtc_table_defs)
  ultimately have "sol_running d' ((\<lambda>_. LIFE_CYCLE_NOT_AVAILABLE)(SPECIAL := LIFE_CYCLE_SMODE_LOW_BATTERY))"
    using sol_running_set [OF sol_running_init [OF assms(1-3)], of LIFE_CYCLE_SMODE_LOW_BATTERY SPECIAL] by simp
  then show ?thesis by (simp add: sol_running_def)
qed

end
