(* ===== verification/Spec2Isabelle.thy ===== *)
theory Spec2Isabelle
  imports Adf_Cli Adf_State Adf_Log Adf_Load Vs_Gov Ld_Probe Amzn_Keycombo Amazon_Logger Hall_Sensor Idme Acenna Charger_Thermal Charger_Wakeup Bat_Metrics
begin

text \<open>
  A verification development for the drivers Amazon adds to the kernel of the Fire tablets
  (\<^verbatim>\<open>src/platform/kernel/mediatek/mt8169/5.4\<close>, below called K, in the configuration
  \<^verbatim>\<open>raspite_defconfig\<close>). Ten groups of drivers are modelled.

  \<^bold>\<open>The DSP framework\<close> (K/drivers/staging/amazon/dspframework). The host and the DSP share ring buffers
  in memory. \<^verbatim>\<open>Ringbuf\<close> models \<^verbatim>\<open>src/ringbuf.c\<close> (every \<open>adfRingbuf_*\<close> function, with 32-bit wrap-around
  and faults of \<^verbatim>\<open>memcpy\<close>) and proves it against a queue of bytes through the locale \<open>byte_fifo\<close>;
  \<^verbatim>\<open>Adf_Cli\<close> (\<^verbatim>\<open>src/cli.c\<close>), \<^verbatim>\<open>Adf_Log\<close> (\<^verbatim>\<open>src/log.c\<close>) and \<^verbatim>\<open>Adf_State\<close> (\<^verbatim>\<open>src/state.c\<close>) are its users;
  \<^verbatim>\<open>Adf_Load\<close> models the firmware loader \<^verbatim>\<open>src/load.c\<close> with an explicit heap.

  \<^bold>\<open>Sign of life\<close> (K/drivers/staging/amazon/amzn_sign_of_life_*). \<^verbatim>\<open>Sol_Rtc\<close> models the reasons of a
  boot or shutdown kept as bit fields with a parity bit in the RTC's spare registers
  (\<^verbatim>\<open>amzn_sign_of_life_rtc_impl.c\<close>, with the accessors of \<^verbatim>\<open>rtc-mt6397.c\<close>); \<^verbatim>\<open>Sign_Of_Life\<close> the driver
  on top (\<^verbatim>\<open>amzn_sign_of_life_v3.c\<close>), whose platform operations are a locale interpreted by the RTC.

  \<^bold>\<open>Virtual-sensor thermal control\<close> (K/drivers/thermal/virtual_sensor_tablet). \<^verbatim>\<open>List_Sort\<close> models the
  kernel's \<^verbatim>\<open>lib/list_sort.c\<close>; \<^verbatim>\<open>Vs_Interface\<close> the sensors, CPU power limits and device tree parsing
  (\<^verbatim>\<open>virtual_sensor_interface.c\<close>, both CPU configurations); \<^verbatim>\<open>Vs_Coolers\<close> the four cooler drivers
  (\<^verbatim>\<open>virtual_sensor_cooler_*.c\<close>); \<^verbatim>\<open>Vs_Zone\<close> the zones and sensors (\<^verbatim>\<open>virtual_sensor_tablet_thermal.c\<close>,
  \<^verbatim>\<open>virtual_sensor_thermal_sensor.c\<close>); \<^verbatim>\<open>Vs_Gov\<close> the governor (\<^verbatim>\<open>virtual_sensor_gov.c\<close>) with
  \<^verbatim>\<open>thermal_cdev_update\<close> of the thermal core. The locale \<open>cooling_device\<close> is the contract between the
  governor and the coolers.

  \<^bold>\<open>Liquid detection\<close> (K/drivers/usb/typec). \<^verbatim>\<open>Liquid_Port\<close> models what the three drivers share (reports
  through \<^verbatim>\<open>switch_class.c\<close>, Type-C role, charging limit, VBUS work) and the abstract port they refine
  (locale \<open>port_detector\<close>); \<^verbatim>\<open>I2c_Regs\<close> the register access of the two chip drivers; \<^verbatim>\<open>Pubadc\<close> the shared
  converter (\<^verbatim>\<open>pubadc_manage.c\<close>); \<^verbatim>\<open>Amzn_Ld\<close>, \<^verbatim>\<open>Fusb251\<close> and \<^verbatim>\<open>Max20342\<close> the drivers of those names;
  \<^verbatim>\<open>Ld_Probe\<close> the start and shutdown of the two chips' drivers.

  \<^bold>\<open>Key combinations.\<close> \<^verbatim>\<open>Keycombo\<close> models the counting of keys and the works of K/drivers/input/keycombo.c,
  with the timer and the worker of the kernel as steps that interleave with key events; \<^verbatim>\<open>Amzn_Keycombo\<close>
  models K/drivers/staging/amazon/amzn_keycombo.c, which reads the combination from the device tree and
  panics or powers off, recording the reason with the sign of life driver.

  \<^bold>\<open>The logger\<close> (K/drivers/misc/amazon_logger.c). \<^verbatim>\<open>Metrics_Text\<close> models the printing of the records with
  the bounds of \<^verbatim>\<open>vsnprintf\<close>; \<^verbatim>\<open>Amazon_Logger\<close> the writing, reading, creation and removal of the logs. The
  kernel's trace ring buffer is known by its interface, queues of events per CPU (locale \<open>cpu_queues\<close>).

  \<^bold>\<open>The cover.\<close> \<^verbatim>\<open>Hall_Sensor\<close> models the hall sensor driver K/drivers/input/misc/hall/bu520.c, with a sensor,
  its interrupt, handler and work as a transition system.

  \<^bold>\<open>Manufacturing data.\<close> \<^verbatim>\<open>Idme\<close> models K/drivers/misc/idme.c, the files and readers of the fields the boot loader
  leaves in the device tree, on top of \<^verbatim>\<open>Kstrtox\<close>, the number parser K/lib/kstrtox.c and \<^verbatim>\<open>strlcpy\<close>.

  \<^bold>\<open>The accelerator.\<close> \<^verbatim>\<open>Acenna\<close> models the driver of the neural network accelerator, K/drivers/misc/amazon/acenna_kmod.c:
  the table of DMA areas its processes allocate, free, map and synchronise, with the blocks the DMA allocator has
  given out beside it, the registers, and the life of the device from probe to removal.

  \<^bold>\<open>The charger\<close> (K/drivers/power/supply). \<^verbatim>\<open>Charger_Data\<close> has the data of \<^verbatim>\<open>mtk_charger.h\<close>, the chip as the driver commands it
  and the readings of a pass; \<^verbatim>\<open>Charger\<close> models \<^verbatim>\<open>mtk_charger.c\<close> (software JEITA, the checks that stop charging, plugging,
  protections, stores and commands); \<^verbatim>\<open>Basic_Charger\<close> \<^verbatim>\<open>mtk_basic_charger.c\<close> (currents, bad chargers, adapters, fast algorithms)
  and the pass of the charger thread; \<^verbatim>\<open>Charger_Probe\<close> the device tree and the start; \<^verbatim>\<open>Charger_Wakeup\<close> flag, alarm, wake lock
  and suspend of the thread as a step relation; \<^verbatim>\<open>Charger_Thermal\<close> the chip as a thermal zone. The lemmas are in \<^verbatim>\<open>Charger_Limits\<close>
  (what each operation leaves alone, bounds of the currents), \<^verbatim>\<open>Charger_Battery\<close> (JEITA as an automaton with three states,
  the weak input), \<^verbatim>\<open>Charger_Pass\<close> (what a pass decides), \<^verbatim>\<open>Charger_Example\<close> (a pass evaluated) and \<^verbatim>\<open>Charger_Safety\<close>, where the
  locale \<open>gated_machine\<close> and its extension \<open>decided_machine\<close> carry one step over to any sequence of operations.
  \<^verbatim>\<open>Bat_Metrics\<close> models the battery's metrics (\<^verbatim>\<open>battery_metrics.c\<close>): the drain by the screen, average currents, and the end
  of an empty battery, which the sign of life driver records.

  \<^bold>\<open>How the code is rendered.\<close> A C structure is a record, an enum a datatype, a driver's state is passed
  explicitly, and one HOL function stands for one C function; parts of a long function have their own
  definitions, composed as the code composes them. Signed and unsigned arithmetic wraps by the explicit
  functions \<open>s32\<close>, \<open>s64\<close>, \<open>u32w\<close> and \<open>u64w\<close>; registers are words. \<open>None\<close> is a fault (an access outside an
  array or a block, a division by zero, a NULL pointer where the code can meet one); error numbers are
  values. Hardware, the rest of the kernel and allocations are parameters: functions or records that
  give the outcome of each call. Locks are not modelled, since each function runs as one step; where a
  property is about interleaving, the function is split where it reads and where it acts. All functions
  are total by structural recursion or a measure; no fuel is used.

  \<^bold>\<open>What is proved.\<close> Refinement of abstract specifications (the ring buffer is a queue of bytes, the
  three liquid detectors are one abstract port, software JEITA is an automaton with three states, the log is a queue of records per CPU, the areas of the accelerator are a finite map), round trips (stream through the ring buffer, reason
  through the RTC and through a reboot, calibration values through their hexadecimal text), equivalence (list sort is the stable sort, the number parser is the conversion on unbounded numbers), invariants under any
  sequence of operations (charging limits, CPU budget, converter multiplexer), bounds (zone
  temperature, currents of the charger), progress (governor, debounced detection, held keys, the polled charger), termination
  (the steps of the charger thread), safety (an unfit battery is not charged, parity, balanced allocation, failing sensors,
  key combinations that need exactly their keys), and the defects the modelling found, each as a theorem about the code as it is. The section
  below composes components: a critical temperature and a long press of the power key are explained
  after the reboot, and every liquid detector protects the port.

  \<^bold>\<open>Not modelled.\<close> The show functions of sysfs, printing and metric texts, work queue timing, module
  registration, and the removal paths that only undo registrations. Of Amazon's other drivers:
  debug access to the DSP, mdump, dsts, the battery gauge, the pulse algorithm and the wireless charger; of the rest of the repository the upstream kernel,
  the boot loader and the imported libraries, which are third-party code.

  \<^bold>\<open>Plan.\<close> What is left of the program's own logic: the read and poll of the budget's character device, and the removal
  paths.
\<close>

section \<open>Properties that span components\<close>

lemma pcb_reason: "THERMAL_SHUTDOWN_REASON_PCB \<in> lcr_table_reasons THERMAL_SHUTDOWN" "lcr_index THERMAL_SHUTDOWN_REASON_PCB \<noteq> 0"
  "fst (lcr_data ! lcr_index THERMAL_SHUTDOWN_REASON_PCB) = THERMAL_SHUTDOWN_REASON_PCB"
  by (simp_all add: lcr_table_reasons_def rtc_table_defs lcr_index_def search_lcr_table_def lcr_data_def)

text \<open>C25: a thermal shutdown is explained after the reboot. When a zone of the thermal driver passes its
  critical trip point the thermal core is told by a uevent, the life cycle driver (started normally)
  records the reason, the system goes down by a restart, a halt or a power off with the driver's reboot
  notifier recording a reason of its own, and the next start of the life cycle driver, whatever its
  command line, still reports the entry for a thermal shutdown of the board.\<close>

theorem critical_trip_reported_after_reboot:
  assumes "dev_sol_init True c1 False d0 = Some (n1, d1)" "rtc_present (sol_platform d0)" "\<not> is_charger_mode d0"
    "virtual_sensor_thermal_notify z TRIP_CRITICAL d1 = (ret, z', d')"
    "dev_sol_init True c2 ch (reboot_device (life_cycle_reboot_notifier d' code)) = Some (n2, d2)"
  shows "ret = 0 \<and> z_events z' = z_events z @ [UEvent ''SHUTDOWN_WARNING''] \<and>
    (\<exists>ds. p_dev_sol d2 = Some ds \<and> fst (lcr_data ! life_cycle_reason_idx ds) = THERMAL_SHUTDOWN_REASON_PCB)"
proof -
  have d': "ret = 0" "z' = z_event z (UEvent ''SHUTDOWN_WARNING'')"
    "d' = snd (life_cycle_set THERMAL_SHUTDOWN d1 THERMAL_SHUTDOWN_REASON_PCB)"
    using assms(4) by (simp_all add: virtual_sensor_thermal_notify_def Let_def)
  obtain m where m: "sol_running (life_cycle_reboot_notifier d' code) m" "m THERMAL_SHUTDOWN = THERMAL_SHUTDOWN_REASON_PCB"
    using sol_running_notifier [OF sol_running_set [OF sol_running_init [OF assms(1-3)] pcb_reason(1)], of code] d'(3) by auto
  obtain ds where "p_dev_sol d2 = Some ds" "life_cycle_reason_idx ds = lcr_index THERMAL_SHUTDOWN_REASON_PCB"
    using sol_running_reboot [OF m(1) assms(5)] m(2) pcb_reason(2) by auto
  then show ?thesis using d' pcb_reason(3) by (simp add: z_event_def)
qed

theorem critical_trip_reported_after_reboot_witness:
  "\<exists>d1 z' d' d2 ds. dev_sol_init True None False sol_driver_example = Some (0, d1) \<and>
     virtual_sensor_thermal_notify gov_zone TRIP_CRITICAL d1 = (0, z', d') \<and>
     dev_sol_init True None False (reboot_device (life_cycle_reboot_notifier d' SYS_POWER_OFF)) = Some (0, d2) \<and>
     p_dev_sol d2 = Some ds \<and> fst (lcr_data ! life_cycle_reason_idx ds) = THERMAL_SHUTDOWN_REASON_PCB"
proof -
  obtain d1 where d1: "dev_sol_init True None False sol_driver_example = Some (0, d1)"
    using dev_sol_init_no_cmdline [of sol_driver_example] by (auto simp: sol_driver_example_def sol_example_def)
  obtain ret z' d' where n: "virtual_sensor_thermal_notify gov_zone TRIP_CRITICAL d1 = (ret, z', d')" by (rule prod_cases3)
  obtain d2 where d2: "dev_sol_init True None False (reboot_device (life_cycle_reboot_notifier d' SYS_POWER_OFF)) = Some (0, d2)"
    using dev_sol_init_no_cmdline [of "reboot_device (life_cycle_reboot_notifier d' SYS_POWER_OFF)"] by (auto simp: reboot_device_def)
  have "rtc_present (sol_platform sol_driver_example)" "\<not> is_charger_mode sol_driver_example"
    by (simp_all add: sol_driver_example_def sol_example_def)
  from critical_trip_reported_after_reboot [OF d1 this n d2] n d1 d2 show ?thesis by blast
qed

lemma pmic_reason: "THERMAL_SHUTDOWN_REASON_PMIC \<in> lcr_table_reasons THERMAL_SHUTDOWN" "lcr_index THERMAL_SHUTDOWN_REASON_PMIC \<noteq> 0"
  "fst (lcr_data ! lcr_index THERMAL_SHUTDOWN_REASON_PMIC) = THERMAL_SHUTDOWN_REASON_PMIC"
  by (simp_all add: lcr_table_reasons_def rtc_table_defs lcr_index_def search_lcr_table_def lcr_data_def)

text \<open>A charger chip that passes its critical trip point is explained after the reboot in the same way, as an overheated PMIC.\<close>

theorem hot_charger_reported_after_reboot:
  assumes "dev_sol_init True c1 False d0 = Some (n1, d1)" "rtc_present (sol_platform d0)" "\<not> is_charger_mode d0"
    "charger_thermal_notify True TRIP_CRITICAL d1 = (ret, dcap, d')"
    "dev_sol_init True c2 ch (reboot_device (life_cycle_reboot_notifier d' code)) = Some (n2, d2)"
  shows "ret = 0 \<and> dcap \<and> (\<exists>ds. p_dev_sol d2 = Some ds \<and> fst (lcr_data ! life_cycle_reason_idx ds) = THERMAL_SHUTDOWN_REASON_PMIC)"
proof -
  have d': "ret = 0" "dcap" "d' = snd (life_cycle_set THERMAL_SHUTDOWN d1 THERMAL_SHUTDOWN_REASON_PMIC)"
    using assms(4) by (simp_all add: charger_thermal_notify_def)
  obtain m where m: "sol_running (life_cycle_reboot_notifier d' code) m" "m THERMAL_SHUTDOWN = THERMAL_SHUTDOWN_REASON_PMIC"
    using sol_running_notifier [OF sol_running_set [OF sol_running_init [OF assms(1-3)] pmic_reason(1)], of code] d'(3) by auto
  obtain ds where "p_dev_sol d2 = Some ds" "life_cycle_reason_idx ds = lcr_index THERMAL_SHUTDOWN_REASON_PMIC"
    using sol_running_reboot [OF m(1) assms(5)] m(2) pmic_reason(2) by auto
  then show ?thesis using d' pmic_reason(3) by simp
qed

lemma liquid_probe_view:
  "liquid_probe pe pa h = (0, h') \<Longrightarrow> g_liquid h' = Some s \<Longrightarrow> g_liquid h = None \<Longrightarrow> view s = (TYPE_DRY, None, None)"
  by (auto simp: liquid_probe_def liquid_pinctrl_init_def liquid_parse_dt_def liquid_zero_def view_def errno_defs Let_def case_prod_beta split: if_splits)

text \<open>C3: whichever of the three liquid detection drivers serves the port, the protection follows the
  reported state: from its successful probe on, after any sequence of routine works, VBUS works and
  threshold changes, a port reported wet has the sink role and the 10 mA limit and a port reported dry has
  neither, provided the battery driver accepts the limits.\<close>

theorem liquid_drivers_protect_port:
  assumes "liquid_probe pe pa h = (0, h')" "g_liquid h = None" "g_liquid h' = Some s1" "\<forall>e\<in>set es1. lq_good e"
    "fusb251_i2c_probe bus2 ce2 dt2 c2 chip_idle = (0, c2', h2)" "ch_global h2 = Some s2" "\<forall>e\<in>set es2. fu_good e"
    "max20342_i2c_probe bus3 ce3 dt3 c3 gates chip_idle = (0, c3', h3)" "ch_global h3 = Some s3" "\<forall>e\<in>set es3. mx_good e"
  shows "view_ok (view (fold liquid_work es1 s1)) \<and> view_ok (view (fold fusb251_work es2 s2)) \<and> view_ok (view (fold max20342_work es3 s3))"
proof -
  have v: "view_ok (view s1)" "view_ok (view s2)" "view_ok (view s3)"
    using liquid_probe_view [OF assms(1,3,2)] fusb251_probe_result [OF assms(5)] max20342_probe_result [OF assms(8)] assms(6,9)
    by (auto simp: chip_started_def)
  then show ?thesis using lq.run_protected [OF assms(4)] fu.run_protected [OF assms(7)] mx.run_protected [OF assms(10)] by simp
qed

definition probe_example :: probe_env where
  "probe_example = \<lparr>pe_alloc = True, pe_channel = True, pe_tcpc = True, pe_charger = True, pe_pinctrl = True, pe_lookup = (\<lambda>_. True),
     pe_levels = (False, False, False), pe_dt = \<lparr>ldt_work_interval = None, ldt_threshold = None, ldt_gpio_reverse_ctrl = False, ldt_wet_count_threshold = None\<rparr>,
     pe_switch = 0, pe_attr = (\<lambda>_. 0), pe_now = 30\<rparr>"

definition held_example :: liquid_held where
  "held_example = \<lparr>h_memory = False, h_channel = False, h_notifier = False, h_switch = False, h_files = {}, h_queued = False, g_liquid = None\<rparr>"

definition pubadc_example :: pubadc where
  "pubadc_example = \<lparr>init_state = True, last_pubadc_type = PUBADC_BAT_ID, pubadc_mux = PUBADC_BAT_ID\<rparr>"

theorem liquid_drivers_protect_port_witness:
  "\<exists>s1 s2 s3. g_liquid (snd (liquid_probe probe_example pubadc_example held_example)) = Some s1 \<and>
     ch_global (snd (snd (fusb251_i2c_probe (steady_bus 0x80) chip_env_example fu_no_dt () chip_idle))) = Some s2 \<and>
     ch_global (snd (snd (max20342_i2c_probe (steady_bus 0x01) chip_env_example mx_no_dt () (False, False) chip_idle))) = Some s3 \<and>
     view_ok (view (fold liquid_work [LqRoutine lq_env dry_adc, LqVbus lq_env] s1)) \<and>
     view_ok (view (fold fusb251_work [FuRoutine ld_env_example (steady_bus 0xFF), FuVbus ld_env_example] s2)) \<and>
     view_ok (view (fold max20342_work [MxRoutine mx_env (steady_bus 0x40), MxVbus mx_env] s3))"
proof -
  let ?p = "liquid_probe probe_example pubadc_example held_example"
  let ?f = "fusb251_i2c_probe (steady_bus 0x80) chip_env_example fu_no_dt () chip_idle"
  let ?m = "max20342_i2c_probe (steady_bus 0x01) chip_env_example mx_no_dt () (False, False) chip_idle"
  have p: "?p = (0, snd ?p)" and g: "\<exists>s1. g_liquid (snd ?p) = Some s1"
    by (simp_all add: liquid_probe_def probe_example_def held_example_def pubadc_example_def get_pubadc_init_state_def liquid_pinctrl_init_def
        liquid_pin_states_def liquid_create_attr_def liquid_attrs_def)
  have f: "?f = (0, fst (snd ?f), snd (snd ?f))" and m: "?m = (0, fst (snd ?m), snd (snd ?m))"
    by (simp_all add: prod_eq_iff steady_probes)
  obtain s1 s2 s3 where s: "g_liquid (snd ?p) = Some s1" "ch_global (snd (snd ?f)) = Some s2" "ch_global (snd (snd ?m)) = Some s3"
    using g fusb251_probe_result [OF f] max20342_probe_result [OF m] by (auto simp: chip_started_def)
  have "view_ok (view (fold liquid_work [LqRoutine lq_env dry_adc, LqVbus lq_env] s1)) \<and>
     view_ok (view (fold fusb251_work [FuRoutine ld_env_example (steady_bus 0xFF), FuVbus ld_env_example] s2)) \<and>
     view_ok (view (fold max20342_work [MxRoutine mx_env (steady_bus 0x40), MxVbus mx_env] s3))"
    by (rule liquid_drivers_protect_port [OF p _ s(1) _ f s(2) _ m s(3)])
      (simp_all add: held_example_def good_env_def lq_env_def ld_env_example_def mx_env_def)
  with s show ?thesis by blast
qed

lemma power_key: "get_key_from_label ''KEY_POWER'' = 116" "get_func combo_funcs 1 = Some 1" "cf_handler (combo_funcs ! 1) = Do_power_off"
  by (simp_all add: get_key_from_label_def key_labels_def get_func_def combo_funcs_def)

text \<open>C7: a long press of the power key is explained after the reboot. With a device tree that gives the
  power off function to the power key, the device the driver creates makes the key combination driver call
  that function when the key is held for the configured time; the function, with the key still down,
  reboots after recording its reason with the life cycle driver (started normally), and the next start of
  that driver, whatever its command line, reports the long press although the restart records a boot reason
  of its own.\<close>

theorem long_press_reported_after_reboot:
  assumes "amzn_keycombo_probe aenv dt combo_funcs = Some (0, cfg, funcs, evs)" "DeviceAdded pd \<in> set evs"
    "cdt_keys_down dt = Some [Some ''KEY_POWER'']" "cdt_func dt = Some 1" "cdt_delay dt = Some ms" "0 < ms" "ms < 2147483648" "cdt_keys_up dt = None"
    "keycombo_probe kenv (Some pd) = Some (0, Some s0, rs)"
    "dev_sol_init True c1 False d0 = Some (n1, d1)" "rtc_present (sol_platform d0)" "\<not> is_charger_mode d0"
  shows "(\<exists>s. kc_steps s0 [KcEvent EV_KEY 116 1, KcTime (nat (msecs_to_jiffies ms)), KcExpire, KcStart] s \<and> kc_calls s = [KcCall Do_power_off]) \<and>
    (\<exists>out d'. do_power_off True True d1 = Some (out, d') \<and> OrderlyReboot \<in> set out \<and>
      (\<forall>c2 ch n2 d2. dev_sol_init True c2 ch (reboot_device (life_cycle_reboot_notifier d' SYS_RESTART)) = Some (n2, d2) \<longrightarrow>
        (\<exists>ds. p_dev_sol d2 = Some ds \<and> fst (lcr_data ! life_cycle_reason_idx ds) = SHUTDOWN_BY_LONG_PWR_KEY_PRESS)))"
proof -
  obtain names fn i v where n: "cdt_keys_down dt = Some names" "cdt_func dt = Some fn" "get_func combo_funcs fn = Some i" "cdt_delay dt = Some v"
    and e: "pd = \<lparr>kp_key_down_fn = Some (cf_handler (combo_funcs ! i)), kp_key_up_fn = None,
      kp_key_down_delay = s32 v, kp_keys_up = None, kp_keys_down = map (get_key_from_label \<circ> the) names @ [0]\<rparr>"
    by (rule probe_device [OF assms(1,2,8)])
  have "names = [Some ''KEY_POWER'']" "fn = 1" "v = ms" "i = 1" using n assms(3-5) power_key(2) by simp_all
  with e have pd: "kp_key_down_fn pd = Some Do_power_off" "kp_key_down_delay pd = ms" "kp_keys_up pd = None" "kp_keys_down pd = [116, 0]"
    using assms(6,7) power_key by (simp_all add: s32_id)
  note p = probe_state [OF assms(9)]
  have "0 < msecs_to_jiffies ms \<and> msecs_to_jiffies ms < 2147483648" using assms(6,7)
    by (simp add: msecs_to_jiffies_def HZ_def s32_id) presburger
  then have d: "0 < kc_delay s0" "kc_delay s0 \<le> int (nat (msecs_to_jiffies ms))" using p(6) pd(2) by (simp_all add: s32_id)
  have k: "keybit s0 - upbit s0 = {116}" "key_down_target s0 = 1" using p(7-9) pd(3,4) by (simp_all add: combo_up_keys_def KEY_MAX_def)
  have z: "kc_running s0 = None" "kc_wq s0 = []" "\<not> key_is_down s0" "kc_key s0 = {}" using probe_idle [OF assms(9)] by simp_all
  have "\<exists>s. kc_steps s0 [KcEvent EV_KEY 116 1, KcTime (nat (msecs_to_jiffies ms)), KcExpire, KcStart] s \<and> kc_calls s = kc_calls s0 @ [KcCall Do_power_off]"
    by (rule press_completes [OF p(1) z(1-3) d(1) _ _ _ _ d(2)]) (simp_all add: p(4) pd(1) k z(4))
  moreover from do_power_off_running [OF sol_running_init [OF assms(10-12)]] obtain d' where
    "do_power_off True True d1 = Some ([Crashreport, NotifierCall COMBO_FUNC_POWER_OFF, OrderlyReboot], d')"
    "sol_running d' ((\<lambda>_. LIFE_CYCLE_NOT_AVAILABLE)(SHUTDOWN := SHUTDOWN_BY_LONG_PWR_KEY_PRESS))" by blast
  ultimately show ?thesis using power_off_reported [of d'] p(3) by auto
qed

definition combo_dt_example :: combo_dt where
  "combo_dt_example = \<lparr>cdt_keys_down = Some [Some ''KEY_POWER''], cdt_func = Some 1, cdt_delay = Some 6000, cdt_keys_up = None\<rparr>"

definition combo_env_example :: combo_env where
  "combo_env_example = \<lparr>ce_alloc_cfg = True, ce_alloc_data = True, ce_alloc_up = True, ce_pdev = True, ce_add_data = 0, ce_add = 0\<rparr>"

theorem long_press_reported_after_reboot_witness:
  "\<exists>cfg funcs pd s0 rs s d1 out d' d2 ds.
     amzn_keycombo_probe combo_env_example combo_dt_example combo_funcs = Some (0, cfg, funcs, [DeviceAdded pd]) \<and>
     keycombo_probe kc_env (Some pd) = Some (0, Some s0, rs) \<and>
     kc_steps s0 [KcEvent EV_KEY 116 1, KcTime 1500, KcExpire, KcStart] s \<and> kc_calls s = [KcCall Do_power_off] \<and>
     dev_sol_init True None False sol_driver_example = Some (0, d1) \<and> do_power_off True True d1 = Some (out, d') \<and>
     dev_sol_init True None False (reboot_device (life_cycle_reboot_notifier d' SYS_RESTART)) = Some (0, d2) \<and>
     p_dev_sol d2 = Some ds \<and> fst (lcr_data ! life_cycle_reason_idx ds) = SHUTDOWN_BY_LONG_PWR_KEY_PRESS"
proof -
  let ?pd = "\<lparr>kp_key_down_fn = Some Do_power_off, kp_key_up_fn = None, kp_key_down_delay = 6000, kp_keys_up = None, kp_keys_down = [116, 0]\<rparr>"
  obtain cfg funcs where a: "amzn_keycombo_probe combo_env_example combo_dt_example combo_funcs = Some (0, cfg, funcs, [DeviceAdded ?pd])"
    by (simp add: amzn_keycombo_probe_def dt_to_keycombo_data_def combo_env_example_def combo_dt_example_def power_key combo_funcs_def
        get_func_def Let_def s32_def)
  obtain s0 rs where k: "keycombo_probe kc_env (Some ?pd) = Some (0, Some s0, rs)" by (simp add: keycombo_probe_def kc_env_def KEY_MAX_def)
  obtain d1 where d1: "dev_sol_init True None False sol_driver_example = Some (0, d1)"
    using dev_sol_init_no_cmdline [of sol_driver_example] by (auto simp: sol_driver_example_def sol_example_def)
  have t: "DeviceAdded ?pd \<in> set [DeviceAdded ?pd]" "cdt_keys_down combo_dt_example = Some [Some ''KEY_POWER'']" "cdt_func combo_dt_example = Some 1"
    "cdt_delay combo_dt_example = Some 6000" "(0::int) < 6000" "(6000::int) < 2147483648" "cdt_keys_up combo_dt_example = None"
    by (simp_all add: combo_dt_example_def)
  have sol: "rtc_present (sol_platform sol_driver_example)" "\<not> is_charger_mode sol_driver_example" by (simp_all add: sol_driver_example_def sol_example_def)
  have j: "nat (msecs_to_jiffies 6000) = 1500" by (simp add: msecs_to_jiffies_def HZ_def s32_def)
  note main = long_press_reported_after_reboot [OF a t k d1 sol, unfolded j]
  from conjunct2 [OF main] obtain out d' where o: "do_power_off True True d1 = Some (out, d')"
    "\<And>c2 ch n2 d2. dev_sol_init True c2 ch (reboot_device (life_cycle_reboot_notifier d' SYS_RESTART)) = Some (n2, d2) \<Longrightarrow>
      \<exists>ds. p_dev_sol d2 = Some ds \<and> fst (lcr_data ! life_cycle_reason_idx ds) = SHUTDOWN_BY_LONG_PWR_KEY_PRESS" by blast
  obtain d2 where d2: "dev_sol_init True None False (reboot_device (life_cycle_reboot_notifier d' SYS_RESTART)) = Some (0, d2)"
    using dev_sol_init_no_cmdline [of "reboot_device (life_cycle_reboot_notifier d' SYS_RESTART)"] by (auto simp: reboot_device_def)
  from conjunct1 [OF main] a k d1 o(1) d2 o(2) [OF d2] show ?thesis by blast
qed

end
